(* ===== verification/Prelude.thy ===== *)
theory Prelude
  imports Main "HOL-Library.Word" "HOL-Library.Multiset" "HOL-Library.Signed_Division"
begin

unbundle bit_operations_syntax

text \<open>
  What the component theories share: the outcomes of a C operation, C arrays and C strings,
  the machine integers, and the generic lemmas about them.

  A C operation is a value of type \<open>'a c\<close>: \<open>Inr x\<close> when it has a defined result,
  \<open>Inl e\<close> when the C program has no defined behaviour at that point (an access outside an
  allocated object, a null pointer dereference, a read of memory that was never written, a
  signed overflow, a pointer to memory that is not allocated, a
  loop that never ends), with \<open>e\<close> the reason. Errors that the source handles itself (a failed
  \<open>fopen\<close>, a missing header) are values inside \<open>Inr\<close>. \<open>bindE\<close> runs one operation
  after another.

  An array is the list of its elements, an access checks the index against its length.
  A C \<open>int\<close> is an \<open>int\<close> whose overflow is checked where the source adds to it;
  \<open>unsigned\<close> values are words.
\<close>

section \<open>Outcomes\<close>

datatype c_err =
    Out_of_bounds
  | Null_deref
  | Uninit_read
  | Int_overflow
  | Bad_pointer
  | Diverges

type_synonym 'a c = "c_err + 'a"

fun bindE :: "'a c \<Rightarrow> ('a \<Rightarrow> 'b c) \<Rightarrow> 'b c" where
  "bindE (Inl e) f = Inl e"
| "bindE (Inr x) f = f x"

named_theorems c_ops \<open>definitions of the memory operations, for symbolic execution\<close>

lemma bindE_cong [fundef_cong]:
  "m = m' \<Longrightarrow> (\<And>x. m' = Inr x \<Longrightarrow> f x = g x) \<Longrightarrow> bindE m f = bindE m' g"
  by (cases m') auto

lemma bindE_Inr_iff [simp]: "bindE m f = Inr y \<longleftrightarrow> (\<exists>x. m = Inr x \<and> f x = Inr y)"
  by (cases m) auto

lemma Inr_bindE_iff [simp]: "Inr y = bindE m f \<longleftrightarrow> (\<exists>x. m = Inr x \<and> f x = Inr y)"
  by (cases m) auto

lemma bindE_assoc: "bindE (bindE m f) g = bindE m (\<lambda>x. bindE (f x) g)"
  by (cases m) auto

lemma bindE_Inr_right [simp]: "bindE m Inr = m"
  by (cases m) auto

section \<open>Signed integers\<close>

abbreviation int_max :: int where "int_max \<equiv> 2147483647"

abbreviation int_min :: int where "int_min \<equiv> - 2147483648"

definition add_int :: "int \<Rightarrow> int \<Rightarrow> int c" where
  "add_int a b = (if int_min \<le> a + b \<and> a + b \<le> int_max then Inr (a + b) else Inl Int_overflow)"

lemma add_int_ok [simp]:
  "0 \<le> a \<Longrightarrow> 0 \<le> b \<Longrightarrow> a + b \<le> int_max \<Longrightarrow> add_int a b = Inr (a + b)"
  by (simp add: add_int_def)

lemma sdiv_2_nat [simp]: "int n sdiv 2 = int (n div 2)"
  by (cases "n = 0") (simp_all add: signed_divide_int_def zdiv_int)

lemma sdiv_2_pred [simp]: "0 < i \<Longrightarrow> (int i - 1) sdiv 2 = int ((i - 1) div 2)"
  using sdiv_2_nat [of "i - 1"] by (simp add: of_nat_diff)

lemma nat_double_Suc [simp]: "nat (2 * int i + 1) = 2 * i + 1" "nat (2 * int i + 2) = 2 * i + 2"
  by arith+

section \<open>Arrays\<close>

definition rd :: "'a list \<Rightarrow> int \<Rightarrow> 'a c" where
  "rd xs i = (if 0 \<le> i \<and> i < int (length xs) then Inr (xs ! nat i) else Inl Out_of_bounds)"

definition wr :: "'a list \<Rightarrow> int \<Rightarrow> 'a \<Rightarrow> 'a list c" where
  "wr xs i v = (if 0 \<le> i \<and> i < int (length xs) then Inr (xs[nat i := v]) else Inl Out_of_bounds)"

text \<open>An array that \<open>malloc\<close> returned: a cell is \<open>None\<close> until it is written.\<close>

definition rd_cell :: "'a option list \<Rightarrow> int \<Rightarrow> 'a c" where
  "rd_cell xs i =
     bindE (rd xs i) (\<lambda>v. case v of None \<Rightarrow> Inl Uninit_read | Some x \<Rightarrow> Inr x)"

text \<open>\<open>memcpy\<close> of \<open>src\<close> to \<open>dst + off\<close>.\<close>

definition blit :: "'a list \<Rightarrow> int \<Rightarrow> 'a list \<Rightarrow> 'a list c" where
  "blit dst off src =
     (if 0 \<le> off \<and> off + int (length src) \<le> int (length dst)
      then Inr (take (nat off) dst @ src @ drop (nat off + length src) dst)
      else Inl Out_of_bounds)"

lemma rd_int [simp]: "i < length xs \<Longrightarrow> rd xs (int i) = Inr (xs ! i)"
  by (simp add: rd_def)

lemma rd_oob [simp]: "length xs \<le> i \<Longrightarrow> rd xs (int i) = Inl Out_of_bounds"
  by (simp add: rd_def)

lemma wr_int [simp]: "i < length xs \<Longrightarrow> wr xs (int i) v = Inr (xs[i := v])"
  by (simp add: wr_def)

lemma wr_oob [simp]: "length xs \<le> i \<Longrightarrow> wr xs (int i) v = Inl Out_of_bounds"
  by (simp add: wr_def)

lemma rd_InrD: "rd xs i = Inr x \<Longrightarrow> 0 \<le> i \<and> i < int (length xs) \<and> x = xs ! nat i"
  by (auto simp: rd_def split: if_splits)

lemma wr_InrD: "wr xs i v = Inr ys \<Longrightarrow> 0 \<le> i \<and> i < int (length xs) \<and> ys = xs[nat i := v]"
  by (auto simp: wr_def split: if_splits)

lemma rd_cell_InrD:
  "rd_cell xs i = Inr x \<Longrightarrow> 0 \<le> i \<and> i < int (length xs) \<and> xs ! nat i = Some x"
  by (auto simp: rd_cell_def rd_def split: if_splits option.splits)

lemma rd_cell_int [simp]: "i < length xs \<Longrightarrow> xs ! i = Some x \<Longrightarrow> rd_cell xs (int i) = Inr x"
  by (simp add: rd_cell_def)

lemma length_wr [simp]: "wr xs i v = Inr ys \<Longrightarrow> length ys = length xs"
  by (auto dest: wr_InrD)

lemma wr_append: "wr (xs @ y # ys) (int (length xs)) z = Inr (xs @ z # ys)"
  by simp

lemma rd_append: "rd (xs @ y # ys) (int (length xs)) = Inr y"
  by simp

lemma blit_int:
  "i + length src \<le> length dst \<Longrightarrow>
     blit dst (int i) src = Inr (take i dst @ src @ drop (i + length src) dst)"
  by (simp add: blit_def)

lemma length_blit: "blit dst off src = Inr d \<Longrightarrow> length d = length dst"
  by (auto simp: blit_def split: if_splits)

section \<open>C strings\<close>

abbreviation NUL :: char where "NUL \<equiv> CHR 0x00"

text \<open>
  The string at the start of a buffer: what stands before the first \<open>NUL\<close>. A buffer with
  no \<open>NUL\<close> makes the scan run past its end.
\<close>

fun cstr :: "char list \<Rightarrow> char list c" where
  "cstr [] = Inl Out_of_bounds"
| "cstr (x # xs) = (if x = NUL then Inr [] else bindE (cstr xs) (\<lambda>s. Inr (x # s)))"

definition strlen :: "char list \<Rightarrow> int c" where
  "strlen b = bindE (cstr b) (\<lambda>s. Inr (int (length s)))"

text \<open>\<open>strcpy (dst + off, s)\<close> of the string \<open>s\<close>: the characters and the \<open>NUL\<close>.\<close>

definition strcpy :: "char list \<Rightarrow> int \<Rightarrow> char list \<Rightarrow> char list c" where
  "strcpy dst off s = blit dst off (s @ [NUL])"

lemma cstr_append [simp]: "NUL \<notin> set s \<Longrightarrow> cstr (s @ NUL # rest) = Inr s"
  by (induction s) auto

lemma cstr_InrD: "cstr b = Inr s \<Longrightarrow> NUL \<notin> set s \<and> (\<exists>rest. b = s @ NUL # rest)"
  by (induction b arbitrary: s) (auto split: if_splits)

lemma cstr_no_nul: "NUL \<notin> set b \<Longrightarrow> cstr b = Inl Out_of_bounds"
  by (induction b) auto

lemma strlen_append [simp]: "NUL \<notin> set s \<Longrightarrow> strlen (s @ NUL # rest) = Inr (int (length s))"
  by (simp add: strlen_def)

lemma strcpy_ok:
  "i + length s < length dst \<Longrightarrow>
     strcpy dst (int i) s = Inr (take i dst @ s @ NUL # drop (i + length s + 1) dst)"
  using blit_int [of i "s @ [NUL]" dst] by (simp add: strcpy_def add.commute add.left_commute)

text \<open>
  \<open>strcpy (buf, buf + k)\<close>: the string that starts at \<open>k\<close> moves to the front. The C
  standard leaves an overlapping \<open>strcpy\<close> open, the model takes the copy from the lowest
  address upwards that the source relies on.
\<close>

definition strcpy_down :: "char list \<Rightarrow> int \<Rightarrow> char list c" where
  "strcpy_down buf k =
     (if 0 \<le> k \<and> k \<le> int (length buf)
      then bindE (cstr (drop (nat k) buf)) (\<lambda>s. strcpy buf 0 s)
      else Inl Out_of_bounds)"

lemma strcpy_down_ok:
  assumes "NUL \<notin> set v"
  shows "strcpy_down (u @ v @ NUL # rest) (int (length u)) =
    Inr (v @ NUL # drop (length v + 1) (u @ v @ NUL # rest))"
  using strcpy_ok [of 0 v "u @ v @ NUL # rest"] assms by (simp add: strcpy_down_def)

text \<open>The first \<open>n\<close> bytes of a buffer, as \<open>memcpy\<close> and \<open>memcmp\<close> read them.\<close>

definition rd_front :: "'a list \<Rightarrow> int \<Rightarrow> 'a list c" where
  "rd_front b n =
     (if 0 \<le> n \<and> n \<le> int (length b) then Inr (take (nat n) b) else Inl Out_of_bounds)"

lemma rd_front_int [simp]: "n \<le> length b \<Longrightarrow> rd_front b (int n) = Inr (take n b)"
  by (simp add: rd_front_def)

section \<open>Little-endian words\<close>

definition le32 :: "32 word \<Rightarrow> 8 word list" where
  "le32 w = [ucast w, ucast (drop_bit 8 w), ucast (drop_bit 16 w), ucast (drop_bit 24 w)]"

fun of_le32 :: "8 word list \<Rightarrow> 32 word" where
  "of_le32 [a, b, c, d] =
     ucast a OR push_bit 8 (ucast b) OR push_bit 16 (ucast c) OR push_bit 24 (ucast d)"
| "of_le32 _ = 0"

lemma length_le32 [simp]: "length (le32 w) = 4"
  by (simp add: le32_def)

lemma of_le32_le32 [simp]: "of_le32 (le32 w) = w"
proof (rule bit_word_eqI)
  fix n assume "n < LENGTH(32)"
  then consider "n < 8" | "8 \<le> n" "n < 16" | "16 \<le> n" "n < 24" | "24 \<le> n" "n < 32"
    by (simp, linarith)
  then show "bit (of_le32 (le32 w)) n = bit w n"
    by cases (auto simp: le32_def bit_simps)
qed

text \<open>The bytes of a string and back.\<close>

definition bytes_of :: "char list \<Rightarrow> 8 word list" where
  "bytes_of s = map (\<lambda>x. of_nat (of_char x)) s"

definition chars_of :: "8 word list \<Rightarrow> char list" where
  "chars_of bs = map (\<lambda>b. char_of (unat b)) bs"

lemma length_bytes_of [simp]: "length (bytes_of s) = length s"
  by (simp add: bytes_of_def)

lemma of_char_less: "(of_char x :: nat) < 256"
  by (cases x) (simp add: of_char_def)

lemma chars_of_bytes_of [simp]: "chars_of (bytes_of s) = s"
  by (induction s) (simp_all add: chars_of_def bytes_of_def unat_of_nat of_char_less)

section \<open>Decimal numbers\<close>

text \<open>\<open>%u\<close> and \<open>%d\<close> of \<open>printf\<close>.\<close>

fun show_nat :: "nat \<Rightarrow> string" where
  "show_nat n =
     (if n < 10 then [char_of (48 + n)] else show_nat (n div 10) @ [char_of (48 + n mod 10)])"

declare show_nat.simps [simp del]

definition show_int :: "int \<Rightarrow> string" where
  "show_int i = (if i < 0 then CHR ''-'' # show_nat (nat (- i)) else show_nat (nat i))"

lemma show_int_01 [simp]: "show_int 0 = ''0''" "show_int 1 = ''1''"
  by (simp_all add: show_int_def show_nat.simps char_of_def bit_iff_odd)

end
