(* ===== verification/HuffmanHeap.thy ===== *)
theory HuffmanHeap
  imports Prelude
begin

text \<open>
  The binary min-heap of tree nodes in \<open>inc/huffman.h\<close>: the node and heap structures and
  every operation of the heap. The proofs about them are in \<open>HuffmanHeapProofs\<close>.

  A \<open>HF_Node*\<close> is a value of \<open>hf_node\<close>: no node is written after it has been
  linked, so pointers and trees coincide. The heap's array is the memory that \<open>malloc\<close>
  returned, a cell is \<open>None\<close> until it is written.
\<close>

section \<open>Structures\<close>

datatype hf_node =
    Null
  | HF_Node (letter: char) (frequency: int) (left: hf_node) (right: hf_node)

record hf_heap =
  hsize :: int
  capacity :: int
  harray :: "hf_node option list"

definition new_HF_Node :: "char \<Rightarrow> int \<Rightarrow> hf_node" where
  "new_HF_Node l f = HF_Node l f Null Null"

definition new_HF_Heap :: "int \<Rightarrow> hf_heap" where
  "new_HF_Heap cap = \<lparr>hsize = 0, capacity = cap, harray = replicate (nat cap) None\<rparr>"

section \<open>Operations\<close>

text \<open>\<open>p->frequency\<close> and \<open>heap->array[i]->frequency\<close>.\<close>

fun deref_frequency :: "hf_node \<Rightarrow> int c" where
  "deref_frequency Null = Inl Null_deref"
| "deref_frequency (HF_Node l f a b) = Inr f"

definition frequency_at :: "hf_node option list \<Rightarrow> int \<Rightarrow> int c" where
  "frequency_at arr i = bindE (rd_cell arr i) deref_frequency"

definition swap_HF_Nodes :: "hf_node option list \<Rightarrow> int \<Rightarrow> int \<Rightarrow> hf_node option list c" where
  "swap_HF_Nodes arr a b =
     bindE (rd_cell arr a) (\<lambda>temp.
     bindE (rd_cell arr b) (\<lambda>y.
     bindE (wr arr a (Some y)) (\<lambda>arr.
     wr arr b (Some temp))))"

definition smaller_at :: "hf_heap \<Rightarrow> int \<Rightarrow> int \<Rightarrow> bool c" where
  "smaller_at heap i j =
     (if i < hsize heap
      then bindE (frequency_at (harray heap) i) (\<lambda>fi.
           bindE (frequency_at (harray heap) j) (\<lambda>fj. Inr (fi < fj)))
      else Inr False)"

lemma frequency_at_InrD:
  "frequency_at arr i = Inr f \<Longrightarrow>
     0 \<le> i \<and> i < int (length arr) \<and> (\<exists>l a b. arr ! nat i = Some (HF_Node l f a b))"
  by (auto simp: frequency_at_def dest!: rd_cell_InrD elim!: deref_frequency.elims)

lemma smaller_at_TrueD: "smaller_at heap i j = Inr True \<Longrightarrow> 0 \<le> i \<and> i < hsize heap \<and> 0 \<le> j"
  by (auto simp: smaller_at_def split: if_splits dest!: frequency_at_InrD)

function heapify :: "hf_heap \<Rightarrow> int \<Rightarrow> hf_heap c" where
  "heapify heap index =
     (let left_index = 2 * index + 1; right_index = 2 * index + 2 in
      bindE (smaller_at heap left_index index) (\<lambda>l.
      let smallest = (if l then left_index else index) in
      bindE (smaller_at heap right_index smallest) (\<lambda>r.
      let smallest = (if r then right_index else smallest) in
      if smallest \<noteq> index
      then bindE (swap_HF_Nodes (harray heap) smallest index) (\<lambda>arr.
           heapify (heap\<lparr>harray := arr\<rparr>) smallest)
      else Inr heap)))"
  by pat_completeness auto
termination
  by (relation "measure (\<lambda>(heap, index). nat (hsize heap - index))")
    (auto dest!: smaller_at_TrueD split: if_splits)

declare heapify.simps [simp del]

definition is_size_one :: "hf_heap \<Rightarrow> bool" where
  "is_size_one heap \<longleftrightarrow> hsize heap = 1"

definition pop :: "hf_heap \<Rightarrow> (hf_node \<times> hf_heap) c" where
  "pop heap =
     bindE (rd_cell (harray heap) 0) (\<lambda>temp.
     bindE (rd_cell (harray heap) (hsize heap - 1)) (\<lambda>x.
     bindE (wr (harray heap) 0 (Some x)) (\<lambda>arr.
     bindE (heapify (heap\<lparr>harray := arr, hsize := hsize heap - 1\<rparr>) 0) (\<lambda>heap.
     Inr (temp, heap)))))"

lemma sdiv_2_less: "(i::int) \<noteq> 0 \<Longrightarrow> 0 \<le> i \<Longrightarrow> (i - 1) sdiv 2 < i"
  using sdiv_2_pred [of "nat i"] by (cases "0 < i") auto

text \<open>
  The loop of \<open>push\<close>: it returns the place \<open>i\<close> where the new node goes and the array
  with the larger ancestors moved down.
\<close>

function push_loop ::
  "hf_node option list \<Rightarrow> int \<Rightarrow> hf_node \<Rightarrow> (int \<times> hf_node option list) c" where
  "push_loop arr i new_node =
     (if i \<noteq> 0
      then bindE (deref_frequency new_node) (\<lambda>f.
           bindE (frequency_at arr ((i - 1) sdiv 2)) (\<lambda>fp.
           if f < fp
           then bindE (rd_cell arr ((i - 1) sdiv 2)) (\<lambda>p.
                bindE (wr arr i (Some p)) (\<lambda>arr.
                push_loop arr ((i - 1) sdiv 2) new_node))
           else Inr (i, arr)))
      else Inr (i, arr))"
  by pat_completeness auto
termination
  by (relation "measure (\<lambda>(arr, i, v). nat i)")
    (auto dest!: frequency_at_InrD wr_InrD intro: sdiv_2_less)

declare push_loop.simps [simp del]

definition push :: "hf_heap \<Rightarrow> hf_node \<Rightarrow> hf_heap c" where
  "push heap new_node =
     (if hsize heap = capacity heap then Inr heap
      else let heap = heap\<lparr>hsize := hsize heap + 1\<rparr> in
        bindE (push_loop (harray heap) (hsize heap - 1) new_node) (\<lambda>(i, arr).
        bindE (wr arr i (Some new_node)) (\<lambda>arr.
        Inr (heap\<lparr>harray := arr\<rparr>))))"

function build_loop :: "hf_heap \<Rightarrow> int \<Rightarrow> hf_heap c" where
  "build_loop heap i =
     (if 0 \<le> i then bindE (heapify heap i) (\<lambda>heap. build_loop heap (i - 1)) else Inr heap)"
  by pat_completeness auto
termination
  by (relation "measure (\<lambda>(heap, i). nat (i + 1))") auto

declare build_loop.simps [simp del]

definition build_heap :: "hf_heap \<Rightarrow> hf_heap c" where
  "build_heap heap = (let n = hsize heap - 1 in build_loop heap ((n - 1) sdiv 2))"

function fill_loop ::
  "hf_node option list \<Rightarrow> char list \<Rightarrow> int list \<Rightarrow> int \<Rightarrow> int \<Rightarrow> hf_node option list c" where
  "fill_loop arr data frequencies sz i =
     (if i < sz
      then bindE (rd data i) (\<lambda>d.
           bindE (rd frequencies i) (\<lambda>f.
           bindE (wr arr i (Some (new_HF_Node d f))) (\<lambda>arr.
           fill_loop arr data frequencies sz (i + 1))))
      else Inr arr)"
  by pat_completeness auto
termination
  by (relation "measure (\<lambda>(arr, data, frequencies, sz, i). nat (sz - i))") auto

declare fill_loop.simps [simp del]

definition create_HF_Heap :: "char list \<Rightarrow> int list \<Rightarrow> int \<Rightarrow> hf_heap c" where
  "create_HF_Heap data frequencies sz =
     (let heap = new_HF_Heap sz in
      bindE (fill_loop (harray heap) data frequencies sz 0) (\<lambda>arr.
      build_heap (heap\<lparr>harray := arr, hsize := sz\<rparr>)))"

end
