(* ===== verification/HuffmanHeapProofs.thy ===== *)
theory HuffmanHeapProofs
  imports HuffmanHeap
begin

text \<open>
  Correctness of the heap of \<open>inc/huffman.h\<close>. Every operation is shown to compute, without
  an undefined access, a pure function on the list of live nodes (\<open>sift\<close> for
  \<open>heapify\<close>, \<open>bubble\<close> for the loop of \<open>push\<close>); the pure functions keep the heap order and
  the multiset of nodes. The locale \<open>min_queue\<close> is the interface the tree builder uses; its
  interpretation is the heap.
\<close>

section \<open>The pure operations\<close>

definition par :: "nat \<Rightarrow> nat" where
  "par i = (i - 1) div 2"

definition smallest_of :: "hf_node list \<Rightarrow> nat \<Rightarrow> nat" where
  "smallest_of ns i =
     (let l = 2 * i + 1; r = 2 * i + 2;
          s = (if l < length ns \<and> frequency (ns ! l) < frequency (ns ! i) then l else i)
      in if r < length ns \<and> frequency (ns ! r) < frequency (ns ! s) then r else s)"

lemma smallest_of_cases:
  "smallest_of ns i = i \<or>
   (smallest_of ns i < length ns \<and> i < smallest_of ns i \<and> 0 < smallest_of ns i \<and>
    par (smallest_of ns i) = i \<and> frequency (ns ! smallest_of ns i) < frequency (ns ! i))"
proof -
  have "par (2 * i + 1) = i" "par (2 * i + 2) = i" by (simp_all add: par_def)
  then show ?thesis unfolding smallest_of_def Let_def by (simp split del: if_split split: if_split)
qed

lemma smallest_of_le:
  "0 < c \<Longrightarrow> c < length ns \<Longrightarrow> par c = i \<Longrightarrow>
     frequency (ns ! smallest_of ns i) \<le> frequency (ns ! c)"
proof -
  assume c: "0 < c" "c < length ns" "par c = i"
  then have "c = 2 * i + 1 \<or> c = 2 * i + 2"
    by (auto simp: par_def)
  with c(2) show ?thesis
    unfolding smallest_of_def Let_def by (elim disjE) simp_all
qed

text \<open>Exchanging a node with its smaller child, down to a leaf.\<close>

function sift :: "hf_node list \<Rightarrow> nat \<Rightarrow> hf_node list" where
  "sift ns i =
     (if smallest_of ns i \<noteq> i
      then sift (ns[smallest_of ns i := ns ! i, i := ns ! smallest_of ns i]) (smallest_of ns i)
      else ns)"
  by pat_completeness auto
termination
proof (relation "measure (\<lambda>(ns, i). length ns - i)")
  fix ns :: "hf_node list" and i :: nat
  assume "smallest_of ns i \<noteq> i"
  with smallest_of_cases [of ns i] show
    "((ns[smallest_of ns i := ns ! i, i := ns ! smallest_of ns i], smallest_of ns i), ns, i)
      \<in> measure (\<lambda>(ns, i). length ns - i)"
    by auto
qed simp

declare sift.simps [simp del]

function bubble :: "hf_node list \<Rightarrow> nat \<Rightarrow> hf_node \<Rightarrow> hf_node list" where
  "bubble ns i v =
     (if 0 < i \<and> frequency v < frequency (ns ! par i)
      then bubble (ns[i := ns ! par i]) (par i) v
      else ns[i := v])"
  by pat_completeness auto
termination
  by (relation "measure (\<lambda>(ns, i, v). i)") (auto simp: par_def)

declare bubble.simps [simp del]

section \<open>Heap order\<close>

text \<open>Every parent from \<open>k\<close> on is at most its children.\<close>

definition heap_from :: "nat \<Rightarrow> hf_node list \<Rightarrow> bool" where
  "heap_from k ns \<longleftrightarrow>
     (\<forall>c. 0 < c \<longrightarrow> c < length ns \<longrightarrow> k \<le> par c \<longrightarrow> frequency (ns ! par c) \<le> frequency (ns ! c))"

text \<open>The same except below \<open>i\<close>, whose children are at least its parent.\<close>

definition heap_except :: "nat \<Rightarrow> nat \<Rightarrow> hf_node list \<Rightarrow> bool" where
  "heap_except k i ns \<longleftrightarrow>
     (\<forall>c. 0 < c \<longrightarrow> c < length ns \<longrightarrow> k \<le> par c \<longrightarrow> par c \<noteq> i \<longrightarrow>
        frequency (ns ! par c) \<le> frequency (ns ! c)) \<and>
     (\<forall>c. 0 < c \<longrightarrow> c < length ns \<longrightarrow> par c = i \<longrightarrow> 0 < i \<longrightarrow> k \<le> par i \<longrightarrow>
        frequency (ns ! par i) \<le> frequency (ns ! c))"

lemma heap_exceptD:
  assumes "heap_except k i ns" "0 < c" "c < length ns"
  shows "k \<le> par c \<Longrightarrow> par c \<noteq> i \<Longrightarrow> frequency (ns ! par c) \<le> frequency (ns ! c)"
    and "par c = i \<Longrightarrow> 0 < i \<Longrightarrow> k \<le> par i \<Longrightarrow> frequency (ns ! par i) \<le> frequency (ns ! c)"
  using assms unfolding heap_except_def by blast+

lemma par_less: "0 < c \<Longrightarrow> par c < c"
  by (auto simp: par_def)

lemma length_sift [simp]: "length (sift ns i) = length ns"
proof (induction ns i rule: sift.induct)
  case (1 ns i)
  then show ?case
    by (subst sift.simps) auto
qed

lemma mset_sift: "i < length ns \<Longrightarrow> mset (sift ns i) = mset ns"
proof (induction ns i rule: sift.induct)
  case (1 ns i)
  show ?case
  proof (cases "smallest_of ns i = i")
    case True
    then show ?thesis by (subst sift.simps) simp
  next
    case False
    then have "smallest_of ns i < length ns" using smallest_of_cases [of ns i] by auto
    with False 1 show ?thesis
      by (subst sift.simps) (simp add: mset_swap)
  qed
qed

lemma heap_except_swap:
  assumes h: "heap_except k i ns" and s: "smallest_of ns i \<noteq> i" (is "?s \<noteq> i")
  shows "heap_except k ?s (ns[?s := ns ! i, i := ns ! ?s])"
proof -
  let ?f = "\<lambda>j. frequency (ns ! j)"
  let ?ns = "ns[?s := ns ! i, i := ns ! ?s]"
  have sl: "?s < length ns" "i < ?s" "par ?s = i" "?f ?s < ?f i"
    using s smallest_of_cases [of ns i] by auto
  then have il: "i < length ns" by simp
  have nth: "?ns ! j = (if j = i then ns ! ?s else if j = ?s then ns ! i else ns ! j)"
    if "j < length ns" for j
    using that sl il by (auto simp: nth_list_update)
  have 1: "frequency (?ns ! par c) \<le> frequency (?ns ! c)"
    if c: "0 < c" "c < length ns" "k \<le> par c" "par c \<noteq> ?s" for c
  proof -
    have pl: "par c < length ns" using par_less [OF c(1)] c(2) by simp
    have ne: "par c \<noteq> c" using par_less [OF c(1)] by simp
    consider "par c = i" "c = ?s" | "par c = i" "c \<noteq> ?s" | "par c \<noteq> i" "c = i"
      | "par c \<noteq> i" "c \<noteq> i"
      by blast
    then show ?thesis
    proof cases
      case 1
      with sl show ?thesis by (simp add: nth pl c)
    next
      case 2
      with smallest_of_le [OF c(1,2), of i] c ne il show ?thesis by (simp add: nth)
    next
      case 3
      with c sl have "?f (par i) \<le> ?f ?s"
        using heap_exceptD(2) [OF h, of ?s] by simp
      with 3 c show ?thesis by (simp add: nth pl)
    next
      case 4
      with sl have "c \<noteq> ?s" by auto
      moreover have "?f (par c) \<le> ?f c"
        using heap_exceptD(1) [OF h c(1,2)] c 4 by simp
      ultimately show ?thesis using 4 c by (simp add: nth pl)
    qed
  qed
  have 2: "frequency (?ns ! par ?s) \<le> frequency (?ns ! c)"
    if c: "0 < c" "c < length ns" "par c = ?s" "k \<le> par ?s" for c
  proof -
    have "?f ?s \<le> ?f c"
      using heap_exceptD(1) [OF h c(1,2)] c(3,4) sl by simp
    moreover have "c \<noteq> i" "c \<noteq> ?s" using par_less [OF c(1)] c(3) sl(2) by auto
    ultimately show ?thesis using c sl il by (simp add: nth)
  qed
  from 1 2 show ?thesis unfolding heap_except_def by simp
qed

lemma sift_heap_from: "heap_except k i ns \<Longrightarrow> heap_from k (sift ns i)"
proof (induction ns i rule: sift.induct)
  case (1 ns i)
  show ?case
  proof (cases "smallest_of ns i = i")
    case True
    have "frequency (ns ! par c) \<le> frequency (ns ! c)"
      if "0 < c" "c < length ns" "k \<le> par c" for c
      using that 1(2) smallest_of_le [OF that(1,2), of i] True
      by (cases "par c = i") (auto simp: heap_except_def)
    with True show ?thesis by (subst sift.simps) (simp add: heap_from_def)
  next
    case False
    with 1 heap_except_swap [of k i ns] show ?thesis
      by (subst sift.simps) simp
  qed
qed

text \<open>The same for a node that moves up from \<open>i\<close>.\<close>

definition heap_up :: "nat \<Rightarrow> hf_node \<Rightarrow> hf_node list \<Rightarrow> bool" where
  "heap_up i v ns \<longleftrightarrow>
     (\<forall>c. 0 < c \<longrightarrow> c < length ns \<longrightarrow> c \<noteq> i \<longrightarrow>
        frequency (ns[i := v] ! par c) \<le> frequency (ns[i := v] ! c)) \<and>
     (\<forall>c. 0 < c \<longrightarrow> c < length ns \<longrightarrow> par c = i \<longrightarrow> 0 < i \<longrightarrow>
        frequency (ns ! par i) \<le> frequency (ns ! c))"

lemma heap_upD:
  assumes "heap_up i v ns" "0 < c" "c < length ns"
  shows "c \<noteq> i \<Longrightarrow> frequency (ns[i := v] ! par c) \<le> frequency (ns[i := v] ! c)"
    and "par c = i \<Longrightarrow> 0 < i \<Longrightarrow> frequency (ns ! par i) \<le> frequency (ns ! c)"
  using assms unfolding heap_up_def by blast+

lemma length_bubble [simp]: "length (bubble ns i v) = length ns"
proof (induction ns i v rule: bubble.induct)
  case (1 ns i v)
  then show ?case by (subst bubble.simps) auto
qed

lemma mset_bubble: "i < length ns \<Longrightarrow> mset (bubble ns i v) = mset (ns[i := v])"
proof (induction ns i v rule: bubble.induct)
  case (1 ns i v)
  show ?case
  proof (cases "0 < i \<and> frequency v < frequency (ns ! par i)")
    case True
    let ?m = "ns[i := v]"
    have p: "par i < i" using True par_less by simp
    have "ns[i := ns ! par i, par i := v] = ?m[par i := ?m ! i, i := ?m ! par i]"
      using p "1.prems"
      by (intro nth_equalityI) (auto simp: nth_list_update)
    also have "mset \<dots> = mset ?m"
      using p "1.prems" by (subst mset_swap) auto
    finally have "mset (ns[i := ns ! par i, par i := v]) = mset ?m" .
    with "1.IH" [OF True] True p "1.prems" show ?thesis
      by (subst bubble.simps) simp
  next
    case False
    then show ?thesis by (subst bubble.simps) auto
  qed
qed

lemma heap_up_step:
  assumes h: "heap_up i v ns" and i: "i < length ns" "0 < i"
    and f: "frequency v < frequency (ns ! par i)"
  shows "heap_up (par i) v (ns[i := ns ! par i])"
proof -
  let ?p = "par i" and ?f = "\<lambda>j. frequency (ns ! j)"
  have p: "?p < i" using i par_less by simp
  have 1: "frequency (ns[i := ns ! ?p, ?p := v] ! par c) \<le> frequency (ns[i := ns ! ?p, ?p := v] ! c)"
    if c: "0 < c" "c < length ns" "c \<noteq> ?p" for c
  proof -
    have pc: "par c < c" using c par_less by simp
    consider "c = i" | "c \<noteq> i" "par c = ?p" | "c \<noteq> i" "par c = i" | "c \<noteq> i" "par c \<noteq> ?p" "par c \<noteq> i"
      by blast
    then show ?thesis
    proof cases
      case 1
      with i p f show ?thesis by (simp add: nth_list_update)
    next
      case 2
      then have "?f ?p \<le> ?f c" using heap_upD(1) [OF h c(1,2)] p by simp
      with 2 c f i p show ?thesis by (simp add: nth_list_update)
    next
      case 3
      with heap_upD(2) [OF h c(1,2)] i p c pc show ?thesis by (simp add: nth_list_update)
    next
      case 4
      then have "?f (par c) \<le> ?f c" using heap_upD(1) [OF h c(1,2)] by simp
      with 4 c show ?thesis by (simp add: nth_list_update)
    qed
  qed
  have 2: "frequency (ns[i := ns ! ?p] ! par ?p) \<le> frequency (ns[i := ns ! ?p] ! c)"
    if c: "0 < c" "c < length ns" "par c = ?p" "0 < ?p" for c
  proof -
    have pp: "par ?p < ?p" using c par_less by simp
    then have e: "?f (par ?p) \<le> ?f ?p"
      using heap_upD(1) [OF h, of ?p] c p i by simp
    show ?thesis
    proof (cases "c = i")
      case True
      with e pp p i show ?thesis by (simp add: nth_list_update)
    next
      case False
      then have "?f ?p \<le> ?f c" using heap_upD(1) [OF h c(1,2)] c p by simp
      with e False pp p show ?thesis by (simp add: nth_list_update)
    qed
  qed
  from 1 2 show ?thesis unfolding heap_up_def by simp
qed

lemma bubble_heap_from: "heap_up i v ns \<Longrightarrow> i < length ns \<Longrightarrow> heap_from 0 (bubble ns i v)"
proof (induction ns i v rule: bubble.induct)
  case (1 ns i v)
  show ?case
  proof (cases "0 < i \<and> frequency v < frequency (ns ! par i)")
    case True
    then have "par i < i" using par_less by simp
    with True 1 heap_up_step [of i v ns] show ?thesis
      by (subst bubble.simps) simp
  next
    case False
    have "frequency (ns[i := v] ! par c) \<le> frequency (ns[i := v] ! c)"
      if c: "0 < c" "c < length ns" for c
    proof (cases "c = i")
      case True
      then have "par c < c" using c par_less by simp
      with True False c show ?thesis by (simp add: nth_list_update)
    next
      case ne: False
      with heap_upD(1) [OF "1.prems"(1) c] show ?thesis by simp
    qed
    then have "heap_from 0 (ns[i := v])" by (simp add: heap_from_def)
    with False show ?thesis by (subst bubble.simps) (simp only: if_False)
  qed
qed

lemma heap_from_0_min:
  assumes "heap_from 0 ns" "i < length ns"
  shows "frequency (ns ! 0) \<le> frequency (ns ! i)"
  using assms(2)
proof (induction i rule: less_induct)
  case (less i)
  show ?case
  proof (cases "i = 0")
    case False
    then have "par i < i" using par_less by simp
    with less have "frequency (ns ! 0) \<le> frequency (ns ! par i)" by simp
    also have "\<dots> \<le> frequency (ns ! i)"
      using assms(1) less.prems False unfolding heap_from_def by simp
    finally show ?thesis .
  qed simp
qed

section \<open>The operations refine the pure ones\<close>

text \<open>The heap that holds the nodes \<open>ns\<close>, with the cells \<open>rest\<close> behind them.\<close>

definition mk_heap :: "hf_node list \<Rightarrow> hf_node option list \<Rightarrow> hf_heap" where
  "mk_heap ns rest =
     \<lparr>hsize = int (length ns), capacity = int (length ns + length rest),
      harray = map Some ns @ rest\<rparr>"

lemma mk_heap_sel [simp]:
  "hsize (mk_heap ns rest) = int (length ns)"
  "capacity (mk_heap ns rest) = int (length ns + length rest)"
  "harray (mk_heap ns rest) = map Some ns @ rest"
  by (simp_all add: mk_heap_def)

lemma rd_cell_live [simp]: "i < length ns \<Longrightarrow> rd_cell (map Some ns @ rest) (int i) = Inr (ns ! i)"
  by (simp add: nth_append)

lemma deref_frequency_live: "n \<noteq> Null \<Longrightarrow> deref_frequency n = Inr (frequency n)"
  by (cases n) auto

lemma frequency_at_live:
  "Null \<notin> set ns \<Longrightarrow> i < length ns \<Longrightarrow>
     frequency_at (map Some ns @ rest) (int i) = Inr (frequency (ns ! i))"
  unfolding frequency_at_def by (metis bindE.simps(2) deref_frequency_live nth_mem rd_cell_live)

lemma smaller_at_mk:
  "Null \<notin> set ns \<Longrightarrow> (i < length ns \<Longrightarrow> j < length ns) \<Longrightarrow>
     smaller_at (mk_heap ns rest) (int i) (int j) =
       Inr (i < length ns \<and> frequency (ns ! i) < frequency (ns ! j))"
  by (simp add: smaller_at_def frequency_at_live)

lemma swap_live:
  "i < length ns \<Longrightarrow> j < length ns \<Longrightarrow>
     swap_HF_Nodes (map Some ns @ rest) (int i) (int j) =
       Inr (map Some (ns[i := ns ! j, j := ns ! i]) @ rest)"
  by (simp add: swap_HF_Nodes_def list_update_append map_update)

lemma heapify_mk:
  "Null \<notin> set ns \<Longrightarrow> heapify (mk_heap ns rest) (int i) = Inr (mk_heap (sift ns i) rest)"
proof (induction ns i rule: sift.induct)
  case (1 ns i)
  let ?l = "2 * i + 1" and ?r = "2 * i + 2"
  let ?a = "if ?l < length ns \<and> frequency (ns ! ?l) < frequency (ns ! i) then ?l else i"
  let ?s = "smallest_of ns i"
  have idx: "2 * int i + 1 = int ?l" "2 * int i + 2 = int ?r" by simp_all
  have l: "smaller_at (mk_heap ns rest) (2 * int i + 1) (int i) =
      Inr (?l < length ns \<and> frequency (ns ! ?l) < frequency (ns ! i))"
    unfolding idx using "1.prems" by (intro smaller_at_mk) auto
  have r: "smaller_at (mk_heap ns rest) (2 * int i + 2) (int ?a) =
      Inr (?r < length ns \<and> frequency (ns ! ?r) < frequency (ns ! ?a))"
    unfolding idx using "1.prems" by (intro smaller_at_mk) auto
  have a: "(if ?l < length ns \<and> frequency (ns ! ?l) < frequency (ns ! i)
      then 2 * int i + 1 else int i) = int ?a" by simp
  have s: "(if ?r < length ns \<and> frequency (ns ! ?r) < frequency (ns ! ?a)
      then 2 * int i + 2 else int ?a) = int ?s" by (simp add: smallest_of_def Let_def)
  have step: "heapify (mk_heap ns rest) (int i) =
      (if ?s \<noteq> i
       then bindE (swap_HF_Nodes (harray (mk_heap ns rest)) (int ?s) (int i))
              (\<lambda>arr. heapify (mk_heap ns rest\<lparr>harray := arr\<rparr>) (int ?s))
       else Inr (mk_heap ns rest))"
    unfolding heapify.simps [of _ "int i"] Let_def l bindE.simps a r s
    by (simp only: of_nat_eq_iff)
  show ?case
  proof (cases "?s = i")
    case True
    with step show ?thesis by (subst sift.simps) simp
  next
    case False
    let ?ns = "ns[?s := ns ! i, i := ns ! ?s]"
    have sl: "?s < length ns" "i < length ns" using False smallest_of_cases [of ns i] by auto
    have nn: "Null \<notin> set ?ns"
      using "1.prems" sl by (auto dest!: set_update_subset_insert [THEN subsetD] simp: nth_mem)
    have "mk_heap ns rest\<lparr>harray := map Some ?ns @ rest\<rparr> = mk_heap ?ns rest"
      by (simp add: mk_heap_def)
    with False sl step "1.IH" [OF False nn] show ?thesis
      by (subst sift.simps) (simp add: swap_live)
  qed
qed

lemma pop_mk:
  assumes "Null \<notin> set ns" "ns \<noteq> []"
  shows "pop (mk_heap ns rest) =
    Inr (ns ! 0, mk_heap (sift (butlast (ns[0 := last ns])) 0) (Some (last ns) # rest))"
proof -
  let ?m = "ns[0 := last ns]" and ?n = "length ns - 1"
  have n: "int (length ns) - 1 = int ?n" "?n < length ns" "ns ! ?n = last ns"
    using assms(2) by (cases ns; auto simp: last_conv_nth)+
  have m: "?m \<noteq> []" "last ?m = last ns"
    using assms(2) by (auto simp: last_list_update)
  have app: "map Some ?m @ rest = map Some (butlast ?m) @ Some (last ns) # rest"
    using m append_butlast_last_id [of ?m] by (metis append.assoc append_Cons append_Nil map_append list.map)
  have h: "mk_heap ns rest\<lparr>harray := map Some ?m @ rest, hsize := int ?n\<rparr> =
      mk_heap (butlast ?m) (Some (last ns) # rest)"
    using app assms(2) by (cases ns) (simp_all add: mk_heap_def)
  have "set (butlast ?m) \<subseteq> set ns"
    using assms(2) set_update_subset_insert [of ns 0 "last ns"] in_set_butlastD by fastforce
  then have nn: "Null \<notin> set (butlast ?m)" using assms(1) by auto
  have 0: "rd_cell (map Some ns @ rest) 0 = Inr (ns ! 0)"
    "wr (map Some ns @ rest) 0 (Some (last ns)) = Inr (map Some ?m @ rest)"
    using assms(2) rd_cell_live [of 0 ns rest] wr_int [of 0 "map Some ns @ rest"]
    by (auto simp: list_update_append map_update)
  have "pop (mk_heap ns rest) =
      bindE (heapify (mk_heap ns rest\<lparr>harray := map Some ?m @ rest, hsize := int ?n\<rparr>) 0)
        (\<lambda>heap. Inr (ns ! 0, heap))"
    by (simp only: pop_def mk_heap_sel 0 n(1,3) rd_cell_live [OF n(2)] bindE.simps)
  moreover have "heapify (mk_heap (butlast ?m) (Some (last ns) # rest)) 0 =
      Inr (mk_heap (sift (butlast ?m) 0) (Some (last ns) # rest))"
    using heapify_mk [OF nn, of "Some (last ns) # rest" 0] by simp
  ultimately show ?thesis by (simp only: h bindE.simps)
qed

lemma push_loop_mk:
  "Null \<notin> set ns \<Longrightarrow> v \<noteq> Null \<Longrightarrow> i < length ns \<Longrightarrow> length arr = length ns + length rest \<Longrightarrow>
   arr[i := Some v] = map Some (ns[i := v]) @ rest \<Longrightarrow>
   \<exists>j arr'. push_loop arr (int i) v = Inr (int j, arr') \<and> j < length arr' \<and>
     arr'[j := Some v] = map Some (bubble ns i v) @ rest"
proof (induction ns i v arbitrary: arr rule: bubble.induct)
  case (1 ns i v)
  have fv: "deref_frequency v = Inr (frequency v)"
    using "1.prems"(2) by (rule deref_frequency_live)
  show ?case
  proof (cases "0 < i")
    case False
    then have "push_loop arr (int i) v = Inr (int i, arr)" "bubble ns i v = ns[i := v]"
      by (simp_all add: push_loop.simps [of arr 0 v] bubble.simps [of ns 0 v])
    with "1.prems" show ?thesis by auto
  next
    case True
    let ?p = "par i"
    have p: "?p < i" using True par_less by simp
    have "arr ! ?p = arr[i := Some v] ! ?p" using p by simp
    also have "\<dots> = Some (ns ! ?p)"
      using p "1.prems"(3) by (simp add: "1.prems"(5) nth_append)
    finally have cell: "arr ! ?p = Some (ns ! ?p)" .
    have pl: "?p < length arr" "?p < length ns" using p "1.prems" by auto
    have ix: "(int i - 1) sdiv 2 = int ?p" using True by (simp add: par_def)
    have nN: "ns ! ?p \<noteq> Null" using "1.prems"(1) pl(2) by (metis nth_mem)
    have step: "push_loop arr (int i) v =
      (if frequency v < frequency (ns ! ?p)
       then push_loop (arr[i := Some (ns ! ?p)]) (int ?p) v else Inr (int i, arr))"
      using True cell pl "1.prems"(3,4)
      by (subst push_loop.simps) (simp add: fv ix frequency_at_def deref_frequency_live [OF nN])
    show ?thesis
    proof (cases "frequency v < frequency (ns ! ?p)")
      case False
      with step have "push_loop arr (int i) v = Inr (int i, arr)" by simp
      moreover have "bubble ns i v = ns[i := v]" using False by (simp add: bubble.simps [of _ i])
      ultimately show ?thesis using "1.prems" by auto
    next
      case lt: True
      let ?ns = "ns[i := ns ! ?p]" and ?arr = "arr[i := Some (ns ! ?p)]"
      have nn: "Null \<notin> set ?ns"
        using "1.prems"(1) nN set_update_subset_insert [of ns i "ns ! ?p"] by auto
      have eq: "?arr[?p := Some v] = map Some (?ns[?p := v]) @ rest"
      proof -
        have "?arr = arr[i := Some v, i := Some (ns ! ?p)]" by simp
        also have "\<dots> = map Some ?ns @ rest"
          using "1.prems"(3) unfolding "1.prems"(5) by (simp add: list_update_append map_update)
        finally show ?thesis using pl by (simp add: list_update_append map_update)
      qed
      obtain j arr' where "push_loop ?arr (int ?p) v = Inr (int j, arr')" "j < length arr'"
        "arr'[j := Some v] = map Some (bubble ?ns ?p v) @ rest"
        using "1.IH" [OF _ nn "1.prems"(2) _ _ eq] True lt pl "1.prems"(4) by auto
      with step lt True show ?thesis
        by (auto simp: bubble.simps [of ns i])
    qed
  qed
qed

lemma push_mk:
  assumes "Null \<notin> set ns" "v \<noteq> Null"
  shows "push (mk_heap ns (r # rest)) v = Inr (mk_heap (bubble (ns @ [v]) (length ns) v) rest)"
proof -
  have "(map Some ns @ r # rest)[length ns := Some v] = map Some ((ns @ [v])[length ns := v]) @ rest"
    using list_update_length [of "map Some ns" r rest "Some v"] by simp
  then obtain j arr' where j: "push_loop (map Some ns @ r # rest) (int (length ns)) v = Inr (int j, arr')"
    "j < length arr'" "arr'[j := Some v] = map Some (bubble (ns @ [v]) (length ns) v) @ rest"
    using push_loop_mk [of "ns @ [v]" v "length ns" "map Some ns @ r # rest" rest] assms by auto
  show ?thesis
    using j by (simp add: push_def Let_def mk_heap_def)
qed

lemma heap_from_butlast:
  assumes "heap_from 0 ns"
  shows "heap_except 0 0 (butlast (ns[0 := x]))"
proof -
  have "frequency (butlast (ns[0 := x]) ! par c) \<le> frequency (butlast (ns[0 := x]) ! c)"
    if c: "0 < c" "c < length ns - 1" "par c \<noteq> 0" for c
  proof -
    have "par c < c" using c(1) by (rule par_less)
    moreover have "frequency (ns ! par c) \<le> frequency (ns ! c)"
      using assms c unfolding heap_from_def by simp
    ultimately show ?thesis using c by (simp add: nth_butlast)
  qed
  then show ?thesis
    unfolding heap_except_def length_butlast length_list_update by blast
qed

lemma heap_except_from:
  assumes "heap_from (Suc i) ns"
  shows "heap_except i i ns"
proof -
  have "\<not> i \<le> par i" if "0 < i" using par_less [OF that] by simp
  then show ?thesis using assms unfolding heap_from_def heap_except_def by (simp add: Suc_le_eq)
qed

lemma build_loop_mk:
  "Null \<notin> set ns \<Longrightarrow> heap_from (Suc i) ns \<Longrightarrow> i < length ns \<Longrightarrow>
   \<exists>ms. build_loop (mk_heap ns rest) (int i) = Inr (mk_heap ms rest) \<and>
     mset ms = mset ns \<and> heap_from 0 ms"
proof (induction i arbitrary: ns)
  case (0 ns)
  have "heap_except 0 0 ns" using "0.prems"(2) by (rule heap_except_from)
  moreover have "build_loop (mk_heap ns rest) 0 = Inr (mk_heap (sift ns 0) rest)"
    using heapify_mk [OF "0.prems"(1), of rest 0]
    by (simp add: build_loop.simps [of _ 0] build_loop.simps [of _ "-1"])
  ultimately show ?case using "0.prems" by (auto simp: mset_sift sift_heap_from)
next
  case (Suc i ns)
  let ?ms = "sift ns (Suc i)"
  have "heap_except (Suc i) (Suc i) ns"
    using Suc.prems(2) by (rule heap_except_from)
  then have h: "heap_from (Suc i) ?ms" by (rule sift_heap_from)
  have m: "mset ?ms = mset ns" using Suc.prems(3) by (rule mset_sift)
  then have nn: "Null \<notin> set ?ms" using Suc.prems(1) by (metis set_mset_mset)
  have "build_loop (mk_heap ns rest) (int (Suc i)) = build_loop (mk_heap ?ms rest) (int i)"
    by (subst build_loop.simps)
      (simp only: heapify_mk [OF Suc.prems(1)] bindE.simps of_nat_0_le_iff if_True, simp)
  moreover obtain ms where "build_loop (mk_heap ?ms rest) (int i) = Inr (mk_heap ms rest)"
    "mset ms = mset ?ms" "heap_from 0 ms"
    using Suc.IH [OF nn h] Suc.prems(3) by auto
  ultimately show ?case using m by auto
qed

lemma build_heap_mk:
  assumes "Null \<notin> set ns" "ns \<noteq> []"
  shows "\<exists>ms. build_heap (mk_heap ns rest) = Inr (mk_heap ms rest) \<and> mset ms = mset ns \<and> heap_from 0 ms"
proof -
  let ?i = "(length ns - 2) div 2"
  have i: "(int (length ns) - 1 - 1) sdiv 2 = int ?i"
  proof (cases "length ns = 1")
    case True
    then show ?thesis by (simp add: signed_divide_int_def)
  next
    case False
    moreover have "0 < length ns" using assms(2) by simp
    ultimately have "int (length ns) - 1 - 1 = int (length ns - 2)" by linarith
    then show ?thesis by (simp only: sdiv_2_nat)
  qed
  have "\<not> Suc ?i \<le> par c" if "0 < c" "c < length ns" for c
  proof -
    have "c - 1 \<le> length ns - 2" using that by linarith
    then have "par c \<le> ?i" unfolding par_def by (rule div_le_mono)
    then show ?thesis by simp
  qed
  then have "heap_from (Suc ?i) ns" unfolding heap_from_def by blast
  moreover have "?i < length ns" using assms(2) by (cases ns) auto
  moreover have "build_heap (mk_heap ns rest) = build_loop (mk_heap ns rest) (int ?i)"
    by (simp only: build_heap_def Let_def mk_heap_sel i)
  ultimately show ?thesis
    using build_loop_mk [of ns ?i rest] assms(1) by simp
qed

text \<open>The leaves that \<open>create_HF_Heap\<close> allocates.\<close>

abbreviation leaf_of :: "char \<times> int \<Rightarrow> hf_node" where
  "leaf_of p \<equiv> new_HF_Node (fst p) (snd p)"

lemma fill_loop_mk:
  "length data = n \<Longrightarrow> length freqs = n \<Longrightarrow> i \<le> n \<Longrightarrow>
   fill_loop (map (Some \<circ> leaf_of) (take i (zip data freqs)) @ replicate (n - i) None)
     data freqs (int n) (int i) = Inr (map (Some \<circ> leaf_of) (zip data freqs))"
proof (induction "n - i" arbitrary: i)
  case 0
  then show ?case by (subst fill_loop.simps) simp
next
  case (Suc k)
  let ?z = "zip data freqs"
  have i: "i < n" using Suc by simp
  have r: "replicate (n - i) None = None # replicate (n - Suc i) (None :: hf_node option)"
    using i by (metis Suc_diff_Suc replicate_Suc)
  have l: "length (take i ?z) = i" using i Suc.prems by simp
  have w: "wr (map (Some \<circ> leaf_of) (take i ?z) @ replicate (n - i) None) (int i)
      (Some (new_HF_Node (data ! i) (freqs ! i))) =
    Inr (map (Some \<circ> leaf_of) (take (Suc i) ?z) @ replicate (n - Suc i) None)"
    using i Suc.prems l
    by (subst wr_int) (auto simp: r take_Suc_conv_app_nth list_update_append)
  have "fill_loop (map (Some \<circ> leaf_of) (take i ?z) @ replicate (n - i) None) data freqs (int n) (int i)
    = fill_loop (map (Some \<circ> leaf_of) (take (Suc i) ?z) @ replicate (n - Suc i) None)
        data freqs (int n) (int (Suc i))"
    using i Suc.prems w by (subst fill_loop.simps) (simp add: add.commute)
  also have "\<dots> = Inr (map (Some \<circ> leaf_of) ?z)"
    using Suc.hyps(1) [of "Suc i"] Suc.hyps(2) Suc.prems i by simp
  finally show ?case .
qed

lemma create_HF_Heap_mk:
  assumes "length data = n" "length freqs = n" "0 < n"
  shows "\<exists>ns. create_HF_Heap data freqs (int n) = Inr (mk_heap ns []) \<and>
    mset ns = mset (map leaf_of (zip data freqs)) \<and> Null \<notin> set ns \<and> heap_from 0 ns"
proof -
  let ?ns = "map leaf_of (zip data freqs)"
  have f: "fill_loop (replicate n None) data freqs (int n) 0 = Inr (map Some ?ns)"
    using fill_loop_mk [of data n freqs 0] assms by simp
  have nn: "Null \<notin> set ?ns" by (auto simp: new_HF_Node_def)
  have "?ns \<noteq> []" using assms by (cases data; cases freqs) auto
  then obtain ms where "build_heap (mk_heap ?ns []) = Inr (mk_heap ms [])"
    "mset ms = mset ?ns" "heap_from 0 ms"
    using build_heap_mk [OF nn, of "[]"] by blast
  moreover have "(new_HF_Heap (int n))\<lparr>harray := map Some ?ns, hsize := int n\<rparr> = mk_heap ?ns []"
    using assms by (simp add: new_HF_Heap_def mk_heap_def)
  ultimately have "create_HF_Heap data freqs (int n) = Inr (mk_heap ms [])"
    "mset ms = mset ?ns" "heap_from 0 ms"
    using f by (simp_all add: create_HF_Heap_def new_HF_Heap_def)
  moreover have "Null \<notin> set ms"
    using nn \<open>mset ms = mset ?ns\<close> by (metis set_mset_mset)
  ultimately show ?thesis by blast
qed

section \<open>The interface of a bounded minimum queue\<close>

locale min_queue =
  fixes invar :: "'q \<Rightarrow> bool"
    and elems :: "'q \<Rightarrow> 'e multiset"
    and room :: "'q \<Rightarrow> nat"
    and key :: "'e \<Rightarrow> int"
    and valid :: "'e \<Rightarrow> bool"
    and take_min :: "'q \<Rightarrow> ('e \<times> 'q) c"
    and insert_el :: "'q \<Rightarrow> 'e \<Rightarrow> 'q c"
  assumes take_min: "invar q \<Longrightarrow> elems q \<noteq> {#} \<Longrightarrow>
      \<exists>x q'. take_min q = Inr (x, q') \<and> invar q' \<and> elems q = add_mset x (elems q') \<and>
        room q' = Suc (room q) \<and> (\<forall>y \<in># elems q. key x \<le> key y)"
    and insert_el: "invar q \<Longrightarrow> valid x \<Longrightarrow> 0 < room q \<Longrightarrow>
      \<exists>q'. insert_el q x = Inr q' \<and> invar q' \<and> elems q' = add_mset x (elems q) \<and>
        room q = Suc (room q')"
    and elems_valid: "invar q \<Longrightarrow> x \<in># elems q \<Longrightarrow> valid x"
begin

lemma take_two:
  assumes "invar q" "2 \<le> size (elems q)"
  obtains x q1 y q2 where
    "take_min q = Inr (x, q1)" "take_min q1 = Inr (y, q2)" "invar q2" "valid x" "valid y"
    "elems q = add_mset x (add_mset y (elems q2))" "room q2 = room q + 2"
    "key x \<le> key y" "\<forall>z \<in># elems q2. key y \<le> key z"
proof -
  have "elems q \<noteq> {#}" using assms(2) by auto
  then obtain x q1 where x: "take_min q = Inr (x, q1)" "invar q1" "elems q = add_mset x (elems q1)"
    "room q1 = Suc (room q)" "\<forall>z \<in># elems q. key x \<le> key z"
    using take_min [OF assms(1)] by blast
  have "elems q1 \<noteq> {#}" using x(3) assms(2) by auto
  then obtain y q2 where y: "take_min q1 = Inr (y, q2)" "invar q2" "elems q1 = add_mset y (elems q2)"
    "room q2 = Suc (room q1)" "\<forall>z \<in># elems q1. key y \<le> key z"
    using take_min [OF x(2)] by blast
  show ?thesis
    by (rule that [of x q1 y q2])
      (use x y elems_valid [OF assms(1), of x] elems_valid [OF assms(1), of y] in auto)
qed

text \<open>One round of the greedy merge: the two smallest out, one new element in.\<close>

lemma merge_round:
  assumes "invar q" "2 \<le> size (elems q)"
  obtains x q1 y q2 where
    "take_min q = Inr (x, q1)" "take_min q1 = Inr (y, q2)" "valid x" "valid y"
    "elems q = add_mset x (add_mset y (elems q2))"
    "key x \<le> key y" "\<forall>z \<in># elems q2. key y \<le> key z"
    "\<And>t. valid t \<Longrightarrow> \<exists>q'. insert_el q2 t = Inr q' \<and> invar q' \<and> elems q' = add_mset t (elems q2)"
proof -
  obtain x q1 y q2 where q: "take_min q = Inr (x, q1)" "take_min q1 = Inr (y, q2)" "invar q2"
    "valid x" "valid y" "elems q = add_mset x (add_mset y (elems q2))" "room q2 = room q + 2"
    "key x \<le> key y" "\<forall>z \<in># elems q2. key y \<le> key z"
    using take_two [OF assms] .
  show ?thesis
    by (rule that [of x q1 y q2]) (use q insert_el [OF q(3)] in auto)
qed

end

definition heap_inv :: "hf_heap \<Rightarrow> bool" where
  "heap_inv h \<longleftrightarrow> (\<exists>ns rest. h = mk_heap ns rest \<and> Null \<notin> set ns \<and> heap_from 0 ns)"

definition heap_nodes :: "hf_heap \<Rightarrow> hf_node multiset" where
  "heap_nodes h = mset (map the (take (nat (hsize h)) (harray h)))"

definition heap_room :: "hf_heap \<Rightarrow> nat" where
  "heap_room h = nat (capacity h - hsize h)"

lemma heap_nodes_mk [simp]: "heap_nodes (mk_heap ns rest) = mset ns"
proof -
  have "map the (map Some ns) = ns" by (simp add: map_idI)
  then show ?thesis by (simp add: heap_nodes_def)
qed

lemma heap_room_mk [simp]: "heap_room (mk_heap ns rest) = length rest"
  by (simp add: heap_room_def)

lemma heap_inv_mk [simp]: "Null \<notin> set ns \<Longrightarrow> heap_from 0 ns \<Longrightarrow> heap_inv (mk_heap ns rest)"
  by (auto simp: heap_inv_def)

lemma pop_heap:
  assumes "heap_inv q" "heap_nodes q \<noteq> {#}"
  shows "\<exists>x q'. pop q = Inr (x, q') \<and> heap_inv q' \<and> heap_nodes q = add_mset x (heap_nodes q') \<and>
    heap_room q' = Suc (heap_room q) \<and> (\<forall>y \<in># heap_nodes q. frequency x \<le> frequency y)"
proof -
  obtain ns rest where q: "q = mk_heap ns rest" and ns: "Null \<notin> set ns" "heap_from 0 ns" "ns \<noteq> []"
    using assms unfolding heap_inv_def by auto
  let ?b = "butlast (ns[0 := last ns])" and ?m = "ns[0 := last ns]"
  let ?ms = "sift ?b 0"
  have m: "?m \<noteq> []" "last ?m = last ns" using ns(3) by (auto simp: last_list_update)
  have "add_mset (ns ! 0) (mset ?m) = add_mset (last ns) (mset ns)"
    using ns(3) by (cases ns) auto
  moreover have "mset ?m = add_mset (last ns) (mset ?b)"
    using m append_butlast_last_id [OF m(1)] by (metis mset.simps(2) mset_append add_mset_add_single mset_single_iff_right)
  ultimately have b: "mset ns = add_mset (ns ! 0) (mset ?b)" by simp
  have ms: "mset ?ms = mset ?b"
    by (cases ?b) (simp_all add: sift.simps [of "[]"] smallest_of_def mset_sift)
  with b ns(1) have nn: "Null \<notin> set ?ms" by (metis set_mset_mset set_mset_add_mset_insert insertCI)
  have hf: "heap_from 0 ?ms" using heap_from_butlast [OF ns(2)] by (rule sift_heap_from)
  have "\<forall>y \<in># mset ns. frequency (ns ! 0) \<le> frequency y"
    using heap_from_0_min [OF ns(2)] by (auto simp: in_set_conv_nth)
  then have min: "\<forall>y \<in># add_mset (ns ! 0) (mset ?b). frequency (ns ! 0) \<le> frequency y"
    by (simp only: b)
  show ?thesis
    using pop_mk [OF ns(1,3), of rest] b ms nn hf min by (auto simp: q)
qed

lemma push_heap:
  assumes "heap_inv q" "x \<noteq> Null" "0 < heap_room q"
  shows "\<exists>q'. push q x = Inr q' \<and> heap_inv q' \<and> heap_nodes q' = add_mset x (heap_nodes q) \<and>
    heap_room q = Suc (heap_room q')"
proof -
  obtain ns r rest where q: "q = mk_heap ns (r # rest)" and ns: "Null \<notin> set ns" "heap_from 0 ns"
    using assms unfolding heap_inv_def by (auto simp: length_Suc_conv dest!: gr0_implies_Suc)
  let ?ms = "bubble (ns @ [x]) (length ns) x"
  have ms: "mset ?ms = add_mset x (mset ns)" by (simp add: mset_bubble)
  then have nn: "Null \<notin> set ?ms" using ns(1) assms(2)
    by (metis insertE set_mset_add_mset_insert set_mset_mset)
  have "heap_up (length ns) x (ns @ [x])"
    unfolding heap_up_def
  proof (intro conjI allI impI)
    fix c assume c: "0 < c" "c < length (ns @ [x])" "c \<noteq> length ns"
    then have "par c < c" "c < length ns" using par_less by auto
    then show "frequency ((ns @ [x])[length ns := x] ! par c) \<le> frequency ((ns @ [x])[length ns := x] ! c)"
      using ns(2) c(1) by (simp add: heap_from_def nth_append)
  next
    fix c assume c: "0 < c" "c < length (ns @ [x])" "par c = length ns"
    then show "frequency ((ns @ [x]) ! par (length ns)) \<le> frequency ((ns @ [x]) ! c)"
      using par_less [of c] by simp
  qed
  then have "heap_from 0 ?ms" by (rule bubble_heap_from) simp
  with push_mk [OF ns(1) assms(2), of r rest] ms nn show ?thesis by (auto simp: q)
qed

interpretation hf: min_queue heap_inv heap_nodes heap_room frequency "\<lambda>n. n \<noteq> Null" pop push
proof unfold_locales
  show "x \<noteq> Null" if "heap_inv q" "x \<in># heap_nodes q" for q x
    using that by (auto simp: heap_inv_def)
qed (use pop_heap push_heap in auto)

end
