(* ===== verification/HuffmanTree.thy ===== *)
theory HuffmanTree
  imports HuffmanHeapProofs
begin

text \<open>
  The tree functions of \<open>inc/huffman.h\<close>: building the tree from the frequencies, reading the
  codes off it, writing it as a string, rebuilding it from the string, counting the letters of
  a text, and packing eight code characters into a byte and back.
\<close>

unbundle bit_operations_syntax

text \<open>The alphabet, repeated in \<open>handlers.c\<close>, \<open>compress.c\<close> and \<open>decompress.c\<close>.\<close>

definition letters :: "char list" where
  "letters = ''ABCDEFGHIJKLMNOPQRSTUVWXYZabcdefghijklmnopqrstuvwxyz ,.'' @ [CHR 0x0A]"

section \<open>Building the tree\<close>

lemma heapify_cases:
  assumes "heapify h i = Inr h'"
  shows "h' = h \<or> (\<exists>arr s. i < s \<and> s < hsize h \<and> heapify (h\<lparr>harray := arr\<rparr>) s = Inr h')"
proof -
  obtain l r where l: "smaller_at h (2 * i + 1) i = Inr l"
    and r: "smaller_at h (2 * i + 2) (if l then 2 * i + 1 else i) = Inr r"
    and e: "(let s = (if r then 2 * i + 2 else if l then 2 * i + 1 else i) in
       if s \<noteq> i then bindE (swap_HF_Nodes (harray h) s i) (\<lambda>arr. heapify (h\<lparr>harray := arr\<rparr>) s)
       else Inr h) = Inr h'"
    using assms by (subst (asm) heapify.simps) (auto simp: Let_def)
  let ?s = "if r then 2 * i + 2 else if l then 2 * i + 1 else i"
  have "?s \<noteq> i \<Longrightarrow> i < ?s \<and> ?s < hsize h"
    using smaller_at_TrueD [of h "2 * i + 1" i] l r
      smaller_at_TrueD [of h "2 * i + 2" "if l then 2 * i + 1 else i"]
    by (cases r; cases l) auto
  then show ?thesis
    using e unfolding Let_def by (cases "?s = i") auto
qed

lemma heapify_hsize: "heapify h i = Inr h' \<Longrightarrow> hsize h' = hsize h \<and> capacity h' = capacity h"
proof (induction "nat (hsize h - i)" arbitrary: h i rule: less_induct)
  case less
  from heapify_cases [OF less.prems] show ?case
  proof
    assume "\<exists>arr s. i < s \<and> s < hsize h \<and> heapify (h\<lparr>harray := arr\<rparr>) s = Inr h'"
    then obtain arr s where s: "i < s" "s < hsize h" "heapify (h\<lparr>harray := arr\<rparr>) s = Inr h'"
      by blast
    then show ?thesis using less.hyps [OF _ s(3)] by simp
  qed simp
qed

lemma pop_hsize: "pop h = Inr (x, h') \<Longrightarrow> hsize h' = hsize h - 1 \<and> 1 \<le> hsize h"
  by (auto simp: pop_def dest!: heapify_hsize rd_cell_InrD)

lemma push_hsize: "push h x = Inr h' \<Longrightarrow> hsize h' \<le> hsize h + 1"
  by (auto simp: push_def Let_def split: if_splits prod.splits)

function build_tree_loop :: "hf_heap \<Rightarrow> hf_heap c" where
  "build_tree_loop heap =
     (if \<not> is_size_one heap
      then bindE (pop heap) (\<lambda>(left, heap).
           bindE (pop heap) (\<lambda>(right, heap).
           bindE (deref_frequency left) (\<lambda>fl.
           bindE (deref_frequency right) (\<lambda>fr.
           bindE (add_int fl fr) (\<lambda>f.
           bindE (push heap (HF_Node (CHR ''$'') f left right)) (\<lambda>heap.
           build_tree_loop heap))))))
      else Inr heap)"
  by pat_completeness auto
termination
  by (relation "measure (\<lambda>heap. nat (hsize heap))") (auto dest!: pop_hsize push_hsize)

declare build_tree_loop.simps [simp del]

definition build_HF_Tree :: "char list \<Rightarrow> int list \<Rightarrow> int \<Rightarrow> hf_node c" where
  "build_HF_Tree data frequencies sz =
     bindE (create_HF_Heap data frequencies sz) (\<lambda>heap.
     bindE (build_tree_loop heap) (\<lambda>heap.
     rd_cell (harray heap) 0))"

section \<open>Codes\<close>

fun is_leaf :: "hf_node \<Rightarrow> bool c" where
  "is_leaf Null = Inl Null_deref"
| "is_leaf (HF_Node l f a b) = Inr (a = Null \<and> b = Null)"

text \<open>The search loop \<open>for(i = 0; i < 56; i++) if(data[i] == c) break;\<close> from \<open>i\<close> on.\<close>

function find_letter :: "char list \<Rightarrow> char \<Rightarrow> int \<Rightarrow> int c" where
  "find_letter data x i =
     (if i < 56
      then bindE (rd data i) (\<lambda>d. if d = x then Inr i else find_letter data x (i + 1))
      else Inr i)"
  by pat_completeness auto
termination
  by (relation "measure (\<lambda>(data, x, i). nat (56 - i))") auto

declare find_letter.simps [simp del]

text \<open>
  The loop \<open>for(j = 0; j < top; j++) sprintf(code, "%s%d", code, arr[j]);\<close>: each round
  appends the digits to the string in \<open>code\<close>, which has room for \<open>cap\<close> bytes.
\<close>

definition sprintf_append :: "int \<Rightarrow> char list \<Rightarrow> char list \<Rightarrow> char list c" where
  "sprintf_append cap s t =
     (if int (length s) + int (length t) + 1 \<le> cap then Inr (s @ t) else Inl Out_of_bounds)"

function code_loop :: "int \<Rightarrow> char list \<Rightarrow> int option list \<Rightarrow> int \<Rightarrow> int \<Rightarrow> char list c" where
  "code_loop cap code arr tp j =
     (if j < tp
      then bindE (rd_cell arr j) (\<lambda>b.
           bindE (sprintf_append cap code (show_int b)) (\<lambda>code.
           code_loop cap code arr tp (j + 1)))
      else Inr code)"
  by pat_completeness auto
termination
  by (relation "measure (\<lambda>(cap, code, arr, tp, j). nat (tp - j))") auto

declare code_loop.simps [simp del]

text \<open>\<open>get_codes\<close> writes \<open>arr\<close> and \<open>codes\<close>; a code is the string its pointer leads to.\<close>

fun get_codes ::
  "hf_node \<Rightarrow> int option list \<Rightarrow> int \<Rightarrow> char list \<Rightarrow> char list option list
    \<Rightarrow> (int option list \<times> char list option list) c" where
  "get_codes Null arr tp data codes = Inl Null_deref"
| "get_codes (HF_Node l f a b) arr tp data codes =
     bindE (if a \<noteq> Null
            then bindE (wr arr tp (Some 0)) (\<lambda>arr. get_codes a arr (tp + 1) data codes)
            else Inr (arr, codes)) (\<lambda>(arr, codes).
     bindE (if b \<noteq> Null
            then bindE (wr arr tp (Some 1)) (\<lambda>arr. get_codes b arr (tp + 1) data codes)
            else Inr (arr, codes)) (\<lambda>(arr, codes).
     bindE (is_leaf (HF_Node l f a b)) (\<lambda>leaf.
     if leaf
     then bindE (find_letter data l 0) (\<lambda>i.
          bindE (code_loop (tp + 1) [] arr tp 0) (\<lambda>code.
          bindE (wr codes i (Some code)) (\<lambda>codes.
          Inr (arr, codes))))
     else Inr (arr, codes))))"

section \<open>The string form of a tree\<close>

fun HF_tree_to_string :: "hf_node \<Rightarrow> char list \<Rightarrow> int \<Rightarrow> (char list \<times> int) c" where
  "HF_tree_to_string Null str i = Inr (str, i)"
| "HF_tree_to_string (HF_Node l f a b) str i =
     bindE (is_leaf (HF_Node l f a b)) (\<lambda>leaf.
     if leaf
     then bindE (wr str i (CHR ''1'')) (\<lambda>str.
          bindE (wr str (i + 1) l) (\<lambda>str.
          Inr (str, i + 2)))
     else bindE (HF_tree_to_string a str i) (\<lambda>(str, i).
          bindE (HF_tree_to_string b str i) (\<lambda>(str, i).
          bindE (wr str i (CHR ''0'')) (\<lambda>str.
          Inr (str, i + 1)))))"

text \<open>\<open>HuffmanCodes\<close> returns the string and the filled code table.\<close>

definition HuffmanCodes ::
  "char list \<Rightarrow> int list \<Rightarrow> int \<Rightarrow> char list option list \<Rightarrow> (char list \<times> char list option list) c" where
  "HuffmanCodes data frequencies sz codes =
     bindE (build_HF_Tree data frequencies sz) (\<lambda>root.
     bindE (get_codes root (replicate 256 None) 0 data codes) (\<lambda>(arr, codes).
     bindE (HF_tree_to_string root (replicate 256 NUL) 0) (\<lambda>(str_rep, i).
     Inr (str_rep, codes))))"

section \<open>Counting letters\<close>

function zero_loop :: "int list \<Rightarrow> int \<Rightarrow> int list c" where
  "zero_loop frequencies i =
     (if i < 56 then bindE (wr frequencies i 0) (\<lambda>frequencies. zero_loop frequencies (i + 1))
      else Inr frequencies)"
  by pat_completeness auto
termination
  by (relation "measure (\<lambda>(frequencies, i). nat (56 - i))") auto

function freq_loop :: "char list \<Rightarrow> char list \<Rightarrow> int list \<Rightarrow> int \<Rightarrow> int list c" where
  "freq_loop txt data frequencies index =
     bindE (rd txt index) (\<lambda>current_letter.
     if current_letter \<noteq> NUL
     then bindE (find_letter data current_letter 0) (\<lambda>freq_index.
          bindE (rd frequencies freq_index) (\<lambda>f.
          bindE (add_int f 1) (\<lambda>f.
          bindE (wr frequencies freq_index f) (\<lambda>frequencies.
          freq_loop txt data frequencies (index + 1)))))
     else Inr frequencies)"
  by pat_completeness auto
termination
  by (relation "measure (\<lambda>(txt, data, frequencies, index). nat (int (length txt) - index))")
    (auto dest!: rd_InrD)

declare zero_loop.simps [simp del]
declare freq_loop.simps [simp del]

definition prepare_frequencies :: "char list \<Rightarrow> char list \<Rightarrow> int list \<Rightarrow> int list c" where
  "prepare_frequencies txt data frequencies =
     bindE (zero_loop frequencies 0) (\<lambda>frequencies. freq_loop txt data frequencies 0)"

section \<open>Rebuilding the tree\<close>

function rebuild_loop :: "char list \<Rightarrow> hf_node list \<Rightarrow> int \<Rightarrow> int \<Rightarrow> hf_node list c" where
  "rebuild_loop str_rep node_stack sp si =
     bindE (rd str_rep si) (\<lambda>x.
     if x \<noteq> NUL
     then if x = CHR ''1''
       then bindE (rd str_rep (si + 1)) (\<lambda>l.
            bindE (wr node_stack sp (HF_Node l 0 Null Null)) (\<lambda>node_stack.
            rebuild_loop str_rep node_stack (sp + 1) (si + 2)))
       else bindE (rd node_stack (sp - 1)) (\<lambda>right.
            bindE (rd node_stack (sp - 2)) (\<lambda>left.
            bindE (wr node_stack (sp - 2) (HF_Node (CHR ''$'') 0 left right)) (\<lambda>node_stack.
            rebuild_loop str_rep node_stack (sp - 1) (si + 1))))
     else Inr node_stack)"
  by pat_completeness auto
termination
  by (relation "measure (\<lambda>(str_rep, node_stack, sp, si). nat (int (length str_rep) - si))")
    (auto dest!: rd_InrD)

declare rebuild_loop.simps [simp del]

definition rebuild_tree :: "char list \<Rightarrow> hf_node c" where
  "rebuild_tree str_rep =
     bindE (rebuild_loop str_rep (replicate 112 Null) 0 0) (\<lambda>node_stack. rd node_stack 0)"

section \<open>Bytes\<close>

function str_to_byte_loop :: "char list \<Rightarrow> 8 word \<Rightarrow> int \<Rightarrow> 8 word c" where
  "str_to_byte_loop str res i =
     (if i < 8
      then let res = res * 2 in
        bindE (rd str i) (\<lambda>x. str_to_byte_loop str (if x = CHR ''1'' then res + 1 else res) (i + 1))
      else Inr res)"
  by pat_completeness auto
termination
  by (relation "measure (\<lambda>(str, res, i). nat (8 - i))") auto

declare str_to_byte_loop.simps [simp del]

definition str_to_byte :: "char list \<Rightarrow> 8 word c" where
  "str_to_byte str = str_to_byte_loop str 0 0"

text \<open>The loop counter of \<open>byte_to_str\<close> is an \<open>unsigned char\<close> that runs from 0 to 7.\<close>

function byte_to_str_loop :: "8 word \<Rightarrow> char list \<Rightarrow> int \<Rightarrow> char list c" where
  "byte_to_str_loop b res i =
     (if i < 8
      then bindE (wr res (7 - i) (if b AND push_bit (nat i) 1 \<noteq> 0 then CHR ''1'' else CHR ''0'')) (\<lambda>res.
           byte_to_str_loop b res (i + 1))
      else Inr res)"
  by pat_completeness auto
termination
  by (relation "measure (\<lambda>(b, res, i). nat (8 - i))") auto

declare byte_to_str_loop.simps [simp del]

definition byte_to_str :: "8 word \<Rightarrow> char list c" where
  "byte_to_str b = byte_to_str_loop b (replicate 9 NUL) 0"

end
