(* ===== verification/HuffmanTreeProofs.thy ===== *)
theory HuffmanTreeProofs
  imports HuffmanTree "HOL-Library.Sublist"
begin

text \<open>
  Correctness of the tree functions of \<open>inc/huffman.h\<close>: building is total and keeps the
  letters and their weights, the code table is the table of the paths to the leaves, the string
  form of a tree parses back to it, letters are counted as the text has them, and eight code
  characters survive the trip through a byte.
\<close>

section \<open>Trees\<close>

text \<open>Every inner node has two children.\<close>

fun proper :: "hf_node \<Rightarrow> bool" where
  "proper Null = False"
| "proper (HF_Node l f a b) = (a = Null \<and> b = Null \<or> proper a \<and> proper b)"

fun leaves :: "hf_node \<Rightarrow> (char \<times> int) list" where
  "leaves Null = []"
| "leaves (HF_Node l f a b) = (if a = Null \<and> b = Null then [(l, f)] else leaves a @ leaves b)"

text \<open>Every node carries the sum of the frequencies of its leaves.\<close>

fun weighted :: "hf_node \<Rightarrow> bool" where
  "weighted Null = True"
| "weighted (HF_Node l f a b) =
     (f = sum_list (map snd (leaves (HF_Node l f a b))) \<and> weighted a \<and> weighted b)"

definition good_tree :: "hf_node \<Rightarrow> bool" where
  "good_tree t \<longleftrightarrow> proper t \<and> weighted t \<and> 0 \<le> frequency t"

lemma proper_not_Null [simp]: "proper t \<Longrightarrow> t \<noteq> Null"
  by auto

lemma proper_induct [consumes 1, case_names leaf node]:
  assumes "proper t"
    and "\<And>l f. P (HF_Node l f Null Null)"
    and "\<And>l f a b. proper a \<Longrightarrow> proper b \<Longrightarrow> P a \<Longrightarrow> P b \<Longrightarrow> P (HF_Node l f a b)"
  shows "P t"
  using assms(1) by (induction t) (auto intro: assms(2,3))

lemma leaves_nonempty: "proper t \<Longrightarrow> leaves t \<noteq> []"
  by (induction t rule: proper_induct) auto

lemma weighted_frequency: "t \<noteq> Null \<Longrightarrow> weighted t \<Longrightarrow> frequency t = sum_list (map snd (leaves t))"
  by (cases t) auto

lemma good_tree_leaf: "0 \<le> f \<Longrightarrow> good_tree (new_HF_Node l f)"
  by (simp add: good_tree_def new_HF_Node_def)

lemma good_tree_node:
  "good_tree a \<Longrightarrow> good_tree b \<Longrightarrow> good_tree (HF_Node l (frequency a + frequency b) a b)"
  by (auto simp: good_tree_def weighted_frequency)

lemma good_tree_deref: "good_tree t \<Longrightarrow> deref_frequency t = Inr (frequency t)"
  by (cases t) (auto simp: good_tree_def)

section \<open>Building\<close>

definition total_weight :: "hf_node multiset \<Rightarrow> int" where
  "total_weight T = (\<Sum>t \<in># T. frequency t)"

definition all_leaves :: "hf_node multiset \<Rightarrow> (char \<times> int) multiset" where
  "all_leaves T = (\<Sum>t \<in># T. mset (leaves t))"

lemma total_weight_simps [simp]:
  "total_weight {#} = 0" "total_weight (add_mset t T) = frequency t + total_weight T"
  by (simp_all add: total_weight_def)

lemma all_leaves_simps [simp]:
  "all_leaves {#} = {#}" "all_leaves (add_mset t T) = mset (leaves t) + all_leaves T"
  by (simp_all add: all_leaves_def)

text \<open>
  What it costs to merge weights two by two, always the two least ones, when a merge costs the sum; and
  what the inner nodes of a tree weigh together.
\<close>

inductive greedy :: "int multiset \<Rightarrow> int \<Rightarrow> bool" where
  one: "greedy {#w#} 0"
| merge: "a \<le> b \<Longrightarrow> \<forall>w \<in># W. b \<le> w \<Longrightarrow> greedy (add_mset (a + b) W) c \<Longrightarrow>
    greedy (add_mset a (add_mset b W)) (a + b + c)"

fun path_cost :: "hf_node \<Rightarrow> int" where
  "path_cost Null = 0"
| "path_cost (HF_Node l f a b) = (if a = Null \<and> b = Null then 0 else f + path_cost a + path_cost b)"

definition frequencies_of :: "hf_node multiset \<Rightarrow> int multiset" where
  "frequencies_of T = image_mset frequency T"

definition forest_cost :: "hf_node multiset \<Rightarrow> int" where
  "forest_cost T = (\<Sum>t \<in># T. path_cost t)"

lemma forest_simps [simp]:
  "frequencies_of {#} = {#}" "frequencies_of (add_mset t T) = add_mset (frequency t) (frequencies_of T)"
  "forest_cost {#} = 0" "forest_cost (add_mset t T) = path_cost t + forest_cost T"
  by (simp_all add: frequencies_of_def forest_cost_def)

lemma total_weight_nonneg: "\<forall>t \<in># T. good_tree t \<Longrightarrow> 0 \<le> total_weight T"
  by (induction T) (auto simp: good_tree_def)

lemma is_size_one_heap: "heap_inv h \<Longrightarrow> is_size_one h \<longleftrightarrow> size (heap_nodes h) = 1"
  by (auto simp: heap_inv_def is_size_one_def)

lemma build_tree_loop_ok:
  "heap_inv h \<Longrightarrow> heap_nodes h \<noteq> {#} \<Longrightarrow> \<forall>t \<in># heap_nodes h. good_tree t \<Longrightarrow>
   total_weight (heap_nodes h) \<le> int_max \<Longrightarrow>
   \<exists>h' t. build_tree_loop h = Inr h' \<and> heap_inv h' \<and> heap_nodes h' = {#t#} \<and> good_tree t \<and>
     mset (leaves t) = all_leaves (heap_nodes h) \<and>
     greedy (frequencies_of (heap_nodes h)) (path_cost t - forest_cost (heap_nodes h))"
proof (induction "size (heap_nodes h)" arbitrary: h rule: less_induct)
  case less
  show ?case
  proof (cases "is_size_one h")
    case True
    then obtain t where t: "heap_nodes h = {#t#}"
      using is_size_one_heap [OF less.prems(1)] by (metis size_1_singleton_mset)
    with True less.prems show ?thesis by (subst build_tree_loop.simps) (auto intro: greedy.one)
  next
    case False
    then have "2 \<le> size (heap_nodes h)"
      using is_size_one_heap [OF less.prems(1)] less.prems(2)
      by (metis One_nat_def Suc_1 Suc_leI nat_less_le size_eq_0_iff_empty neq0_conv)
    from hf.merge_round [OF less.prems(1) this] obtain x h1 y h2 where
      p: "pop h = Inr (x, h1)" "pop h1 = Inr (y, h2)"
      and nodes: "heap_nodes h = add_mset x (add_mset y (heap_nodes h2))"
      and least: "frequency x \<le> frequency y" "\<forall>z \<in># heap_nodes h2. frequency y \<le> frequency z"
      and ins: "\<And>t. t \<noteq> Null \<Longrightarrow>
        \<exists>q. push h2 t = Inr q \<and> heap_inv q \<and> heap_nodes q = add_mset t (heap_nodes h2)"
      by metis
    have g: "good_tree x" "good_tree y" "\<forall>t \<in># heap_nodes h2. good_tree t"
      using less.prems(3) nodes by auto
    let ?t = "HF_Node (CHR ''$'') (frequency x + frequency y) x y"
    have t: "good_tree ?t" using g by (blast intro: good_tree_node)
    have f: "add_int (frequency x) (frequency y) = Inr (frequency x + frequency y)"
      using g less.prems(4) nodes total_weight_nonneg [OF g(3)]
      by (intro add_int_ok) (auto simp: good_tree_def)
    obtain q where q: "push h2 ?t = Inr q" "heap_inv q" "heap_nodes q = add_mset ?t (heap_nodes h2)"
      using ins [of ?t] by auto
    have step: "build_tree_loop h = build_tree_loop q"
      using False by (subst build_tree_loop.simps) (simp add: p f q g good_tree_deref)
    obtain h' r where r: "build_tree_loop q = Inr h'" "heap_inv h'" "heap_nodes h' = {#r#}"
      "good_tree r" "mset (leaves r) = all_leaves (heap_nodes q)"
      "greedy (frequencies_of (heap_nodes q)) (path_cost r - forest_cost (heap_nodes q))"
      using less.hyps [of q] less.prems(4) q nodes g t by (auto simp: algebra_simps)
    have "all_leaves (heap_nodes q) = all_leaves (heap_nodes h)"
      using g nodes q(3) by (auto simp: good_tree_def)
    moreover have "x \<noteq> Null" "y \<noteq> Null" using g by (auto simp: good_tree_def)
    moreover have "\<forall>w \<in># frequencies_of (heap_nodes h2). frequency y \<le> w"
      using least(2) by (auto simp: frequencies_of_def)
    ultimately show ?thesis
      using r greedy.merge [OF least(1), of "frequencies_of (heap_nodes h2)"
          "path_cost r - (frequency x + frequency y + path_cost x + path_cost y + forest_cost (heap_nodes h2))"]
      by (simp add: step nodes q(3) algebra_simps)
  qed
qed

lemma all_leaves_new: "all_leaves (mset (map leaf_of ps)) = mset ps"
  by (induction ps) (auto simp: new_HF_Node_def)

lemma total_weight_new: "total_weight (mset (map leaf_of ps)) = sum_list (map snd ps)"
  by (induction ps) (auto simp: new_HF_Node_def)

lemma forest_new:
  "frequencies_of (mset (map leaf_of ps)) = mset (map snd ps)" "forest_cost (mset (map leaf_of ps)) = 0"
  by (induction ps) (auto simp: new_HF_Node_def)

lemma build_HF_Tree_ok:
  assumes "length data = n" "length freqs = n" "0 < n"
    and "\<forall>f \<in> set freqs. 0 \<le> f" "sum_list freqs \<le> int_max"
  shows "\<exists>t. build_HF_Tree data freqs (int n) = Inr t \<and> good_tree t \<and>
    mset (leaves t) = mset (zip data freqs) \<and> greedy (mset freqs) (path_cost t)"
proof -
  let ?ps = "zip data freqs"
  obtain ns where ns: "create_HF_Heap data freqs (int n) = Inr (mk_heap ns [])"
    "mset ns = mset (map leaf_of ?ps)" "Null \<notin> set ns" "heap_from 0 ns"
    using create_HF_Heap_mk [OF assms(1-3)] by blast
  have "?ps \<noteq> []" using assms by (cases data; cases freqs) auto
  then have ne: "heap_nodes (mk_heap ns []) \<noteq> {#}" using ns(2) by auto
  have good: "\<forall>t \<in># heap_nodes (mk_heap ns []). good_tree t"
    using assms(4) by (auto simp: ns(2) intro!: good_tree_leaf dest: set_zip_rightD)
  have w: "total_weight (heap_nodes (mk_heap ns [])) = sum_list freqs"
    using assms(1,2) by (simp only: heap_nodes_mk ns(2) total_weight_new) simp
  obtain h t where h: "build_tree_loop (mk_heap ns []) = Inr h" "heap_inv h" "heap_nodes h = {#t#}"
    "good_tree t" "mset (leaves t) = all_leaves (heap_nodes (mk_heap ns []))"
    "greedy (frequencies_of (heap_nodes (mk_heap ns []))) (path_cost t - forest_cost (heap_nodes (mk_heap ns [])))"
    using build_tree_loop_ok [of "mk_heap ns []"] ns(3,4) ne good w assms(5) by auto
  obtain ms rest where ms: "h = mk_heap ms rest" "mset ms = {#t#}"
    using h(2,3) by (auto simp: heap_inv_def)
  then have "ms = [t]" by (metis mset_single_iff)
  then have "rd_cell (harray h) 0 = Inr t" using rd_cell_live [of 0 ms rest] ms(1) by simp
  moreover have "mset (leaves t) = mset ?ps"
    using h(5) by (simp only: heap_nodes_mk ns(2) all_leaves_new)
  moreover have "greedy (mset freqs) (path_cost t)"
    using h(6) assms(1,2) by (simp only: heap_nodes_mk ns(2) forest_new) simp
  ultimately show ?thesis using h ns(1) by (auto simp: build_HF_Tree_def)
qed

section \<open>Codes\<close>

text \<open>The letters with the paths to their leaves, below a node reached by the path \<open>p\<close>.\<close>

fun codes_of :: "hf_node \<Rightarrow> string \<Rightarrow> (char \<times> string) list" where
  "codes_of Null p = []"
| "codes_of (HF_Node l f a b) p =
     (if a = Null \<and> b = Null then [(l, p)] else codes_of a (p @ ''0'') @ codes_of b (p @ ''1''))"

fun height :: "hf_node \<Rightarrow> nat" where
  "height Null = 0"
| "height (HF_Node l f a b) = (if a = Null \<and> b = Null then 0 else Suc (max (height a) (height b)))"

lemma fst_codes_of: "map fst (codes_of t p) = map fst (leaves t)"
  by (induction t arbitrary: p) auto

lemma height_less_leaves: "proper t \<Longrightarrow> height t < length (leaves t)"
  by (induction t rule: proper_induct) auto

lemma codes_of_prefix: "(l, w) \<in> set (codes_of t p) \<Longrightarrow> prefix p w"
  by (induction t arbitrary: p) (auto split: if_splits dest: append_prefixD)

lemma codes_of_length: "(l, w) \<in> set (codes_of t p) \<Longrightarrow> length w \<le> length p + height t"
  by (induction t arbitrary: p) (fastforce split: if_splits)+

lemma codes_of_bits: "(l, w) \<in> set (codes_of t p) \<Longrightarrow> set w \<subseteq> set p \<union> set ''01''"
  by (induction t arbitrary: p) (fastforce split: if_splits)+

lemma prefix_snoc_clash: "prefix (p @ [x]) w \<Longrightarrow> prefix (p @ [y]) v \<Longrightarrow> prefix w v \<Longrightarrow> x = y"
  by (auto simp: prefix_def)

text \<open>No code is a prefix of another one.\<close>

lemma codes_of_prefix_free:
  "(l, w) \<in> set (codes_of t p) \<Longrightarrow> (m, v) \<in> set (codes_of t p) \<Longrightarrow> prefix w v \<Longrightarrow> (l, w) = (m, v)"
proof (induction t arbitrary: p)
  case (HF_Node x f a b)
  show ?case
  proof (cases "a = Null \<and> b = Null")
    case False
    let ?A = "set (codes_of a (p @ ''0''))" and ?B = "set (codes_of b (p @ ''1''))"
    have "\<not> ((l, w) \<in> ?A \<and> (m, v) \<in> ?B)" "\<not> ((l, w) \<in> ?B \<and> (m, v) \<in> ?A)"
      using HF_Node.prems(3) prefix_snoc_clash [of p _ w _ v] by (auto dest!: codes_of_prefix)
    then show ?thesis
      using False HF_Node.prems HF_Node.IH(1) [of "p @ ''0''"] HF_Node.IH(2) [of "p @ ''1''"] by auto
  qed (use HF_Node in auto)
qed simp

section \<open>The loops of \<open>get_codes\<close>\<close>

definition index_of :: "char list \<Rightarrow> char \<Rightarrow> nat" where
  "index_of data x = length (takeWhile (\<lambda>d. d \<noteq> x) data)"

lemma index_of_Nil [simp]: "index_of [] x = 0"
  by (simp add: index_of_def)

lemma index_of_Cons [simp]:
  "index_of (d # data) x = (if d = x then 0 else Suc (index_of data x))"
  by (simp add: index_of_def)

lemma index_of_less [simp]: "index_of data x < length data \<longleftrightarrow> x \<in> set data"
  by (induction data) auto

lemma index_of_notin: "x \<notin> set data \<Longrightarrow> index_of data x = length data"
  by (induction data) auto

lemma nth_index_of [simp]: "x \<in> set data \<Longrightarrow> data ! index_of data x = x"
  by (induction data) auto

lemma index_of_nth: "distinct data \<Longrightarrow> i < length data \<Longrightarrow> index_of data (data ! i) = i"
  using nth_eq_iff_index_eq [of data "index_of data (data ! i)" i] by simp

lemma index_of_inj: "x \<in> set data \<Longrightarrow> index_of data x = index_of data y \<Longrightarrow> x = y"
  by (metis index_of_less nth_index_of)

lemma find_letter_from:
  "length data = 56 \<Longrightarrow> i \<le> 56 \<Longrightarrow>
   find_letter data x (int i) = Inr (int (i + index_of (drop i data) x))"
proof (induction "56 - i" arbitrary: i)
  case 0
  then show ?case by (subst find_letter.simps) (simp add: index_of_def)
next
  case (Suc k)
  then have i: "i < length data" "drop i data = data ! i # drop (Suc i) data"
    by (simp_all add: Cons_nth_drop_Suc)
  with Suc.hyps(1) [of "Suc i"] Suc.hyps(2) Suc.prems show ?case
    by (subst find_letter.simps) (auto simp: index_of_def add.commute)
qed

lemma find_letter_0: "length data = 56 \<Longrightarrow> find_letter data x 0 = Inr (int (index_of data x))"
  using find_letter_from [of data 0 x] by simp

definition bit_val :: "char \<Rightarrow> int" where
  "bit_val x = (if x = CHR ''1'' then 1 else 0)"

lemma bit_val_01 [simp]: "bit_val (CHR ''0'') = 0" "bit_val (CHR ''1'') = 1"
  by (simp_all add: bit_val_def)

text \<open>The cells of \<open>arr\<close> that hold a path.\<close>

definition path_cells :: "string \<Rightarrow> int option list" where
  "path_cells p = map (\<lambda>x. Some (bit_val x)) p"

lemma path_cells_simps [simp]:
  "path_cells [] = []" "path_cells (p @ [x]) = path_cells p @ [Some (bit_val x)]"
  "length (path_cells p) = length p"
  by (simp_all add: path_cells_def)

lemma show_bit_val: "x \<in> set ''01'' \<Longrightarrow> show_int (bit_val x) = [x]"
  by (auto simp: bit_val_def)

lemma code_loop_ok:
  "length p = n \<Longrightarrow> set p \<subseteq> set ''01'' \<Longrightarrow> take n arr = path_cells p \<Longrightarrow> j \<le> n \<Longrightarrow>
   code_loop (int n + 1) (take j p) arr (int n) (int j) = Inr p"
proof (induction "n - j" arbitrary: j)
  case 0
  then show ?case by (subst code_loop.simps) simp
next
  case (Suc k)
  then have j: "j < n" by simp
  have "length (take n arr) = n" using Suc.prems by simp
  then have len: "n \<le> length arr" by simp
  have "arr ! j = take n arr ! j" using j by simp
  also have "\<dots> = Some (bit_val (p ! j))" using j Suc.prems by (simp add: path_cells_def)
  finally have b: "rd_cell arr (int j) = Inr (bit_val (p ! j))" using j len by simp
  have s: "show_int (bit_val (p ! j)) = [p ! j]"
    using j Suc.prems nth_mem [of j p] by (intro show_bit_val) blast
  have t: "take j p @ [p ! j] = take (Suc j) p" using j Suc.prems by (simp add: take_Suc_conv_app_nth)
  show ?case
    using Suc.hyps(1) [of "Suc j"] Suc.hyps(2) Suc.prems j b
    by (subst code_loop.simps) (simp add: s t sprintf_append_def add.commute)
qed

section \<open>The code table\<close>

definition store_codes ::
  "char list \<Rightarrow> (char \<times> string) list \<Rightarrow> char list option list \<Rightarrow> char list option list" where
  "store_codes data ps codes =
     foldl (\<lambda>codes (l, w). codes[index_of data l := Some w]) codes ps"

lemma length_store_codes [simp]: "length (store_codes data ps codes) = length codes"
  by (induction ps arbitrary: codes) (auto simp: store_codes_def)

lemma store_codes_append:
  "store_codes data (ps @ qs) codes = store_codes data qs (store_codes data ps codes)"
  by (simp add: store_codes_def)

lemma get_codes_ok:
  "proper t \<Longrightarrow> length data = 56 \<Longrightarrow> fst ` set (leaves t) \<subseteq> set data \<Longrightarrow> length codes = 56 \<Longrightarrow>
   length p = n \<Longrightarrow> set p \<subseteq> set ''01'' \<Longrightarrow> take n arr = path_cells p \<Longrightarrow>
   n + height t \<le> length arr \<Longrightarrow>
   \<exists>arr'. get_codes t arr (int n) data codes = Inr (arr', store_codes data (codes_of t p) codes) \<and>
     take n arr' = take n arr \<and> length arr' = length arr"
proof (induction t arbitrary: arr n p codes rule: proper_induct)
  case (leaf l f)
  then have "index_of data l < 56" using index_of_less [of data l] by auto
  then show ?case
    using leaf code_loop_ok [of p n arr 0] find_letter_0 [of data l]
    by (simp add: store_codes_def)
next
  case (node l f a b)
  have n: "n < length arr" using node.prems node.hyps by auto
  have ab: "a \<noteq> Null" "b \<noteq> Null" using node.hyps by auto
  have down: "take (Suc n) (xs[n := Some (bit_val x)]) = path_cells (p @ [x])"
    if "take n xs = take n arr" "length xs = length arr" for xs x
    using that n node.prems by (simp add: take_Suc_conv_app_nth)
  let ?codes = "store_codes data (codes_of a (p @ ''0'')) codes"
  have fits: "Suc n + height a \<le> length arr" "Suc n + height b \<le> length arr"
    using node.prems(7) ab by simp_all
  obtain arr1 where a: "get_codes a (arr[n := Some 0]) (int (Suc n)) data codes = Inr (arr1, ?codes)"
    "take (Suc n) arr1 = take (Suc n) (arr[n := Some 0])" "length arr1 = length arr"
    using node.IH(1) [of codes "p @ ''0''" "Suc n" "arr[n := Some 0]"]
      node.prems ab fits(1) down [of arr "CHR ''0''"] by (auto simp: add.commute)
  have t1: "take n arr1 = take n arr"
    using arg_cong [OF a(2), of "take n"] by simp
  obtain arr2 where b: "get_codes b (arr1[n := Some 1]) (int (Suc n)) data ?codes =
      Inr (arr2, store_codes data (codes_of b (p @ ''1'')) ?codes)"
    "take (Suc n) arr2 = take (Suc n) (arr1[n := Some 1])" "length arr2 = length arr1"
    using node.IH(2) [of ?codes "p @ ''1''" "Suc n" "arr1[n := Some 1]"]
      node.prems ab fits(2) down [of arr1 "CHR ''1''"] t1 a(3) by (auto simp: add.commute)
  have t2: "take n arr2 = take n arr"
    using arg_cong [OF b(2), of "take n"] t1 by simp
  show ?case
    using ab a(1,3) b(1,3) t2 n by (simp add: store_codes_append add.commute)
qed

lemma store_codes_nth:
  assumes "i < length codes" "i < length data" "distinct (map fst ps)" "fst ` set ps \<subseteq> set data"
    and "distinct data"
  shows "store_codes data ps codes ! i =
    (case map_of ps (data ! i) of None \<Rightarrow> codes ! i | Some w \<Rightarrow> Some w)"
  using assms
proof (induction ps arbitrary: codes)
  case Nil
  then show ?case by (simp add: store_codes_def)
next
  case (Cons q ps)
  obtain l w where q: "q = (l, w)" by force
  have s: "store_codes data (q # ps) codes = store_codes data ps (codes[index_of data l := Some w])"
    by (simp add: store_codes_def q)
  have IH: "store_codes data ps (codes[index_of data l := Some w]) ! i =
    (case map_of ps (data ! i) of None \<Rightarrow> codes[index_of data l := Some w] ! i | Some w \<Rightarrow> Some w)"
    using Cons by simp
  show ?case
  proof (cases "data ! i = l")
    case True
    then have "index_of data l = i" using Cons.prems by (auto simp: index_of_nth)
    moreover have "map_of ps l = None" using Cons.prems by (auto simp: q map_of_eq_None_iff)
    ultimately show ?thesis using True Cons.prems(1) unfolding s IH by (simp add: q)
  next
    case False
    then have "index_of data l \<noteq> i" using Cons.prems(4) q by auto
    with False show ?thesis unfolding s IH by (simp add: q split: option.split)
  qed
qed

text \<open>When the tree has exactly the letters of the alphabet, the whole table is written.\<close>

lemma store_codes_all:
  assumes "distinct data" "mset (map fst ps) = mset data" "length codes = length data"
  shows "store_codes data ps codes = map (map_of ps) data"
proof (rule nth_equalityI)
  show "length (store_codes data ps codes) = length (map (map_of ps) data)"
    using assms(3) by simp
  fix i assume "i < length (store_codes data ps codes)"
  then have i: "i < length data" "i < length codes" using assms(3) by simp_all
  have d: "distinct (map fst ps)" using assms(1,2) by (metis mset_eq_imp_distinct_iff)
  have st: "fst ` set ps = set data" using assms(2) by (metis list.set_map set_mset_mset)
  then have "data ! i \<in> fst ` set ps" using i by simp
  then obtain w where "map_of ps (data ! i) = Some w" by (metis map_of_eq_None_iff not_None_eq)
  then show "store_codes data ps codes ! i = map (map_of ps) data ! i"
    using store_codes_nth [OF i(2,1) d _ assms(1)] st i by simp
qed

section \<open>The string form\<close>

fun tree_string :: "hf_node \<Rightarrow> string" where
  "tree_string Null = []"
| "tree_string (HF_Node l f a b) =
     (if a = Null \<and> b = Null then [CHR ''1'', l] else tree_string a @ tree_string b @ ''0'')"

lemma length_tree_string: "proper t \<Longrightarrow> length (tree_string t) + 1 = 3 * length (leaves t)"
  by (induction t rule: proper_induct) auto

lemma set_tree_string: "set (tree_string t) \<subseteq> set ''01'' \<union> fst ` set (leaves t)"
  by (induction t) auto

lemma update_two:
  assumes "i + 2 \<le> length xs"
  shows "xs[i := x, Suc i := y] = take i xs @ [x, y] @ drop (i + 2) xs"
proof -
  have "take (Suc i) (xs[i := x]) = take i xs @ [x]" using assms by (simp add: take_Suc_conv_app_nth)
  then show ?thesis using assms by (subst upd_conv_take_nth_drop) auto
qed

lemma HF_tree_to_string_ok:
  "proper t \<Longrightarrow> i + length (tree_string t) \<le> length str \<Longrightarrow>
   HF_tree_to_string t str (int i) =
     Inr (take i str @ tree_string t @ drop (i + length (tree_string t)) str,
       int (i + length (tree_string t)))"
proof (induction t arbitrary: str i rule: proper_induct)
  case (leaf l f)
  then have "wr (str[i := CHR ''1'']) (int i + 1) l = Inr (str[i := CHR ''1'', Suc i := l])"
    using wr_int [of "Suc i" "str[i := CHR ''1'']" l] by (simp add: add.commute)
  with leaf show ?case by (simp add: update_two)
next
  case (node l f a b)
  let ?a = "length (tree_string a)" and ?b = "length (tree_string b)"
  have ab: "a \<noteq> Null" "b \<noteq> Null" using node.hyps by auto
  let ?s1 = "take i str @ tree_string a @ drop (i + ?a) str"
  let ?s2 = "take (i + ?a) ?s1 @ tree_string b @ drop (i + ?a + ?b) ?s1"
  have 1: "HF_tree_to_string a str (int i) = Inr (?s1, int (i + ?a))"
    using node.prems ab by (intro node.IH(1)) simp
  have 2: "HF_tree_to_string b ?s1 (int (i + ?a)) = Inr (?s2, int (i + ?a + ?b))"
    using node.prems ab by (intro node.IH(2)) simp
  have s2: "?s2 = (take i str @ tree_string a @ tree_string b) @ drop (i + ?a + ?b) str"
    using node.prems ab by (simp add: add.commute add.left_commute)
  have d: "drop (i + ?a + ?b) str = str ! (i + ?a + ?b) # drop (Suc (i + ?a + ?b)) str"
    using node.prems ab by (intro Cons_nth_drop_Suc [symmetric]) simp
  have l: "length (take i str @ tree_string a @ tree_string b) = i + ?a + ?b"
    using node.prems ab by simp
  have 3: "wr ?s2 (int (i + ?a + ?b)) (CHR ''0'') =
      Inr ((take i str @ tree_string a @ tree_string b) @ CHR ''0'' # drop (Suc (i + ?a + ?b)) str)"
    unfolding s2 d using wr_append [of "take i str @ tree_string a @ tree_string b"] by (simp only: l)
  show ?case
    using ab 1 2 3 by (simp add: add.assoc)
qed

lemma HuffmanCodes_ok:
  assumes "length data = 56" "distinct data" "length freqs = 56" "length codes = 56"
    and "\<forall>f \<in> set freqs. 0 \<le> f" "sum_list freqs \<le> int_max"
  shows "\<exists>t. build_HF_Tree data freqs 56 = Inr t \<and> good_tree t \<and>
    mset (leaves t) = mset (zip data freqs) \<and> greedy (mset freqs) (path_cost t) \<and>
    HuffmanCodes data freqs 56 codes =
      Inr (tree_string t @ replicate 89 NUL, map (map_of (codes_of t [])) data)"
proof -
  obtain t where t: "build_HF_Tree data freqs 56 = Inr t" "good_tree t"
    "mset (leaves t) = mset (zip data freqs)" "greedy (mset freqs) (path_cost t)"
    using build_HF_Tree_ok [OF assms(1,3) _ assms(5,6)] by auto
  have p: "proper t" using t(2) by (simp add: good_tree_def)
  have len: "length (leaves t) = 56" using t(3) assms(1,3) by (metis length_zip min.idem size_mset)
  have fst_mset: "mset (map fst (leaves t)) = mset data"
    using assms(1,3) by (metis map_fst_zip mset_map t(3))
  then have sub: "fst ` set (leaves t) \<subseteq> set data" by (metis list.set_map order_refl set_mset_mset)
  obtain arr where c: "get_codes t (replicate 256 None) 0 data codes =
      Inr (arr, store_codes data (codes_of t []) codes)"
    using get_codes_ok [OF p assms(1) sub assms(4), of "[]" 0 "replicate 256 None"]
      height_less_leaves [OF p] len by auto
  have st: "store_codes data (codes_of t []) codes = map (map_of (codes_of t [])) data"
    using assms fst_mset by (intro store_codes_all) (simp_all add: fst_codes_of del: mset_map)
  have l: "length (tree_string t) = 167" using length_tree_string [OF p] len by simp
  have "HF_tree_to_string t (replicate 256 NUL) 0 = Inr (tree_string t @ replicate 89 NUL, 167)"
    using HF_tree_to_string_ok [OF p, of 0 "replicate 256 NUL"] l by simp
  with t p c st show ?thesis by (auto simp: HuffmanCodes_def)
qed

section \<open>Rebuilding\<close>

text \<open>What the string keeps of a tree: the shape and the letters.\<close>

fun erase :: "hf_node \<Rightarrow> hf_node" where
  "erase Null = Null"
| "erase (HF_Node l f a b) =
     (if a = Null \<and> b = Null then HF_Node l 0 Null Null
      else HF_Node (CHR ''$'') 0 (erase a) (erase b))"

lemma erase_Null_iff [simp]: "erase t = Null \<longleftrightarrow> t = Null"
  by (cases t) auto

lemma codes_of_erase [simp]: "codes_of (erase t) p = codes_of t p"
  by (induction t arbitrary: p) auto

lemma proper_erase [simp]: "proper t \<Longrightarrow> proper (erase t)"
  by (induction t rule: proper_induct) auto

lemma fst_leaves_erase: "map fst (leaves (erase t)) = map fst (leaves t)"
  by (metis codes_of_erase fst_codes_of)

lemma rebuild_join:
  assumes "rd s i = Inr (CHR ''0'')" "Suc sp < length st"
  shows "rebuild_loop s st (int (Suc (Suc sp))) i =
    rebuild_loop s (st[sp := HF_Node (CHR ''$'') 0 (st ! sp) (st ! Suc sp)]) (int (Suc sp)) (i + 1)"
proof -
  have "int (Suc (Suc sp)) - 1 = int (Suc sp)" "int (Suc (Suc sp)) - 2 = int sp" by simp_all
  moreover have "rd st (int (Suc sp)) = Inr (st ! Suc sp)" "rd st (int sp) = Inr (st ! sp)"
    "wr st (int sp) x = Inr (st[sp := x])" for x
    using assms(2) by (simp_all only: rd_int wr_int Suc_lessD)
  ultimately show ?thesis
    by (subst rebuild_loop.simps) (simp only: assms(1) bindE.simps, simp)
qed

lemma rebuild_loop_ok:
  "proper t \<Longrightarrow> sp + length (leaves t) \<le> length st \<Longrightarrow>
   \<exists>st'. rebuild_loop (pre @ tree_string t @ post) st (int sp) (int (length pre)) =
       rebuild_loop (pre @ tree_string t @ post) st' (int (Suc sp))
         (int (length pre + length (tree_string t))) \<and>
     length st' = length st \<and> take sp st' = take sp st \<and> st' ! sp = erase t"
proof (induction t arbitrary: sp st pre post rule: proper_induct)
  case (leaf l f)
  have "rd (pre @ CHR ''1'' # l # post) (int (length pre) + 1) = Inr l"
    using rd_append [of "pre @ ''1''" l post] by (simp add: add.commute)
  with leaf show ?case
    by (intro exI [of _ "st[sp := HF_Node l 0 Null Null]"])
      (subst rebuild_loop.simps, simp add: rd_append add.commute)
next
  case (node l f a b)
  have ab: "a \<noteq> Null" "b \<noteq> Null" using node.hyps by auto
  let ?s = "pre @ tree_string (HF_Node l f a b) @ post"
  let ?i = "length pre" and ?a = "length (tree_string a)" and ?b = "length (tree_string b)"
  have la: "0 < length (leaves a)" using leaves_nonempty [OF node.hyps(1)] by simp
  obtain st1 where 1: "rebuild_loop ?s st (int sp) (int ?i) = rebuild_loop ?s st1 (int (Suc sp)) (int (?i + ?a))"
    "length st1 = length st" "take sp st1 = take sp st" "st1 ! sp = erase a"
    using node.IH(1) [of sp st pre "tree_string b @ ''0'' @ post"] node.prems ab by auto
  have fits: "Suc sp + length (leaves b) \<le> length st1" using la node.prems ab 1(2) by (cases "leaves a") simp_all
  obtain st2 where 2: "rebuild_loop ?s st1 (int (Suc sp)) (int (?i + ?a)) =
      rebuild_loop ?s st2 (int (Suc (Suc sp))) (int (?i + ?a + ?b))"
    "length st2 = length st1" "take (Suc sp) st2 = take (Suc sp) st1" "st2 ! Suc sp = erase b"
    using node.IH(2) [of "Suc sp" st1 "pre @ tree_string a" "''0'' @ post"] fits ab 1(2)
    by auto
  have "0 < length (leaves b)" using leaves_nonempty [OF node.hyps(2)] by simp
  then have room: "Suc sp < length st2" using fits 2(2) by linarith
  have "st2 ! sp = take (Suc sp) st2 ! sp" by simp
  also have "\<dots> = erase a" using 1(4) by (simp add: 2(3))
  finally have top: "st2 ! sp = erase a" .
  have "take sp (take (Suc sp) st2) = take sp (take (Suc sp) st1)" by (simp only: 2(3))
  then have tk: "take sp st2 = take sp st" using 1(3) by simp
  have c: "rd ?s (int (?i + ?a + ?b)) = Inr (CHR ''0'')"
    using rd_append [of "pre @ tree_string a @ tree_string b" "CHR ''0''" post] ab
    by (simp add: add.assoc)
  have 3: "rebuild_loop ?s st2 (int (Suc (Suc sp))) (int (?i + ?a + ?b)) =
      rebuild_loop ?s (st2[sp := HF_Node (CHR ''$'') 0 (erase a) (erase b)]) (int (Suc sp))
        (int (?i + ?a + ?b) + 1)"
    using rebuild_join [OF c room] by (simp only: top 2(4))
  show ?case
    using 1 2 3 ab room tk
    by (intro exI [of _ "st2[sp := HF_Node (CHR ''$'') 0 (erase a) (erase b)]"])
      (simp add: add.commute add.left_commute)
qed

lemma rebuild_tree_ok:
  assumes "proper t" "length (leaves t) \<le> 112"
  shows "rebuild_tree (tree_string t @ NUL # rest) = Inr (erase t)"
proof -
  obtain st where "rebuild_loop (tree_string t @ NUL # rest) (replicate 112 Null) 0 0 =
      rebuild_loop (tree_string t @ NUL # rest) st 1 (int (length (tree_string t)))"
    "length st = 112" "st ! 0 = erase t"
    using rebuild_loop_ok [OF assms(1), of 0 "replicate 112 Null" "[]" "NUL # rest"] assms(2) by auto
  moreover have "rebuild_loop (tree_string t @ NUL # rest) st 1 (int (length (tree_string t))) = Inr st"
    by (subst rebuild_loop.simps) (simp add: rd_append)
  moreover have "rd st 0 = Inr (st ! 0)" using rd_int [of 0 st] calculation(2) by simp
  ultimately show ?thesis by (simp add: rebuild_tree_def)
qed

end
