(* ===== verification/HuffmanText.thy ===== *)
theory HuffmanText
  imports HuffmanTreeProofs
begin

text \<open>
  Correctness of the text functions of \<open>inc/huffman.h\<close>: \<open>prepare_frequencies\<close> counts each
  letter of the alphabet and leaves the defined behaviour of C on any other text, and
  \<open>str_to_byte\<close> and \<open>byte_to_str\<close> are the binary reading and writing of a byte.
\<close>

unbundle bit_operations_syntax

section \<open>The alphabet\<close>

lemma letters_alphabet [simp]: "length letters = 56" "distinct letters"
  by (simp_all add: letters_def)

lemma NUL_not_letter [simp]: "NUL \<notin> set letters"
  by (simp add: letters_def)

section \<open>Counting\<close>

lemma zero_loop_from:
  "length fs = 56 \<Longrightarrow> i \<le> 56 \<Longrightarrow> zero_loop fs (int i) = Inr (take i fs @ replicate (56 - i) 0)"
proof (induction "56 - i" arbitrary: i fs)
  case 0
  then show ?case by (subst zero_loop.simps) simp
next
  case (Suc k)
  then have r: "56 - i = Suc (56 - Suc i)" by simp
  have t: "take (Suc i) (fs[i := 0]) = take i fs @ [0]"
    using Suc by (simp add: take_Suc_conv_app_nth)
  show ?case
    using Suc.hyps(1) [of "Suc i" "fs[i := 0]"] Suc.hyps(2) Suc.prems r
    by (subst zero_loop.simps) (simp add: t add.commute)
qed

text \<open>The count of each letter of \<open>s\<close>, in the order of the alphabet.\<close>

definition counts :: "char list \<Rightarrow> string \<Rightarrow> int list" where
  "counts data s = map (\<lambda>d. int (count_list s d)) data"

lemma length_counts [simp]: "length (counts data s) = length data"
  by (simp add: counts_def)

lemma counts_nonneg: "\<forall>f \<in> set (counts data s). 0 \<le> f"
  by (auto simp: counts_def)

lemma sum_counts: "distinct data \<Longrightarrow> set s \<subseteq> set data \<Longrightarrow> sum_list (counts data s) = int (length s)"
proof -
  assume d: "distinct data" "set s \<subseteq> set data"
  have "sum_list (counts data s) = (\<Sum>x\<in>set data. int (count_list s x))"
    using d(1) by (simp add: counts_def sum_list_distinct_conv_sum_set)
  also have "\<dots> = (\<Sum>x\<in>set s. int (count_list s x))"
    using d(2) by (intro sum.mono_neutral_right) (auto simp: count_list_0_iff)
  also have "\<dots> = int (length s)"
    using sum_count_set [of s "set s"] by (simp flip: of_nat_sum)
  finally show ?thesis .
qed

lemma upd_map_index:
  assumes "distinct data" "x \<in> set data"
  shows "(map f data)[index_of data x := y] = map (f(x := y)) data"
proof (rule nth_equalityI)
  fix i assume "i < length ((map f data)[index_of data x := y])"
  then have i: "i < length data" by simp
  have "index_of data x = i \<longleftrightarrow> data ! i = x" using assms i by (auto simp: index_of_nth)
  with i show "(map f data)[index_of data x := y] ! i = map (f(x := y)) data ! i"
    by (auto simp: nth_list_update)
qed simp

lemma freq_loop_run:
  assumes "length data = 56" "distinct data"
  shows "NUL \<notin> set s \<Longrightarrow> set s \<subseteq> set data \<Longrightarrow> \<forall>x. 0 \<le> g x \<and> g x + int (length s) \<le> int_max \<Longrightarrow>
    freq_loop (pre @ s @ rest) data (map g data) (int (length pre)) =
    freq_loop (pre @ s @ rest) data (map (\<lambda>d. g d + int (count_list s d)) data)
      (int (length pre + length s))"
proof (induction s arbitrary: pre g)
  case (Cons x s)
  let ?g = "g(x := g x + 1)"
  have x: "x \<noteq> NUL" "x \<in> set data" "index_of data x < 56"
    using Cons.prems assms(1) index_of_less [of data x] by auto
  have g: "0 \<le> g x" "g x + 1 \<le> int_max" using Cons.prems(3) [rule_format, of x] by auto
  have "freq_loop (pre @ (x # s) @ rest) data (map g data) (int (length pre)) =
      freq_loop ((pre @ [x]) @ s @ rest) data (map ?g data) (int (length (pre @ [x])))"
    using x g upd_map_index [OF assms(2) x(2), of g] assms(1)
    by (subst freq_loop.simps) (simp add: rd_append find_letter_0 add.commute)
  also have "\<dots> = freq_loop ((pre @ [x]) @ s @ rest) data
      (map (\<lambda>d. ?g d + int (count_list s d)) data) (int (length (pre @ [x]) + length s))"
  proof (rule Cons.IH)
    show "\<forall>y. 0 \<le> ?g y \<and> ?g y + int (length s) \<le> int_max"
    proof
      fix y show "0 \<le> ?g y \<and> ?g y + int (length s) \<le> int_max"
        using Cons.prems(3) [rule_format, of y] by auto
    qed
  qed (use Cons.prems in auto)
  also have "(\<lambda>d. ?g d + int (count_list s d)) = (\<lambda>d. g d + int (count_list (x # s) d))" by auto
  finally show ?case by simp
qed simp

lemma prepare_frequencies_run:
  assumes "length data = 56" "distinct data" "length fs = 56"
    and "NUL \<notin> set s" "set s \<subseteq> set data" "int (length s) \<le> int_max"
  shows "prepare_frequencies (s @ rest) data fs =
    freq_loop (s @ rest) data (counts data s) (int (length s))"
proof -
  have "zero_loop fs 0 = Inr (map (\<lambda>d. 0) data)"
    using zero_loop_from [of fs 0] assms(1,3) by (simp add: map_replicate_const)
  then show ?thesis
    using freq_loop_run [OF assms(1,2,4,5), of "\<lambda>d. 0" "[]" rest] assms(6)
    by (simp add: prepare_frequencies_def counts_def)
qed

lemma prepare_frequencies_ok:
  assumes "length data = 56" "distinct data" "length fs = 56"
    and "NUL \<notin> set s" "set s \<subseteq> set data" "int (length s) \<le> int_max"
  shows "prepare_frequencies (s @ NUL # rest) data fs = Inr (counts data s)"
  unfolding prepare_frequencies_run [OF assms]
  by (subst freq_loop.simps) (simp add: rd_append)

text \<open>A letter outside the alphabet makes the loop increment \<open>frequencies[56]\<close>.\<close>

lemma prepare_frequencies_foreign:
  assumes "length data = 56" "distinct data" "length fs = 56"
    and "NUL \<notin> set s" "set s \<subseteq> set data" "int (length s) \<le> int_max"
    and "x \<noteq> NUL" "x \<notin> set data"
  shows "prepare_frequencies (s @ x # rest) data fs = Inl Out_of_bounds"
  unfolding prepare_frequencies_run [OF assms(1-6)]
  using assms(1,7,8) rd_oob [of "counts data s" 56]
  by (subst freq_loop.simps) (simp add: rd_append find_letter_0 index_of_notin)

text \<open>A text with no terminator is read past its end.\<close>

lemma prepare_frequencies_unterminated:
  assumes "length data = 56" "distinct data" "length fs = 56"
    and "NUL \<notin> set s" "set s \<subseteq> set data" "int (length s) \<le> int_max"
  shows "prepare_frequencies s data fs = Inl Out_of_bounds"
  using prepare_frequencies_run [OF assms, of "[]"]
  by (subst (asm) freq_loop.simps) simp

section \<open>Bytes\<close>

text \<open>The value of eight code characters, the first one the most significant.\<close>

definition bits_val :: "string \<Rightarrow> nat" where
  "bits_val s = foldl (\<lambda>n x. 2 * n + (if x = CHR ''1'' then 1 else 0)) 0 s"

lemma bits_val_Nil [simp]: "bits_val [] = 0"
  by (simp add: bits_val_def)

lemma bits_val_snoc [simp]:
  "bits_val (s @ [x]) = 2 * bits_val s + (if x = CHR ''1'' then 1 else 0)"
  by (simp add: bits_val_def)

lemma bits_val_less: "bits_val s < 2 ^ length s"
  by (induction s rule: rev_induct) auto

lemma str_to_byte_loop_step:
  "i < 8 \<Longrightarrow> i < length s \<Longrightarrow>
   str_to_byte_loop s r (int i) =
     str_to_byte_loop s (if s ! i = CHR ''1'' then 2 * r + 1 else 2 * r) (int (Suc i))"
  by (subst str_to_byte_loop.simps) (simp add: Let_def add.commute mult.commute)

lemma str_to_byte_loop_from:
  "8 \<le> length s \<Longrightarrow> i \<le> 8 \<Longrightarrow>
   str_to_byte_loop s (of_nat (bits_val (take i s))) (int i) = Inr (of_nat (bits_val (take 8 s)))"
proof (induction "8 - i" arbitrary: i)
  case 0
  then show ?case by (subst str_to_byte_loop.simps) simp
next
  case (Suc k)
  then have t: "take (Suc i) s = take i s @ [s ! i]" by (simp add: take_Suc_conv_app_nth)
  have "str_to_byte_loop s (of_nat (bits_val (take i s))) (int i) =
      str_to_byte_loop s (of_nat (bits_val (take (Suc i) s))) (int (Suc i))"
    using Suc.hyps(2) Suc.prems by (subst str_to_byte_loop_step) (simp_all add: t)
  then show ?case using Suc.hyps(1) [of "Suc i"] Suc.hyps(2) Suc.prems by simp
qed

lemma str_to_byte_take: "8 \<le> length s \<Longrightarrow> str_to_byte s = Inr (of_nat (bits_val (take 8 s)))"
  using str_to_byte_loop_from [of s 0] by (simp add: str_to_byte_def)

lemma str_to_byte_loop_short:
  "length s < 8 \<Longrightarrow> i \<le> length s \<Longrightarrow> str_to_byte_loop s r (int i) = Inl Out_of_bounds"
proof (induction "length s - i" arbitrary: i r)
  case 0
  then have "rd s (int i) = Inl Out_of_bounds" "int i < 8" by simp_all
  then show ?case by (subst str_to_byte_loop.simps) (simp add: Let_def)
next
  case (Suc k)
  have "str_to_byte_loop s r (int (Suc i)) = Inl Out_of_bounds" for r
    using Suc.hyps(2) Suc.prems by (intro Suc.hyps(1)) simp_all
  then show ?case using Suc.hyps(2) Suc.prems by (simp only: str_to_byte_loop_step)
qed

lemma str_to_byte_short: "length s < 8 \<Longrightarrow> str_to_byte s = Inl Out_of_bounds"
  using str_to_byte_loop_short [of s 0 0] by (simp add: str_to_byte_def)

text \<open>The character of bit \<open>i\<close> of a byte.\<close>

definition bit_char :: "8 word \<Rightarrow> nat \<Rightarrow> char" where
  "bit_char b i = (if bit b i then CHR ''1'' else CHR ''0'')"

definition byte_bits :: "8 word \<Rightarrow> string" where
  "byte_bits b = map (\<lambda>i. bit_char b (7 - i)) [0..<8]"

lemma length_byte_bits [simp]: "length (byte_bits b) = 8"
  by (simp add: byte_bits_def)

lemma set_byte_bits: "set (byte_bits b) \<subseteq> set ''01''"
  by (auto simp: byte_bits_def bit_char_def)

lemma and_mask_bit:
  "(if (b :: 8 word) AND push_bit i 1 \<noteq> 0 then CHR ''1'' else CHR ''0'') = bit_char b i"
  by (simp only: bit_char_def bit_iff_and_push_bit_not_eq_0)

lemma byte_to_str_loop_from:
  "i \<le> 8 \<Longrightarrow>
   byte_to_str_loop b (xs @ map (\<lambda>j. bit_char b (7 - j)) [8 - i..<8] @ [z]) (int i) =
     Inr (map (\<lambda>j. bit_char b (7 - j)) [0..<8] @ [z])" if "length xs = 8 - i" for xs
  using that
proof (induction "8 - i" arbitrary: i xs)
  case 0
  then show ?case by (subst byte_to_str_loop.simps) simp
next
  case (Suc k)
  obtain ys y where xs: "xs = ys @ [y]" "length ys = 7 - i"
    using Suc.hyps(2) Suc.prems by (cases xs rule: rev_cases) auto
  have i: "i < 8" "8 - i = Suc (7 - i)" using Suc.hyps(2) by simp_all
  then have u: "[8 - Suc i..<8] = (7 - i) # [8 - i..<8]"
    using upt_conv_Cons [of "7 - i" 8] by simp
  have "7 - int i = int (length ys)" using xs(2) i by simp
  then have w: "wr (xs @ map (\<lambda>j. bit_char b (7 - j)) [8 - i..<8] @ [z]) (7 - int i) (bit_char b i) =
      Inr (ys @ map (\<lambda>j. bit_char b (7 - j)) [8 - Suc i..<8] @ [z])"
    using wr_append [of ys y] i(1) by (simp only: xs(1) u) simp
  have "byte_to_str_loop b (xs @ map (\<lambda>j. bit_char b (7 - j)) [8 - i..<8] @ [z]) (int i) =
      byte_to_str_loop b (ys @ map (\<lambda>j. bit_char b (7 - j)) [8 - Suc i..<8] @ [z]) (int (Suc i))"
    using i(1) by (subst byte_to_str_loop.simps)
      (simp only: and_mask_bit nat_int w bindE.simps, simp add: add.commute)
  also have "\<dots> = Inr (map (\<lambda>j. bit_char b (7 - j)) [0..<8] @ [z])"
    using Suc.hyps(2) xs(2) i(1) by (intro Suc.hyps(1)) simp_all
  finally show ?case .
qed

lemma byte_to_str_bits: "byte_to_str b = Inr (byte_bits b @ [NUL])"
proof -
  have "replicate 9 NUL = replicate 8 NUL @ [NUL]" by (simp add: eval_nat_numeral)
  then show ?thesis
    using byte_to_str_loop_from [where i = 0 and xs = "replicate 8 NUL" and z = NUL and b = b]
    by (simp add: byte_to_str_def byte_bits_def del: replicate_Suc)
qed

lemma bit_bits_val: "i < length s \<Longrightarrow> bit (bits_val s) i \<longleftrightarrow> rev s ! i = CHR ''1''"
proof (induction s arbitrary: i rule: rev_induct)
  case (snoc x s)
  then show ?case by (cases i) (auto simp: bit_0 bit_Suc)
qed simp

lemma byte_bits_of_nat:
  assumes "length s = 8" "set s \<subseteq> set ''01''"
  shows "byte_bits (of_nat (bits_val s)) = s"
proof (rule nth_equalityI)
  fix i assume "i < length (byte_bits (of_nat (bits_val s)))"
  then have i: "i < 8" by simp
  then have "bit (of_nat (bits_val s) :: 8 word) (7 - i) \<longleftrightarrow> s ! i = CHR ''1''"
    using assms(1) bit_bits_val [of "7 - i" s] less_Suc_eq_le [of "7 - i" 7]
    by (simp add: bit_of_nat_iff rev_nth)
  moreover have "s ! i \<in> set ''01''" using assms i nth_mem [of i s] by (metis subsetD)
  ultimately show "byte_bits (of_nat (bits_val s)) ! i = s ! i"
    using i by (auto simp: byte_bits_def bit_char_def)
qed (simp add: assms(1))

lemma of_nat_bits_val_byte_bits: "of_nat (bits_val (byte_bits b)) = b"
proof (rule bit_word_eqI)
  fix i assume "i < LENGTH(8)"
  then have i: "i < 8" by simp
  then show "bit (of_nat (bits_val (byte_bits b)) :: 8 word) i = bit b i"
    using bit_bits_val [of i "byte_bits b"]
    by (simp add: bit_of_nat_iff rev_nth) (simp add: byte_bits_def bit_char_def)
qed

lemma str_to_byte_byte_bits: "str_to_byte (byte_bits b @ rest) = Inr b"
  using str_to_byte_take [of "byte_bits b @ rest"] by (simp add: of_nat_bits_val_byte_bits)

end
