(* ===== verification/Compress.thy ===== *)
theory Compress
  imports HuffmanText
begin

text \<open>
  The two command line programs: \<open>src/compress.c\<close> and \<open>src/decompress.c\<close>.

  The files are arguments: the contents of the input (\<open>None\<close> when \<open>fopen\<close> fails), and
  whether the output can be opened. \<open>malloc (file_size)\<close> reserves no place for a terminator,
  and \<open>prepare_frequencies\<close> scans for one, so the bytes that lie behind the allocation are an
  argument as well: \<open>slack\<close> is \<open>[]\<close> for the object as C defines it.
\<close>

section \<open>Compression\<close>

text \<open>The locals of the encoding loop; \<open>output_bytes\<close> is what \<open>fwrite\<close> has written.\<close>

record enc_state =
  working_string :: "char list"
  offset :: int
  str8 :: "char list"
  output_bytes :: "8 word list"
  written :: int

datatype compress_exit =
    Usage
  | Input_error
  | Output_error
  | Invalid_character char "8 word list"
  | Output_file "8 word list"

text \<open>\<open>fwrite (&b, 1, 1, output_file)\<close>.\<close>

definition write_byte :: "8 word \<Rightarrow> enc_state \<Rightarrow> enc_state c" where
  "write_byte b st = Inr (st\<lparr>output_bytes := output_bytes st @ [b]\<rparr>)"

text \<open>
  The loop that empties the working string, and the tail that pads what is left. The same
  statements stand in \<open>compress.c\<close> and in \<open>handlers.c\<close>, \<open>emit\<close> is the statement that
  stores a byte.
\<close>

definition string_size :: "enc_state \<Rightarrow> nat" where
  "string_size st = (case cstr (working_string st) of Inl e \<Rightarrow> 0 | Inr s \<Rightarrow> length s)"

definition take_byte :: "(8 word \<Rightarrow> enc_state \<Rightarrow> enc_state c) \<Rightarrow> enc_state \<Rightarrow> enc_state c" where
  "take_byte emit st =
     bindE (rd_front (working_string st) 8) (\<lambda>x.
     bindE (blit (str8 st) 0 x) (\<lambda>s8.
     bindE (str_to_byte s8) (\<lambda>b.
     bindE (emit b (st\<lparr>str8 := s8\<rparr>)) (\<lambda>st'.
     bindE (add_int (written st) 1) (\<lambda>w.
     bindE (strcpy_down (working_string st) 8) (\<lambda>ws.
     Inr (st'\<lparr>written := w, working_string := ws, offset := offset st - 8\<rparr>)))))))"

lemma strcpy_down_cstr:
  assumes "strcpy_down b k = Inr b'" "0 \<le> k"
  shows "\<exists>s. cstr (drop (nat k) b) = Inr s \<and> cstr b' = Inr s"
proof -
  obtain s where s: "cstr (drop (nat k) b) = Inr s" "strcpy b 0 s = Inr b'"
    using assms by (auto simp: strcpy_down_def split: if_splits)
  then have "b' = s @ NUL # drop (length s + 1) b"
    by (auto simp: strcpy_def blit_def split: if_splits)
  moreover have "NUL \<notin> set s" using cstr_InrD [OF s(1)] by blast
  ultimately show ?thesis using s(1) by auto
qed

lemma cstr_drop_length:
  "cstr b = Inr s \<Longrightarrow> k \<le> length s \<Longrightarrow> cstr (drop k b) = Inr (drop k s)"
proof -
  assume s: "cstr b = Inr s" "k \<le> length s"
  then obtain r where r: "NUL \<notin> set s" "b = s @ NUL # r" using cstr_InrD by blast
  then have "NUL \<notin> set (drop k s)" by (meson in_set_dropD)
  then show ?thesis using r s(2) by simp
qed

lemma take_byte_shrinks:
  assumes "take_byte emit st = Inr st'" "strlen (working_string st) = Inr n" "8 \<le> n"
  shows "string_size st' < string_size st"
proof -
  obtain s where s: "cstr (working_string st) = Inr s" "n = int (length s)"
    using assms(2) by (auto simp: strlen_def)
  obtain ws where ws: "strcpy_down (working_string st) 8 = Inr ws" "working_string st' = ws"
    using assms(1) by (auto simp: take_byte_def)
  have "cstr (drop 8 (working_string st)) = Inr (drop 8 s)"
    using s assms(3) by (intro cstr_drop_length) auto
  then have "cstr ws = Inr (drop 8 s)" using strcpy_down_cstr [OF ws(1)] by auto
  then show ?thesis using s assms(3) ws(2) by (simp add: string_size_def)
qed

function drain_loop :: "(8 word \<Rightarrow> enc_state \<Rightarrow> enc_state c) \<Rightarrow> enc_state \<Rightarrow> enc_state c" where
  "drain_loop emit st =
     bindE (strlen (working_string st)) (\<lambda>n.
     if 8 \<le> n
     then bindE (take_byte emit st) (\<lambda>st. drain_loop emit st)
     else Inr st)"
  by pat_completeness auto
termination
  by (relation "measure (\<lambda>(emit, st). string_size st)") (auto dest: take_byte_shrinks)

declare drain_loop.simps [simp del]

text \<open>\<open>strcpy (working_string + offset, codes[j])\<close> and \<open>offset += strlen (codes[j])\<close>.\<close>

definition append_code :: "char list option list \<Rightarrow> int \<Rightarrow> enc_state \<Rightarrow> enc_state c" where
  "append_code codes j st =
     bindE (rd_cell codes j) (\<lambda>code.
     bindE (strcpy (working_string st) (offset st) code) (\<lambda>ws.
     Inr (st\<lparr>working_string := ws, offset := offset st + int (length code)\<rparr>)))"

definition pad_byte :: "(8 word \<Rightarrow> enc_state \<Rightarrow> enc_state c) \<Rightarrow> enc_state \<Rightarrow> enc_state c" where
  "pad_byte emit st =
     bindE (cstr (working_string st)) (\<lambda>s.
     if s \<noteq> []
     then bindE (strcpy (replicate 8 NUL) 0 s) (\<lambda>padded.
          bindE (str_to_byte padded) (\<lambda>b.
          bindE (emit b st) (\<lambda>st'.
          bindE (add_int (written st) 1) (\<lambda>w.
          Inr (st'\<lparr>written := w\<rparr>)))))
     else Inr st)"

text \<open>\<open>i < file_size\<close> compares an \<open>int\<close> with an \<open>unsigned\<close>.\<close>

definition less_unsigned :: "int \<Rightarrow> 32 word \<Rightarrow> bool" where
  "less_unsigned i n \<longleftrightarrow> word_of_int i < n"

lemma add_int_InrD: "add_int a b = Inr x \<Longrightarrow> x = a + b \<and> x \<le> int_max"
  by (auto simp: add_int_def split: if_splits)

text \<open>The encoding loop of \<open>compress.c\<close>; \<open>Inl\<close> of the inner sum is the early return.\<close>

function compress_loop ::
  "char list \<Rightarrow> 32 word \<Rightarrow> char list option list \<Rightarrow> enc_state \<Rightarrow> int \<Rightarrow> (compress_exit + enc_state) c"
  where
  "compress_loop txt file_size codes st i =
     (if less_unsigned i file_size
      then bindE (rd txt i) (\<lambda>x.
           bindE (find_letter letters x 0) (\<lambda>j.
           if j = 56 then Inr (Inl (Invalid_character x (output_bytes st)))
           else bindE (append_code codes j st) (\<lambda>st.
             bindE (drain_loop write_byte st) (\<lambda>st.
             bindE (add_int i 1) (\<lambda>i.
             compress_loop txt file_size codes st i)))))
      else Inr (Inr st))"
  by pat_completeness auto
termination
  by (relation "measure (\<lambda>(txt, file_size, codes, st, i). nat (int_max - i))")
    (auto dest!: add_int_InrD rd_InrD)

declare compress_loop.simps [simp del]

definition compress_main ::
  "int \<Rightarrow> char list option \<Rightarrow> char list \<Rightarrow> bool \<Rightarrow> compress_exit c" where
  "compress_main argc input_file slack output_opens =
     (if argc < 3 then Inr Usage
      else case input_file of None \<Rightarrow> Inr Input_error
      | Some contents \<Rightarrow>
          let file_size = of_nat (length contents); txt = contents @ slack in
          bindE (prepare_frequencies txt letters (replicate 56 0)) (\<lambda>frequencies.
          bindE (HuffmanCodes letters frequencies 56 (replicate 56 None)) (\<lambda>(str_rep, codes).
          if \<not> output_opens then Inr Output_error
          else bindE (strlen str_rep) (\<lambda>n.
            let header_len = word_of_int n; uncompressed_len = file_size; total_len = 0 in
            bindE (rd_front str_rep (uint header_len)) (\<lambda>header.
            let st = \<lparr>working_string = replicate 64 NUL, offset = 0, str8 = replicate 9 NUL,
              output_bytes = le32 total_len @ le32 header_len @ le32 uncompressed_len @ bytes_of header,
              written = 0\<rparr> in
            bindE (compress_loop txt file_size codes st 0) (\<lambda>r.
            case r of Inl e \<Rightarrow> Inr e
            | Inr st \<Rightarrow>
                bindE (pad_byte write_byte st) (\<lambda>st.
                let total_len = 12 + header_len + word_of_int (written st) in
                bindE (blit (output_bytes st) 0 (le32 total_len)) (\<lambda>out.
                Inr (Output_file out)))))))))"

section \<open>Decompression\<close>

text \<open>
  The locals of the decoding loop. \<open>uncompressed_string\<close> is memory of \<open>malloc\<close>, \<open>input\<close>
  what the file has left, \<open>byte\<close> the variable \<open>b\<close>, which \<open>fread\<close> leaves alone at the end
  of the file.
\<close>

record dec_state =
  uncompressed_string :: "char option list"
  uncomp_str_index :: int
  dec_working :: "char list"
  dec_offset :: int
  byte :: "8 word option"
  input :: "8 word list"

text \<open>\<open>memcmp (working_string, code, strlen (code)) == 0\<close>.\<close>

definition matches_code :: "char list \<Rightarrow> char list \<Rightarrow> bool c" where
  "matches_code ws code = bindE (rd_front ws (int (length code))) (\<lambda>x. Inr (x = code))"

definition consume_code :: "int \<Rightarrow> char list \<Rightarrow> dec_state \<Rightarrow> dec_state c" where
  "consume_code j code st =
     bindE (rd letters j) (\<lambda>l.
     bindE (wr (uncompressed_string st) (uncomp_str_index st) (Some l)) (\<lambda>us.
     bindE (strcpy_down (dec_working st) (int (length code))) (\<lambda>ws.
     Inr (st\<lparr>uncompressed_string := us, uncomp_str_index := uncomp_str_index st + 1,
       dec_working := ws, dec_offset := dec_offset st - int (length code)\<rparr>))))"

function match_for ::
  "char list option list \<Rightarrow> int \<Rightarrow> bool \<Rightarrow> dec_state \<Rightarrow> (bool \<times> dec_state) c" where
  "match_for codes j matches st =
     (if j < 56
      then bindE (rd_cell codes j) (\<lambda>code.
           bindE (matches_code (dec_working st) code) (\<lambda>eq.
           if eq
           then bindE (consume_code j code st) (\<lambda>st. match_for codes (j + 1) True st)
           else match_for codes (j + 1) matches st))
      else Inr (matches, st))"
  by pat_completeness auto
termination
  by (relation "measure (\<lambda>(codes, j, matches, st). nat (56 - j))") auto

declare match_for.simps [simp del]

lemma consume_code_index:
  "consume_code j code st = Inr st' \<Longrightarrow>
     uncomp_str_index st' = uncomp_str_index st + 1 \<and> 0 \<le> uncomp_str_index st \<and>
     uncomp_str_index st < int (length (uncompressed_string st)) \<and>
     length (uncompressed_string st') = length (uncompressed_string st)"
  by (auto simp: consume_code_def dest!: wr_InrD)

definition cells_left :: "dec_state \<Rightarrow> nat" where
  "cells_left st = nat (int (length (uncompressed_string st)) - uncomp_str_index st)"

lemma match_for_progress:
  "match_for codes j matches st = Inr (m, st') \<Longrightarrow>
     cells_left st' \<le> cells_left st \<and> (m \<longrightarrow> matches \<or> cells_left st' < cells_left st)"
proof (induction codes j matches st rule: match_for.induct)
  case (1 codes j matches st)
  show ?case
  proof (cases "j < 56")
    case True
    with 1(3) obtain code eq where c: "rd_cell codes j = Inr code"
      "matches_code (dec_working st) code = Inr eq"
      by (subst (asm) match_for.simps) auto
    show ?thesis
    proof (cases eq)
      case True
      with 1(3) c \<open>j < 56\<close> obtain st1 where st1: "consume_code j code st = Inr st1"
        "match_for codes (j + 1) True st1 = Inr (m, st')"
        by (subst (asm) match_for.simps) auto
      have "cells_left st1 < cells_left st"
        using consume_code_index [OF st1(1)] by (simp add: cells_left_def)
      with 1(1) [OF \<open>j < 56\<close> c True st1] show ?thesis by simp
    next
      case False
      with 1(3) c \<open>j < 56\<close> have "match_for codes (j + 1) matches st = Inr (m, st')"
        by (subst (asm) match_for.simps) auto
      with 1(2) [OF \<open>j < 56\<close> c False] show ?thesis by simp
    qed
  next
    case False
    with 1(3) show ?thesis by (subst (asm) match_for.simps) auto
  qed
qed

function match_while :: "char list option list \<Rightarrow> dec_state \<Rightarrow> dec_state c" where
  "match_while codes st =
     bindE (match_for codes 0 False st) (\<lambda>(matches, st).
     if matches then match_while codes st else Inr st)"
  by pat_completeness auto
termination
  by (relation "measure (\<lambda>(codes, st). cells_left st)") (auto dest: match_for_progress)

declare match_while.simps [simp del]

definition read_byte :: "dec_state \<Rightarrow> dec_state" where
  "read_byte st =
     (case input st of [] \<Rightarrow> st | b # bs \<Rightarrow> st\<lparr>byte := Some b, input := bs\<rparr>)"

function decode_loop :: "char list option list \<Rightarrow> 32 word \<Rightarrow> dec_state \<Rightarrow> int \<Rightarrow> dec_state c" where
  "decode_loop codes n st i =
     (if less_unsigned i n
      then let st = read_byte st in
        bindE (case byte st of None \<Rightarrow> Inl Uninit_read | Some b \<Rightarrow> byte_to_str b) (\<lambda>s.
        bindE (cstr s) (\<lambda>s.
        bindE (strcpy (dec_working st) (dec_offset st) s) (\<lambda>ws.
        bindE (match_while codes (st\<lparr>dec_working := ws, dec_offset := dec_offset st + 8\<rparr>)) (\<lambda>st.
        bindE (add_int i 1) (\<lambda>i.
        decode_loop codes n st i)))))
      else Inr st)"
  by pat_completeness auto
termination
  by (relation "measure (\<lambda>(codes, n, st, i). nat (int_max - i))") (auto dest!: add_int_InrD)

declare decode_loop.simps [simp del]

text \<open>\<open>printf ("%s")\<close>: the characters up to the first \<open>NUL\<close>.\<close>

fun print_cells :: "char option list \<Rightarrow> char list c" where
  "print_cells [] = Inl Out_of_bounds"
| "print_cells (None # xs) = Inl Uninit_read"
| "print_cells (Some x # xs) =
     (if x = NUL then Inr [] else bindE (print_cells xs) (\<lambda>s. Inr (x # s)))"

datatype decompress_exit =
    D_Usage
  | D_Input_error
  | Printed string

text \<open>\<open>fread\<close> of one \<open>unsigned int\<close>: a variable that stays unwritten is read later.\<close>

definition read_word :: "8 word list \<Rightarrow> (32 word \<times> 8 word list) c" where
  "read_word bs =
     (if length bs < 4 then Inl Uninit_read else Inr (of_le32 (take 4 bs), drop 4 bs))"

definition decompress_main :: "int \<Rightarrow> 8 word list option \<Rightarrow> char list \<Rightarrow> decompress_exit c" where
  "decompress_main argc input_file slack =
     (if argc < 2 then Inr D_Usage
      else case input_file of None \<Rightarrow> Inr D_Input_error
      | Some bs \<Rightarrow>
          bindE (read_word bs) (\<lambda>(total_len, bs).
          bindE (read_word bs) (\<lambda>(header_len, bs).
          bindE (read_word bs) (\<lambda>(uncompressed_len, bs).
          let n = unat header_len;
              tree = chars_of (take n bs) @ replicate (n - length bs) NUL in
          bindE (rebuild_tree (tree @ slack)) (\<lambda>rebuilt.
          bindE (get_codes rebuilt (replicate 256 None) 0 letters (replicate 56 None))
            (\<lambda>(arr, codes).
          let st = \<lparr>uncompressed_string = replicate (unat (uncompressed_len + 1)) None,
            uncomp_str_index = 0, dec_working = replicate 64 NUL, dec_offset = 0,
            byte = None, input = drop n bs\<rparr> in
          bindE (decode_loop codes (total_len - 12 - header_len) st 0) (\<lambda>st.
          bindE (wr (uncompressed_string st) (uint uncompressed_len) (Some NUL)) (\<lambda>us.
          bindE (print_cells us) (\<lambda>s.
          Inr (Printed (s @ [CHR 0x0A])))))))))))"

end
