(* ===== verification/CompressProofs.thy ===== *)
theory CompressProofs
  imports Compress
begin

text \<open>
  Correctness of the two command line programs: the working string never leaves its 64 bytes,
  the bytes written are the codes of the text packed eight to a byte, the file has the layout
  the decompressor reads, and decompressing it yields the text.
\<close>

section \<open>Packing bits into bytes\<close>

function pack :: "string \<Rightarrow> 8 word list" where
  "pack w = (if 8 \<le> length w then of_nat (bits_val (take 8 w)) # pack (drop 8 w) else [])"
  by pat_completeness auto
termination by (relation "measure length") auto

function leftover :: "string \<Rightarrow> string" where
  "leftover w = (if 8 \<le> length w then leftover (drop 8 w) else w)"
  by pat_completeness auto
termination by (relation "measure length") auto

declare pack.simps [simp del] leftover.simps [simp del]

lemma leftover_less: "length (leftover w) < 8"
  by (induction w rule: leftover.induct) (subst leftover.simps, auto)

lemma leftover_subset: "set (leftover w) \<subseteq> set w"
proof (induction w rule: leftover.induct)
  case (1 w)
  then show ?case by (subst leftover.simps) (auto dest: in_set_dropD)
qed

lemma pack_leftover_step:
  "length u = 8 \<Longrightarrow> pack (u @ w) = of_nat (bits_val u) # pack w"
  "length u = 8 \<Longrightarrow> leftover (u @ w) = leftover w"
  by (simp_all add: pack.simps [of "u @ w"] leftover.simps [of "u @ w"])

lemma pack_short: "length w < 8 \<Longrightarrow> pack w = []" "length w < 8 \<Longrightarrow> leftover w = w"
  by (simp_all add: pack.simps [of w] leftover.simps [of w])

lemma pack_append:
  "pack (w @ v) = pack w @ pack (leftover w @ v) \<and> leftover (w @ v) = leftover (leftover w @ v)"
proof (induction w rule: pack.induct)
  case (1 w)
  show ?case
  proof (cases "8 \<le> length w")
    case True
    then have l: "length (take 8 w) = 8" by simp
    have "w @ v = take 8 w @ drop 8 w @ v" by simp
    then have a: "pack (w @ v) = of_nat (bits_val (take 8 w)) # pack (drop 8 w @ v)"
      "leftover (w @ v) = leftover (drop 8 w @ v)"
      using pack_leftover_step [OF l] by metis+
    have "w = take 8 w @ drop 8 w" by simp
    then have b: "pack w = of_nat (bits_val (take 8 w)) # pack (drop 8 w)"
      "leftover w = leftover (drop 8 w)"
      using pack_leftover_step [OF l] by metis+
    show ?thesis using 1 [OF True] a b by simp
  qed (simp add: pack_short)
qed

lemma length_pack: "8 * length (pack w) + length (leftover w) = length w"
proof (induction w rule: pack.induct)
  case (1 w)
  show ?case
  proof (cases "8 \<le> length w")
    case True
    with 1 [OF True] show ?thesis by (subst pack.simps, subst leftover.simps) simp
  qed (simp add: pack_short)
qed

text \<open>All the bytes of a bit string: the last one padded with zeros.\<close>

definition encoded :: "string \<Rightarrow> 8 word list" where
  "encoded w = pack w @
     (if leftover w = [] then []
      else [of_nat (bits_val (leftover w @ replicate (8 - length (leftover w)) (CHR ''0'')))])"

definition padding :: "string \<Rightarrow> nat" where
  "padding w = (if leftover w = [] then 0 else 8 - length (leftover w))"

lemma pack_bits: "set w \<subseteq> set ''01'' \<Longrightarrow> concat (map byte_bits (pack w)) @ leftover w = w"
proof (induction w rule: pack.induct)
  case (1 w)
  show ?case
  proof (cases "8 \<le> length w")
    case True
    have "set (drop 8 w) \<subseteq> set ''01''" "set (take 8 w) \<subseteq> set ''01''"
      using 1(2) by (meson order_trans set_drop_subset set_take_subset)+
    with 1(1) [OF True] True show ?thesis
      by (subst pack.simps, subst leftover.simps) (simp add: byte_bits_of_nat del: set_simps)
  qed (simp add: pack_short)
qed

lemma encoded_bits:
  assumes "set w \<subseteq> set ''01''"
  shows "concat (map byte_bits (encoded w)) = w @ replicate (padding w) (CHR ''0'')"
proof (cases "leftover w = []")
  case True
  then show ?thesis using pack_bits [OF assms] by (simp add: encoded_def padding_def)
next
  case False
  let ?v = "leftover w @ replicate (8 - length (leftover w)) (CHR ''0'')"
  have "length ?v = 8" using leftover_less [of w] by simp
  moreover have "set ?v \<subseteq> set ''01''" using leftover_subset [of w] assms by auto
  ultimately have "byte_bits (of_nat (bits_val ?v)) = ?v" by (rule byte_bits_of_nat)
  then show ?thesis using False pack_bits [OF assms] by (simp add: encoded_def padding_def)
qed

lemma length_encoded: "8 * length (encoded w) = length w + padding w"
  using length_pack [of w] leftover_less [of w] by (auto simp: encoded_def padding_def)

lemma padding_less: "padding w < 8"
  by (auto simp: padding_def)

lemma bits_val_pad: "x \<noteq> CHR ''1'' \<Longrightarrow> bits_val (w @ replicate k x) = bits_val w * 2 ^ k"
proof (induction k)
  case (Suc k)
  have "bits_val (w @ replicate (Suc k) x) = bits_val ((w @ replicate k x) @ [x])"
    by (simp flip: replicate_append_same)
  then show ?case using Suc by (simp only: bits_val_snoc) simp
qed simp

section \<open>The encoder's state\<close>

text \<open>
  What the encoder needs of the statement that stores a byte: \<open>holds out bs\<close> says that the
  bytes stored so far are \<open>bs\<close>, \<open>fits n\<close> that there is room for one more after \<open>n\<close>.
\<close>

locale byte_sink =
  fixes emit :: "8 word \<Rightarrow> enc_state \<Rightarrow> enc_state c"
    and holds :: "8 word list \<Rightarrow> 8 word list \<Rightarrow> bool"
    and fits :: "nat \<Rightarrow> bool"
  assumes emit: "holds (output_bytes st) bs \<Longrightarrow> written st = int (length bs) \<Longrightarrow>
      fits (length bs) \<Longrightarrow>
      \<exists>out. emit b st = Inr (st\<lparr>output_bytes := out\<rparr>) \<and> holds out (bs @ [b])"
begin

text \<open>The working string holds the bits \<open>w\<close>, the sink the bytes \<open>bs\<close>.\<close>

definition enc_inv :: "enc_state \<Rightarrow> string \<Rightarrow> 8 word list \<Rightarrow> bool" where
  "enc_inv st w bs \<longleftrightarrow>
     (\<exists>junk. working_string st = w @ NUL # junk \<and> length (working_string st) = 64) \<and>
     NUL \<notin> set w \<and> offset st = int (length w) \<and> length (str8 st) = 9 \<and>
     written st = int (length bs) \<and> holds (output_bytes st) bs"

lemma enc_inv_init:
  assumes "holds out []"
  shows "enc_inv \<lparr>working_string = replicate 64 NUL, offset = 0, str8 = replicate 9 NUL,
    output_bytes = out, written = 0\<rparr> [] []"
proof -
  have "replicate 64 NUL = NUL # replicate 63 NUL" by (simp add: eval_nat_numeral)
  then show ?thesis using assms by (simp add: enc_inv_def)
qed

lemma take_byte_ok:
  assumes "enc_inv st (u @ w) bs" "length u = 8" "fits (length bs)" "int (length bs) < int_max"
  shows "\<exists>st'. take_byte emit st = Inr st' \<and> enc_inv st' w (bs @ [of_nat (bits_val u)])"
proof -
  obtain junk where ws: "working_string st = u @ w @ NUL # junk" "length (working_string st) = 64"
    and inv: "NUL \<notin> set w" "offset st = int (length (u @ w))" "length (str8 st) = 9"
      "written st = int (length bs)" "holds (output_bytes st) bs"
    using assms(1) by (auto simp: enc_inv_def)
  have r: "rd_front (working_string st) 8 = Inr u"
    using rd_front_int [of 8 "working_string st"] ws assms(2) by simp
  have bl: "blit (str8 st) 0 u = Inr (u @ drop 8 (str8 st))"
    using blit_int [of 0 u "str8 st"] assms(2) inv(3) by simp
  have b: "str_to_byte (u @ drop 8 (str8 st)) = Inr (of_nat (bits_val u))"
    using str_to_byte_take [of "u @ drop 8 (str8 st)"] assms(2) by simp
  let ?st = "st\<lparr>str8 := u @ drop 8 (str8 st)\<rparr>"
  obtain out where out: "emit (of_nat (bits_val u)) ?st = Inr (?st\<lparr>output_bytes := out\<rparr>)"
    "holds out (bs @ [of_nat (bits_val u)])"
    using emit [of ?st bs "of_nat (bits_val u)"] inv assms(3) by auto
  have sd: "strcpy_down (working_string st) 8 =
      Inr (w @ NUL # drop (length w + 1) (working_string st))"
    using strcpy_down_ok [OF inv(1), of u junk] assms(2) ws(1) by simp
  have a: "add_int (written st) 1 = Inr (int (length bs) + 1)"
    using inv(4) assms(4) by (subst add_int_ok) auto
  have lw: "length w + 1 \<le> 64" using ws by simp
  show ?thesis
    by (simp add: take_byte_def r bl b out a sd) (use inv assms(2,3) out lw ws in \<open>auto simp: enc_inv_def\<close>)
qed

lemma drain_loop_ok:
  "enc_inv st w bs \<Longrightarrow> \<forall>n < length (pack w). fits (length bs + n) \<Longrightarrow>
   int (length bs + length (pack w)) \<le> int_max \<Longrightarrow>
   \<exists>st'. drain_loop emit st = Inr st' \<and> enc_inv st' (leftover w) (bs @ pack w)"
proof (induction w arbitrary: st bs rule: pack.induct)
  case (1 w)
  obtain junk where ws: "working_string st = w @ NUL # junk" "NUL \<notin> set w"
    using 1(2) by (auto simp: enc_inv_def)
  then have n: "strlen (working_string st) = Inr (int (length w))" by simp
  show ?case
  proof (cases "8 \<le> length w")
    case True
    let ?b = "of_nat (bits_val (take 8 w))"
    have p: "pack w = ?b # pack (drop 8 w)" "leftover w = leftover (drop 8 w)"
      using True by (simp_all add: pack.simps [of w] leftover.simps [of w])
    have "fits (length bs)" using 1(3) [rule_format, of 0] by (simp add: p)
    then obtain st1 where st1: "take_byte emit st = Inr st1" "enc_inv st1 (drop 8 w) (bs @ [?b])"
      using take_byte_ok [of st "take 8 w" "drop 8 w" bs] 1(2,4) True by (auto simp: p)
    have "\<forall>n < length (pack (drop 8 w)). fits (length (bs @ [?b]) + n)"
    proof (intro allI impI)
      fix n assume "n < length (pack (drop 8 w))"
      then show "fits (length (bs @ [?b]) + n)" using 1(3) [rule_format, of "Suc n"] by (simp add: p)
    qed
    then obtain st2 where "drain_loop emit st1 = Inr st2"
      "enc_inv st2 (leftover (drop 8 w)) ((bs @ [?b]) @ pack (drop 8 w))"
      using 1(1) [OF True st1(2)] 1(4) p by auto
    then show ?thesis using n True st1(1) p by (subst drain_loop.simps) simp
  next
    case False
    then show ?thesis using n 1(2) by (subst drain_loop.simps) (simp add: pack_short)
  qed
qed

lemma append_code_ok:
  assumes "enc_inv st w bs" "j < length codes" "codes ! j = Some v" "NUL \<notin> set v"
    and "length w + length v < 64"
  shows "\<exists>st'. append_code codes (int j) st = Inr st' \<and> enc_inv st' (w @ v) bs"
proof -
  obtain junk where ws: "working_string st = w @ NUL # junk" "length (working_string st) = 64"
    "offset st = int (length w)" using assms(1) by (auto simp: enc_inv_def)
  have "strcpy (working_string st) (int (length w)) v =
      Inr (take (length w) (working_string st) @ v @ NUL #
        drop (length w + length v + 1) (working_string st))"
    using assms(5) ws(2) by (intro strcpy_ok) simp
  then have s: "strcpy (working_string st) (offset st) v =
      Inr ((w @ v) @ NUL # drop (length w + length v + 1) (working_string st))"
    using ws by simp
  show ?thesis
    using assms ws(2) by (simp add: append_code_def s) (auto simp: enc_inv_def)
qed

lemma pad_byte_ok:
  assumes "enc_inv st w bs" "length w < 8" "fits (length bs)" "int (length bs) < int_max"
  shows "\<exists>st'. pad_byte emit st = Inr st' \<and>
    written st' = int (length (bs @ encoded w)) \<and> holds (output_bytes st') (bs @ encoded w)"
proof -
  obtain junk where ws: "working_string st = w @ NUL # junk" "NUL \<notin> set w"
    using assms(1) by (auto simp: enc_inv_def)
  have inv: "written st = int (length bs)" "holds (output_bytes st) bs"
    using assms(1) by (auto simp: enc_inv_def)
  have c: "cstr (working_string st) = Inr w" using ws by simp
  show ?thesis
  proof (cases "w = []")
    case True
    then show ?thesis using inv c by (simp add: pad_byte_def encoded_def pack_short)
  next
    case False
    let ?p = "w @ NUL # drop (length w + 1) (replicate 8 NUL)"
    have p: "strcpy (replicate 8 NUL) 0 w = Inr ?p"
      using strcpy_ok [of 0 w "replicate 8 NUL"] assms(2) by simp
    have "8 - length w = Suc (7 - length w)" using assms(2) by simp
    then have pr: "?p = w @ replicate (8 - length w) NUL" by simp
    have "length ?p = 8" unfolding pr using assms(2) by simp
    then have "str_to_byte ?p = Inr (of_nat (bits_val ?p))" using str_to_byte_take [of ?p] by simp
    moreover have "bits_val ?p = bits_val (w @ replicate (8 - length w) (CHR ''0''))"
      unfolding pr by (simp add: bits_val_pad)
    ultimately have b: "str_to_byte ?p = Inr (of_nat (bits_val (w @ replicate (8 - length w) (CHR ''0''))))"
      by simp
    let ?b = "of_nat (bits_val (w @ replicate (8 - length w) (CHR ''0'')))"
    obtain q where q: "strcpy (replicate 8 NUL) 0 w = Inr q" "str_to_byte q = Inr ?b"
      using p b by blast
    obtain out where out: "emit ?b st = Inr (st\<lparr>output_bytes := out\<rparr>)" "holds out (bs @ [?b])"
      using emit [of st bs ?b] inv assms(3) by auto
    have a: "add_int (written st) 1 = Inr (int (length bs) + 1)"
      using inv(1) assms(4) by (subst add_int_ok) auto
    have e: "encoded w = [?b]" using False assms(2) by (simp add: encoded_def pack_short)
    show ?thesis
      unfolding pad_byte_def c e using False out(2) by (simp add: q out(1) a)
  qed
qed

end

section \<open>The codes of the alphabet\<close>

definition letter_tree :: "hf_node \<Rightarrow> bool" where
  "letter_tree t \<longleftrightarrow> proper t \<and> mset (map fst (leaves t)) = mset letters"

definition code_of :: "hf_node \<Rightarrow> char \<Rightarrow> string" where
  "code_of t x = the (map_of (codes_of t []) x)"

definition text_bits :: "hf_node \<Rightarrow> string \<Rightarrow> string" where
  "text_bits t s = concat (map (code_of t) s)"

definition code_table :: "hf_node \<Rightarrow> char list option list" where
  "code_table t = map (map_of (codes_of t [])) letters"

lemma text_bits_simps [simp]:
  "text_bits t [] = []" "text_bits t (x # s) = code_of t x @ text_bits t s"
  "text_bits t (s @ s') = text_bits t s @ text_bits t s'"
  by (simp_all add: text_bits_def)

lemma length_leaves_letter_tree: "letter_tree t \<Longrightarrow> length (leaves t) = 56"
  unfolding letter_tree_def by (metis length_map letters_alphabet(1) size_mset)

lemma map_of_code:
  assumes "letter_tree t" "x \<in> set letters"
  shows "map_of (codes_of t []) x = Some (code_of t x)"
proof -
  have "set (map fst (leaves t)) = set letters"
    using assms(1) unfolding letter_tree_def by (metis set_mset_mset)
  then have "x \<in> fst ` set (codes_of t [])"
    using assms(2) by (metis fst_codes_of list.set_map)
  then obtain w where "map_of (codes_of t []) x = Some w" by (metis map_of_eq_None_iff not_None_eq)
  then show ?thesis by (simp add: code_of_def)
qed

lemma code_in_codes: "letter_tree t \<Longrightarrow> x \<in> set letters \<Longrightarrow> (x, code_of t x) \<in> set (codes_of t [])"
  using map_of_code map_of_SomeD by metis

lemma code_of_props:
  assumes "letter_tree t" "x \<in> set letters"
  shows "set (code_of t x) \<subseteq> set ''01''" "length (code_of t x) \<le> 55" "NUL \<notin> set (code_of t x)"
proof -
  have p: "proper t" using assms(1) by (simp add: letter_tree_def)
  show s: "set (code_of t x) \<subseteq> set ''01''"
    using codes_of_bits [OF code_in_codes [OF assms]] by simp
  show "length (code_of t x) \<le> 55"
    using codes_of_length [OF code_in_codes [OF assms]] height_less_leaves [OF p]
      length_leaves_letter_tree [OF assms(1)] by simp
  show "NUL \<notin> set (code_of t x)" using s by auto
qed

lemma code_of_prefix_free:
  assumes "letter_tree t" "x \<in> set letters" "y \<in> set letters" "prefix (code_of t x) (code_of t y)"
  shows "x = y"
  using codes_of_prefix_free [OF code_in_codes [OF assms(1,2)] code_in_codes [OF assms(1,3)] assms(4)]
  by simp

lemma code_table_index:
  "letter_tree t \<Longrightarrow> x \<in> set letters \<Longrightarrow>
     code_table t ! index_of letters x = Some (code_of t x)"
  using index_of_less [of letters x] by (simp add: code_table_def map_of_code del: index_of_less)

lemma text_bits_01: "letter_tree t \<Longrightarrow> set s \<subseteq> set letters \<Longrightarrow> set (text_bits t s) \<subseteq> set ''01''"
  using code_of_props(1) by (fastforce simp: text_bits_def)

lemma length_text_bits:
  "letter_tree t \<Longrightarrow> set s \<subseteq> set letters \<Longrightarrow> length (text_bits t s) \<le> 55 * length s"
proof (induction s)
  case (Cons x s)
  then show ?case using code_of_props(2) [of t x] by simp
qed simp

lemma code_of_nonempty:
  assumes "letter_tree t" "x \<in> set letters"
  shows "code_of t x \<noteq> []"
proof
  assume "code_of t x = []"
  obtain y where "y \<in> set letters" "y \<noteq> x"
    by (metis (no_types) distinct_length_2_or_more letters_alphabet(2) letters_def
        list.set_intros append_Cons)
  with \<open>code_of t x = []\<close> code_of_prefix_free [OF assms] show False by fastforce
qed

lemma length_text_bits_ge:
  "letter_tree t \<Longrightarrow> set s \<subseteq> set letters \<Longrightarrow> length s \<le> length (text_bits t s)"
proof (induction s)
  case (Cons x s)
  then show ?case using code_of_nonempty [of t x] by (cases "code_of t x") auto
qed simp

lemma good_tree_letters:
  assumes "good_tree t" "mset (leaves t) = mset (zip letters fs)" "length fs = 56"
  shows "letter_tree t"
proof -
  have "mset (map fst (leaves t)) = image_mset fst (mset (leaves t))" by simp
  also have "\<dots> = mset (map fst (zip letters fs))" unfolding assms(2) by simp
  also have "map fst (zip letters fs) = letters" using assms(3) by simp
  finally show ?thesis using assms(1) by (simp add: letter_tree_def good_tree_def)
qed

section \<open>Encoding a letter\<close>

context byte_sink
begin

lemma encode_letter:
  assumes t: "letter_tree t" and x: "x \<in> set letters"
    and inv: "enc_inv st (leftover B) (pack B)"
    and room: "\<forall>n < length (pack (B @ code_of t x)). fits n"
    and len: "int (length (pack (B @ code_of t x))) \<le> int_max"
  shows "\<exists>st'. bindE (append_code (code_table t) (int (index_of letters x)) st) (drain_loop emit) =
      Inr st' \<and> enc_inv st' (leftover (B @ code_of t x)) (pack (B @ code_of t x))"
proof -
  have "index_of letters x < length (code_table t)"
    using x index_of_less [of letters x] by (simp add: code_table_def)
  then obtain st1 where st1: "append_code (code_table t) (int (index_of letters x)) st = Inr st1"
    "enc_inv st1 (leftover B @ code_of t x) (pack B)"
    using append_code_ok [OF inv _ code_table_index [OF t x] code_of_props(3) [OF t x]]
      leftover_less [of B] code_of_props(2) [OF t x] by auto
  have p: "pack (B @ code_of t x) = pack B @ pack (leftover B @ code_of t x)"
    "leftover (B @ code_of t x) = leftover (leftover B @ code_of t x)"
    using pack_append by blast+
  have "\<forall>n < length (pack (leftover B @ code_of t x)). fits (length (pack B) + n)"
    using room by (simp add: p)
  then obtain st2 where "drain_loop emit st1 = Inr st2"
    "enc_inv st2 (leftover (B @ code_of t x)) (pack (B @ code_of t x))"
    using drain_loop_ok [OF st1(2)] len p by auto
  then show ?thesis using st1(1) by simp
qed

end

section \<open>\<open>compress.c\<close>\<close>

interpretation fs: byte_sink write_byte "\<lambda>out bs. out = hdr @ bs" "\<lambda>n. True" for hdr
  by unfold_locales (simp add: write_byte_def)

lemma less_unsigned_nat:
  "int n \<le> int_max \<Longrightarrow> i \<le> n \<Longrightarrow> less_unsigned (int i) (of_nat n) \<longleftrightarrow> i < n"
  by (simp add: less_unsigned_def word_less_nat_alt unat_of_nat)

lemma length_pack_mono: "length (pack B) \<le> length (pack (B @ c))"
  using pack_append [of B c] by simp

lemma compress_loop_run:
  assumes t: "letter_tree t"
  shows "set s \<subseteq> set letters \<Longrightarrow> length pre + length s \<le> N \<Longrightarrow> int N \<le> int_max \<Longrightarrow>
    fs.enc_inv hdr st (leftover B) (pack B) \<Longrightarrow>
    int (length (pack (B @ text_bits t s))) \<le> int_max \<Longrightarrow>
    \<exists>st'. compress_loop (pre @ s @ rest) (of_nat N) (code_table t) st (int (length pre)) =
        compress_loop (pre @ s @ rest) (of_nat N) (code_table t) st' (int (length pre + length s)) \<and>
      fs.enc_inv hdr st' (leftover (B @ text_bits t s)) (pack (B @ text_bits t s))"
proof (induction s arbitrary: pre st B)
  case (Cons x s)
  have x: "x \<in> set letters" and s: "set s \<subseteq> set letters" using Cons.prems(1) by auto
  have "length (pack (B @ code_of t x)) \<le> length (pack ((B @ code_of t x) @ text_bits t s))"
    by (rule length_pack_mono)
  then obtain st1 where st1: "bindE (append_code (code_table t) (int (index_of letters x)) st)
      (drain_loop write_byte) = Inr st1"
    "fs.enc_inv hdr st1 (leftover (B @ code_of t x)) (pack (B @ code_of t x))"
    using fs.encode_letter [OF t x Cons.prems(4)] Cons.prems(5) by auto
  obtain st2 where st2: "append_code (code_table t) (int (index_of letters x)) st = Inr st2"
    "drain_loop write_byte st2 = Inr st1"
    using st1(1) by auto
  have j: "int (index_of letters x) \<noteq> 56" using x index_of_less [of letters x] by simp
  have a: "add_int (int (length pre)) 1 = Inr (int (length (pre @ [x])))"
    using Cons.prems(2,3) by (subst add_int_ok) auto
  have lt: "less_unsigned (int (length pre)) (of_nat N)"
    using Cons.prems(2,3) by (subst less_unsigned_nat) auto
  have step: "compress_loop (pre @ (x # s) @ rest) (of_nat N) (code_table t) st (int (length pre)) =
      compress_loop ((pre @ [x]) @ s @ rest) (of_nat N) (code_table t) st1 (int (length (pre @ [x])))"
    using lt j st2 a by (subst compress_loop.simps) (simp add: rd_append find_letter_0)
  have le: "length (pre @ [x]) + length s \<le> N" using Cons.prems(2) by simp
  have pk: "int (length (pack ((B @ code_of t x) @ text_bits t s))) \<le> int_max"
    using Cons.prems(5) by simp
  obtain st3 where st3: "compress_loop ((pre @ [x]) @ s @ rest) (of_nat N) (code_table t) st1
      (int (length (pre @ [x]))) =
      compress_loop ((pre @ [x]) @ s @ rest) (of_nat N) (code_table t) st3
        (int (length (pre @ [x]) + length s))"
    "fs.enc_inv hdr st3 (leftover ((B @ code_of t x) @ text_bits t s))
      (pack ((B @ code_of t x) @ text_bits t s))"
    using Cons.IH [OF s le Cons.prems(3) st1(2) pk] by blast
  show ?case
    using step st3 by (intro exI [of _ st3]) simp
qed (auto intro!: exI)

lemma compress_loop_end:
  "int N \<le> int_max \<Longrightarrow> compress_loop txt (of_nat N) codes st (int N) = Inr (Inr st)"
  by (subst compress_loop.simps) (simp add: less_unsigned_nat)

lemma compress_loop_invalid:
  assumes "x \<notin> set letters" "int N \<le> int_max" "length pre < N"
  shows "compress_loop (pre @ x # rest) (of_nat N) codes st (int (length pre)) =
    Inr (Inl (Invalid_character x (output_bytes st)))"
  using assms less_unsigned_nat [of N "length pre"]
  by (subst compress_loop.simps) (simp add: rd_append find_letter_0 index_of_notin)

text \<open>The tree that \<open>HuffmanCodes\<close> builds for a text.\<close>

definition text_tree :: "string \<Rightarrow> hf_node" where
  "text_tree s = projr (build_HF_Tree letters (counts letters s) 56)"

lemma text_tree_ok:
  assumes "set s \<subseteq> set letters" "int (length s) \<le> int_max" "length codes = 56"
  shows "HuffmanCodes letters (counts letters s) 56 codes =
      Inr (tree_string (text_tree s) @ replicate 89 NUL, code_table (text_tree s))"
    "letter_tree (text_tree s)"
proof -
  obtain t where t: "build_HF_Tree letters (counts letters s) 56 = Inr t" "good_tree t"
    "mset (leaves t) = mset (zip letters (counts letters s))"
    "HuffmanCodes letters (counts letters s) 56 codes =
      Inr (tree_string t @ replicate 89 NUL, map (map_of (codes_of t [])) letters)"
    using HuffmanCodes_ok [of letters "counts letters s" codes] assms counts_nonneg
    by (auto simp: sum_counts)
  then show "HuffmanCodes letters (counts letters s) 56 codes =
      Inr (tree_string (text_tree s) @ replicate 89 NUL, code_table (text_tree s))"
    "letter_tree (text_tree s)"
    using good_tree_letters [OF t(2,3)] by (simp_all add: text_tree_def code_table_def)
qed

lemma tree_string_text_tree:
  assumes "letter_tree t"
  shows "length (tree_string t) = 167" "NUL \<notin> set (tree_string t)"
proof -
  have p: "proper t" using assms by (simp add: letter_tree_def)
  show "length (tree_string t) = 167"
    using length_tree_string [OF p] length_leaves_letter_tree [OF assms] by simp
  have "fst ` set (leaves t) = set letters"
    using assms unfolding letter_tree_def by (metis list.set_map set_mset_mset)
  then show "NUL \<notin> set (tree_string t)" using set_tree_string [of t] by auto
qed

lemma header_string:
  assumes "letter_tree t"
  shows "strlen (tree_string t @ replicate 89 NUL) = Inr 167"
    "rd_front (tree_string t @ replicate 89 NUL) 167 = Inr (tree_string t)"
  using tree_string_text_tree [OF assms] strlen_append [of "tree_string t" "replicate 88 NUL"]
    rd_front_int [of 167 "tree_string t @ replicate 89 NUL"] by (simp_all add: eval_nat_numeral)

text \<open>The file: total, header and text length, the tree, the bytes.\<close>

definition file_of :: "string \<Rightarrow> 8 word list" where
  "file_of s =
     (let t = text_tree s; bs = encoded (text_bits t s) in
      le32 (of_nat (179 + length bs)) @ le32 167 @ le32 (of_nat (length s)) @
      bytes_of (tree_string t) @ bs)"

lemma pack_text_bound:
  assumes "letter_tree t" "set s \<subseteq> set letters" "7 * int (length s) \<le> int_max"
  shows "int (length (pack (text_bits t s))) < int_max"
proof -
  have "8 * length (pack (text_bits t s)) \<le> 55 * length s"
    using length_text_bits [OF assms(1,2)] length_pack [of "text_bits t s"] by linarith
  then show ?thesis using assms(3) by linarith
qed

lemma encoded_pack: "encoded w = pack w @ encoded (leftover w)"
  using leftover_less [of w] by (simp add: encoded_def pack_short)

lemma compress_loop_all:
  assumes t: "letter_tree t" and s: "set s \<subseteq> set letters" "7 * int (length s) \<le> int_max"
    and inv: "fs.enc_inv hdr st [] []"
  shows "\<exists>st' st''. compress_loop (s @ rest) (of_nat (length s)) (code_table t) st 0 = Inr (Inr st') \<and>
    pad_byte write_byte st' = Inr st'' \<and>
    written st'' = int (length (encoded (text_bits t s))) \<and>
    output_bytes st'' = hdr @ encoded (text_bits t s)"
proof -
  have b: "int (length (pack (text_bits t s))) < int_max" by (rule pack_text_bound [OF t s])
  have n: "int (length s) \<le> int_max" using s(2) by simp
  obtain st' where st': "compress_loop (s @ rest) (of_nat (length s)) (code_table t) st 0 =
      compress_loop (s @ rest) (of_nat (length s)) (code_table t) st' (int (length s))"
    "fs.enc_inv hdr st' (leftover (text_bits t s)) (pack (text_bits t s))"
    using compress_loop_run [OF t s(1), of "[]" "length s" hdr st "[]" rest] inv b n
    by (auto simp: pack_short)
  obtain st'' where "pad_byte write_byte st' = Inr st''"
    "written st'' = int (length (pack (text_bits t s) @ encoded (leftover (text_bits t s))))"
    "output_bytes st'' = hdr @ pack (text_bits t s) @ encoded (leftover (text_bits t s))"
    using fs.pad_byte_ok [OF st'(2) leftover_less _ b] by blast
  then show ?thesis
    using st'(1) compress_loop_end [OF n] by (auto simp flip: encoded_pack)
qed

lemma blit_le32_front: "blit (le32 v @ xs) 0 (le32 w) = Inr (le32 w @ xs)"
  using blit_int [of 0 "le32 w" "le32 v @ xs"] by simp

lemma compress_main_result:
  assumes "3 \<le> argc" "set s \<subseteq> set letters" "7 * int (length s) \<le> int_max"
  shows "compress_main argc (Some s) (NUL # rest) True = Inr (Output_file (file_of s))"
proof -
  have n: "int (length s) \<le> int_max" using assms(3) by simp
  have nul: "NUL \<notin> set s" using assms(2) NUL_not_letter by blast
  let ?t = "text_tree s" and ?bs = "encoded (text_bits (text_tree s) s)"
  have fr: "prepare_frequencies (s @ NUL # rest) letters (replicate 56 0) = Inr (counts letters s)"
    using nul assms(2) n by (intro prepare_frequencies_ok) simp_all
  have hc: "HuffmanCodes letters (counts letters s) 56 (replicate 56 None) =
      Inr (tree_string ?t @ replicate 89 NUL, code_table ?t)"
    using text_tree_ok(1) [OF assms(2) n] by simp
  have t: "letter_tree ?t" by (rule text_tree_ok(2) [OF assms(2) n, of "replicate 56 None"]) simp
  note hd = header_string [OF t]
  let ?hdr = "le32 0 @ le32 167 @ le32 (of_nat (length s)) @ bytes_of (tree_string ?t)"
  let ?st = "\<lparr>working_string = replicate 64 NUL, offset = 0, str8 = replicate 9 NUL,
    output_bytes = ?hdr, written = 0\<rparr>"
  have "fs.enc_inv ?hdr ?st [] []" by (rule fs.enc_inv_init) simp
  then obtain st' st'' where st: "compress_loop (s @ NUL # rest) (of_nat (length s)) (code_table ?t) ?st 0 =
      Inr (Inr st')"
    "pad_byte write_byte st' = Inr st''" "written st'' = int (length ?bs)"
    "output_bytes st'' = ?hdr @ ?bs"
    using compress_loop_all [OF t assms(2,3)] by blast
  show ?thesis
    using assms(1)
    by (simp add: compress_main_def fr hc hd st blit_le32_front Let_def file_of_def)
qed

text \<open>
  The check of the encoding loop sees only the character 0: any other character outside the
  alphabet has stopped \<open>prepare_frequencies\<close> before.
\<close>

lemma compress_main_NUL:
  assumes "3 \<le> argc" "set s \<subseteq> set letters" "7 * int (length s) \<le> int_max"
    and "int (length (s @ NUL # behind)) \<le> int_max"
  shows "compress_main argc (Some (s @ NUL # behind)) slack True =
    Inr (Invalid_character NUL
      (le32 0 @ le32 167 @ le32 (of_nat (length (s @ NUL # behind))) @
       bytes_of (tree_string (text_tree s)) @ pack (text_bits (text_tree s) s)))"
proof -
  have n: "int (length s) \<le> int_max" using assms(3) by simp
  have nul: "NUL \<notin> set s" using assms(2) NUL_not_letter by blast
  let ?t = "text_tree s" and ?N = "length (s @ NUL # behind)"
  have fr: "prepare_frequencies (s @ NUL # behind @ slack) letters (replicate 56 0) =
      Inr (counts letters s)"
    using nul assms(2) n by (intro prepare_frequencies_ok) simp_all
  have hc: "HuffmanCodes letters (counts letters s) 56 (replicate 56 None) =
      Inr (tree_string ?t @ replicate 89 NUL, code_table ?t)"
    using text_tree_ok(1) [OF assms(2) n] by simp
  have t: "letter_tree ?t" by (rule text_tree_ok(2) [OF assms(2) n, of "replicate 56 None"]) simp
  note hd = header_string [OF t]
  let ?hdr = "le32 0 @ le32 167 @ le32 (of_nat ?N) @ bytes_of (tree_string ?t)"
  let ?st = "\<lparr>working_string = replicate 64 NUL, offset = 0, str8 = replicate 9 NUL,
    output_bytes = ?hdr, written = 0\<rparr>"
  have inv: "fs.enc_inv ?hdr ?st [] []" by (rule fs.enc_inv_init) simp
  have b: "int (length (pack (text_bits ?t s))) < int_max" by (rule pack_text_bound [OF t assms(2,3)])
  obtain st' where st': "compress_loop (s @ NUL # behind @ slack) (of_nat ?N) (code_table ?t) ?st 0 =
      compress_loop (s @ NUL # behind @ slack) (of_nat ?N) (code_table ?t) st' (int (length s))"
    "fs.enc_inv ?hdr st' (leftover (text_bits ?t s)) (pack (text_bits ?t s))"
    using compress_loop_run [OF t assms(2), of "[]" ?N ?hdr ?st "[]" "NUL # behind @ slack"]
      inv b assms(4) by (auto simp: pack_short)
  have out: "output_bytes st' = ?hdr @ pack (text_bits ?t s)"
    by (rule conjunct2 [OF conjunct2 [OF conjunct2 [OF conjunct2 [OF conjunct2
      [OF iffD1 [OF fs.enc_inv_def st'(2)]]]]]])
  have "compress_loop (s @ NUL # behind @ slack) (of_nat ?N) (code_table ?t) st' (int (length s)) =
      Inr (Inl (Invalid_character NUL (output_bytes st')))"
    by (rule compress_loop_invalid) (use assms(4) in simp_all)
  then show ?thesis
    using assms(1) st'(1) out
    by (simp add: compress_main_def fr hc hd Let_def)
qed

lemma compress_main_foreign:
  assumes "3 \<le> argc" "set s \<subseteq> set letters" "int (length s) \<le> int_max" "x \<notin> set letters" "x \<noteq> NUL"
  shows "compress_main argc (Some (s @ x # behind)) slack opens = Inl Out_of_bounds"
proof -
  have "NUL \<notin> set s" using assms(2) NUL_not_letter by blast
  then have "prepare_frequencies (s @ x # behind @ slack) letters (replicate 56 0) = Inl Out_of_bounds"
    using assms by (intro prepare_frequencies_foreign) simp_all
  then show ?thesis using assms(1) by (simp add: compress_main_def Let_def)
qed

lemma compress_main_unterminated:
  assumes "3 \<le> argc" "set s \<subseteq> set letters" "int (length s) \<le> int_max"
  shows "compress_main argc (Some s) [] opens = Inl Out_of_bounds"
proof -
  have "NUL \<notin> set s" using assms(2) NUL_not_letter by blast
  then have "prepare_frequencies s letters (replicate 56 0) = Inl Out_of_bounds"
    using assms by (intro prepare_frequencies_unterminated) simp_all
  then show ?thesis using assms(1) by (simp add: compress_main_def Let_def)
qed

end
