(* ===== verification/DecompressProofs.thy ===== *)
theory DecompressProofs
  imports CompressProofs
begin

text \<open>
  Correctness of \<open>src/decompress.c\<close>: the match loop takes complete codes off the working
  string in the only possible way, the working string never leaves its 64 bytes, and the
  decompressor prints the text of a file that \<open>compress.c\<close> wrote, unless the padding of the
  last byte decodes to two or more letters.
\<close>

section \<open>Parsing code words\<close>

text \<open>\<open>zs\<close> are the letters that can be read off \<open>w\<close>, \<open>r\<close> is what is left.\<close>

definition parse :: "hf_node \<Rightarrow> string \<Rightarrow> string \<Rightarrow> string \<Rightarrow> bool" where
  "parse t w zs r \<longleftrightarrow> set zs \<subseteq> set letters \<and> w = text_bits t zs @ r \<and>
     (\<forall>x \<in> set letters. \<not> prefix (code_of t x) r)"

lemma parse_Cons:
  assumes "parse t (code_of t x @ w) zs r" "letter_tree t" "x \<in> set letters"
  obtains zs' where "zs = x # zs'" "parse t w zs' r"
proof (cases zs)
  case Nil
  then show ?thesis using assms(1,3) by (auto simp: parse_def)
next
  case (Cons y zs')
  then have y: "y \<in> set letters" "code_of t x @ w = code_of t y @ text_bits t zs' @ r"
    using assms(1) by (auto simp: parse_def)
  then have "prefix (code_of t x) (code_of t y) \<or> prefix (code_of t y) (code_of t x)"
    by (metis prefix_same_cases prefixI)
  then have "x = y"
    using code_of_prefix_free [OF assms(2,3) y(1)] code_of_prefix_free [OF assms(2) y(1) assms(3)] by blast
  then show ?thesis using that [of zs'] Cons y assms(1) by (auto simp: parse_def)
qed

lemma parse_exists:
  assumes "letter_tree t"
  shows "\<exists>zs r. parse t w zs r"
proof (induction "length w" arbitrary: w rule: less_induct)
  case less
  show ?case
  proof (cases "\<exists>x \<in> set letters. prefix (code_of t x) w")
    case True
    then obtain x v where x: "x \<in> set letters" "w = code_of t x @ v" by (auto simp: prefix_def)
    then have "length v < length w" using code_of_nonempty [OF assms x(1)] by simp
    then obtain zs r where "parse t v zs r" using less by blast
    then have "parse t w (x # zs) r" using x by (simp add: parse_def)
    then show ?thesis by blast
  next
    case False
    then have "parse t w [] w" by (simp add: parse_def)
    then show ?thesis by blast
  qed
qed

lemma parse_text:
  "letter_tree t \<Longrightarrow> set s \<subseteq> set letters \<Longrightarrow> parse t w zs r \<Longrightarrow> parse t (text_bits t s @ w) (s @ zs) r"
  by (auto simp: parse_def)

lemma parse_split:
  "letter_tree t \<Longrightarrow> set s \<subseteq> set letters \<Longrightarrow> parse t (text_bits t s @ w) zs r \<Longrightarrow>
   \<exists>zs'. zs = s @ zs' \<and> parse t w zs' r"
proof (induction s arbitrary: zs)
  case (Cons x s)
  then obtain us where us: "zs = x # us" "parse t (text_bits t s @ w) us r"
    using parse_Cons [of t x "text_bits t s @ w" zs r] by auto
  obtain zs' where "us = s @ zs'" "parse t w zs' r"
    using Cons.IH [OF _ _ us(2)] Cons.prems by auto
  then show ?case using us(1) by simp
qed simp

section \<open>What cannot be parsed is short\<close>

lemma long_bits_have_code:
  "proper t \<Longrightarrow> set r \<subseteq> set ''01'' \<Longrightarrow> height t \<le> length r \<Longrightarrow>
   \<exists>(l, w) \<in> set (codes_of t p). prefix w (p @ r)"
proof (induction t arbitrary: p r rule: proper_induct)
  case (leaf l f)
  then show ?case by simp
next
  case (node l f a b)
  have ab: "a \<noteq> Null" "b \<noteq> Null" using node.hyps by auto
  obtain x r' where r: "r = x # r'" using node.prems(2) ab by (cases r) auto
  have h: "height a \<le> length r'" "height b \<le> length r'" using node.prems(2) ab r by auto
  have s: "set r' \<subseteq> set ''01''" "x = CHR ''0'' \<or> x = CHR ''1''" using node.prems(1) r by auto
  from s(2) show ?case
  proof
    assume x: "x = CHR ''0''"
    show ?thesis using node.IH(1) [OF s(1) h(1), of "p @ ''0''"] ab r x by auto
  next
    assume x: "x = CHR ''1''"
    show ?thesis using node.IH(2) [OF s(1) h(2), of "p @ ''1''"] ab r x by auto
  qed
qed

lemma parse_rest_short:
  assumes t: "letter_tree t" and r: "set r \<subseteq> set ''01''" and p: "parse t w zs r"
  shows "length r \<le> 54"
proof (rule ccontr)
  assume "\<not> length r \<le> 54"
  moreover have pr: "proper t" using t by (simp add: letter_tree_def)
  moreover have "height t \<le> 55"
    using height_less_leaves [OF pr] length_leaves_letter_tree [OF t] by simp
  ultimately obtain l v where v: "(l, v) \<in> set (codes_of t [])" "prefix v r"
    using long_bits_have_code [OF pr r, of "[]"] by auto
  have "fst ` set (codes_of t []) = set letters"
    using t unfolding letter_tree_def by (metis fst_codes_of list.set_map set_mset_mset)
  then have l: "l \<in> set letters" using v(1) by force
  have "distinct (map fst (codes_of t []))"
    using t unfolding letter_tree_def fst_codes_of
    by (metis letters_alphabet(2) mset_eq_imp_distinct_iff)
  then have "code_of t l = v" using v(1) by (simp add: code_of_def)
  then show False using p l v(2) by (auto simp: parse_def)
qed

section \<open>The match loop\<close>

text \<open>
  The working string holds the bits \<open>w\<close>, the letters \<open>ys\<close> have been stored in a buffer of
  \<open>cap\<close> cells.
\<close>

definition dec_inv :: "nat \<Rightarrow> dec_state \<Rightarrow> string \<Rightarrow> string \<Rightarrow> bool" where
  "dec_inv cap st w ys \<longleftrightarrow>
     (\<exists>junk. dec_working st = w @ NUL # junk \<and> length (dec_working st) = 64) \<and>
     NUL \<notin> set w \<and> dec_offset st = int (length w) \<and> uncomp_str_index st = int (length ys) \<and>
     length ys \<le> cap \<and> uncompressed_string st = map Some ys @ replicate (cap - length ys) None"

lemma matches_code_ok:
  assumes "dec_inv cap st w ys" "length v \<le> 63" "NUL \<notin> set v"
  shows "matches_code (dec_working st) v = Inr (prefix v w)"
proof -
  obtain junk where ws: "dec_working st = w @ NUL # junk" "length (dec_working st) = 64"
    using assms(1) by (auto simp: dec_inv_def)
  have "take (length v) (w @ NUL # junk) = v \<longleftrightarrow> prefix v w"
  proof (cases "length v \<le> length w")
    case True
    then show ?thesis by (auto simp: prefix_def) (metis append_take_drop_id)
  next
    case False
    then have "NUL \<in> set (take (length v) (w @ NUL # junk))" by (simp add: take_Cons')
    then have "take (length v) (w @ NUL # junk) \<noteq> v" using assms(3) by metis
    moreover have "\<not> prefix v w" using False prefix_length_le by blast
    ultimately show ?thesis by blast
  qed
  then show ?thesis using ws assms(2) by (simp add: matches_code_def)
qed

lemma consume_code_ok:
  assumes inv: "dec_inv cap st (v @ w) ys" and j: "j < 56" and cap: "length ys < cap"
  shows "\<exists>st'. consume_code (int j) v st = Inr st' \<and> dec_inv cap st' w (ys @ [letters ! j]) \<and>
    input st' = input st \<and> byte st' = byte st"
proof -
  obtain junk where ws: "dec_working st = v @ w @ NUL # junk" "length (dec_working st) = 64"
    and d: "NUL \<notin> set w" "dec_offset st = int (length (v @ w))" "uncomp_str_index st = int (length ys)"
      "uncompressed_string st = map Some ys @ replicate (cap - length ys) None"
    using inv by (auto simp: dec_inv_def)
  have r: "replicate (cap - length ys) (None :: char option) = None # replicate (cap - Suc (length ys)) None"
    using cap by (metis Suc_diff_Suc replicate_Suc)
  have u: "wr (uncompressed_string st) (int (length ys)) (Some (letters ! j)) =
      Inr (map Some (ys @ [letters ! j]) @ replicate (cap - Suc (length ys)) None)"
    using wr_append [of "map Some ys"] by (simp add: d(4) r)
  have sd: "strcpy_down (dec_working st) (int (length v)) =
      Inr (w @ NUL # drop (length w + 1) (dec_working st))"
    using strcpy_down_ok [OF d(1), of v junk] ws(1) by simp
  have l: "rd letters (int j) = Inr (letters ! j)" using j by simp
  let ?st = "st\<lparr>uncompressed_string := map Some (ys @ [letters ! j]) @ replicate (cap - Suc (length ys)) None,
    uncomp_str_index := int (length ys) + 1,
    dec_working := w @ NUL # drop (length w + 1) (dec_working st),
    dec_offset := dec_offset st - int (length v)\<rparr>"
  have "consume_code (int j) v st = Inr ?st"
    by (simp only: consume_code_def l u d(3) sd bindE.simps)
  moreover have "dec_inv cap ?st w (ys @ [letters ! j])"
    using cap ws d(1,2) by (simp add: dec_inv_def)
  ultimately show ?thesis by (intro exI [of _ ?st]) simp
qed

lemma consume_code_full:
  assumes "dec_inv cap st w ys" "j < 56" "cap \<le> length ys"
  shows "consume_code (int j) v st = Inl Out_of_bounds"
proof -
  have "length (uncompressed_string st) = length ys" "uncomp_str_index st = int (length ys)"
    using assms(1,3) unfolding dec_inv_def by (simp_all only: length_append length_map length_replicate)
  then have "\<not> uncomp_str_index st < int (length (uncompressed_string st))" by linarith
  then have "wr (uncompressed_string st) (uncomp_str_index st) x = Inl Out_of_bounds" for x
    by (simp only: wr_def simp_thms if_False)
  moreover have "rd letters (int j) = Inr (letters ! j)" using assms(2) by simp
  ultimately show ?thesis by (simp only: consume_code_def bindE.simps)
qed

text \<open>The outcome of the loops on bits that parse to \<open>zs\<close>.\<close>

definition pass_ok ::
  "hf_node \<Rightarrow> nat \<Rightarrow> nat \<Rightarrow> string \<Rightarrow> string \<Rightarrow> string \<Rightarrow> string \<Rightarrow> bool \<Rightarrow> dec_state
    \<Rightarrow> (bool \<times> dec_state) c \<Rightarrow> bool" where
  "pass_ok t cap j w ys zs r matches st res \<longleftrightarrow>
     (\<exists>m st' zs1 zs2 w'. res = Inr (m, st') \<and> zs = zs1 @ zs2 \<and> w = text_bits t zs1 @ w' \<and>
        dec_inv cap st' w' (ys @ zs1) \<and> parse t w' zs2 r \<and> m = (matches \<or> zs1 \<noteq> []) \<and>
        (zs1 = [] \<longrightarrow> (\<forall>i. j \<le> i \<longrightarrow> i < 56 \<longrightarrow> \<not> prefix (code_of t (letters ! i)) w)) \<and>
        input st' = input st \<and> byte st' = byte st) \<or>
     cap < length (ys @ zs) \<and> res = Inl Out_of_bounds"

lemma match_for_ok:
  assumes t: "letter_tree t"
  shows "dec_inv cap st w ys \<Longrightarrow> parse t w zs r \<Longrightarrow> j \<le> 56 \<Longrightarrow>
    pass_ok t cap j w ys zs r matches st (match_for (code_table t) (int j) matches st)"
proof (induction "56 - j" arbitrary: j st w ys zs matches)
  case 0
  then have "match_for (code_table t) (int j) matches st = Inr (matches, st)"
    by (subst match_for.simps) simp
  then show ?case
    using 0 unfolding pass_ok_def
    by (intro disjI1 exI [of _ matches] exI [of _ st] exI [of _ "[]"] exI [of _ zs] exI [of _ w]) simp
next
  case (Suc k)
  then have j: "j < 56" and k: "k = 56 - Suc j" "Suc j \<le> 56" by simp_all
  let ?x = "letters ! j"
  have x: "?x \<in> set letters" using j by simp
  have c: "rd_cell (code_table t) (int j) = Inr (code_of t ?x)"
    using j map_of_code [OF t x] by (simp add: code_table_def)
  have eq: "matches_code (dec_working st) (code_of t ?x) = Inr (prefix (code_of t ?x) w)"
    using code_of_props [OF t x] by (intro matches_code_ok [OF Suc.prems(1)]) simp_all
  have unroll: "match_for (code_table t) (int j) matches st =
      (if prefix (code_of t ?x) w
       then bindE (consume_code (int j) (code_of t ?x) st) (match_for (code_table t) (int (Suc j)) True)
       else match_for (code_table t) (int (Suc j)) matches st)"
    using j c eq by (subst match_for.simps) (simp add: add.commute)
  show ?case
  proof (cases "prefix (code_of t ?x) w")
    case False
    have "pass_ok t cap (Suc j) w ys zs r matches st (match_for (code_table t) (int (Suc j)) matches st)"
      by (rule Suc.hyps(1) [OF k(1) Suc.prems(1,2) k(2)])
    moreover have "\<forall>i. j \<le> i \<longrightarrow> i < 56 \<longrightarrow> \<not> prefix (code_of t (letters ! i)) w"
      if "\<forall>i. Suc j \<le> i \<longrightarrow> i < 56 \<longrightarrow> \<not> prefix (code_of t (letters ! i)) w"
      using that False by (metis Suc_leI le_neq_implies_less)
    ultimately show ?thesis using False unfolding pass_ok_def unroll by (simp only: if_False) blast
  next
    case True
    then obtain w' where w: "w = code_of t ?x @ w'" by (auto simp: prefix_def)
    then obtain zs' where zs: "zs = ?x # zs'" "parse t w' zs' r"
      using parse_Cons [OF _ t x] Suc.prems(2) by blast
    show ?thesis
    proof (cases "length ys < cap")
      case True
      obtain st1 where st1: "consume_code (int j) (code_of t ?x) st = Inr st1"
        "dec_inv cap st1 w' (ys @ [?x])" "input st1 = input st" "byte st1 = byte st"
        using consume_code_ok [OF _ j True] Suc.prems(1) w by blast
      have "pass_ok t cap (Suc j) w' (ys @ [?x]) zs' r True st1
          (match_for (code_table t) (int (Suc j)) True st1)"
        by (rule Suc.hyps(1) [OF k(1) st1(2) zs(2) k(2)])
      moreover have "match_for (code_table t) (int j) matches st =
          match_for (code_table t) (int (Suc j)) True st1"
        using \<open>prefix _ _\<close> st1(1) by (simp add: unroll)
      ultimately show ?thesis
        unfolding pass_ok_def zs(1) w st1(3,4)
      proof (elim disjE exE conjE)
        fix m st' zs1 zs2 w''
        assume h: "match_for (code_table t) (int j) matches st = match_for (code_table t) (int (Suc j)) True st1"
          "match_for (code_table t) (int (Suc j)) True st1 = Inr (m, st')" "zs' = zs1 @ zs2"
          "w' = text_bits t zs1 @ w''" "dec_inv cap st' w'' ((ys @ [?x]) @ zs1)" "parse t w'' zs2 r"
          "m = (True \<or> zs1 \<noteq> [])" "input st' = input st" "byte st' = byte st"
        show "(\<exists>m st' zs1 zs2 w''. match_for (code_table t) (int j) matches st = Inr (m, st') \<and>
            ?x # zs' = zs1 @ zs2 \<and> code_of t ?x @ w' = text_bits t zs1 @ w'' \<and>
            dec_inv cap st' w'' (ys @ zs1) \<and> parse t w'' zs2 r \<and> m = (matches \<or> zs1 \<noteq> []) \<and>
            (zs1 = [] \<longrightarrow> (\<forall>i. j \<le> i \<longrightarrow> i < 56 \<longrightarrow>
              \<not> prefix (code_of t (letters ! i)) (code_of t ?x @ w'))) \<and>
            input st' = input st \<and> byte st' = byte st) \<or>
          cap < length (ys @ ?x # zs') \<and> match_for (code_table t) (int j) matches st = Inl Out_of_bounds"
          using h by (intro disjI1 exI [of _ m] exI [of _ st'] exI [of _ "?x # zs1"]
              exI [of _ zs2] exI [of _ w'']) simp
      qed simp
    next
      case False
      then have "consume_code (int j) (code_of t ?x) st = Inl Out_of_bounds"
        using Suc.prems(1) j by (intro consume_code_full) auto
      then show ?thesis using True False zs by (simp add: pass_ok_def unroll)
    qed
  qed
qed

lemma pass_okE [consumes 1]:
  assumes "pass_ok t cap j w ys zs r matches st res"
  obtains m st' zs1 zs2 w' where "res = Inr (m, st')" "zs = zs1 @ zs2" "w = text_bits t zs1 @ w'"
      "dec_inv cap st' w' (ys @ zs1)" "parse t w' zs2 r" "m = (matches \<or> zs1 \<noteq> [])"
      "zs1 = [] \<longrightarrow> (\<forall>i. j \<le> i \<longrightarrow> i < 56 \<longrightarrow> \<not> prefix (code_of t (letters ! i)) w)"
      "input st' = input st" "byte st' = byte st"
    | "cap < length (ys @ zs)" "res = Inl Out_of_bounds"
  using assms unfolding pass_ok_def by blast

lemma match_while_ok:
  assumes t: "letter_tree t"
  shows "dec_inv cap st w ys \<Longrightarrow> parse t w zs r \<Longrightarrow>
    (\<exists>st'. match_while (code_table t) st = Inr st' \<and> dec_inv cap st' r (ys @ zs) \<and>
      length (ys @ zs) \<le> cap \<and> input st' = input st \<and> byte st' = byte st) \<or>
    cap < length (ys @ zs) \<and> match_while (code_table t) st = Inl Out_of_bounds"
proof (induction "length zs" arbitrary: st w ys zs rule: less_induct)
  case less
  have "pass_ok t cap 0 w ys zs r False st (match_for (code_table t) 0 False st)"
    using match_for_ok [OF t less.prems, of 0 False] by simp
  then show ?case
  proof (cases rule: pass_okE)
    case (1 m st' zs1 zs2 w')
    show ?thesis
    proof (cases "zs1 = []")
      case True
      have "zs2 = []"
      proof (rule ccontr)
        assume "zs2 \<noteq> []"
        then obtain y u where "zs2 = y # u" by (cases zs2) auto
        then have "y \<in> set letters" "prefix (code_of t y) w'"
          using 1(5) by (auto simp: parse_def)
        moreover then obtain i where "i < 56" "letters ! i = y"
          by (metis in_set_conv_nth letters_alphabet(1))
        ultimately show False using 1(3,7) True by auto
      qed
      then have "r = w'" using 1(5) by (simp add: parse_def)
      have "match_while (code_table t) st = Inr st'"
        using 1(1,6) True by (subst match_while.simps) simp
      moreover have "length ys \<le> cap" using less.prems(1) by (simp add: dec_inv_def)
      ultimately show ?thesis
        using 1(2,4,8,9) True \<open>zs2 = []\<close> \<open>r = w'\<close> by simp
    next
      case False
      then have len: "length zs2 < length zs" using 1(2) by simp
      have "match_while (code_table t) st = match_while (code_table t) st'"
        using 1(1,6) False by (subst match_while.simps) simp
      then show ?thesis using less.hyps [OF len 1(4,5)] 1(2,8,9) by simp
    qed
  next
    case 2
    then have "match_while (code_table t) st = Inl Out_of_bounds" by (subst match_while.simps) simp
    then show ?thesis using 2 by simp
  qed
qed

section \<open>The decoding loop\<close>

lemma append_byte:
  assumes "dec_inv cap st w ys" "length w \<le> 54"
  shows "\<exists>ws. strcpy (dec_working st) (dec_offset st) (byte_bits b) = Inr ws \<and>
    dec_inv cap (st\<lparr>dec_working := ws, dec_offset := dec_offset st + 8\<rparr>) (w @ byte_bits b) ys"
proof -
  obtain junk where ws: "dec_working st = w @ NUL # junk" "length (dec_working st) = 64"
    "dec_offset st = int (length w)" using assms(1) by (auto simp: dec_inv_def)
  have "strcpy (dec_working st) (int (length w)) (byte_bits b) =
      Inr (take (length w) (dec_working st) @ byte_bits b @ NUL #
        drop (length w + length (byte_bits b) + 1) (dec_working st))"
    using assms(2) ws(2) by (intro strcpy_ok) simp
  then have s: "strcpy (dec_working st) (dec_offset st) (byte_bits b) =
      Inr ((w @ byte_bits b) @ NUL # drop (length w + 9) (dec_working st))"
    using ws by simp
  have "NUL \<notin> set (byte_bits b)" using set_byte_bits [of b] by auto
  then show ?thesis
    using assms ws(2) unfolding s by (simp add: dec_inv_def)
qed

text \<open>The state between two bytes.\<close>

definition between ::
  "hf_node \<Rightarrow> nat \<Rightarrow> dec_state \<Rightarrow> string \<Rightarrow> string \<Rightarrow> 8 word list \<Rightarrow> bool" where
  "between t cap st r ys bs \<longleftrightarrow>
     dec_inv cap st r ys \<and> set r \<subseteq> set ''01'' \<and> parse t r [] r \<and> input st = bs"

lemma parse_unique:
  assumes "letter_tree t" "parse t w zs r" "parse t w zs' r'"
  shows "zs = zs' \<and> r = r'"
proof -
  have "w = text_bits t zs @ r" "set zs \<subseteq> set letters" using assms(2) by (auto simp: parse_def)
  then obtain us where us: "zs' = zs @ us" "parse t r us r'"
    using parse_split [OF assms(1), of zs r zs' r'] assms(3) by auto
  have "us = []"
  proof (cases us)
    case (Cons y v)
    then have "y \<in> set letters" "prefix (code_of t y) r" using us(2) by (auto simp: parse_def)
    then show ?thesis using assms(2) by (auto simp: parse_def)
  qed
  then show ?thesis using us by (simp add: parse_def)
qed

lemma parse_append:
  "parse t w zs r \<Longrightarrow> parse t (r @ v) zs' r' \<Longrightarrow> parse t (w @ v) (zs @ zs') r'"
  by (auto simp: parse_def)

lemma parse_rest: "parse t w zs r \<Longrightarrow> parse t r [] r"
  by (auto simp: parse_def)

lemma decode_loop_ok:
  assumes t: "letter_tree t" and N: "int N \<le> int_max"
  shows "between t cap st r ys bs \<Longrightarrow> i + length bs = N \<Longrightarrow>
    parse t (r @ concat (map byte_bits bs)) zs r' \<Longrightarrow>
    (\<exists>st'. decode_loop (code_table t) (of_nat N) st (int i) = Inr st' \<and> dec_inv cap st' r' (ys @ zs) \<and>
      length (ys @ zs) \<le> cap) \<or>
    cap < length (ys @ zs) \<and> decode_loop (code_table t) (of_nat N) st (int i) = Inl Out_of_bounds"
proof (induction bs arbitrary: i st r ys zs)
  case Nil
  then have "i = N" "zs = []" "r = r'"
    using parse_unique [OF t, of r zs r' "[]" r] by (auto simp: between_def)
  then have "decode_loop (code_table t) (of_nat N) st (int i) = Inr st"
    using less_unsigned_nat [OF N, of N] by (subst decode_loop.simps) simp
  then show ?case using Nil \<open>zs = []\<close> \<open>r = r'\<close> by (auto simp: between_def dec_inv_def)
next
  case (Cons b bs)
  have inv: "dec_inv cap st r ys" "set r \<subseteq> set ''01''" "parse t r [] r" "input st = b # bs"
    using Cons.prems(1) by (auto simp: between_def)
  have i: "less_unsigned (int i) (of_nat N)" "add_int (int i) 1 = Inr (int (Suc i))"
    using Cons.prems(2) N by (simp add: less_unsigned_nat, subst add_int_ok) auto
  let ?st = "read_byte st"
  have st: "byte ?st = Some b" "input ?st = bs" "dec_inv cap ?st r ys"
    using inv by (simp_all add: read_byte_def dec_inv_def)
  obtain ws where ws: "strcpy (dec_working ?st) (dec_offset ?st) (byte_bits b) = Inr ws"
    "dec_inv cap (?st\<lparr>dec_working := ws, dec_offset := dec_offset ?st + 8\<rparr>) (r @ byte_bits b) ys"
    using append_byte [OF st(3) parse_rest_short [OF t inv(2,3)]] by blast
  let ?st1 = "?st\<lparr>dec_working := ws, dec_offset := dec_offset ?st + 8\<rparr>"
  obtain zs1 r1 where p1: "parse t (r @ byte_bits b) zs1 r1" using parse_exists [OF t] by blast
  obtain zs2 r2 where p2: "parse t (r1 @ concat (map byte_bits bs)) zs2 r2"
    using parse_exists [OF t] by blast
  have zs: "zs = zs1 @ zs2" "r' = r2"
    using parse_unique [OF t Cons.prems(3), of "zs1 @ zs2" r2] parse_append [OF p1 p2] by auto
  have cs: "cstr (byte_bits b @ [NUL]) = Inr (byte_bits b)"
    using set_byte_bits [of b] by (intro cstr_append) auto
  have step: "decode_loop (code_table t) (of_nat N) st (int i) =
      bindE (match_while (code_table t) ?st1) (\<lambda>st. decode_loop (code_table t) (of_nat N) st (int (Suc i)))"
    by (subst decode_loop.simps)
      (simp only: i(1) if_True Let_def st(1) option.case byte_to_str_bits bindE.simps cs ws(1) i(2))
  from match_while_ok [OF t ws(2) p1] show ?case
  proof
    assume "\<exists>st'. match_while (code_table t) ?st1 = Inr st' \<and> dec_inv cap st' r1 (ys @ zs1) \<and>
      length (ys @ zs1) \<le> cap \<and> input st' = input ?st1 \<and> byte st' = byte ?st1"
    then obtain st' where st': "match_while (code_table t) ?st1 = Inr st'" "dec_inv cap st' r1 (ys @ zs1)"
      "input st' = bs" using st(2) by auto
    have "set r1 \<subseteq> set (r @ byte_bits b)" using p1 by (auto simp: parse_def)
    then have "set r1 \<subseteq> set ''01''" using inv(2) set_byte_bits [of b] by auto
    then have "between t cap st' r1 (ys @ zs1) bs"
      using st' parse_rest [OF p1] by (simp add: between_def)
    then show ?thesis
      using Cons.IH [of st' r1 "ys @ zs1" "Suc i" zs2] Cons.prems(2) p2 zs step st'(1) by simp
  next
    assume "cap < length (ys @ zs1) \<and> match_while (code_table t) ?st1 = Inl Out_of_bounds"
    then show ?thesis using step zs by simp
  qed
qed

section \<open>The padding\<close>

fun left_depth :: "hf_node \<Rightarrow> nat" where
  "left_depth Null = 0"
| "left_depth (HF_Node l f a b) = (if a = Null \<and> b = Null then 0 else Suc (left_depth a))"

fun left_letter :: "hf_node \<Rightarrow> char" where
  "left_letter Null = NUL"
| "left_letter (HF_Node l f a b) = (if a = Null \<and> b = Null then l else left_letter a)"

lemma left_code:
  "proper t \<Longrightarrow> (left_letter t, p @ replicate (left_depth t) (CHR ''0'')) \<in> set (codes_of t p)"
proof (induction t arbitrary: p rule: proper_induct)
  case (node l f a b)
  then show ?case using node.IH(1) [of "p @ ''0''"] by auto
qed simp

lemma left_letter_code:
  assumes "letter_tree t"
  shows "left_letter t \<in> set letters" "code_of t (left_letter t) = replicate (left_depth t) (CHR ''0'')"
    "0 < left_depth t"
proof -
  have c: "(left_letter t, replicate (left_depth t) (CHR ''0'')) \<in> set (codes_of t [])"
    using left_code [of t "[]"] assms by (simp add: letter_tree_def)
  have "fst ` set (codes_of t []) = set letters"
    using assms unfolding letter_tree_def by (metis fst_codes_of list.set_map set_mset_mset)
  then show x: "left_letter t \<in> set letters" using c by force
  have "distinct (map fst (codes_of t []))"
    using assms unfolding letter_tree_def fst_codes_of
    by (metis letters_alphabet(2) mset_eq_imp_distinct_iff)
  then show code: "code_of t (left_letter t) = replicate (left_depth t) (CHR ''0'')"
    using c by (simp add: code_of_def)
  show "0 < left_depth t" using code_of_nonempty [OF assms x] code by (cases "left_depth t") auto
qed

lemma parse_zeros:
  assumes t: "letter_tree t"
  shows "parse t (replicate n (CHR ''0'')) (replicate (n div left_depth t) (left_letter t))
    (replicate (n mod left_depth t) (CHR ''0''))"
proof (induction n rule: less_induct)
  case (less n)
  note l = left_letter_code [OF t]
  let ?L = "left_depth t"
  show ?case
  proof (cases "n < ?L")
    case True
    have "\<not> prefix (code_of t x) (replicate n (CHR ''0''))" if x: "x \<in> set letters" for x
    proof
      assume p: "prefix (code_of t x) (replicate n (CHR ''0''))"
      moreover have "prefix (replicate n (CHR ''0'')) (code_of t (left_letter t))"
        using True unfolding l(2) prefix_def
        by (intro exI [of _ "replicate (?L - n) (CHR ''0'')"]) (simp flip: replicate_add)
      ultimately have "x = left_letter t"
        using code_of_prefix_free [OF t x l(1)] prefix_order.trans by blast
      then show False using prefix_length_le [OF p] l(2) True by simp
    qed
    then show ?thesis using True by (simp add: parse_def)
  next
    case False
    then have "replicate n (CHR ''0'') = code_of t (left_letter t) @ replicate (n - ?L) (CHR ''0'')"
      using l(2) by (simp flip: replicate_add)
    moreover have "parse t (code_of t (left_letter t) @ replicate (n - ?L) (CHR ''0''))
        (left_letter t # replicate ((n - ?L) div ?L) (left_letter t))
        (replicate ((n - ?L) mod ?L) (CHR ''0''))"
      using less [of "n - ?L"] False l(1,3) by (simp add: parse_def)
    moreover have "n div ?L = Suc ((n - ?L) div ?L)" "n mod ?L = (n - ?L) mod ?L"
      using False l(3) by (simp_all add: le_div_geq le_mod_geq)
    ultimately show ?thesis by simp
  qed
qed

section \<open>The program\<close>

lemma erase_letter_tree: "letter_tree t \<Longrightarrow> letter_tree (erase t)"
  by (simp add: letter_tree_def fst_leaves_erase del: mset_map)

lemma get_codes_table:
  assumes "letter_tree t"
  shows "\<exists>arr. get_codes (erase t) (replicate 256 None) 0 letters (replicate 56 None) =
    Inr (arr, code_table t)"
proof -
  let ?t = "erase t"
  note et = erase_letter_tree [OF assms]
  have p: "proper ?t" using et by (simp add: letter_tree_def)
  have ms: "mset (map fst (leaves ?t)) = mset letters" using et unfolding letter_tree_def by blast
  have sub: "fst ` set (leaves ?t) \<subseteq> set letters" using ms by (metis list.set_map order_refl set_mset_mset)
  obtain arr where c: "get_codes ?t (replicate 256 None) 0 letters (replicate 56 None) =
      Inr (arr, store_codes letters (codes_of ?t []) (replicate 56 None))"
    using get_codes_ok [OF p letters_alphabet(1) sub, of "replicate 56 None" "[]" 0 "replicate 256 None"]
      height_less_leaves [OF p] length_leaves_letter_tree [OF et] by auto
  have "store_codes letters (codes_of ?t []) (replicate 56 None) = map (map_of (codes_of ?t [])) letters"
    by (rule store_codes_all) (use ms in \<open>simp_all add: fst_codes_of del: mset_map codes_of_erase\<close>)
  with c show ?thesis by (simp add: code_table_def)
qed

text \<open>The letters that the zeros behind the last code decode to.\<close>

definition spurious :: "string \<Rightarrow> nat" where
  "spurious s = (let t = text_tree s in padding (text_bits t s) div left_depth t)"

lemma print_cells_text: "NUL \<notin> set s \<Longrightarrow> print_cells (map Some s @ Some NUL # rest) = Inr s"
  by (induction s) auto

lemma length_encoded_bound:
  assumes "letter_tree t" "set s \<subseteq> set letters" "7 * int (length s) \<le> int_max"
  shows "int (length (encoded (text_bits t s))) \<le> int_max"
  using length_encoded [of "text_bits t s"] padding_less [of "text_bits t s"]
    length_text_bits [OF assms(1,2)] assms(3) by linarith

lemma decode_file:
  assumes s: "set s \<subseteq> set letters" "7 * int (length s) \<le> int_max"
  defines "t \<equiv> text_tree s" and "bs \<equiv> encoded (text_bits (text_tree s) s)"
  defines "ys \<equiv> s @ replicate (spurious s) (left_letter (text_tree s))"
  defines "st \<equiv> \<lparr>uncompressed_string = replicate (Suc (length s)) None,
    uncomp_str_index = 0, dec_working = replicate 64 NUL, dec_offset = 0, byte = None, input = bs\<rparr>"
  shows "(\<exists>st' r. decode_loop (code_table t) (of_nat (length bs)) st 0 = Inr st' \<and>
      dec_inv (Suc (length s)) st' r ys \<and> spurious s \<le> 1) \<or>
    1 < spurious s \<and> decode_loop (code_table t) (of_nat (length bs)) st 0 = Inl Out_of_bounds"
proof -
  have t: "letter_tree t"
    unfolding t_def using text_tree_ok(2) [of s "replicate 56 None"] s by simp
  let ?pad = "padding (text_bits t s)"
  have bits: "concat (map byte_bits bs) = text_bits t s @ replicate ?pad (CHR ''0'')"
    unfolding bs_def t_def [symmetric] using text_bits_01 [OF t s(1)] by (rule encoded_bits)
  have "parse t (text_bits t s @ replicate ?pad (CHR ''0''))
      (s @ replicate (?pad div left_depth t) (left_letter t)) (replicate (?pad mod left_depth t) (CHR ''0''))"
    by (rule parse_text [OF t s(1) parse_zeros [OF t]])
  then have p: "parse t ([] @ concat (map byte_bits bs)) ys (replicate (?pad mod left_depth t) (CHR ''0''))"
    by (simp add: bits ys_def spurious_def Let_def t_def)
  have "replicate 64 NUL = NUL # replicate 63 NUL" by (simp add: eval_nat_numeral)
  then have "dec_inv (Suc (length s)) st [] []" by (simp add: dec_inv_def st_def)
  moreover have "parse t [] [] []" using code_of_nonempty [OF t] by (auto simp: parse_def)
  ultimately have b: "between t (Suc (length s)) st [] [] bs" by (simp add: between_def st_def)
  have "int (length bs) \<le> int_max"
    unfolding bs_def t_def [symmetric] by (rule length_encoded_bound [OF t s])
  from decode_loop_ok [OF t this b _ p, of 0] show ?thesis by (auto simp: ys_def)
qed

lemma decompress_header:
  assumes s: "set s \<subseteq> set letters" "7 * int (length s) \<le> int_max" and a: "2 \<le> argc"
  defines "bs \<equiv> encoded (text_bits (text_tree s) s)"
  shows "decompress_main argc (Some (file_of s)) (NUL # rest) =
    bindE (decode_loop (code_table (text_tree s)) (of_nat (length bs))
      \<lparr>uncompressed_string = replicate (Suc (length s)) None, uncomp_str_index = 0,
        dec_working = replicate 64 NUL, dec_offset = 0, byte = None, input = bs\<rparr> 0) (\<lambda>st.
    bindE (wr (uncompressed_string st) (int (length s)) (Some NUL)) (\<lambda>us.
    bindE (print_cells us) (\<lambda>s. Inr (Printed (s @ [CHR 0x0A])))))"
proof -
  let ?t = "text_tree s"
  have t: "letter_tree ?t" using text_tree_ok(2) [of s "replicate 56 None"] s by simp
  note ts = tree_string_text_tree [OF t]
  obtain arr where gc: "get_codes (erase ?t) (replicate 256 None) 0 letters (replicate 56 None) =
      Inr (arr, code_table ?t)" using get_codes_table [OF t] by blast
  have "proper ?t" using t by (simp add: letter_tree_def)
  then have rb: "rebuild_tree (tree_string ?t @ NUL # rest) = Inr (erase ?t)"
    using length_leaves_letter_tree [OF t] by (intro rebuild_tree_ok) simp_all
  have rw: "read_word (le32 w @ xs) = Inr (w, xs)" for w xs
    by (simp add: read_word_def)
  have "(of_nat (length s) + 1 :: 32 word) = of_nat (Suc (length s))" by simp
  moreover have "Suc (length s) < 2 ^ 32" using s(2) by simp
  ultimately have k: "unat (of_nat (length s) + 1 :: 32 word) = Suc (length s)"
    by (simp only: unat_of_nat len_num1) simp
  have u: "uint (of_nat (length s) :: 32 word) = int (length s)"
    using s(2) by (simp add: uint_nat unat_of_nat)
  have n: "of_nat (179 + length bs) - 179 = (of_nat (length bs) :: 32 word)" by simp
  have tk: "take 167 (bytes_of (tree_string ?t) @ bs) = bytes_of (tree_string ?t)"
    "drop 167 (bytes_of (tree_string ?t) @ bs) = bs" using ts by simp_all
  show ?thesis
    using a ts n unfolding bs_def
    by (simp add: decompress_main_def file_of_def rw Let_def rb gc k u del: of_nat_add)
qed

lemma decompress_main_result:
  assumes "2 \<le> argc" "set s \<subseteq> set letters" "7 * int (length s) \<le> int_max"
  shows "decompress_main argc (Some (file_of s)) (NUL # rest) =
    (if spurious s \<le> 1 then Inr (Printed (s @ [CHR 0x0A])) else Inl Out_of_bounds)"
proof (cases "spurious s \<le> 1")
  case True
  then obtain st' r where d: "decode_loop (code_table (text_tree s))
      (of_nat (length (encoded (text_bits (text_tree s) s))))
      \<lparr>uncompressed_string = replicate (Suc (length s)) None, uncomp_str_index = 0,
        dec_working = replicate 64 NUL, dec_offset = 0, byte = None,
        input = encoded (text_bits (text_tree s) s)\<rparr> 0 = Inr st'"
    "dec_inv (Suc (length s)) st' r (s @ replicate (spurious s) (left_letter (text_tree s)))"
    using decode_file [OF assms(2,3)] by auto
  let ?e = "replicate (spurious s) (left_letter (text_tree s))"
  obtain x where x: "map Some (s @ ?e) @ replicate (Suc (length s) - length (s @ ?e)) None = map Some s @ [x]"
    using True by (cases "spurious s") auto
  have us: "uncompressed_string st' = map Some s @ [x]"
    using d(2) x by (simp add: dec_inv_def)
  have "NUL \<notin> set s" using assms(2) NUL_not_letter by blast
  then have "print_cells (map Some s @ [Some NUL]) = Inr s" by (rule print_cells_text)
  moreover have "wr (map Some s @ [x]) (int (length s)) (Some NUL) = Inr (map Some s @ [Some NUL])"
    using wr_append [of "map Some s" x "[]"] by simp
  ultimately show ?thesis
    unfolding decompress_header [OF assms(2,3,1)] using True
    by (simp only: d(1) us bindE.simps if_True)
next
  case False
  then have "decode_loop (code_table (text_tree s))
      (of_nat (length (encoded (text_bits (text_tree s) s))))
      \<lparr>uncompressed_string = replicate (Suc (length s)) None, uncomp_str_index = 0,
        dec_working = replicate 64 NUL, dec_offset = 0, byte = None,
        input = encoded (text_bits (text_tree s) s)\<rparr> 0 = Inl Out_of_bounds"
    using decode_file [OF assms(2,3)] by simp
  then show ?thesis
    unfolding decompress_header [OF assms(2,3,1)] using False by simp
qed

text \<open>
  Two spurious letters need an all-zero code of at most three bits.
\<close>

lemma spurious_bound:
  assumes "set s \<subseteq> set letters" "7 * int (length s) \<le> int_max" "4 \<le> left_depth (text_tree s)"
  shows "spurious s \<le> 1"
proof -
  have "padding (text_bits (text_tree s) s) < 8" by (rule padding_less)
  then have "spurious s \<le> 7 div left_depth (text_tree s)"
    by (simp add: spurious_def Let_def div_le_mono)
  also have "\<dots> \<le> 7 div 4" using assms(3) by (intro div_le_mono2) simp_all
  finally show ?thesis by simp
qed

end
