(* ===== verification/HuffmanClaims.thy ===== *)
theory HuffmanClaims
  imports DecompressProofs
begin

text \<open>
  The properties of the Huffman coder: the heap, the tree and its codes, the letter counts,
  the bytes, and the two command line programs.
\<close>

section \<open>The heap\<close>

text \<open>\<open>create_HF_Heap\<close> reads \<open>sz\<close> letters and frequencies and returns a min-heap that
  holds exactly one leaf per letter, its array full.\<close>

theorem create_heap_correct:
  assumes "length data = n" "length freqs = n" "0 < n"
  shows "\<exists>h. create_HF_Heap data freqs (int n) = Inr h \<and> heap_inv h \<and> heap_room h = 0 \<and>
    heap_nodes h = mset (map2 new_HF_Node data freqs)"
proof -
  obtain ns where ns: "create_HF_Heap data freqs (int n) = Inr (mk_heap ns [])"
    "mset ns = mset (map leaf_of (zip data freqs))" "Null \<notin> set ns" "heap_from 0 ns"
    using create_HF_Heap_mk [OF assms] by blast
  then show ?thesis
    by (intro exI [of _ "mk_heap ns []"]) (simp add: case_prod_unfold)
qed

theorem create_heap_correct_witness:
  "\<exists>h. create_HF_Heap ''abc'' [5, 2, 9] (int 3) = Inr h \<and> heap_inv h \<and> heap_room h = 0 \<and>
    heap_nodes h = mset (map2 new_HF_Node ''abc'' [5, 2, 9])"
  by (rule create_heap_correct) simp_all

text \<open>C34: on a valid non-empty heap \<open>pop\<close> has a defined result, returns a node of least
  frequency, removes exactly that node and keeps the heap order.\<close>

theorem pop_takes_minimum:
  assumes "heap_inv h" "heap_nodes h \<noteq> {#}"
  shows "\<exists>x h'. pop h = Inr (x, h') \<and> heap_inv h' \<and> heap_nodes h = add_mset x (heap_nodes h') \<and>
    (\<forall>y \<in># heap_nodes h. frequency x \<le> frequency y)"
  using hf.take_min [OF assms] by blast

theorem pop_takes_minimum_witness:
  "let h = mk_heap [new_HF_Node (CHR ''a'') 1, new_HF_Node (CHR ''b'') 2] [] in
   \<exists>x h'. pop h = Inr (x, h') \<and> heap_inv h' \<and> heap_nodes h = add_mset x (heap_nodes h') \<and>
    (\<forall>y \<in># heap_nodes h. frequency x \<le> frequency y)"
  unfolding Let_def
  by (rule pop_takes_minimum)
    (auto simp: new_HF_Node_def heap_from_def par_def less_Suc_eq intro!: heap_inv_mk)

text \<open>On a valid heap with room \<open>push\<close> has a defined result, adds exactly the new node
  and keeps the heap order; on a full heap it changes nothing.\<close>

theorem push_inserts:
  assumes "heap_inv h" "x \<noteq> Null"
  shows "\<exists>h'. push h x = Inr h' \<and> heap_inv h' \<and>
    heap_nodes h' = (if heap_room h = 0 then heap_nodes h else add_mset x (heap_nodes h))"
proof (cases "heap_room h = 0")
  case True
  then have "push h x = Inr h" using assms by (auto simp: heap_inv_def push_def)
  then show ?thesis using True assms by auto
next
  case False
  then show ?thesis using hf.insert_el [OF assms] by auto
qed

theorem push_inserts_witness:
  "let h = mk_heap [new_HF_Node (CHR ''a'') 3] [None]; x = new_HF_Node (CHR ''b'') 1 in
   \<exists>h'. push h x = Inr h' \<and> heap_inv h' \<and>
    heap_nodes h' = (if heap_room h = 0 then heap_nodes h else add_mset x (heap_nodes h))"
  unfolding Let_def
  by (rule push_inserts) (auto simp: new_HF_Node_def heap_from_def)

section \<open>The tree and its codes\<close>

text \<open>C6: for 56 non-negative counts whose sum is an \<open>int\<close>, \<open>HuffmanCodes\<close> terminates with a
  defined result: every letter gets a code of 1 to 55 characters 0 and 1, no code is a prefix of
  the code of another letter, and the tree string is 167 characters, so it fits its 256 bytes.\<close>

theorem huffman_codes_prefix_free:
  assumes "length fs = 56" "\<forall>f \<in> set fs. 0 \<le> f" "sum_list fs \<le> int_max"
  shows "\<exists>str tab. HuffmanCodes letters fs 56 (replicate 56 None) = Inr (str @ replicate 89 NUL, tab) \<and>
    length str = 167 \<and> NUL \<notin> set str \<and> length tab = 56 \<and>
    (\<forall>i < 56. \<exists>w. tab ! i = Some w \<and> w \<noteq> [] \<and> length w \<le> 55 \<and> set w \<subseteq> set ''01'') \<and>
    (\<forall>i < 56. \<forall>j < 56. prefix (the (tab ! i)) (the (tab ! j)) \<longrightarrow> i = j)"
proof -
  obtain t where t: "good_tree t" "mset (leaves t) = mset (zip letters fs)"
    "HuffmanCodes letters fs 56 (replicate 56 None) = Inr (tree_string t @ replicate 89 NUL, code_table t)"
    using HuffmanCodes_ok [of letters fs "replicate 56 None"] assms by (auto simp: code_table_def)
  have lt: "letter_tree t" using good_tree_letters [OF t(1,2) assms(1)] .
  have tab: "code_table t ! i = Some (code_of t (letters ! i))" "letters ! i \<in> set letters" if "i < 56" for i
    using that map_of_code [OF lt] by (simp_all add: code_table_def)
  have "i = j" if "i < 56" "j < 56" "prefix (the (code_table t ! i)) (the (code_table t ! j))" for i j
    using that tab [of i] tab [of j] code_of_prefix_free [OF lt, of "letters ! i" "letters ! j"]
    by (simp add: nth_eq_iff_index_eq)
  moreover have "\<exists>w. code_table t ! i = Some w \<and> w \<noteq> [] \<and> length w \<le> 55 \<and> set w \<subseteq> set ''01''"
    if "i < 56" for i
    using tab [OF that] code_of_props [OF lt tab(2) [OF that]] code_of_nonempty [OF lt tab(2) [OF that]]
    by blast
  ultimately show ?thesis
    using t(3) tree_string_text_tree [OF lt] by (simp add: code_table_def)
qed

theorem huffman_codes_prefix_free_witness:
  "\<exists>str tab. HuffmanCodes letters (replicate 56 1) 56 (replicate 56 None) = Inr (str @ replicate 89 NUL, tab) \<and>
    length str = 167 \<and> NUL \<notin> set str \<and> length tab = 56 \<and>
    (\<forall>i < 56. \<exists>w. tab ! i = Some w \<and> w \<noteq> [] \<and> length w \<le> 55 \<and> set w \<subseteq> set ''01'') \<and>
    (\<forall>i < 56. \<forall>j < 56. prefix (the (tab ! i)) (the (tab ! j)) \<longrightarrow> i = j)"
  by (rule huffman_codes_prefix_free) (simp_all add: sum_list_replicate)

text \<open>C21: \<open>rebuild_tree\<close> reads the string that \<open>HF_tree_to_string\<close> writes back to the tree,
  up to the frequencies and the letters of the inner nodes, which the string does not hold; the
  stack of 112 entries suffices for every tree of at most 112 leaves.\<close>

theorem tree_string_roundtrip:
  assumes "proper t" "length (leaves t) \<le> 112" "NUL \<notin> set (tree_string t)"
    and "length (tree_string t) < n"
  shows "\<exists>str. HF_tree_to_string t (replicate n NUL) 0 = Inr (str, int (length (tree_string t))) \<and>
    rebuild_tree str = Inr (erase t)"
proof -
  obtain k where k: "n = length (tree_string t) + Suc k" using less_imp_Suc_add [OF assms(4)] by auto
  then have d: "replicate (n - length (tree_string t)) NUL = NUL # replicate k NUL" by simp
  have "HF_tree_to_string t (replicate n NUL) (int 0) =
      Inr (take 0 (replicate n NUL) @ tree_string t @ drop (0 + length (tree_string t)) (replicate n NUL),
        int (0 + length (tree_string t)))"
    using assms(1,4) by (intro HF_tree_to_string_ok) simp_all
  then show ?thesis
    using rebuild_tree_ok [OF assms(1,2), of "replicate k NUL"] by (simp add: d)
qed

theorem tree_string_roundtrip_witness:
  "let t = HF_Node (CHR ''$'') 3 (HF_Node (CHR ''a'') 1 Null Null) (HF_Node (CHR ''b'') 2 Null Null) in
   \<exists>str. HF_tree_to_string t (replicate 256 NUL) 0 = Inr (str, int (length (tree_string t))) \<and>
    rebuild_tree str = Inr (erase t)"
  unfolding Let_def by (rule tree_string_roundtrip) simp_all

section \<open>Counting and bytes\<close>

text \<open>On a terminated text of the alphabet \<open>prepare_frequencies\<close> stores the number of
  occurrences of every letter; the counts add up to the length of the text.\<close>

theorem frequencies_are_counts:
  assumes "length fs = 56" "set s \<subseteq> set letters" "int (length s) \<le> int_max"
  shows "\<exists>fs'. prepare_frequencies (s @ NUL # rest) letters fs = Inr fs' \<and> length fs' = 56 \<and>
    (\<forall>i < 56. fs' ! i = int (count_list s (letters ! i))) \<and> sum_list fs' = int (length s)"
proof -
  have "NUL \<notin> set s" using assms(2) NUL_not_letter by blast
  then have "prepare_frequencies (s @ NUL # rest) letters fs = Inr (counts letters s)"
    using assms by (intro prepare_frequencies_ok) simp_all
  then show ?thesis using assms(2) by (simp add: sum_counts) (simp add: counts_def)
qed

theorem frequencies_are_counts_witness:
  "\<exists>fs'. prepare_frequencies (''ada, a.'' @ NUL # ''x'') letters (replicate 56 7) = Inr fs' \<and> length fs' = 56 \<and>
    (\<forall>i < 56. fs' ! i = int (count_list ''ada, a.'' (letters ! i))) \<and> sum_list fs' = int (length ''ada, a.'')"
  by (rule frequencies_are_counts) (simp_all add: letters_def)

text \<open>C39: a character outside the alphabet makes \<open>prepare_frequencies\<close> increment an element
  behind the end of \<open>frequencies\<close>, and a text with no terminator is read past its end.\<close>

theorem frequencies_out_of_bounds:
  assumes "length fs = 56" "set s \<subseteq> set letters" "int (length s) \<le> int_max"
  shows "prepare_frequencies s letters fs = Inl Out_of_bounds \<and>
    (\<forall>x rest. x \<noteq> NUL \<and> x \<notin> set letters \<longrightarrow>
      prepare_frequencies (s @ x # rest) letters fs = Inl Out_of_bounds)"
proof -
  have "NUL \<notin> set s" using assms(2) NUL_not_letter by blast
  then show ?thesis
    using assms prepare_frequencies_unterminated prepare_frequencies_foreign by simp
qed

theorem frequencies_out_of_bounds_witness:
  "prepare_frequencies ''Hello'' letters (replicate 56 0) = Inl Out_of_bounds \<and>
   prepare_frequencies (''Hello'' @ CHR ''!'' # [NUL]) letters (replicate 56 0) = Inl Out_of_bounds"
proof -
  have l: "length (replicate 56 (0 :: int)) = 56" "set ''Hello'' \<subseteq> set letters"
    "int (length ''Hello'') \<le> int_max" "CHR ''!'' \<noteq> NUL \<and> CHR ''!'' \<notin> set letters"
    by (simp_all add: letters_def)
  show ?thesis using frequencies_out_of_bounds [OF l(1-3)] l(4) by blast
qed

text \<open>\<open>str_to_byte\<close> and \<open>byte_to_str\<close> are inverse to each other: every byte survives
  the trip through its eight characters, and every string of eight characters 0 and 1 survives
  the trip through its byte; the first character is the most significant bit.\<close>

theorem byte_roundtrip:
  "(\<exists>s. byte_to_str b = Inr (s @ [NUL]) \<and> length s = 8 \<and> set s \<subseteq> set ''01'' \<and>
      (s ! 0 = CHR ''1'' \<longleftrightarrow> bit b 7) \<and> str_to_byte (s @ [NUL]) = Inr b) \<and>
   (length s = 8 \<and> set s \<subseteq> set ''01'' \<longrightarrow>
      bindE (str_to_byte s) byte_to_str = Inr (s @ [NUL]))"
proof (intro conjI impI)
  show "\<exists>s. byte_to_str b = Inr (s @ [NUL]) \<and> length s = 8 \<and> set s \<subseteq> set ''01'' \<and>
      (s ! 0 = CHR ''1'' \<longleftrightarrow> bit b 7) \<and> str_to_byte (s @ [NUL]) = Inr b"
    using byte_to_str_bits [of b] set_byte_bits [of b] str_to_byte_byte_bits [of b "[NUL]"]
    by (intro exI [of _ "byte_bits b"]) (simp add: byte_bits_def bit_char_def)
next
  assume "length s = 8 \<and> set s \<subseteq> set ''01''"
  then show "bindE (str_to_byte s) byte_to_str = Inr (s @ [NUL])"
    using str_to_byte_take [of s] byte_bits_of_nat [of s] by (simp add: byte_to_str_bits)
qed

theorem byte_roundtrip_witness:
  "byte_to_str (of_nat (bits_val ''01000001'')) = Inr (''01000001'' @ [NUL])"
  using byte_roundtrip [of 0 "''01000001''"] by (simp add: str_to_byte_take)

section \<open>The programs\<close>

text \<open>C10: what \<open>compress\<close> makes of a text of the alphabet depends on the byte behind its buffer,
  which \<open>prepare_frequencies\<close> reads: the buffer has no room for a terminator. When a zero byte lies
  there, the program writes the file the format asks for: total length, length of the tree string,
  length of the text, the tree string, and the codes of the text packed eight to a byte with zeros
  at the end; the tree string and the working strings stay in their buffers. When nothing lies
  there, the read leaves the buffer, which is the only way for such a text to fail.\<close>

theorem compress_writes_file:
  assumes "3 \<le> argc" "set s \<subseteq> set letters" "7 * int (length s) \<le> int_max"
  shows "compress_main argc (Some s) (NUL # rest) True =
      Inr (Output_file (le32 (of_nat (179 + length (encoded (text_bits (text_tree s) s)))) @
        le32 167 @ le32 (of_nat (length s)) @ bytes_of (tree_string (text_tree s)) @
        encoded (text_bits (text_tree s) s))) \<and>
    concat (map byte_bits (encoded (text_bits (text_tree s) s))) =
      text_bits (text_tree s) s @ replicate (padding (text_bits (text_tree s) s)) (CHR ''0'') \<and>
    compress_main argc (Some s) [] True = Inl Out_of_bounds"
proof -
  have "letter_tree (text_tree s)"
    using text_tree_ok(2) [of s "replicate 56 None"] assms by simp
  then have "set (text_bits (text_tree s) s) \<subseteq> set ''01''" using assms(2) by (rule text_bits_01)
  then show ?thesis
    using compress_main_result [OF assms, of rest] compress_main_unterminated [OF assms(1,2), of True] assms(3)
    by (simp add: file_of_def Let_def encoded_bits)
qed

theorem compress_writes_file_witness:
  "compress_main 3 (Some ''A cab.'') (NUL # ''junk'') True =
      Inr (Output_file (le32 (of_nat (179 + length (encoded (text_bits (text_tree ''A cab.'') ''A cab.'')))) @
        le32 167 @ le32 (of_nat (length ''A cab.'')) @ bytes_of (tree_string (text_tree ''A cab.'')) @
        encoded (text_bits (text_tree ''A cab.'') ''A cab.''))) \<and>
    concat (map byte_bits (encoded (text_bits (text_tree ''A cab.'') ''A cab.''))) =
      text_bits (text_tree ''A cab.'') ''A cab.'' @
        replicate (padding (text_bits (text_tree ''A cab.'') ''A cab.'')) (CHR ''0'') \<and>
    compress_main 3 (Some ''A cab.'') [] True = Inl Out_of_bounds"
  by (rule compress_writes_file) (simp_all add: letters_def)

text \<open>C31: the error branches of \<open>compress\<close>: with the text buffer as \<open>malloc\<close> made it the scan
  leaves the buffer, a foreign character writes out of bounds, and the check of the encoding
  loop, which reports an invalid character and leaves a file with total length 0, is reached
  only by the character 0.\<close>

theorem compress_errors:
  assumes "3 \<le> argc" "set s \<subseteq> set letters" "7 * int (length s) \<le> int_max"
    and "int (length (s @ NUL # behind)) \<le> int_max" "x \<notin> set letters" "x \<noteq> NUL"
  shows "compress_main argc (Some s) [] opens = Inl Out_of_bounds \<and>
    compress_main argc (Some (s @ x # behind)) slack opens = Inl Out_of_bounds \<and>
    compress_main argc (Some (s @ NUL # behind)) slack True =
      Inr (Invalid_character NUL
        (le32 0 @ le32 167 @ le32 (of_nat (length (s @ NUL # behind))) @
         bytes_of (tree_string (text_tree s)) @ pack (text_bits (text_tree s) s)))"
  using assms compress_main_unterminated compress_main_foreign compress_main_NUL by simp

theorem compress_errors_witness:
  "compress_main 3 (Some ''ab'') [] True = Inl Out_of_bounds \<and>
   compress_main 3 (Some ''ab!c'') [NUL] True = Inl Out_of_bounds"
  using compress_errors [of 3 "''ab''" "''c''" "CHR ''!''" True "[NUL]"] by (simp add: letters_def)

text \<open>C1: \<open>decompress\<close> prints the text of every file that \<open>compress\<close> wrote, with a newline,
  unless the zeros that pad the last byte decode to two or more letters; then it writes behind
  the end of \<open>uncompressed_string\<close>.\<close>

theorem decompress_inverts_compress:
  assumes "2 \<le> dargc" "3 \<le> argc" "set s \<subseteq> set letters" "7 * int (length s) \<le> int_max"
  shows "\<exists>bs. compress_main argc (Some s) (NUL # rest) True = Inr (Output_file bs) \<and>
    decompress_main dargc (Some bs) (NUL # rest') =
      (if spurious s \<le> 1 then Inr (Printed (s @ [CHR 0x0A])) else Inl Out_of_bounds)"
  using compress_main_result [OF assms(2-4), of rest] decompress_main_result [OF assms(1,3,4), of rest']
  by simp

theorem decompress_inverts_compress_witness:
  "\<exists>bs. compress_main 3 (Some ''eabcdfgeeee'') [NUL] True = Inr (Output_file bs) \<and>
    decompress_main 2 (Some bs) [NUL] = Inl Out_of_bounds"
proof -
  have s: "set ''eabcdfgeeee'' \<subseteq> set letters" "7 * int (length ''eabcdfgeeee'') \<le> int_max"
    by (simp_all add: letters_def)
  have "spurious ''eabcdfgeeee'' = 4" by code_simp
  then show ?thesis using decompress_inverts_compress [of 2 3, OF _ _ s, of "[]" "[]"] by simp
qed

end
