(* ===== verification/HuffmanOptimal.thy ===== *)
theory HuffmanOptimal
  imports DecompressProofs
begin

text \<open>
  The codes that \<open>HuffmanCodes\<close> of \<open>inc/huffman.h\<close> writes are the best ones: no prefix-free
  assignment of words of 0 and 1 to the letters spends fewer characters on a text. The lower bound
  is proved for any depths that keep Kraft's inequality, by induction on the greedy merges that
  \<open>build_tree_loop\<close> makes; the words of a prefix-free code keep the inequality, and the tree's
  paths reach the bound.
\<close>

section \<open>Kraft's inequality\<close>

text \<open>Depths are counted in units of \<open>2 ^ - N\<close>, for a bound \<open>N\<close> of all depths.\<close>

definition kraft :: "nat \<Rightarrow> nat multiset \<Rightarrow> nat" where
  "kraft N D = (\<Sum>d \<in># D. 2 ^ (N - d))"

lemma kraft_simps [simp]:
  "kraft N {#} = 0" "kraft N (add_mset d D) = 2 ^ (N - d) + kraft N D"
  by (simp_all add: kraft_def)

lemma kraft_dvd: "\<forall>d \<in># D. d \<le> m \<Longrightarrow> m \<le> N \<Longrightarrow> 2 ^ (N - m) dvd kraft N D"
  by (induction D) (auto intro!: dvd_add le_imp_power_dvd)

definition prefix_free :: "string set \<Rightarrow> bool" where
  "prefix_free W \<longleftrightarrow> (\<forall>v \<in> W. \<forall>w \<in> W. prefix v w \<longrightarrow> v = w)"

definition after :: "char \<Rightarrow> string set \<Rightarrow> string set" where
  "after x W = {v. x # v \<in> W}"

lemma prefix_free_after: "prefix_free W \<Longrightarrow> prefix_free (after x W)"
  by (fastforce simp: prefix_free_def after_def)

lemma finite_after: "finite W \<Longrightarrow> finite (after x W)"
  unfolding after_def by (rule finite_imageD [where f = "Cons x"], rule finite_subset) auto

lemma split_first:
  assumes "[] \<notin> W" "\<forall>w \<in> W. set w \<subseteq> set ''01''"
  shows "W = Cons (CHR ''0'') ` after (CHR ''0'') W \<union> Cons (CHR ''1'') ` after (CHR ''1'') W"
proof
  show "W \<subseteq> Cons (CHR ''0'') ` after (CHR ''0'') W \<union> Cons (CHR ''1'') ` after (CHR ''1'') W"
  proof
    fix w assume w: "w \<in> W"
    then obtain x v where v: "w = x # v" using assms(1) by (cases w) auto
    then have "x = CHR ''0'' \<or> x = CHR ''1''" using assms(2) w by fastforce
    then show "w \<in> Cons (CHR ''0'') ` after (CHR ''0'') W \<union> Cons (CHR ''1'') ` after (CHR ''1'') W"
      using w v by (auto simp: after_def)
  qed
qed (auto simp: after_def)

lemma kraft_inequality:
  "finite W \<Longrightarrow> prefix_free W \<Longrightarrow> \<forall>w \<in> W. set w \<subseteq> set ''01'' \<and> length w \<le> N \<Longrightarrow>
   (\<Sum>w \<in> W. 2 ^ (N - length w)) \<le> (2 ^ N :: nat)"
proof (induction N arbitrary: W)
  case 0
  then have "W \<subseteq> {[]}" by auto
  then have "W = {} \<or> W = {[]}" by auto
  then show ?case by auto
next
  case (Suc N)
  show ?case
  proof (cases "[] \<in> W")
    case True
    then have "w = []" if "w \<in> W" for w
      using Suc.prems(2) that unfolding prefix_free_def by (metis Nil_prefix)
    with True have "W = {[]}" by blast
    then show ?thesis by simp
  next
    case False
    let ?A = "after (CHR ''0'') W" and ?B = "after (CHR ''1'') W"
    have W: "W = Cons (CHR ''0'') ` ?A \<union> Cons (CHR ''1'') ` ?B"
      using split_first [OF False] Suc.prems(3) by blast
    have "\<forall>w \<in> after x W. set w \<subseteq> set ''01'' \<and> length w \<le> N" for x
      using Suc.prems(3) by (fastforce simp: after_def)
    then have half: "(\<Sum>w \<in> after x W. 2 ^ (N - length w)) \<le> (2 ^ N :: nat)" for x
      using Suc.prems(1,2) by (intro Suc.IH prefix_free_after finite_after) blast+
    have "(\<Sum>w \<in> W. 2 ^ (Suc N - length w)) =
        (\<Sum>w \<in> Cons (CHR ''0'') ` ?A. 2 ^ (Suc N - length w)) +
        (\<Sum>w \<in> Cons (CHR ''1'') ` ?B. 2 ^ (Suc N - length w) :: nat)"
      using finite_after [OF Suc.prems(1)] by (subst W, subst sum.union_disjoint) auto
    also have "\<dots> = (\<Sum>w \<in> ?A. 2 ^ (N - length w)) + (\<Sum>w \<in> ?B. 2 ^ (N - length w))"
      by (simp add: sum.reindex)
    finally show ?thesis using half [of "CHR ''0''"] half [of "CHR ''1''"] by simp
  qed
qed

section \<open>The greedy merges are a lower bound\<close>

text \<open>Letters as pairs of a weight and the length of a code word.\<close>

definition code_cost :: "(int \<times> nat) multiset \<Rightarrow> int" where
  "code_cost P = (\<Sum>q \<in># P. fst q * int (snd q))"

lemma code_cost_simps [simp]:
  "code_cost {#} = 0" "code_cost (add_mset q P) = fst q * int (snd q) + code_cost P"
  by (simp_all add: code_cost_def)

text \<open>A lightest letter may take a longest word of the code; the others keep the other words.\<close>

lemma exchange:
  assumes "image_mset fst P = add_mset a V" "\<forall>w \<in># V. a \<le> w"
  obtains D Q where "image_mset fst Q = V" "image_mset snd P = add_mset D (image_mset snd Q)"
    "\<forall>d \<in># image_mset snd P. d \<le> D" "code_cost Q + a * int D \<le> code_cost P"
proof -
  obtain da P' where P: "P = add_mset (a, da) P'" "V = image_mset fst P'"
    using msed_map_invR [OF assms(1)] by (metis prod.collapse)
  define D where "D = Max (set_mset (image_mset snd P))"
  have max: "\<forall>d \<in># image_mset snd P. d \<le> D" by (simp add: D_def)
  have "D \<in># image_mset snd P" unfolding D_def by (rule Max_in) (simp_all add: P(1))
  then have "D = da \<or> D \<in># image_mset snd P'" by (auto simp: P(1))
  then show thesis
  proof
    assume "D = da"
    then show thesis using max P by (intro that [of P' D]) simp_all
  next
    assume "D \<in># image_mset snd P'"
    then obtain x where "(x, D) \<in># P'" by auto
    then obtain P'' where P'': "P' = add_mset (x, D) P''" by (metis mset_add)
    have "0 \<le> (x - a) * (int D - int da)"
      using assms(2) max P P'' by (intro mult_nonneg_nonneg) auto
    then show thesis
      using max P P'' by (intro that [of "add_mset (x, da) P''" D]) (simp_all add: algebra_simps)
  qed
qed

text \<open>When the longest word is longer than the next one, it can be shortened to that length.\<close>

lemma shorten:
  assumes "\<forall>d \<in># D. d \<le> m" "m \<le> n" "n \<le> N" "m \<in># D" "kraft N (add_mset n D) \<le> 2 ^ N"
  shows "kraft N D + 2 ^ (N - m) \<le> 2 ^ N" "0 < m"
proof -
  have "2 ^ (N - m) dvd kraft N D" using assms(1-3) by (intro kraft_dvd) simp_all
  moreover have "2 ^ (N - m) dvd (2 ^ N :: nat)" by (rule le_imp_power_dvd) simp
  ultimately obtain j k :: nat where jk: "kraft N D = 2 ^ (N - m) * j" "2 ^ N = 2 ^ (N - m) * k"
    by (auto elim!: dvdE)
  have less: "kraft N D < 2 ^ N" proof -
    have "(0::nat) < 2 ^ (N - n)" by simp
    then show ?thesis using assms(5) by (simp only: kraft_simps)
  qed
  then have "j < k" using jk by simp
  then have "2 ^ (N - m) * Suc j \<le> 2 ^ (N - m) * k" by (intro mult_le_mono2) simp
  then show "kraft N D + 2 ^ (N - m) \<le> 2 ^ N" using jk by simp
  obtain D' where "D = add_mset m D'" using assms(4) by (metis mset_add)
  then show "0 < m" using less by (cases m) simp_all
qed

lemma greedy_lower_bound:
  "greedy M c \<Longrightarrow> \<forall>w \<in># M. 0 \<le> w \<Longrightarrow> image_mset fst P = M \<Longrightarrow>
   \<forall>d \<in># image_mset snd P. d \<le> N \<Longrightarrow> kraft N (image_mset snd P) \<le> 2 ^ N \<Longrightarrow> c \<le> code_cost P"
proof (induction arbitrary: P rule: greedy.induct)
  case (one w)
  then obtain q where "P = {#q#}" "fst q = w"
    using msed_map_invR [of fst P w "{#}"] by auto
  with one show ?case by simp
next
  case (merge a b W c)
  have "\<forall>w \<in># add_mset b W. a \<le> w" using merge.hyps(1,2) by auto
  then obtain n Q where Q: "image_mset fst Q = add_mset b W"
    "image_mset snd P = add_mset n (image_mset snd Q)" "\<forall>d \<in># image_mset snd P. d \<le> n"
    "code_cost Q + a * int n \<le> code_cost P"
    using exchange [OF merge.prems(2)] by metis
  obtain m R where R: "image_mset fst R = W"
    "image_mset snd Q = add_mset m (image_mset snd R)" "\<forall>d \<in># image_mset snd Q. d \<le> m"
    "code_cost R + b * int m \<le> code_cost Q"
    using exchange [OF Q(1) merge.hyps(2)] by metis
  have mn: "m \<le> n" "n \<le> N" using Q(2,3) R(2) merge.prems(3) by simp_all
  have "m \<in># image_mset snd Q" using R(2) by simp
  from shorten [OF R(3) mn this] merge.prems(4)
  have s: "kraft N (image_mset snd Q) + 2 ^ (N - m) \<le> 2 ^ N" "0 < m" by (simp_all add: Q(2))
  have up: "(2::nat) ^ (N - (m - 1)) = 2 ^ (N - m) + 2 ^ (N - m)"
    using s(2) mn by (simp add: Suc_diff_le [symmetric] flip: power_Suc mult_2)
  let ?P = "add_mset (a + b, m - 1) R"
  have "c \<le> code_cost ?P"
  proof (rule merge.IH)
    show "\<forall>w \<in># add_mset (a + b) W. 0 \<le> w" using merge.prems(1) by auto
    show "image_mset fst ?P = add_mset (a + b) W" using R(1) by simp
    show "\<forall>d \<in># image_mset snd ?P. d \<le> N" using R(2,3) mn by auto
    show "kraft N (image_mset snd ?P) \<le> 2 ^ N" using s(1) R(2) up by simp
  qed
  moreover have "a * int m \<le> a * int n" using merge.prems(1) mn by (intro mult_left_mono) simp_all
  moreover have "(a + b) * int (m - 1) + (a + b) = a * int m + b * int m"
    using s(2) by (simp add: of_nat_diff algebra_simps)
  ultimately show ?case using Q(4) R(4) by simp
qed

section \<open>The tree reaches the bound\<close>

text \<open>The weight of a leaf times the length of its code.\<close>

definition spent :: "char \<times> int \<Rightarrow> char \<times> string \<Rightarrow> int" where
  "spent q c = snd q * int (length (snd c))"

lemma length_codes_of: "length (codes_of t p) = length (leaves t)"
  using fst_codes_of [of t p] by (metis length_map)

lemma spent_path_cost:
  "proper t \<Longrightarrow> weighted t \<Longrightarrow>
   sum_list (map2 spent (leaves t) (codes_of t p)) = path_cost t + frequency t * int (length p)"
proof (induction t arbitrary: p rule: proper_induct)
  case (node l f a b)
  have ab: "a \<noteq> Null" "b \<noteq> Null" using node.hyps by auto
  have w: "weighted a" "weighted b" "f = frequency a + frequency b"
    using node.prems ab by (simp_all add: weighted_frequency)
  show ?case
    using ab node.IH(1) [OF w(1), of "p @ ''0''"] node.IH(2) [OF w(2), of "p @ ''1''"]
    by (simp add: length_codes_of w(3) algebra_simps)
qed (simp add: spent_def)

lemma spent_map_of:
  assumes "map fst qs = map fst cs" "distinct (map fst cs)"
  shows "map2 spent qs cs = map (\<lambda>q. snd q * int (length (the (map_of cs (fst q))))) qs"
proof (rule nth_equalityI)
  have len: "length qs = length cs" using assms(1) by (metis length_map)
  then show "length (map2 spent qs cs) = length (map (\<lambda>q. snd q * int (length (the (map_of cs (fst q))))) qs)"
    by simp
  fix i assume "i < length (map2 spent qs cs)"
  then have i: "i < length qs" "i < length cs" using len by simp_all
  have "fst (qs ! i) = fst (cs ! i)" using assms(1) i by (metis nth_map)
  then have "map_of cs (fst (qs ! i)) = Some (snd (cs ! i))"
    using assms(2) i by (simp add: map_of_eq_Some_iff)
  then show "map2 spent qs cs ! i = map (\<lambda>q. snd q * int (length (the (map_of cs (fst q))))) qs ! i"
    using i by (simp add: spent_def)
qed

lemma code_table_cost:
  assumes t: "good_tree t" "mset (leaves t) = mset (zip letters fs)" "length fs = 56"
  shows "(\<Sum>i < 56. fs ! i * int (length (the (code_table t ! i)))) = path_cost t"
proof -
  let ?f = "\<lambda>q. snd q * int (length (code_of t (fst q)))"
  have lt: "letter_tree t" using good_tree_letters [OF assms] .
  have d: "distinct (map fst (codes_of t []))"
    using lt fst_codes_of [of t "[]"] mset_eq_imp_distinct_iff [of "map fst (leaves t)" letters]
    by (simp add: letter_tree_def)
  have "path_cost t = sum_list (map ?f (leaves t))"
    using spent_path_cost [of t "[]"] spent_map_of [OF _ d, of "leaves t"] t(1)
    by (simp add: good_tree_def fst_codes_of code_of_def)
  also have "\<dots> = sum_mset (image_mset ?f (mset (leaves t)))"
    by (simp flip: sum_mset_sum_list)
  also have "\<dots> = sum_list (map ?f (zip letters fs))"
    unfolding t(2) by (simp flip: sum_mset_sum_list)
  also have "\<dots> = (\<Sum>i < 56. ?f (zip letters fs ! i))"
    using t(3) by (simp add: sum_list_sum_nth atLeast0LessThan)
  also have "\<dots> = (\<Sum>i < 56. fs ! i * int (length (the (code_table t ! i))))"
    using t(3) by (intro sum.cong) (simp_all add: code_table_def code_of_def)
  finally show ?thesis ..
qed

section \<open>Any prefix-free code pays at least as much\<close>

lemma code_words_cost:
  assumes "greedy (mset fs) c" "length fs = n" "\<forall>f \<in> set fs. 0 \<le> f"
    and "\<forall>i < n. set (ws i) \<subseteq> set ''01''" "\<forall>i < n. \<forall>j < n. prefix (ws i) (ws j) \<longrightarrow> i = j"
  shows "c \<le> (\<Sum>i < n. fs ! i * int (length (ws i)))"
proof -
  let ?W = "ws ` {..<n}" and ?P = "image_mset (\<lambda>i. (fs ! i, length (ws i))) (mset_set {..<n})"
  define N where "N = Max (insert 0 (length ` ?W))"
  have N: "\<forall>i < n. length (ws i) \<le> N" unfolding N_def by (auto intro!: Max_ge)
  have inj: "inj_on ws {..<n}" using assms(5) by (auto intro!: inj_onI)
  have "prefix_free ?W" using assms(5) by (fastforce simp: prefix_free_def)
  then have "(\<Sum>w \<in> ?W. 2 ^ (N - length w)) \<le> (2 ^ N :: nat)"
    using assms(4) N by (intro kraft_inequality) auto
  then have "kraft N (image_mset snd ?P) \<le> 2 ^ N"
    using inj by (simp add: kraft_def sum.reindex image_mset.compositionality comp_def flip: sum_unfold_sum_mset)
  moreover have "image_mset fst ?P = mset fs"
  proof -
    have "mset fs = mset (map ((!) fs) [0..<n])" using assms(2) by (simp add: map_nth flip: assms(2))
    then show ?thesis by (simp add: image_mset.compositionality comp_def atLeast0LessThan)
  qed
  ultimately have "c \<le> code_cost ?P"
    using assms(1,3) N by (intro greedy_lower_bound [of "mset fs" c _ N]) auto
  then show ?thesis
    by (simp add: code_cost_def image_mset.compositionality comp_def sum_unfold_sum_mset)
qed

section \<open>The codes\<close>

text \<open>C7: the codes are optimal: for 56 non-negative counts whose sum is an \<open>int\<close> and any words of
  0 and 1 for the 56 letters of which none is a prefix of the word of another letter, the text that
  the counts are of is no longer in the codes that \<open>HuffmanCodes\<close> writes than in those words.\<close>

theorem huffman_codes_optimal:
  assumes "length fs = 56" "\<forall>f \<in> set fs. 0 \<le> f" "sum_list fs \<le> int_max"
    and "\<forall>i < 56. set (ws i) \<subseteq> set ''01''" "\<forall>i < 56. \<forall>j < 56. prefix (ws i) (ws j) \<longrightarrow> i = j"
  shows "\<exists>str tab. HuffmanCodes letters fs 56 (replicate 56 None) = Inr (str, tab) \<and>
    (\<Sum>i < 56. fs ! i * int (length (the (tab ! i)))) \<le> (\<Sum>i < 56. fs ! i * int (length (ws i)))"
proof -
  obtain t where t: "good_tree t" "mset (leaves t) = mset (zip letters fs)" "greedy (mset fs) (path_cost t)"
    "HuffmanCodes letters fs 56 (replicate 56 None) = Inr (tree_string t @ replicate 89 NUL, code_table t)"
    using HuffmanCodes_ok [of letters fs "replicate 56 None"] assms by (auto simp: code_table_def)
  then show ?thesis
    using code_table_cost [OF t(1,2) assms(1)] code_words_cost [OF t(3) assms(1,2,4,5)] by simp
qed

text \<open>A code of six bits for every letter.\<close>

definition six_bits :: "nat \<Rightarrow> string" where
  "six_bits i = map (\<lambda>k. if i div 2 ^ k mod 2 = 1 then CHR ''1'' else CHR ''0'') [5, 4, 3, 2, 1, 0]"

definition from_bits :: "string \<Rightarrow> nat" where
  "from_bits w = foldl (\<lambda>n x. 2 * n + (if x = CHR ''1'' then 1 else 0)) 0 w"

lemma from_six_bits: "i < 56 \<Longrightarrow> from_bits (six_bits i) = i"
proof -
  have "list_all (\<lambda>i. from_bits (six_bits i) = i) [0..<56]" by code_simp
  then show "i < 56 \<Longrightarrow> from_bits (six_bits i) = i" by (simp only: list_all_iff set_upt atLeastLessThan_iff) simp
qed

lemma six_bits_free: "i < 56 \<Longrightarrow> j < 56 \<Longrightarrow> prefix (six_bits i) (six_bits j) \<Longrightarrow> i = j"
proof -
  assume ij: "i < 56" "j < 56" and "prefix (six_bits i) (six_bits j)"
  moreover have "length (six_bits i) = length (six_bits j)" by (simp add: six_bits_def)
  ultimately have "six_bits i = six_bits j" by (auto simp: prefix_def)
  then show "i = j" using ij from_six_bits by metis
qed

lemma six_bits_01: "set (six_bits i) \<subseteq> set ''01''"
  unfolding six_bits_def set_map by (rule image_subsetI) simp

theorem huffman_codes_optimal_witness:
  "\<exists>str tab. HuffmanCodes letters (replicate 56 1) 56 (replicate 56 None) = Inr (str, tab) \<and>
    (\<Sum>i < 56. replicate 56 1 ! i * int (length (the (tab ! i)))) \<le>
      (\<Sum>i < 56. replicate 56 1 ! i * int (length (six_bits i)))"
proof (rule huffman_codes_optimal)
  show "\<forall>i < 56. \<forall>j < 56. prefix (six_bits i) (six_bits j) \<longrightarrow> i = j"
    using six_bits_free by blast
  show "\<forall>i < 56. set (six_bits i) \<subseteq> set ''01''" using six_bits_01 by blast
qed (simp_all add: sum_list_replicate)

section \<open>The compressed file\<close>

lemma length_concat_words:
  assumes "set s \<subseteq> set letters"
  shows "int (length (concat (map w s))) = (\<Sum>i < 56. counts letters s ! i * int (length (w (letters ! i))))"
proof -
  have "length (concat (map w s)) = sum_list (map (\<lambda>x. length (w x)) s)"
    by (simp add: length_concat comp_def)
  also have "\<dots> = (\<Sum>x \<in> set letters. count_list s x * length (w x))"
    using assms by (rule sum_list_map_eq_sum_count2) simp
  also have "\<dots> = sum_list (map (\<lambda>x. count_list s x * length (w x)) letters)"
    by (simp add: sum_list_distinct_conv_sum_set)
  also have "\<dots> = (\<Sum>i < 56. count_list s (letters ! i) * length (w (letters ! i)))"
    by (simp add: sum_list_sum_nth atLeast0LessThan)
  finally show ?thesis by (simp add: counts_def)
qed

text \<open>C8: the text that \<open>compress\<close> is given takes no more characters in the codes than in any other words
  for the letters of which none is a prefix of another: with such words given, the file is at most its
  twelve bytes of lengths and 167 of the tree longer than the text in those words, eight to a byte.\<close>

theorem compress_file_smallest:
  assumes "3 \<le> argc" "set s \<subseteq> set letters" "7 * int (length s) \<le> int_max"
    and "\<forall>x \<in> set letters. set (w x) \<subseteq> set ''01''"
    and "\<forall>x \<in> set letters. \<forall>y \<in> set letters. prefix (w x) (w y) \<longrightarrow> x = y"
  shows "\<exists>bs. compress_main argc (Some s) (NUL # rest) True = Inr (Output_file bs) \<and>
    length bs \<le> 179 + (length (concat (map w s)) + 7) div 8"
proof -
  obtain t where t: "text_tree s = t" "good_tree t"
    "mset (leaves t) = mset (zip letters (counts letters s))" "greedy (mset (counts letters s)) (path_cost t)"
    using HuffmanCodes_ok [of letters "counts letters s" "replicate 56 None"] assms(2,3) counts_nonneg
    by (auto simp: sum_counts text_tree_def)
  have lt: "letter_tree t" using good_tree_letters [OF t(2,3)] by simp
  have mem: "letters ! i \<in> set letters" if "i < 56" for i using that by simp
  have "i = j" if "i < 56" "j < 56" "prefix (w (letters ! i)) (w (letters ! j))" for i j
    using assms(5) mem that nth_eq_iff_index_eq [of letters i j] by auto
  then have "path_cost t \<le> int (length (concat (map w s)))"
    unfolding length_concat_words [OF assms(2)]
    using assms(4) mem by (intro code_words_cost [OF t(4)] counts_nonneg) simp_all
  moreover have "int (length (text_bits t s)) = path_cost t"
    unfolding text_bits_def length_concat_words [OF assms(2)]
    using code_table_cost [OF t(2,3)] by (simp add: code_table_def code_of_def)
  ultimately have "length (text_bits t s) \<le> length (concat (map w s))" by linarith
  moreover have "length (file_of s) = 179 + length (encoded (text_bits t s))"
    using length_tree_string [of t] length_leaves_letter_tree [OF lt] lt t(1)
    by (simp add: file_of_def Let_def letter_tree_def)
  ultimately show ?thesis
    using compress_main_result [OF assms(1-3), of rest] length_encoded [of "text_bits t s"]
      padding_less [of "text_bits t s"] by auto
qed

theorem compress_file_smallest_witness:
  "\<exists>bs. compress_main 3 (Some ''A cab.'') (NUL # ''junk'') True = Inr (Output_file bs) \<and>
    length bs \<le> 179 + (length (concat (map (\<lambda>x. six_bits (index_of letters x)) ''A cab.'')) + 7) div 8"
proof (rule compress_file_smallest)
  show "\<forall>x \<in> set letters. set (six_bits (index_of letters x)) \<subseteq> set ''01''" using six_bits_01 by blast
  have "x = y" if "x \<in> set letters" "y \<in> set letters"
    "prefix (six_bits (index_of letters x)) (six_bits (index_of letters y))" for x y
    using that six_bits_free [of "index_of letters x" "index_of letters y"]
      index_of_less [of letters x] index_of_less [of letters y] index_of_inj [of x letters y]
    unfolding letters_alphabet by blast
  then show "\<forall>x \<in> set letters. \<forall>y \<in> set letters.
      prefix (six_bits (index_of letters x)) (six_bits (index_of letters y)) \<longrightarrow> x = y" by blast
qed (simp_all add: letters_def)

end
