(* ===== verification/PQueue.thy ===== *)
theory PQueue
  imports Prelude
begin

text \<open>
  The priority queue of \<open>inc/pqueue.h\<close>, a linked list ordered by frequency. (No other file
  includes the header.) The list is reachable through its head only, so a \<open>PQ_Node*\<close> is a value
  of \<open>pq_node\<close>; \<open>pq_pop\<close>, \<open>pq_push\<close>, \<open>pq_peek\<close> are the functions \<open>pop\<close>, \<open>push\<close> and
  \<open>peek\<close> of that header.
\<close>

section \<open>Operations\<close>

datatype pq_node =
    PQ_NULL
  | PQ_Node (pq_letters: "char list") (pq_frequency: int) (pq_next: pq_node)

definition newNode :: "char list \<Rightarrow> int \<Rightarrow> pq_node" where
  "newNode l f = PQ_Node l f PQ_NULL"

definition pq_peek :: "pq_node \<Rightarrow> pq_node" where
  "pq_peek head = head"

fun pq_pop :: "pq_node \<Rightarrow> pq_node c" where
  "pq_pop PQ_NULL = Inl Null_deref"
| "pq_pop (PQ_Node l f nx) = Inr nx"

text \<open>The walk of \<open>push\<close>: \<open>curr\<close> with the new node linked in behind the smaller ones.\<close>

fun pq_walk :: "pq_node \<Rightarrow> pq_node \<Rightarrow> pq_node c" where
  "pq_walk PQ_NULL v = Inl Null_deref"
| "pq_walk (PQ_Node l f nx) v =
     (if nx \<noteq> PQ_NULL \<and> pq_frequency nx < pq_frequency v
      then bindE (pq_walk nx v) (\<lambda>nx. Inr (PQ_Node l f nx))
      else Inr (PQ_Node l f (PQ_Node (pq_letters v) (pq_frequency v) nx)))"

fun pq_push :: "pq_node \<Rightarrow> char list \<Rightarrow> int \<Rightarrow> pq_node c" where
  "pq_push PQ_NULL l f = Inl Null_deref"
| "pq_push (PQ_Node cl cf nx) l f =
     (let curr = PQ_Node cl cf nx; new_node = newNode l f in
      if cf > pq_frequency new_node
      then Inr (PQ_Node (pq_letters new_node) (pq_frequency new_node) curr)
      else pq_walk curr new_node)"

definition isEmpty :: "pq_node \<Rightarrow> bool" where
  "isEmpty head \<longleftrightarrow> head = PQ_NULL"

section \<open>Order and contents\<close>

fun pq_list :: "pq_node \<Rightarrow> (char list \<times> int) list" where
  "pq_list PQ_NULL = []"
| "pq_list (PQ_Node l f nx) = (l, f) # pq_list nx"

lemma pq_list_Nil_iff [simp]: "pq_list q = [] \<longleftrightarrow> q = PQ_NULL"
  by (cases q) auto

text \<open>Where \<open>push\<close> puts the new element of a sorted list.\<close>

fun insert_from :: "(char list \<times> int) list \<Rightarrow> char list \<times> int \<Rightarrow> (char list \<times> int) list" where
  "insert_from [] x = [x]"
| "insert_from (y # ys) x = (if snd y < snd x then y # insert_from ys x else x # y # ys)"

lemma mset_insert_from [simp]: "mset (insert_from ys x) = add_mset x (mset ys)"
  by (induction ys) auto

lemma set_insert_from [simp]: "set (insert_from ys x) = insert x (set ys)"
  by (induction ys) auto

lemma sorted_insert_from:
  "sorted (map snd ys) \<Longrightarrow> sorted (map snd (insert_from ys x))"
  by (induction ys) auto

lemma pq_walk_list:
  "pq_walk (PQ_Node l f nx) v =
     Inr q \<Longrightarrow> pq_list q = (l, f) # insert_from (pq_list nx) (pq_letters v, pq_frequency v)"
proof (induction nx arbitrary: l f q)
  case (PQ_Node l' f' nx)
  then show ?case by (auto split: if_splits)
qed simp

lemma pq_walk_total: "\<exists>q. pq_walk (PQ_Node l f nx) v = Inr q"
  by (induction nx arbitrary: l f) auto

lemma pq_push_list:
  assumes "q \<noteq> PQ_NULL"
  shows "\<exists>q'. pq_push q l f = Inr q' \<and>
    pq_list q' = (case pq_list q of y # ys \<Rightarrow>
      if f < snd y then (l, f) # y # ys else y # insert_from ys (l, f))"
proof (cases q)
  case (PQ_Node cl cf nx)
  show ?thesis
  proof (cases "f < cf")
    case False
    obtain q' where "pq_walk (PQ_Node cl cf nx) (newNode l f) = Inr q'" using pq_walk_total by blast
    then show ?thesis
      using pq_walk_list [of cl cf nx "newNode l f" q'] False
      by (simp add: PQ_Node newNode_def)
  qed (simp add: PQ_Node newNode_def)
qed (use assms in simp)

lemma pq_push_sorted:
  assumes "q \<noteq> PQ_NULL" "sorted (map snd (pq_list q))"
  shows "\<exists>q'. pq_push q l f = Inr q' \<and> sorted (map snd (pq_list q')) \<and>
    mset (pq_list q') = add_mset (l, f) (mset (pq_list q))"
proof -
  obtain y ys where y: "pq_list q = y # ys" using assms(1) by (cases q) auto
  obtain q' where q': "pq_push q l f = Inr q'"
    "pq_list q' = (if f < snd y then (l, f) # y # ys else y # insert_from ys (l, f))"
    using pq_push_list [OF assms(1), of l f] y by auto
  have s: "sorted (map snd (insert_from ys (l, f)))"
    using assms(2) y by (intro sorted_insert_from) simp
  then show ?thesis using q' y s assms(2) by auto
qed

text \<open>\<open>push\<close> on a non-empty queue keeps it sorted by frequency and adds exactly the new
  element; \<open>pop\<close> then removes an element of least frequency. On the empty queue, which is how
  every queue starts, both dereference a null pointer.\<close>

theorem pqueue_operations:
  assumes "sorted (map snd (pq_list q))"
  shows "(if isEmpty q then pq_push q l f = Inl Null_deref \<and> pq_pop q = Inl Null_deref
    else (\<exists>q'. pq_push q l f = Inr q' \<and> sorted (map snd (pq_list q')) \<and>
        mset (pq_list q') = add_mset (l, f) (mset (pq_list q))) \<and>
      (\<exists>q'. pq_pop q = Inr q' \<and> sorted (map snd (pq_list q')) \<and>
        mset (pq_list q) = add_mset (pq_letters (pq_peek q), pq_frequency (pq_peek q)) (mset (pq_list q')) \<and>
        (\<forall>y \<in> set (pq_list q). pq_frequency (pq_peek q) \<le> snd y)))"
proof (cases q)
  case PQ_NULL
  then show ?thesis by (simp add: isEmpty_def)
next
  case (PQ_Node cl cf nx)
  then show ?thesis
    using pq_push_sorted [OF _ assms, of l f] assms by (auto simp: isEmpty_def pq_peek_def)
qed

theorem pqueue_operations_witness:
  "let q = PQ_Node ''a'' 2 (PQ_Node ''b'' 5 PQ_NULL) in
   \<exists>q'. pq_push q ''c'' 3 = Inr q' \<and> sorted (map snd (pq_list q')) \<and>
     mset (pq_list q') = add_mset (''c'', 3) (mset (pq_list q))"
  using pqueue_operations [of "PQ_Node ''a'' 2 (PQ_Node ''b'' 5 PQ_NULL)" "''c''" 3]
  by (simp add: isEmpty_def Let_def)

end
