(* ===== verification/ConnQueue.thy ===== *)
theory ConnQueue
  imports Prelude
begin

text \<open>
  The queue of client sockets, \<open>src/conn_queue.c\<close>: a singly linked list on the C heap with a
  pointer to each end. The heap is an explicit store from addresses to nodes, a pointer is an
  address or \<open>None\<close> for \<open>NULL\<close>, \<open>malloc\<close> hands out an address that is an argument of
  \<open>enqueue\<close>, \<open>free\<close> removes the node from the store.
\<close>

section \<open>State\<close>

type_synonym addr = nat

record cq_node =
  cq_next :: "addr option"
  client_socket :: addr

record conn_queue =
  cq_mem :: "addr \<rightharpoonup> cq_node"
  cq_head :: "addr option"
  cq_tail :: "addr option"

definition cq_init :: conn_queue where
  "cq_init = \<lparr>cq_mem = Map.empty, cq_head = None, cq_tail = None\<rparr>"

section \<open>Operations\<close>

definition deref :: "(addr \<rightharpoonup> 'a) \<Rightarrow> addr option \<Rightarrow> 'a c" where
  "deref m p = (case p of None \<Rightarrow> Inl Null_deref
    | Some a \<Rightarrow> (case m a of None \<Rightarrow> Inl Bad_pointer | Some x \<Rightarrow> Inr x))"

text \<open>The statements of \<open>enqueue\<close> and \<open>dequeue\<close> that touch the shared state.\<close>

definition alloc_node :: "addr \<Rightarrow> addr \<Rightarrow> conn_queue \<Rightarrow> conn_queue" where
  "alloc_node new_node sock q =
     q\<lparr>cq_mem := (cq_mem q)(new_node \<mapsto> \<lparr>cq_next = None, client_socket = sock\<rparr>)\<rparr>"

definition link_tail :: "addr \<Rightarrow> conn_queue \<Rightarrow> conn_queue c" where
  "link_tail new_node q =
     bindE (deref (cq_mem q) (cq_tail q)) (\<lambda>n.
     Inr (q\<lparr>cq_mem := (cq_mem q)(the (cq_tail q) \<mapsto> n\<lparr>cq_next := Some new_node\<rparr>)\<rparr>))"

definition free_node :: "addr option \<Rightarrow> conn_queue \<Rightarrow> conn_queue c" where
  "free_node p q =
     bindE (deref (cq_mem q) p) (\<lambda>n. Inr (q\<lparr>cq_mem := (cq_mem q)(the p := None)\<rparr>))"

definition enqueue :: "addr \<Rightarrow> addr \<Rightarrow> conn_queue \<Rightarrow> conn_queue c" where
  "enqueue new_node sock q =
     (let q = alloc_node new_node sock q in
      bindE (if cq_tail q = None then Inr (q\<lparr>cq_head := Some new_node\<rparr>)
             else link_tail new_node q) (\<lambda>q.
      Inr (q\<lparr>cq_tail := Some new_node\<rparr>)))"

definition dequeue :: "conn_queue \<Rightarrow> (addr option \<times> conn_queue) c" where
  "dequeue q =
     (if cq_head q = None then Inr (None, q)
      else bindE (deref (cq_mem q) (cq_head q)) (\<lambda>n.
        let sock = client_socket n; old_head = cq_head q in
        bindE (deref (cq_mem q) (cq_head q)) (\<lambda>n.
        let q = q\<lparr>cq_head := cq_next n\<rparr>;
            q = (if cq_head q = None then q\<lparr>cq_tail := None\<rparr> else q) in
        bindE (free_node old_head q) (\<lambda>q.
        Inr (Some sock, q)))))"

section \<open>First in, first out\<close>

text \<open>The list of nodes from a pointer on.\<close>

fun chain :: "(addr \<rightharpoonup> cq_node) \<Rightarrow> addr option \<Rightarrow> (addr \<times> addr) list \<Rightarrow> bool" where
  "chain m p [] = (p = None)"
| "chain m p ((a, s) # ns) =
     (p = Some a \<and> (\<exists>n. m a = Some n \<and> client_socket n = s \<and> chain m (cq_next n) ns))"

definition queue_of :: "conn_queue \<Rightarrow> (addr \<times> addr) list \<Rightarrow> bool" where
  "queue_of q ns \<longleftrightarrow> chain (cq_mem q) (cq_head q) ns \<and> distinct (map fst ns) \<and>
     dom (cq_mem q) = set (map fst ns) \<and>
     cq_tail q = (if ns = [] then None else Some (fst (last ns)))"

definition holds_sockets :: "conn_queue \<Rightarrow> addr list \<Rightarrow> bool" where
  "holds_sockets q socks \<longleftrightarrow> (\<exists>ns. queue_of q ns \<and> map snd ns = socks)"

lemma chain_upd: "a \<notin> set (map fst ns) \<Longrightarrow> chain (m(a := x)) p ns = chain m p ns"
  by (induction m p ns rule: chain.induct) auto

lemma chain_snoc:
  "chain m p (ns @ [(b, t)]) \<Longrightarrow> distinct (map fst (ns @ [(b, t)])) \<Longrightarrow>
   a \<notin> set (map fst (ns @ [(b, t)])) \<Longrightarrow>
   chain (m(a \<mapsto> \<lparr>cq_next = None, client_socket = s\<rparr>, b \<mapsto> the (m b)\<lparr>cq_next := Some a\<rparr>)) p
     (ns @ [(b, t), (a, s)])"
  by (induction ns arbitrary: p) auto

lemma chain_dom: "chain m p ns \<Longrightarrow> set (map fst ns) \<subseteq> dom m"
  by (induction m p ns rule: chain.induct) auto

lemma queue_of_init: "queue_of cq_init []"
  by (simp add: queue_of_def cq_init_def)

lemma enqueue_queue_of:
  assumes q: "queue_of q ns" and a: "cq_mem q a = None"
  shows "\<exists>q'. enqueue a s q = Inr q' \<and> queue_of q' (ns @ [(a, s)])"
proof (cases ns rule: rev_cases)
  case Nil
  then show ?thesis using q by (simp add: enqueue_def alloc_node_def queue_of_def)
next
  case (snoc ms x)
  obtain b t where x: "x = (b, t)" by force
  have an: "a \<notin> set (map fst ns)" using q a chain_dom [of "cq_mem q" "cq_head q" ns]
    by (auto simp: queue_of_def)
  then have "a \<noteq> b" using snoc x by auto
  obtain n where n: "cq_mem q b = Some n"
    using q chain_dom [of "cq_mem q" "cq_head q" ns] snoc x by (fastforce simp: queue_of_def)
  have tl: "cq_tail q = Some b" using q snoc x by (simp add: queue_of_def)
  let ?q = "q\<lparr>cq_mem := (cq_mem q)(a \<mapsto> \<lparr>cq_next = None, client_socket = s\<rparr>,
      b \<mapsto> the (cq_mem q b)\<lparr>cq_next := Some a\<rparr>), cq_tail := Some a\<rparr>"
  have "enqueue a s q = Inr ?q"
    using \<open>a \<noteq> b\<close> n tl by (simp add: enqueue_def alloc_node_def link_tail_def deref_def)
  moreover have "queue_of ?q (ns @ [(a, s)])"
    using q an chain_snoc [of "cq_mem q" "cq_head q" ms b t a s] snoc x by (auto simp: queue_of_def)
  ultimately show ?thesis by blast
qed

lemma dequeue_empty: "queue_of q [] \<Longrightarrow> dequeue q = Inr (None, q)"
  by (simp add: queue_of_def dequeue_def)

lemma dequeue_queue_of:
  assumes q: "queue_of q ((a, s) # ns)"
  shows "\<exists>q'. dequeue q = Inr (Some s, q') \<and> queue_of q' ns"
proof -
  obtain n where n: "cq_head q = Some a" "cq_mem q a = Some n" "client_socket n = s"
    "chain (cq_mem q) (cq_next n) ns" "a \<notin> set (map fst ns)"
    using q by (auto simp: queue_of_def)
  have e: "cq_next n = None \<longleftrightarrow> ns = []" using n(4) by (cases ns) auto
  let ?q = "q\<lparr>cq_head := cq_next n, cq_tail := (if ns = [] then None else cq_tail q),
      cq_mem := (cq_mem q)(a := None)\<rparr>"
  have "dequeue q = Inr (Some s, ?q)"
    using n e by (auto simp: dequeue_def deref_def free_node_def Let_def)
  moreover have "queue_of ?q ns"
    using q n by (auto simp: queue_of_def chain_upd)
  ultimately show ?thesis by blast
qed

text \<open>
  What a server needs of its queue: the operations behave like those of a list, on every state
  that \<open>rep\<close> relates to one. \<open>fresh\<close> says which addresses \<open>malloc\<close> may return.
\<close>

locale fifo_queue =
  fixes rep :: "'q \<Rightarrow> 'e list \<Rightarrow> bool"
    and fresh :: "'q \<Rightarrow> 'a \<Rightarrow> bool"
    and enq :: "'a \<Rightarrow> 'e \<Rightarrow> 'q \<Rightarrow> 'q c"
    and deq :: "'q \<Rightarrow> ('e option \<times> 'q) c"
  assumes enq: "rep q xs \<Longrightarrow> fresh q a \<Longrightarrow> \<exists>q'. enq a x q = Inr q' \<and> rep q' (xs @ [x])"
    and deq_Nil: "rep q [] \<Longrightarrow> \<exists>q'. deq q = Inr (None, q') \<and> rep q' []"
    and deq_Cons: "rep q (x # xs) \<Longrightarrow> \<exists>q'. deq q = Inr (Some x, q') \<and> rep q' xs"
begin

text \<open>A sequence of operations and the results of its \<open>deq\<close>s; \<open>Some x\<close> enqueues \<open>x\<close>.\<close>

fun run_ops :: "('a \<times> 'e option) list \<Rightarrow> 'q \<Rightarrow> ('e option list \<times> 'q) c" where
  "run_ops [] q = Inr ([], q)"
| "run_ops ((a, Some x) # ops) q = bindE (enq a x q) (run_ops ops)"
| "run_ops ((a, None) # ops) q =
     bindE (deq q) (\<lambda>(r, q). bindE (run_ops ops q) (\<lambda>(rs, q). Inr (r # rs, q)))"

fun list_ops :: "'e option list \<Rightarrow> 'e list \<Rightarrow> 'e option list \<times> 'e list" where
  "list_ops [] xs = ([], xs)"
| "list_ops (Some x # ops) xs = list_ops ops (xs @ [x])"
| "list_ops (None # ops) [] = (case list_ops ops [] of (rs, ys) \<Rightarrow> (None # rs, ys))"
| "list_ops (None # ops) (x # xs) = (case list_ops ops xs of (rs, ys) \<Rightarrow> (Some x # rs, ys))"

lemma run_ops_Nil_deq:
  "rep q [] \<Longrightarrow> \<exists>q'. rep q' [] \<and>
     run_ops ((a, None) # ops) q = bindE (run_ops ops q') (\<lambda>(rs, q). Inr (None # rs, q))"
  using deq_Nil [of q] by force

lemma run_ops_Cons_deq:
  "rep q (x # xs) \<Longrightarrow> \<exists>q'. rep q' xs \<and>
     run_ops ((a, None) # ops) q = bindE (run_ops ops q') (\<lambda>(rs, q). Inr (Some x # rs, q))"
  using deq_Cons [of q x xs] by force

text \<open>Simulation by the list: sufficient is an allocator that only returns fresh addresses.\<close>

fun fresh_run :: "('a \<times> 'e option) list \<Rightarrow> 'q \<Rightarrow> bool" where
  "fresh_run [] q = True"
| "fresh_run ((a, Some x) # ops) q =
     (fresh q a \<and> (case enq a x q of Inl e \<Rightarrow> False | Inr q' \<Rightarrow> fresh_run ops q'))"
| "fresh_run ((a, None) # ops) q =
     (case deq q of Inl e \<Rightarrow> True | Inr (r, q') \<Rightarrow> fresh_run ops q')"

lemma run_ops_refines:
  "rep q xs \<Longrightarrow> fresh_run ops q \<Longrightarrow> list_ops (map snd ops) xs = (rs, ys) \<Longrightarrow>
   \<exists>q'. run_ops ops q = Inr (rs, q') \<and> rep q' ys"
proof (induction ops arbitrary: q xs rs ys)
  case (Cons op ops)
  obtain a r where op: "op = (a, r)" by force
  show ?case
  proof (cases r)
    case (Some x)
    then have "fresh q a" using Cons.prems(2) op by simp
    then obtain q1 where q1: "enq a x q = Inr q1" "rep q1 (xs @ [x])"
      using enq [OF Cons.prems(1)] by blast
    show ?thesis using Cons.IH [OF q1(2), of rs ys] Cons.prems op Some q1(1) by simp
  next
    case None
    show ?thesis
    proof (cases xs)
      case Nil
      then obtain q1 where q1: "deq q = Inr (None, q1)" "rep q1 []"
        using deq_Nil Cons.prems(1) by blast
      obtain us where "list_ops (map snd ops) [] = (us, ys)" "rs = None # us"
        using Cons.prems(3) op None Nil by (auto split: prod.splits)
      then show ?thesis using Cons.IH [OF q1(2)] Cons.prems(2) op None q1(1) by force
    next
      case (Cons x xs')
      then obtain q1 where q1: "deq q = Inr (Some x, q1)" "rep q1 xs'"
        using deq_Cons Cons.prems(1) by blast
      obtain us where "list_ops (map snd ops) xs' = (us, ys)" "rs = Some x # us"
        using Cons.prems(3) op None Cons by (auto split: prod.splits)
      then show ?thesis using Cons.IH [OF q1(2)] Cons.prems(2) op None q1(1) by force
    qed
  qed
qed simp

end

lemma enqueue_holds:
  assumes "holds_sockets q xs" "cq_mem q a = None"
  shows "\<exists>q'. enqueue a x q = Inr q' \<and> holds_sockets q' (xs @ [x])"
proof -
  obtain ns where ns: "queue_of q ns" "map snd ns = xs" using assms(1) by (auto simp: holds_sockets_def)
  obtain q' where "enqueue a x q = Inr q'" "queue_of q' (ns @ [(a, x)])"
    using enqueue_queue_of [OF ns(1) assms(2)] by blast
  moreover have "map snd (ns @ [(a, x)]) = xs @ [x]" using ns(2) by simp
  ultimately show ?thesis unfolding holds_sockets_def by blast
qed

lemma dequeue_holds_Cons:
  assumes "holds_sockets q (x # xs)"
  shows "\<exists>q'. dequeue q = Inr (Some x, q') \<and> holds_sockets q' xs"
proof -
  obtain a ns where ns: "queue_of q ((a, x) # ns)" "map snd ns = xs"
    using assms by (auto simp: holds_sockets_def)
  obtain q' where "dequeue q = Inr (Some x, q')" "queue_of q' ns"
    using dequeue_queue_of [OF ns(1)] by blast
  then show ?thesis using ns(2) unfolding holds_sockets_def by blast
qed

interpretation cq: fifo_queue holds_sockets "\<lambda>q a. cq_mem q a = None" enqueue dequeue
  by unfold_locales
    (auto simp: enqueue_holds dequeue_holds_Cons dest: dequeue_empty simp: holds_sockets_def [of _ "[]"])

end
