(* ===== verification/Server.thy ===== *)
theory Server
  imports ConnQueue
begin

text \<open>
  The threads of \<open>main.c\<close>: the main thread accepts connections and enqueues them, ten workers
  lock the mutex, dequeue a connection, unlock and handle it. A step is one access to the shared
  variables \<open>head\<close>, \<open>tail\<close>, the nodes and the mutex; the threads' program counters say which
  statement of \<open>enqueue\<close>, \<open>dequeue\<close> or \<open>common_thread_function\<close> comes next. \<open>main\<close> calls
  \<open>enqueue\<close> without the mutex, as the source does.
\<close>

section \<open>State\<close>

text \<open>
  Beside the variables of the program the state records its history: the connections in the order in
  which \<open>accept\<close> returned them, in which the workers took them out of the queue, and in which their
  handlers were called. No step depends on it.
\<close>

definition thread_count :: nat where
  "thread_count = 10"

datatype main_pc =
    M_Accept
  | M_Test addr addr
  | M_Head addr
  | M_Link addr
  | M_Tail addr

datatype worker_pc =
    W_Lock
  | W_Test
  | W_Read
  | W_Old addr
  | W_Head addr "addr option"
  | W_Check addr "addr option"
  | W_Clear addr "addr option"
  | W_Free addr "addr option"
  | W_Unlock "addr option"
  | W_Handle addr

record server =
  srv_queue :: conn_queue
  queue_mutex :: "nat option"
  main_at :: main_pc
  worker_at :: "nat \<Rightarrow> worker_pc"
  accepted :: "addr list"
  taken :: "addr list"
  served :: "addr list"
  crashed :: "c_err option"

definition server_init :: server where
  "server_init = \<lparr>srv_queue = cq_init, queue_mutex = None, main_at = M_Accept,
     worker_at = (\<lambda>w. W_Lock), accepted = [], taken = [], served = [], crashed = None\<rparr>"

section \<open>The main thread\<close>

text \<open>
  One step of the accept loop; when \<open>accept\<close> returns, the new node is at \<open>a\<close> and the
  \<open>int\<close> with the connection at \<open>sock\<close>.
\<close>

definition crash :: "server \<Rightarrow> c_err \<Rightarrow> server" where
  "crash s e = s\<lparr>crashed := Some e\<rparr>"

definition main_step :: "addr \<Rightarrow> addr \<Rightarrow> server \<Rightarrow> server" where
  "main_step a sock s =
     (let q = srv_queue s in
      case main_at s of
        M_Accept \<Rightarrow> s\<lparr>srv_queue := alloc_node a sock q, main_at := M_Test a sock,
          accepted := accepted s @ [sock]\<rparr>
      | M_Test n x \<Rightarrow> s\<lparr>main_at := (if cq_tail q = None then M_Head n else M_Link n)\<rparr>
      | M_Head n \<Rightarrow> s\<lparr>srv_queue := q\<lparr>cq_head := Some n\<rparr>, main_at := M_Tail n\<rparr>
      | M_Link n \<Rightarrow> (case link_tail n q of
            Inl e \<Rightarrow> crash s e
          | Inr q \<Rightarrow> s\<lparr>srv_queue := q, main_at := M_Tail n\<rparr>)
      | M_Tail n \<Rightarrow> s\<lparr>srv_queue := q\<lparr>cq_tail := Some n\<rparr>, main_at := M_Accept\<rparr>)"

section \<open>A worker\<close>

definition goto :: "nat \<Rightarrow> worker_pc \<Rightarrow> server \<Rightarrow> server" where
  "goto w pc s = s\<lparr>worker_at := (worker_at s)(w := pc)\<rparr>"

text \<open>\<open>None\<close>: the worker waits for the mutex.\<close>

definition worker_step :: "nat \<Rightarrow> server \<Rightarrow> server option" where
  "worker_step w s =
     (let q = srv_queue s in
      case worker_at s w of
        W_Lock \<Rightarrow>
          if queue_mutex s = None then Some (goto w W_Test (s\<lparr>queue_mutex := Some w\<rparr>)) else None
      | W_Test \<Rightarrow> Some (goto w (if cq_head q = None then W_Unlock None else W_Read) s)
      | W_Read \<Rightarrow> Some (case deref (cq_mem q) (cq_head q) of
            Inl e \<Rightarrow> crash s e
          | Inr n \<Rightarrow> goto w (W_Old (client_socket n)) (s\<lparr>taken := taken s @ [client_socket n]\<rparr>))
      | W_Old x \<Rightarrow> Some (goto w (W_Head x (cq_head q)) s)
      | W_Head x old \<Rightarrow> Some (case deref (cq_mem q) (cq_head q) of
            Inl e \<Rightarrow> crash s e
          | Inr n \<Rightarrow> goto w (W_Check x old) (s\<lparr>srv_queue := q\<lparr>cq_head := cq_next n\<rparr>\<rparr>))
      | W_Check x old \<Rightarrow> Some (goto w (if cq_head q = None then W_Clear x old else W_Free x old) s)
      | W_Clear x old \<Rightarrow> Some (goto w (W_Free x old) (s\<lparr>srv_queue := q\<lparr>cq_tail := None\<rparr>\<rparr>))
      | W_Free x old \<Rightarrow> Some (case free_node old q of
            Inl e \<Rightarrow> crash s e | Inr q \<Rightarrow> goto w (W_Unlock (Some x)) (s\<lparr>srv_queue := q\<rparr>))
      | W_Unlock r \<Rightarrow> Some (goto w (case r of None \<Rightarrow> W_Lock | Some x \<Rightarrow> W_Handle x)
            (s\<lparr>queue_mutex := None\<rparr>))
      | W_Handle x \<Rightarrow> Some (goto w W_Lock (s\<lparr>served := served s @ [x]\<rparr>)))"

section \<open>Steps\<close>

datatype who =
    By_main addr addr
  | By_worker nat

text \<open>\<open>malloc\<close> returns an address that is not in use.\<close>

definition step_fun :: "who \<Rightarrow> server \<Rightarrow> server option" where
  "step_fun l s =
     (if crashed s \<noteq> None then None
      else case l of
        By_main a x \<Rightarrow>
          if main_at s = M_Accept \<longrightarrow> cq_mem (srv_queue s) a = None then Some (main_step a x s) else None
      | By_worker w \<Rightarrow> if w < thread_count then worker_step w s else None)"

inductive server_step :: "server \<Rightarrow> who \<Rightarrow> server \<Rightarrow> bool" where
  Step: "step_fun l s = Some s' \<Longrightarrow> server_step s l s'"

inductive_simps server_step_iff: "server_step s l s'"

inductive server_runs :: "server \<Rightarrow> server \<Rightarrow> bool" for s where
  Start: "server_runs s s"
| Next: "server_runs s s' \<Longrightarrow> server_step s' l s'' \<Longrightarrow> server_runs s s''"

fun run_schedule :: "who list \<Rightarrow> server \<Rightarrow> server option" where
  "run_schedule [] s = Some s"
| "run_schedule (l # ls) s = (case step_fun l s of None \<Rightarrow> None | Some s' \<Rightarrow> run_schedule ls s')"

lemma server_runs_trans: "server_runs s' s'' \<Longrightarrow> server_runs s s' \<Longrightarrow> server_runs s s''"
  by (induction rule: server_runs.induct) (auto intro: server_runs.Next)

lemma run_schedule_runs: "run_schedule ls s = Some s' \<Longrightarrow> server_runs s s'"
proof (induction ls arbitrary: s)
  case (Cons l ls)
  then obtain s1 where s1: "step_fun l s = Some s1" "run_schedule ls s1 = Some s'"
    by (auto split: option.splits)
  have "server_runs s s1" using s1(1) by (blast intro: server_runs.intros server_step.intros)
  then show ?case using Cons.IH [OF s1(2)] by (rule server_runs_trans [rotated])
qed (auto intro: server_runs.intros)

lemma run_schedule_append:
  "run_schedule (ks @ ls) s = (case run_schedule ks s of None \<Rightarrow> None | Some s' \<Rightarrow> run_schedule ls s')"
  by (induction ks arbitrary: s) (auto split: option.splits)

section \<open>Mutual exclusion\<close>

definition in_dequeue :: "worker_pc \<Rightarrow> bool" where
  "in_dequeue pc \<longleftrightarrow> (case pc of W_Lock \<Rightarrow> False | W_Handle x \<Rightarrow> False | _ \<Rightarrow> True)"

lemma in_dequeue_simps [simp]:
  "\<not> in_dequeue W_Lock" "in_dequeue W_Test" "in_dequeue W_Read" "in_dequeue (W_Old x)"
  "in_dequeue (W_Head x p)" "in_dequeue (W_Check x p)" "in_dequeue (W_Clear x p)"
  "in_dequeue (W_Free x p)" "in_dequeue (W_Unlock r)" "\<not> in_dequeue (W_Handle x)"
  by (simp_all add: in_dequeue_def)

definition mutex_inv :: "server \<Rightarrow> bool" where
  "mutex_inv s \<longleftrightarrow> (\<forall>w. in_dequeue (worker_at s w) \<longleftrightarrow> queue_mutex s = Some w)"

lemma main_step_workers:
  "worker_at (main_step a x s) = worker_at s" "queue_mutex (main_step a x s) = queue_mutex s"
  "served (main_step a x s) = served s" "taken (main_step a x s) = taken s"
  by (auto simp: main_step_def crash_def Let_def split: main_pc.splits sum.splits)

lemma mutex_inv_goto:
  "mutex_inv s \<Longrightarrow> queue_mutex t = queue_mutex s \<Longrightarrow> worker_at t = worker_at s \<Longrightarrow>
   in_dequeue pc = in_dequeue (worker_at s w) \<Longrightarrow> mutex_inv (goto w pc t)"
  by (auto simp: mutex_inv_def goto_def)

lemma mutex_inv_crash: "mutex_inv s \<Longrightarrow> mutex_inv (crash s e)"
  by (simp add: mutex_inv_def crash_def)

lemma mutex_inv_lock:
  "mutex_inv s \<Longrightarrow> queue_mutex s = None \<Longrightarrow> mutex_inv (goto w W_Test (s\<lparr>queue_mutex := Some w\<rparr>))"
  by (auto simp: mutex_inv_def goto_def)

lemma mutex_inv_unlock:
  "mutex_inv s \<Longrightarrow> in_dequeue (worker_at s w) \<Longrightarrow> \<not> in_dequeue pc \<Longrightarrow>
   mutex_inv (goto w pc (s\<lparr>queue_mutex := None\<rparr>))"
  by (auto simp: mutex_inv_def goto_def)

lemma worker_step_mutex_inv:
  assumes "mutex_inv s" "worker_step w s = Some s'"
  shows "mutex_inv s'"
proof (cases "worker_at s w")
  case W_Lock
  then show ?thesis
    using assms(2) mutex_inv_lock [OF assms(1)] by (auto simp: worker_step_def Let_def split: if_splits)
next
  case (W_Unlock r)
  then show ?thesis
    using assms mutex_inv_unlock [OF assms(1), of w] by (auto simp: worker_step_def Let_def split: option.splits)
next
  case W_Read
  then show ?thesis
    using assms by (auto simp: worker_step_def Let_def intro: mutex_inv_goto mutex_inv_crash split: sum.splits)
next
  case (W_Head x old)
  then show ?thesis
    using assms by (auto simp: worker_step_def Let_def intro: mutex_inv_goto mutex_inv_crash split: sum.splits)
next
  case (W_Free x old)
  then show ?thesis
    using assms by (auto simp: worker_step_def Let_def intro: mutex_inv_goto mutex_inv_crash split: sum.splits)
qed (use assms in \<open>auto simp: worker_step_def Let_def intro!: mutex_inv_goto\<close>)

lemma mutex_inv_step: "mutex_inv s \<Longrightarrow> server_step s l s' \<Longrightarrow> mutex_inv s'"
  by (cases l) (auto simp: server_step_iff step_fun_def main_step_workers worker_step_mutex_inv
      mutex_inv_def [of "main_step _ _ _"] split: if_splits simp flip: mutex_inv_def)

lemma mutex_inv_runs: "server_runs s s' \<Longrightarrow> mutex_inv s \<Longrightarrow> mutex_inv s'"
  by (induction rule: server_runs.induct) (auto intro: mutex_inv_step)

lemma mutex_inv_init: "mutex_inv server_init"
  by (simp add: mutex_inv_def server_init_def)

end
