(* ===== verification/ServerProofs.thy ===== *)
theory ServerProofs
  imports Server
begin

text \<open>
  What the threads of \<open>main.c\<close> guarantee and what they do not: no connection is lost or served
  twice in a run in which \<open>enqueue\<close> does not overlap a \<open>dequeue\<close>; in the runs the source
  allows, without the mutex around \<open>enqueue\<close>, there is one that ends in a null pointer
  dereference and one after which no connection is ever served again.
\<close>

section \<open>Runs without overlap\<close>

text \<open>Connections that a worker has taken and not finished.\<close>

definition hand :: "worker_pc \<Rightarrow> addr multiset" where
  "hand pc = (case pc of
     W_Old x \<Rightarrow> {#x#} | W_Head x p \<Rightarrow> {#x#} | W_Check x p \<Rightarrow> {#x#} | W_Clear x p \<Rightarrow> {#x#}
   | W_Free x p \<Rightarrow> {#x#} | W_Unlock (Some x) \<Rightarrow> {#x#} | W_Handle x \<Rightarrow> {#x#} | _ \<Rightarrow> {#})"

lemma hand_simps [simp]:
  "hand W_Lock = {#}" "hand W_Test = {#}" "hand W_Read = {#}" "hand (W_Old x) = {#x#}"
  "hand (W_Head x p) = {#x#}" "hand (W_Check x p) = {#x#}" "hand (W_Clear x p) = {#x#}"
  "hand (W_Free x p) = {#x#}" "hand (W_Unlock None) = {#}" "hand (W_Unlock (Some x)) = {#x#}"
  "hand (W_Handle x) = {#x#}"
  by (simp_all add: hand_def)

definition hands :: "server \<Rightarrow> addr multiset" where
  "hands s = (\<Sum>w < thread_count. hand (worker_at s w))"

lemma sum_upd:
  "w < (n::nat) \<Longrightarrow> (\<Sum>v < n. hand ((f(w := p)) v)) + hand (f w) = (\<Sum>v < n. hand (f v)) + hand p"
proof (induction n)
  case (Suc n)
  show ?case
  proof (cases "w = n")
    case True
    then have "(\<Sum>v < n. hand ((f(w := p)) v)) = (\<Sum>v < n. hand (f v))" by (intro sum.cong) auto
    then show ?thesis using True by (simp add: ac_simps)
  next
    case False
    then show ?thesis using Suc by (simp add: ac_simps)
  qed
qed simp

lemma hands_goto: "w < thread_count \<Longrightarrow> worker_at t = worker_at s \<Longrightarrow>
    hands (goto w pc t) + hand (worker_at s w) = hands s + hand pc"
  using sum_upd [of w thread_count "worker_at s" pc] by (simp add: hands_def goto_def)

text \<open>The queue while the main thread runs \<open>enqueue\<close>; \<open>xs\<close> is the connection in its hand.\<close>

fun main_ok :: "main_pc \<Rightarrow> conn_queue \<Rightarrow> (addr \<times> addr) list \<Rightarrow> addr list \<Rightarrow> bool" where
  "main_ok M_Accept q ns xs \<longleftrightarrow> queue_of q ns \<and> xs = []"
| "main_ok (M_Test n x) q ns xs \<longleftrightarrow>
     (\<exists>q0. queue_of q0 ns \<and> cq_mem q0 n = None \<and> q = alloc_node n x q0 \<and> xs = [x])"
| "main_ok (M_Head n) q ns xs \<longleftrightarrow>
     (\<exists>q0 x. queue_of q0 ns \<and> cq_mem q0 n = None \<and> q = alloc_node n x q0 \<and> cq_tail q = None \<and> xs = [x])"
| "main_ok (M_Link n) q ns xs \<longleftrightarrow>
     (\<exists>q0 x. queue_of q0 ns \<and> cq_mem q0 n = None \<and> q = alloc_node n x q0 \<and> cq_tail q \<noteq> None \<and> xs = [x])"
| "main_ok (M_Tail n) q ns xs \<longleftrightarrow>
     (\<exists>q0 x. queue_of q0 ns \<and> cq_mem q0 n = None \<and> enqueue n x q0 = Inr (q\<lparr>cq_tail := Some n\<rparr>) \<and> xs = [x])"

text \<open>The queue while a worker runs \<open>dequeue\<close>; \<open>ns\<close> are the connections nobody has taken.\<close>

fun worker_ok :: "worker_pc \<Rightarrow> conn_queue \<Rightarrow> (addr \<times> addr) list \<Rightarrow> bool" where
  "worker_ok W_Test q ns \<longleftrightarrow> queue_of q ns"
| "worker_ok W_Read q ns \<longleftrightarrow> queue_of q ns \<and> ns \<noteq> []"
| "worker_ok (W_Old x) q ns \<longleftrightarrow> (\<exists>a. queue_of q ((a, x) # ns))"
| "worker_ok (W_Head x old) q ns \<longleftrightarrow> (\<exists>a. old = Some a \<and> queue_of q ((a, x) # ns))"
| "worker_ok (W_Check x old) q ns \<longleftrightarrow>
     (\<exists>a n q0. old = Some a \<and> queue_of q0 ((a, x) # ns) \<and> cq_mem q0 a = Some n \<and>
        q = q0\<lparr>cq_head := cq_next n\<rparr>)"
| "worker_ok (W_Clear x old) q ns \<longleftrightarrow> ns = [] \<and>
     (\<exists>a n q0. old = Some a \<and> queue_of q0 [(a, x)] \<and> cq_mem q0 a = Some n \<and>
        q = q0\<lparr>cq_head := cq_next n\<rparr>)"
| "worker_ok (W_Free x old) q ns \<longleftrightarrow>
     (\<exists>a n q0. old = Some a \<and> queue_of q0 ((a, x) # ns) \<and> cq_mem q0 a = Some n \<and>
        q = q0\<lparr>cq_head := cq_next n, cq_tail := (if ns = [] then None else cq_tail q0)\<rparr>)"
| "worker_ok (W_Unlock r) q ns \<longleftrightarrow> queue_of q ns"
| "worker_ok pc q ns \<longleftrightarrow> False"

lemma queue_of_head: "queue_of q ns \<Longrightarrow> (cq_head q = None) = (ns = []) \<and> (cq_tail q = None) = (ns = [])"
  by (cases ns) (auto simp: queue_of_def)

lemma queue_of_Cons:
  "queue_of q ((a, x) # ns) \<Longrightarrow> cq_head q = Some a \<and>
     (\<exists>n. cq_mem q a = Some n \<and> client_socket n = x \<and> (cq_next n = None) = (ns = []))"
  by (cases ns) (auto simp: queue_of_def)

lemma main_step_ok:
  assumes ok: "main_ok (main_at s) (srv_queue s) ns xs"
    and fresh: "main_at s = M_Accept \<Longrightarrow> cq_mem (srv_queue s) a = None"
  shows "\<exists>ns' xs'. main_ok (main_at (main_step a x s)) (srv_queue (main_step a x s)) ns' xs' \<and>
    crashed (main_step a x s) = crashed s \<and>
    (\<exists>new. accepted (main_step a x s) = accepted s @ new \<and> map snd ns' @ xs' = map snd ns @ xs @ new)"
proof (cases "main_at s")
  case M_Accept
  then show ?thesis
    using ok fresh
    by (intro exI [of _ ns] exI [of _ "[x]"]) (auto simp: main_step_def)
next
  case (M_Test n y)
  then show ?thesis
    using ok by (intro exI [of _ ns] exI [of _ xs]) (auto simp: main_step_def alloc_node_def)
next
  case (M_Head n)
  then show ?thesis
    using ok by (intro exI [of _ ns] exI [of _ xs])
      (fastforce simp: main_step_def alloc_node_def enqueue_def)
next
  case (M_Link n)
  then obtain q0 y where q0: "queue_of q0 ns" "cq_mem q0 n = None" "srv_queue s = alloc_node n y q0"
    "cq_tail (srv_queue s) \<noteq> None" "xs = [y]"
    using ok unfolding M_Link main_ok.simps by blast
  obtain q1 where q1: "enqueue n y q0 = Inr q1" "queue_of q1 (ns @ [(n, y)])"
    using enqueue_queue_of [OF q0(1,2)] by blast
  then obtain q2 where q2: "link_tail n (srv_queue s) = Inr q2" "q1 = q2\<lparr>cq_tail := Some n\<rparr>"
    using q0(3,4) by (auto simp: enqueue_def)
  then show ?thesis
    using M_Link q0 q1 by (intro exI [of _ ns] exI [of _ xs]) (auto simp: main_step_def)
next
  case (M_Tail n)
  then obtain q0 y where q0: "queue_of q0 ns" "cq_mem q0 n = None" "xs = [y]"
    "enqueue n y q0 = Inr ((srv_queue s)\<lparr>cq_tail := Some n\<rparr>)" using ok by auto
  then have "queue_of ((srv_queue s)\<lparr>cq_tail := Some n\<rparr>) (ns @ [(n, y)])"
    using enqueue_queue_of [OF q0(1,2), of y] by auto
  then show ?thesis
    using M_Tail q0(3) by (intro exI [of _ "ns @ [(n, y)]"] exI [of _ "[]"]) (simp add: main_step_def)
qed

text \<open>
  A worker between lock and unlock moves on; \<open>new\<close> is the connection that it takes in this step from
  the front of the queue.
\<close>

lemma worker_step_ok:
  assumes ok: "worker_ok (worker_at s w) (srv_queue s) ns"
    and busy: "in_dequeue (worker_at s w)" "\<forall>r. worker_at s w \<noteq> W_Unlock r"
  shows "\<exists>pc q ns' new. worker_step w s = Some (goto w pc (s\<lparr>srv_queue := q, taken := taken s @ new\<rparr>)) \<and>
    in_dequeue pc \<and> worker_ok pc q ns' \<and>
    map snd ns = new @ map snd ns' \<and> hand pc = hand (worker_at s w) + mset new"
proof (cases "worker_at s w")
  case W_Test
  let ?q = "srv_queue s"
  have q: "queue_of ?q ns" using ok W_Test by simp
  show ?thesis
    using q W_Test queue_of_head [OF q]
    by (intro exI [of _ "if ns = [] then W_Unlock None else W_Read"] exI [of _ ?q] exI [of _ ns] exI [of _ "[]"])
      (auto simp: worker_step_def)
next
  case W_Read
  let ?q = "srv_queue s"
  obtain a x ns' where q: "queue_of ?q ((a, x) # ns')" "ns = (a, x) # ns'"
    using ok W_Read by (cases ns) auto
  then show ?thesis
    using W_Read queue_of_Cons [OF q(1)]
    by (intro exI [of _ "W_Old x"] exI [of _ ?q] exI [of _ ns'] exI [of _ "[x]"])
      (auto simp: worker_step_def deref_def Let_def)
next
  case (W_Old x)
  let ?q = "srv_queue s"
  obtain a where q: "queue_of ?q ((a, x) # ns)" using ok W_Old by auto
  then show ?thesis
    using W_Old queue_of_Cons [OF q]
    by (intro exI [of _ "W_Head x (Some a)"] exI [of _ ?q] exI [of _ ns] exI [of _ "[]"])
      (simp add: worker_step_def)
next
  case (W_Head x old)
  let ?q = "srv_queue s"
  obtain a where q: "old = Some a" "queue_of ?q ((a, x) # ns)" using ok W_Head by auto
  obtain n where n: "cq_head ?q = Some a" "cq_mem ?q a = Some n" using queue_of_Cons [OF q(2)] by blast
  have "worker_ok (W_Check x old) (?q\<lparr>cq_head := cq_next n\<rparr>) ns"
    unfolding worker_ok.simps using q n by (intro exI [of _ a] exI [of _ n] exI [of _ ?q]) simp
  then show ?thesis
    using W_Head n by (intro exI [of _ "W_Check x old"] exI [of _ "?q\<lparr>cq_head := cq_next n\<rparr>"] exI [of _ ns] exI [of _ "[]"])
      (simp add: worker_step_def deref_def Let_def)
next
  case (W_Check x old)
  let ?q = "srv_queue s"
  obtain a n q0 where q: "old = Some a" "queue_of q0 ((a, x) # ns)" "cq_mem q0 a = Some n"
    "?q = q0\<lparr>cq_head := cq_next n\<rparr>" using ok W_Check by auto
  have e: "(cq_head ?q = None) = (ns = [])" using queue_of_Cons [OF q(2)] q(3,4) by auto
  show ?thesis
  proof (cases "ns = []")
    case True
    then have "worker_ok (W_Clear x old) ?q ns"
      unfolding worker_ok.simps using q by (intro conjI exI [of _ a] exI [of _ n] exI [of _ q0]) simp_all
    then show ?thesis
      using W_Check True e by (intro exI [of _ "W_Clear x old"] exI [of _ ?q] exI [of _ ns] exI [of _ "[]"])
        (simp add: worker_step_def)
  next
    case False
    then have "worker_ok (W_Free x old) ?q ns"
      unfolding worker_ok.simps using q by (intro exI [of _ a] exI [of _ n] exI [of _ q0]) simp
    then show ?thesis
      using W_Check False e by (intro exI [of _ "W_Free x old"] exI [of _ ?q] exI [of _ ns] exI [of _ "[]"])
        (auto simp: worker_step_def)
  qed
next
  case (W_Clear x old)
  let ?q = "srv_queue s"
  obtain a n q0 where q: "ns = []" "old = Some a" "queue_of q0 [(a, x)]" "cq_mem q0 a = Some n"
    "?q = q0\<lparr>cq_head := cq_next n\<rparr>" using ok W_Clear by auto
  then have "worker_ok (W_Free x old) (?q\<lparr>cq_tail := None\<rparr>) ns"
    unfolding worker_ok.simps by (intro exI [of _ a] exI [of _ n] exI [of _ q0]) simp
  then show ?thesis
    using W_Clear by (intro exI [of _ "W_Free x old"] exI [of _ "?q\<lparr>cq_tail := None\<rparr>"] exI [of _ ns] exI [of _ "[]"])
      (simp add: worker_step_def)
next
  case (W_Free x old)
  let ?q = "srv_queue s"
  obtain a n q0 where q: "old = Some a" "queue_of q0 ((a, x) # ns)" "cq_mem q0 a = Some n"
    "?q = q0\<lparr>cq_head := cq_next n, cq_tail := (if ns = [] then None else cq_tail q0)\<rparr>"
    using ok W_Free by auto
  let ?q' = "?q\<lparr>cq_mem := (cq_mem ?q)(a := None)\<rparr>"
  have "queue_of ?q' ns" using q by (auto simp: queue_of_def chain_upd)
  then show ?thesis
    using W_Free q by (intro exI [of _ "W_Unlock (Some x)"] exI [of _ ?q'] exI [of _ ns] exI [of _ "[]"])
      (simp add: worker_step_def free_node_def deref_def Let_def)
qed (use busy in auto)

definition quiet_inv :: "server \<Rightarrow> bool" where
  "quiet_inv s \<longleftrightarrow> crashed s = None \<and> mutex_inv s \<and>
     (\<exists>ns xs. (case queue_mutex s of
         None \<Rightarrow> main_ok (main_at s) (srv_queue s) ns xs
       | Some w \<Rightarrow> main_at s = M_Accept \<and> xs = [] \<and> worker_ok (worker_at s w) (srv_queue s) ns) \<and>
       accepted s = taken s @ map snd ns @ xs) \<and>
     mset (taken s) = mset (served s) + hands s"

text \<open>
  A step that does not let \<open>enqueue\<close> and \<open>dequeue\<close> overlap: what a mutex around \<open>enqueue\<close> would
  enforce.
\<close>

definition quiet :: "who \<Rightarrow> server \<Rightarrow> bool" where
  "quiet l s = (case l of
     By_main a x \<Rightarrow> queue_mutex s = None
   | By_worker w \<Rightarrow> worker_at s w = W_Lock \<longrightarrow> main_at s = M_Accept)"

inductive quiet_runs :: "server \<Rightarrow> server \<Rightarrow> bool" for s where
  Quiet_start: "quiet_runs s s"
| Quiet_next: "quiet_runs s s' \<Longrightarrow> server_step s' l s'' \<Longrightarrow> quiet l s' \<Longrightarrow> quiet_runs s s''"

lemma quiet_main:
  assumes inv: "quiet_inv s" and m: "queue_mutex s = None"
    and fresh: "main_at s = M_Accept \<Longrightarrow> cq_mem (srv_queue s) a = None"
  shows "quiet_inv (main_step a x s)"
proof -
  obtain ns xs where ns: "main_ok (main_at s) (srv_queue s) ns xs" "accepted s = taken s @ map snd ns @ xs"
    using inv m by (auto simp: quiet_inv_def)
  obtain ns' xs' new where n': "main_ok (main_at (main_step a x s)) (srv_queue (main_step a x s)) ns' xs'"
    "crashed (main_step a x s) = crashed s" "accepted (main_step a x s) = accepted s @ new"
    "map snd ns' @ xs' = map snd ns @ xs @ new"
    using main_step_ok [OF ns(1) fresh, of x] by blast
  have "accepted (main_step a x s) = taken s @ map snd ns' @ xs'" using n'(3,4) ns(2) by simp
  then show ?thesis
    using n'(1,2) m inv by (auto simp: quiet_inv_def main_step_workers mutex_inv_def hands_def)
qed

lemma quiet_invI:
  assumes "crashed s = None" "mutex_inv s" "queue_mutex s = Some w" "main_at s = M_Accept"
    and "worker_ok (worker_at s w) (srv_queue s) ns"
    and "accepted s = taken s @ map snd ns" "mset (taken s) = mset (served s) + hands s"
  shows "quiet_inv s"
  using assms unfolding quiet_inv_def by (intro conjI exI [of _ ns] exI [of _ "[]"]) simp_all

lemma goto_sel [simp]:
  "crashed (goto w pc s) = crashed s" "queue_mutex (goto w pc s) = queue_mutex s"
  "main_at (goto w pc s) = main_at s" "srv_queue (goto w pc s) = srv_queue s"
  "accepted (goto w pc s) = accepted s" "served (goto w pc s) = served s" "taken (goto w pc s) = taken s"
  "worker_at (goto w pc s) w = pc"
  by (simp_all add: goto_def)

lemma quiet_worker:
  assumes inv: "quiet_inv s" and w: "w < thread_count" and st: "worker_step w s = Some s'"
    and q: "quiet (By_worker w) s"
  shows "quiet_inv s'"
proof -
  have mi: "mutex_inv s" "mutex_inv s'" and cr: "crashed s = None"
    using inv worker_step_mutex_inv [OF _ st] by (auto simp: quiet_inv_def)
  have holder: "in_dequeue (worker_at s w) \<longleftrightarrow> queue_mutex s = Some w" using mi(1) by (simp add: mutex_inv_def)
  consider "worker_at s w = W_Lock" | r where "worker_at s w = W_Unlock r"
    | x where "worker_at s w = W_Handle x"
    | "in_dequeue (worker_at s w)" "\<forall>r. worker_at s w \<noteq> W_Unlock r"
    by (cases "worker_at s w") auto
  then show ?thesis
  proof cases
    case 1
    then have m: "queue_mutex s = None" "main_at s = M_Accept"
      and s': "s' = goto w W_Test (s\<lparr>queue_mutex := Some w\<rparr>)"
      using st q by (auto simp: worker_step_def quiet_def Let_def split: if_splits)
    obtain ns where "queue_of (srv_queue s) ns" "accepted s = taken s @ map snd ns"
      using inv m by (auto simp: quiet_inv_def)
    moreover have "hands s' = hands s" using hands_goto [OF w, of "s\<lparr>queue_mutex := Some w\<rparr>" s] 1 s' by simp
    ultimately show ?thesis
      using mi cr m s' inv by (intro quiet_invI [of s' w ns]) (simp_all add: quiet_inv_def)
  next
    case (2 r)
    then have m: "queue_mutex s = Some w" using holder by simp
    obtain ns where ns: "main_at s = M_Accept" "queue_of (srv_queue s) ns" "accepted s = taken s @ map snd ns"
      using inv m 2 by (auto simp: quiet_inv_def)
    let ?pc = "case r of None \<Rightarrow> W_Lock | Some x \<Rightarrow> W_Handle x"
    have s': "s' = goto w ?pc (s\<lparr>queue_mutex := None\<rparr>)"
      using st 2 by (auto simp: worker_step_def Let_def)
    have "hands s' = hands s"
      using hands_goto [OF w, of "s\<lparr>queue_mutex := None\<rparr>" s ?pc] 2 s' by (cases r) simp_all
    then show ?thesis
      using mi cr ns s' inv unfolding quiet_inv_def by (intro conjI exI [of _ ns] exI [of _ "[]"]) simp_all
  next
    case (3 x)
    then have s': "s' = goto w W_Lock (s\<lparr>served := served s @ [x]\<rparr>)"
      using st by (auto simp: worker_step_def Let_def)
    have h: "hands s' + {#x#} = hands s"
      using hands_goto [OF w, of "s\<lparr>served := served s @ [x]\<rparr>" s W_Lock] 3 s' by simp
    have other: "worker_at s' v = worker_at s v" if "queue_mutex s = Some v" for v
    proof -
      have "in_dequeue (worker_at s v)" using that mi(1) by (simp add: mutex_inv_def)
      then have "v \<noteq> w" using 3 by auto
      then show ?thesis using s' by (simp add: goto_def)
    qed
    obtain ns xs where ns: "case queue_mutex s of
         None \<Rightarrow> main_ok (main_at s) (srv_queue s) ns xs
       | Some w \<Rightarrow> main_at s = M_Accept \<and> xs = [] \<and> worker_ok (worker_at s w) (srv_queue s) ns"
      "accepted s = taken s @ map snd ns @ xs" "mset (taken s) = mset (served s) + hands s"
      using inv by (auto simp: quiet_inv_def)
    have "mset (taken s') = mset (served s') + hands s'"
      using ns(3) h s' by (simp add: ac_simps flip: h)
    moreover have "case queue_mutex s' of
         None \<Rightarrow> main_ok (main_at s') (srv_queue s') ns xs
       | Some w \<Rightarrow> main_at s' = M_Accept \<and> xs = [] \<and> worker_ok (worker_at s' w) (srv_queue s') ns"
      using ns(1) other s' by (auto split: option.splits)
    ultimately show ?thesis using mi cr s' ns(2) unfolding quiet_inv_def by auto
  next
    case 4
    then have m: "queue_mutex s = Some w" using holder by simp
    obtain ns where ns: "main_at s = M_Accept" "worker_ok (worker_at s w) (srv_queue s) ns"
      "accepted s = taken s @ map snd ns" "mset (taken s) = mset (served s) + hands s"
      using inv m by (auto simp: quiet_inv_def)
    obtain pc q ns' new where r: "worker_step w s = Some (goto w pc (s\<lparr>srv_queue := q, taken := taken s @ new\<rparr>))"
      "worker_ok pc q ns'" "map snd ns = new @ map snd ns'" "hand pc = hand (worker_at s w) + mset new"
      using worker_step_ok [OF ns(2) 4] by blast
    have s': "s' = goto w pc (s\<lparr>srv_queue := q, taken := taken s @ new\<rparr>)" using st r(1) by simp
    have "hands s' + hand (worker_at s w) = hands s + mset new + hand (worker_at s w)"
      using hands_goto [OF w, of "s\<lparr>srv_queue := q, taken := taken s @ new\<rparr>" s pc] r(4) s' by (simp add: ac_simps)
    then have "hands s' = hands s + mset new" by (rule add_right_imp_eq)
    then show ?thesis
      using mi cr m ns r s' by (intro quiet_invI [of s' w ns']) (simp_all add: ac_simps)
  qed
qed

lemma quiet_inv_step:
  assumes "quiet_inv s" "server_step s l s'" "quiet l s"
  shows "quiet_inv s'"
proof (cases l)
  case (By_main a x)
  then have "s' = main_step a x s" "main_at s = M_Accept \<Longrightarrow> cq_mem (srv_queue s) a = None"
    using assms(2) by (auto simp: server_step_iff step_fun_def split: if_splits)
  then show ?thesis using quiet_main [OF assms(1)] assms(3) By_main by (simp add: quiet_def)
next
  case (By_worker w)
  then show ?thesis
    using quiet_worker [OF assms(1)] assms(2,3) by (auto simp: server_step_iff step_fun_def split: if_splits)
qed

lemma quiet_inv_init: "quiet_inv server_init"
  using mutex_inv_init queue_of_init
  by (auto simp: quiet_inv_def server_init_def hands_def)

fun quiet_schedule :: "who list \<Rightarrow> server \<Rightarrow> server option" where
  "quiet_schedule [] s = Some s"
| "quiet_schedule (l # ls) s =
     (if quiet l s then case step_fun l s of None \<Rightarrow> None | Some s' \<Rightarrow> quiet_schedule ls s' else None)"

lemma quiet_runs_trans: "quiet_runs s' s'' \<Longrightarrow> quiet_runs s s' \<Longrightarrow> quiet_runs s s''"
  by (induction rule: quiet_runs.induct) (auto intro: quiet_runs.Quiet_next)

lemma quiet_schedule_runs: "quiet_schedule ls s = Some s' \<Longrightarrow> quiet_runs s s'"
proof (induction ls arbitrary: s)
  case (Cons l ls)
  then obtain s1 where s1: "quiet l s" "step_fun l s = Some s1" "quiet_schedule ls s1 = Some s'"
    by (auto split: option.splits if_splits)
  have "quiet_runs s s1" using s1(1,2) by (blast intro: quiet_runs.intros server_step.intros)
  then show ?case using Cons.IH [OF s1(3)] by (rule quiet_runs_trans [rotated])
qed (auto intro: quiet_runs.intros)

lemma quiet_runs_inv: "quiet_runs s s' \<Longrightarrow> quiet_inv s \<Longrightarrow> quiet_inv s'"
  by (induction rule: quiet_runs.induct) (auto intro: quiet_inv_step)

section \<open>The race\<close>

text \<open>
  A queue whose head is empty and whose tail is not: \<open>enqueue\<close> appends behind the tail, where no
  \<open>dequeue\<close> looks.
\<close>

definition wedged :: "server \<Rightarrow> bool" where
  "wedged s \<longleftrightarrow> crashed s = None \<and> cq_head (srv_queue s) = None \<and>
     (\<exists>t. cq_tail (srv_queue s) = Some t \<and> t \<in> dom (cq_mem (srv_queue s))) \<and>
     (\<forall>w. worker_at s w \<in> {W_Lock, W_Test, W_Unlock None}) \<and>
     (case main_at s of M_Accept \<Rightarrow> True | M_Head n \<Rightarrow> False
      | M_Test n x \<Rightarrow> n \<in> dom (cq_mem (srv_queue s)) | M_Link n \<Rightarrow> n \<in> dom (cq_mem (srv_queue s))
      | M_Tail n \<Rightarrow> n \<in> dom (cq_mem (srv_queue s)))"

lemma wedged_main: "wedged s \<Longrightarrow> wedged (main_step a x s)"
  by (cases "main_at s")
    (auto simp: wedged_def main_step_def Let_def alloc_node_def link_tail_def deref_def)

lemma wedged_goto:
  "wedged s \<Longrightarrow> pc \<in> {W_Lock, W_Test, W_Unlock None} \<Longrightarrow>
   wedged (goto w pc s) \<and> wedged (goto w pc (s\<lparr>queue_mutex := m\<rparr>))"
  by (auto simp: wedged_def goto_def split: main_pc.splits)

lemma wedged_worker:
  assumes "wedged s" "worker_step w s = Some s'"
  shows "wedged s' \<and> served s' = served s"
proof -
  consider "worker_at s w = W_Lock" | "worker_at s w = W_Test" | "worker_at s w = W_Unlock None"
    using assms(1) by (auto simp: wedged_def)
  then show ?thesis
  proof cases
    case 1
    then show ?thesis
      using assms(2) wedged_goto [OF assms(1)] by (auto simp: worker_step_def Let_def split: if_splits)
  next
    case 2
    then have "s' = goto w (W_Unlock None) s"
      using assms by (simp add: worker_step_def Let_def wedged_def)
    then show ?thesis using wedged_goto [OF assms(1)] by simp
  next
    case 3
    then have "s' = goto w W_Lock (s\<lparr>queue_mutex := None\<rparr>)"
      using assms(2) by (simp add: worker_step_def Let_def)
    then show ?thesis using wedged_goto [OF assms(1)] by simp
  qed
qed

lemma wedged_step: "wedged s \<Longrightarrow> server_step s l s' \<Longrightarrow> wedged s' \<and> served s' = served s"
  by (cases l) (auto simp: server_step_iff step_fun_def wedged_main main_step_workers
      dest: wedged_worker split: if_splits)

lemma wedged_forever: "server_runs s s' \<Longrightarrow> wedged s \<Longrightarrow> wedged s' \<and> served s' = served s"
  by (induction rule: server_runs.induct) (auto dest: wedged_step)

text \<open>The second connection arrives while worker 0 removes the last node.\<close>

definition race_schedule :: "who list" where
  "race_schedule = replicate 4 (By_main 100 1) @ replicate 6 (By_worker 0) @
     replicate 3 (By_main 200 2)"

lemmas run_simps = run_schedule.simps step_fun_def main_step_def worker_step_def goto_def
  server_init_def cq_init_def alloc_node_def link_tail_def free_node_def deref_def
  thread_count_def race_schedule_def crash_def

lemma race_wedges:
  "\<exists>s. run_schedule (race_schedule @ replicate 4 (By_worker 0) @ [By_main 200 2]) server_init = Some s \<and>
     wedged s \<and> accepted s = [1, 2] \<and> served s = [1]"
  by (simp add: run_simps eval_nat_numeral wedged_def)

lemma race_crashes:
  "\<exists>s. run_schedule (replicate 4 (By_main 100 1) @ replicate 6 (By_worker 0) @
      replicate 2 (By_main 200 2) @ [By_worker 0, By_main 200 2]) server_init = Some s \<and>
     crashed s = Some Null_deref"
  by (simp add: run_simps eval_nat_numeral)

section \<open>Properties\<close>

text \<open>C11: from the empty queue, any sequence of \<open>enqueue\<close>s at fresh addresses and \<open>dequeue\<close>s
  is defined and returns what a list used first in, first out returns.\<close>

theorem queue_is_fifo:
  assumes "cq.fresh_run ops cq_init" "cq.list_ops (map snd ops) [] = (rs, ys)"
  shows "\<exists>q. cq.run_ops ops cq_init = Inr (rs, q) \<and> holds_sockets q ys"
  using cq.run_ops_refines [OF _ assms] queue_of_init by (auto simp: holds_sockets_def)

theorem queue_is_fifo_witness:
  "\<exists>q. cq.run_ops [(7, None), (7, Some 1), (8, Some 2), (0, None), (7, Some 3), (0, None)] cq_init =
      Inr ([None, Some 1, Some 2], q) \<and> holds_sockets q [3]"
  by (rule queue_is_fifo)
    (simp_all add: enqueue_def dequeue_def alloc_node_def link_tail_def free_node_def deref_def cq_init_def Let_def)

text \<open>C17: in every run at most one worker is between its lock and its unlock, and it is the one
  that holds the mutex.\<close>

theorem workers_exclude_each_other:
  assumes "server_runs server_init s" "in_dequeue (worker_at s v)" "in_dequeue (worker_at s w)"
  shows "v = w \<and> queue_mutex s = Some v"
  using mutex_inv_runs [OF assms(1) mutex_inv_init] assms(2,3) by (auto simp: mutex_inv_def)

theorem workers_exclude_each_other_witness:
  "\<exists>s. run_schedule [By_worker 3] server_init = Some s \<and> queue_mutex s = Some 3"
proof -
  obtain s where s: "run_schedule [By_worker 3] server_init = Some s" "in_dequeue (worker_at s 3)"
    by (simp add: run_simps)
  then show ?thesis using workers_exclude_each_other [OF run_schedule_runs [OF s(1)] s(2,2)] by blast
qed

text \<open>C5: in a run in which \<open>enqueue\<close> and \<open>dequeue\<close> do not overlap nothing crashes, and at every moment
  the accepted connections, in the order of \<open>accept\<close>, are those that a worker has taken, those in the
  linked list, and the one that is being enqueued; a worker has either served each connection it took
  or holds it. So every connection is in one place, none is taken twice, and they are taken in order.\<close>

theorem no_connection_lost:
  assumes "quiet_runs server_init s"
  shows "crashed s = None \<and> mset (taken s) = mset (served s) + hands s \<and>
    (\<exists>ns xs. accepted s = taken s @ map snd ns @ xs \<and>
      (case queue_mutex s of None \<Rightarrow> main_ok (main_at s) (srv_queue s) ns xs
       | Some w \<Rightarrow> xs = [] \<and> worker_ok (worker_at s w) (srv_queue s) ns))"
proof -
  have "quiet_inv s" using quiet_runs_inv [OF assms quiet_inv_init] .
  then show ?thesis unfolding quiet_inv_def by (fastforce split: option.splits)
qed

theorem no_connection_lost_witness:
  "\<exists>s. quiet_schedule (replicate 4 (By_main 100 1) @ replicate 4 (By_main 200 2) @ replicate 4 (By_worker 3))
      server_init = Some s \<and> accepted s = [1, 2] \<and> taken s = [1] \<and> hands s = {#1#} \<and> crashed s = None"
proof -
  obtain s where s: "quiet_schedule (replicate 4 (By_main 100 1) @ replicate 4 (By_main 200 2) @
      replicate 4 (By_worker 3)) server_init = Some s" "accepted s = [1, 2]" "taken s = [1]" "served s = []"
    by (simp add: run_simps quiet_def eval_nat_numeral)
  then show ?thesis using no_connection_lost [OF quiet_schedule_runs [OF s(1)]] by simp
qed

text \<open>C22: because \<open>main\<close> enqueues without the mutex, there is a run with two connections after
  which the first is served, the second never is, and no connection accepted later is either,
  whatever the threads do; and there is a run in which \<open>enqueue\<close> dereferences a null pointer.\<close>

theorem unlocked_enqueue_races:
  "(\<exists>s. server_runs server_init s \<and> accepted s = [1, 2] \<and> served s = [1] \<and>
      (\<forall>s'. server_runs s s' \<longrightarrow> served s' = [1] \<and> crashed s' = None)) \<and>
   (\<exists>s. server_runs server_init s \<and> crashed s = Some Null_deref)"
proof (intro conjI)
  obtain s where s: "server_runs server_init s" "wedged s" "accepted s = [1, 2]" "served s = [1]"
    using race_wedges run_schedule_runs by blast
  have "served s' = [1] \<and> crashed s' = None" if "server_runs s s'" for s'
    using wedged_forever [OF that s(2)] s(4) by (simp add: wedged_def)
  then show "\<exists>s. server_runs server_init s \<and> accepted s = [1, 2] \<and> served s = [1] \<and>
      (\<forall>s'. server_runs s s' \<longrightarrow> served s' = [1] \<and> crashed s' = None)" using s by blast
  show "\<exists>s. server_runs server_init s \<and> crashed s = Some Null_deref"
    using race_crashes run_schedule_runs by blast
qed

theorem unlocked_enqueue_races_witness:
  "\<exists>s. server_runs server_init s \<and> (\<forall>s'. server_runs s s' \<longrightarrow> 2 \<notin> set (served s')) \<and> 2 \<in> set (accepted s)"
  using unlocked_enqueue_races by fastforce

end
