(* ===== verification/ServerLiveness.thy ===== *)
theory ServerLiveness
  imports ServerProofs
begin

text \<open>
  Every accepted connection is served: in an infinite run of \<open>main.c\<close> in which each worker takes steps
  again and again, and in which \<open>enqueue\<close> and \<open>dequeue\<close> do not overlap, whatever has been accepted at
  some time has been taken, in order, and served at a later one.
\<close>

section \<open>Fair runs\<close>

definition fair_run :: "(nat \<Rightarrow> who) \<Rightarrow> (nat \<Rightarrow> server) \<Rightarrow> bool" where
  "fair_run l \<sigma> \<longleftrightarrow> \<sigma> 0 = server_init \<and>
     (\<forall>i. quiet (l i) (\<sigma> i) \<and> step_fun (l i) (\<sigma> i) = Some (\<sigma> (Suc i))) \<and>
     (\<forall>w < thread_count. \<forall>i. \<exists>j \<ge> i. l j = By_worker w)"

lemma fair_runD:
  assumes "fair_run l \<sigma>"
  shows "\<sigma> 0 = server_init" "quiet (l i) (\<sigma> i)" "step_fun (l i) (\<sigma> i) = Some (\<sigma> (Suc i))"
    "w < thread_count \<Longrightarrow> \<exists>j \<ge> i. l j = By_worker w"
  using assms by (simp_all add: fair_run_def)

lemma fair_quiet: "fair_run l \<sigma> \<Longrightarrow> quiet_inv (\<sigma> i)"
proof (induction i)
  case 0
  then show ?case using quiet_inv_init by (simp add: fair_runD)
next
  case (Suc i)
  show ?case
    using quiet_inv_step [OF Suc.IH [OF Suc.prems] Step [OF fair_runD(3) [OF Suc.prems]] fair_runD(2) [OF Suc.prems]] .
qed

section \<open>What a step changes\<close>

lemma step_history:
  assumes "step_fun l s = Some s'"
  shows "\<exists>xs ys. accepted s' = accepted s @ xs \<and> taken s' = taken s @ ys \<and>
    (\<forall>w. hand (worker_at s' w) \<subseteq># hand (worker_at s w) + (if l = By_worker w then mset ys else {#}))"
proof (cases l)
  case (By_main a x)
  then show ?thesis
    using assms by (auto simp: step_fun_def main_step_workers split: if_splits)
      (auto simp: main_step_def Let_def crash_def split: main_pc.splits sum.splits)
next
  case (By_worker v)
  then have "worker_step v s = Some s'" using assms by (simp add: step_fun_def split: if_splits)
  then show ?thesis
    using By_worker by (auto simp: worker_step_def Let_def goto_def crash_def
        split: worker_pc.splits sum.splits if_splits option.splits)
qed

lemma step_other: "step_fun l s = Some s' \<Longrightarrow> l \<noteq> By_worker w \<Longrightarrow> worker_at s' w = worker_at s w"
  by (cases l) (auto simp: step_fun_def main_step_workers worker_step_def Let_def goto_def crash_def
      split: worker_pc.splits sum.splits if_splits option.splits)

text \<open>How many steps a worker has to go at most until it locks the mutex again.\<close>

fun rank :: "worker_pc \<Rightarrow> nat" where
  "rank W_Lock = 0"
| "rank (W_Handle x) = 1"
| "rank (W_Unlock r) = 2"
| "rank (W_Free x p) = 3"
| "rank (W_Clear x p) = 4"
| "rank (W_Check x p) = 5"
| "rank (W_Head x p) = 6"
| "rank (W_Old x) = 7"
| "rank W_Read = 8"
| "rank W_Test = 9"

lemma rank_step:
  "step_fun (By_worker w) s = Some s' \<Longrightarrow> crashed s' = None \<Longrightarrow> worker_at s w \<noteq> W_Lock \<Longrightarrow>
   rank (worker_at s' w) < rank (worker_at s w)"
  by (auto simp: step_fun_def worker_step_def Let_def goto_def crash_def
      split: worker_pc.splits sum.splits if_splits option.splits)

lemma own_steps:
  assumes "step_fun (By_worker w) s = Some s'"
  shows "worker_at s w = W_Lock \<Longrightarrow> worker_at s' w = W_Test"
    and "worker_at s w = W_Test \<Longrightarrow> cq_head (srv_queue s) \<noteq> None \<Longrightarrow> worker_at s' w = W_Read"
    and "worker_at s w = W_Read \<Longrightarrow> crashed s' = None \<Longrightarrow> length (taken s') = Suc (length (taken s))"
  using assms by (auto simp: step_fun_def worker_step_def Let_def crash_def split: if_splits sum.splits)

section \<open>A worker comes round\<close>

lemma next_own:
  assumes "fair_run l \<sigma>" "w < thread_count"
  obtains j where "i \<le> j" "l j = By_worker w" "worker_at (\<sigma> j) w = worker_at (\<sigma> i) w"
proof -
  obtain k where "i \<le> k" "l k = By_worker w" using fair_runD(4) [OF assms] by blast
  then have "\<exists>j \<ge> i. l j = By_worker w \<and> worker_at (\<sigma> j) w = worker_at (\<sigma> i) w"
  proof (induction "k - i" arbitrary: i)
    case (Suc n)
    show ?case
    proof (cases "l i = By_worker w")
      case False
      have "\<exists>j \<ge> Suc i. l j = By_worker w \<and> worker_at (\<sigma> j) w = worker_at (\<sigma> (Suc i)) w"
        using Suc.hyps(2) Suc.prems by (intro Suc.hyps(1)) simp_all
      moreover have "worker_at (\<sigma> (Suc i)) w = worker_at (\<sigma> i) w"
        using step_other [OF fair_runD(3) [OF assms(1)] False] .
      ultimately show ?thesis using Suc_leD by metis
    qed blast
  qed auto
  then show thesis using that by blast
qed

lemma comes_round:
  assumes "fair_run l \<sigma>" "w < thread_count"
  obtains j where "i \<le> j" "l j = By_worker w" "worker_at (\<sigma> j) w = W_Lock"
proof -
  have "\<exists>j \<ge> i. l j = By_worker w \<and> worker_at (\<sigma> j) w = W_Lock"
  proof (induction "rank (worker_at (\<sigma> i) w)" arbitrary: i rule: less_induct)
    case less
    obtain j where j: "i \<le> j" "l j = By_worker w" "worker_at (\<sigma> j) w = worker_at (\<sigma> i) w"
      by (rule next_own [OF assms])
    show ?case
    proof (cases "worker_at (\<sigma> j) w = W_Lock")
      case False
      have "crashed (\<sigma> (Suc j)) = None" using fair_quiet [OF assms(1)] by (simp add: quiet_inv_def)
      then have "rank (worker_at (\<sigma> (Suc j)) w) < rank (worker_at (\<sigma> i) w)"
        using rank_step [of w "\<sigma> j" "\<sigma> (Suc j)"] fair_runD(3) [OF assms(1), of j] j False by simp
      then obtain k where "Suc j \<le> k" "l k = By_worker w" "worker_at (\<sigma> k) w = W_Lock"
        using less by blast
      then show ?thesis using j(1) by (meson Suc_leD le_trans)
    qed (use j in blast)
  qed
  then show thesis using that by blast
qed

section \<open>Connections are taken\<close>

lemma history_grows:
  assumes "fair_run l \<sigma>" "i \<le> j"
  shows "\<exists>xs ys. accepted (\<sigma> j) = accepted (\<sigma> i) @ xs \<and> taken (\<sigma> j) = taken (\<sigma> i) @ ys"
  using assms(2)
proof (induction rule: dec_induct)
  case (step k)
  then show ?case using step_history [OF fair_runD(3) [OF assms(1), of k]] by fastforce
qed simp

lemma fair_front:
  assumes "fair_run l \<sigma>" "worker_at (\<sigma> k) w = pc" "in_dequeue pc"
  obtains ns where "worker_ok pc (srv_queue (\<sigma> k)) ns" "accepted (\<sigma> k) = taken (\<sigma> k) @ map snd ns"
proof -
  have "quiet_inv (\<sigma> k)" by (rule fair_quiet [OF assms(1)])
  moreover from this have "queue_mutex (\<sigma> k) = Some w"
    using assms(2,3) by (auto simp: quiet_inv_def mutex_inv_def)
  ultimately show thesis using that assms(2) by (auto simp: quiet_inv_def)
qed

lemma takes_one:
  assumes fair: "fair_run l \<sigma>" and waiting: "length (taken (\<sigma> i)) < length (accepted (\<sigma> i))"
  shows "\<exists>j \<ge> i. length (taken (\<sigma> i)) < length (taken (\<sigma> j))"
proof (rule ccontr)
  assume "\<not> ?thesis"
  then have same: "length (taken (\<sigma> j)) = length (taken (\<sigma> i))" if "i \<le> j" for j
    using that history_grows [OF fair that] by force
  have more: "length (taken (\<sigma> j)) < length (accepted (\<sigma> j))" if "i \<le> j" for j
    using same [OF that] history_grows [OF fair that] waiting by force
  have w: "0 < thread_count" by (simp add: thread_count_def)
  obtain j where j: "i \<le> j" "l j = By_worker 0" "worker_at (\<sigma> j) 0 = W_Lock"
    by (rule comes_round [OF fair w])
  have "worker_at (\<sigma> (Suc j)) 0 = W_Test"
    using own_steps(1) [of 0 "\<sigma> j"] fair_runD(3) [OF fair, of j] j(2,3) by simp
  then obtain k where k: "Suc j \<le> k" "l k = By_worker 0" "worker_at (\<sigma> k) 0 = W_Test"
    by (metis next_own [OF fair w])
  obtain ns where ns: "queue_of (srv_queue (\<sigma> k)) ns" "accepted (\<sigma> k) = taken (\<sigma> k) @ map snd ns"
    using fair_front [OF fair k(3)] by auto
  then have "ns \<noteq> []" using more [of k] j(1) k(1) by auto
  then have "cq_head (srv_queue (\<sigma> k)) \<noteq> None" using queue_of_head [OF ns(1)] by simp
  then have "worker_at (\<sigma> (Suc k)) 0 = W_Read"
    using own_steps(2) [of 0 "\<sigma> k"] fair_runD(3) [OF fair, of k] k(2,3) by simp
  then obtain m where m: "Suc k \<le> m" "l m = By_worker 0" "worker_at (\<sigma> m) 0 = W_Read"
    by (metis next_own [OF fair w])
  have "crashed (\<sigma> (Suc m)) = None" using fair_quiet [OF fair] by (simp add: quiet_inv_def)
  then have "length (taken (\<sigma> (Suc m))) = Suc (length (taken (\<sigma> m)))"
    using own_steps(3) [of 0 "\<sigma> m"] fair_runD(3) [OF fair, of m] m(2,3) by simp
  then show False using same [of m] same [of "Suc m"] j(1) k(1) m(1) by simp
qed

lemma longer_prefix: "a @ xs = t @ ys \<Longrightarrow> length a \<le> length t \<Longrightarrow> \<exists>rest. t = a @ rest"
  by (auto simp: append_eq_append_conv2)

lemma takes_all:
  assumes "fair_run l \<sigma>"
  shows "\<exists>j \<ge> i. \<exists>rest. taken (\<sigma> j) = accepted (\<sigma> i) @ rest"
proof -
  have "\<exists>j \<ge> k. n \<le> length (taken (\<sigma> j))" if "i \<le> k" "n = length (accepted (\<sigma> i))" for k n
    using that
  proof (induction "n - length (taken (\<sigma> k))" arbitrary: k rule: less_induct)
    case less
    show ?case
    proof (cases "n \<le> length (taken (\<sigma> k))")
      case False
      then have "length (taken (\<sigma> k)) < length (accepted (\<sigma> k))"
        using less.prems history_grows [OF assms, of i k] by force
      then obtain j where j: "k \<le> j" "length (taken (\<sigma> k)) < length (taken (\<sigma> j))"
        using takes_one [OF assms] by blast
      have "n - length (taken (\<sigma> j)) < n - length (taken (\<sigma> k))" using j(2) False by simp
      moreover have "i \<le> j" using less.prems(1) j(1) by simp
      ultimately obtain m where "j \<le> m" "n \<le> length (taken (\<sigma> m))"
        using less.hyps [of j] less.prems(2) by blast
      then show ?thesis using j(1) le_trans by blast
    qed blast
  qed
  then obtain j where j: "i \<le> j" "length (accepted (\<sigma> i)) \<le> length (taken (\<sigma> j))" by blast
  obtain ys where "accepted (\<sigma> j) = taken (\<sigma> j) @ ys"
    using fair_quiet [OF assms, of j] by (auto simp: quiet_inv_def)
  moreover obtain xs where "accepted (\<sigma> j) = accepted (\<sigma> i) @ xs" using history_grows [OF assms j(1)] by blast
  ultimately show ?thesis using j longer_prefix [of "accepted (\<sigma> i)" xs "taken (\<sigma> j)" ys] by auto
qed

section \<open>Connections are served\<close>

definition hands_of :: "nat \<Rightarrow> server \<Rightarrow> addr multiset" where
  "hands_of n s = (\<Sum>w < n. hand (worker_at s w))"

lemma hands_of_step:
  assumes "step_fun l s = Some s'" "taken s' = taken s @ ys"
  shows "hands_of n s' \<subseteq># hands_of n s + mset ys"
proof -
  have *: "hands_of m s' \<subseteq># hands_of m s + (if \<exists>w < m. l = By_worker w then mset ys else {#})" for m
  proof (induction m)
    case (Suc m)
    have "hand (worker_at s' m) \<subseteq># hand (worker_at s m) + (if l = By_worker m then mset ys else {#})"
      using step_history [OF assms(1)] assms(2) by force
    then have "hands_of (Suc m) s' \<subseteq># (hands_of m s + (if \<exists>w < m. l = By_worker w then mset ys else {#})) +
        (hand (worker_at s m) + (if l = By_worker m then mset ys else {#}))"
      using Suc.IH by (simp add: hands_of_def subset_mset.add_mono)
    also have "\<dots> = hands_of (Suc m) s + (if \<exists>w < Suc m. l = By_worker w then mset ys else {#})"
      by (auto simp: hands_of_def less_Suc_eq ac_simps)
    finally show ?case .
  qed (simp add: hands_of_def)
  then show ?thesis by (rule subset_mset.order_trans) simp
qed

lemma later_hands:
  assumes "fair_run l \<sigma>" "k \<le> j" "n \<le> length (taken (\<sigma> k))" "hands_of m (\<sigma> k) \<subseteq># mset (drop n (taken (\<sigma> k)))"
  shows "hands_of m (\<sigma> j) \<subseteq># mset (drop n (taken (\<sigma> j)))"
  using assms(2)
proof (induction rule: dec_induct)
  case (step i)
  obtain ys where ys: "taken (\<sigma> (Suc i)) = taken (\<sigma> i) @ ys"
    using step_history [OF fair_runD(3) [OF assms(1), of i]] by blast
  have "n \<le> length (taken (\<sigma> i))" using history_grows [OF assms(1) step(1)] assms(3) by force
  then have "mset (drop n (taken (\<sigma> (Suc i)))) = mset (drop n (taken (\<sigma> i))) + mset ys" by (simp add: ys)
  then show ?case
    using hands_of_step [OF fair_runD(3) [OF assms(1), of i] ys, of m] step.IH
    by (metis subset_mset.add_right_mono subset_mset.order_trans)
qed (rule assms(4))

text \<open>Once every worker has come round, they hold only what they took since.\<close>

lemma hands_renewed:
  assumes fair: "fair_run l \<sigma>"
  shows "m \<le> thread_count \<Longrightarrow> \<exists>k \<ge> j. hands_of m (\<sigma> k) \<subseteq># mset (drop (length (taken (\<sigma> j))) (taken (\<sigma> k)))"
proof (induction m)
  case (Suc m)
  then obtain k where k: "j \<le> k" "hands_of m (\<sigma> k) \<subseteq># mset (drop (length (taken (\<sigma> j))) (taken (\<sigma> k)))"
    by auto
  obtain i where i: "k \<le> i" "worker_at (\<sigma> i) m = W_Lock" using comes_round [OF fair, of m] Suc.prems by auto
  have "length (taken (\<sigma> j)) \<le> length (taken (\<sigma> k))" using history_grows [OF fair k(1)] by force
  then have "hands_of m (\<sigma> i) \<subseteq># mset (drop (length (taken (\<sigma> j))) (taken (\<sigma> i)))"
    using later_hands [OF fair i(1)] k(2) by blast
  then show ?case using k(1) i by (intro exI [of _ i]) (simp add: hands_of_def)
qed (auto simp: hands_of_def)

lemma serves_taken:
  assumes "fair_run l \<sigma>"
  shows "\<exists>k \<ge> j. mset (taken (\<sigma> j)) \<subseteq># mset (served (\<sigma> k))"
proof -
  obtain k where k: "j \<le> k"
    "hands_of thread_count (\<sigma> k) \<subseteq># mset (drop (length (taken (\<sigma> j))) (taken (\<sigma> k)))"
    using hands_renewed [OF assms, of thread_count j] by auto
  obtain ys where ys: "taken (\<sigma> k) = taken (\<sigma> j) @ ys" using history_grows [OF assms k(1)] by blast
  have "mset (taken (\<sigma> k)) = mset (served (\<sigma> k)) + hands_of thread_count (\<sigma> k)"
    using fair_quiet [OF assms, of k] by (simp add: quiet_inv_def hands_def hands_of_def)
  then have "mset (taken (\<sigma> j)) + mset ys \<subseteq># mset (served (\<sigma> k)) + mset ys"
    using k(2) by (simp add: ys)
  then show ?thesis using k(1) by auto
qed

section \<open>The property\<close>

text \<open>C24: when every worker keeps taking steps and \<open>enqueue\<close> and \<open>dequeue\<close> do not overlap, every
  connection that has been accepted is served: at some later time the workers have taken all
  connections accepted so far, in the order of \<open>accept\<close>, and called the handler for each of them.\<close>

theorem every_connection_served:
  assumes "fair_run l \<sigma>"
  shows "\<exists>j \<ge> i. (\<exists>rest. taken (\<sigma> j) = accepted (\<sigma> i) @ rest) \<and> mset (accepted (\<sigma> i)) \<subseteq># mset (served (\<sigma> j))"
proof -
  obtain j rest where j: "i \<le> j" "taken (\<sigma> j) = accepted (\<sigma> i) @ rest" using takes_all [OF assms] by blast
  obtain k where k: "j \<le> k" "mset (taken (\<sigma> j)) \<subseteq># mset (served (\<sigma> k))" using serves_taken [OF assms] by blast
  obtain ys where "taken (\<sigma> k) = taken (\<sigma> j) @ ys" using history_grows [OF assms k(1)] by blast
  moreover have "mset (accepted (\<sigma> i)) \<subseteq># mset (served (\<sigma> k))"
    using k(2) unfolding j(2) mset_append by (rule subset_mset.order_trans [OF mset_subset_eq_add_left])
  ultimately show ?thesis using j k(1) by (intro exI [of _ k]) auto
qed

text \<open>
  A fair run: a connection is accepted and enqueued, worker 0 serves it, and from then on the workers
  look at the empty queue in turn.
\<close>

definition demo_schedule :: "who list" where
  "demo_schedule = replicate 4 (By_main 100 1) @ replicate 10 (By_worker 0)"

definition demo_who :: "nat \<Rightarrow> who" where
  "demo_who i = (if i < 14 then demo_schedule ! i else By_worker ((i - 14) div 3 mod 10))"

definition demo_end :: server where
  "demo_end = the (run_schedule demo_schedule server_init)"

definition demo_polls :: "nat \<Rightarrow> nat \<Rightarrow> server" where
  "demo_polls w k = (if k = 0 then demo_end
     else goto w (if k = 1 then W_Test else W_Unlock None) (demo_end\<lparr>queue_mutex := Some w\<rparr>))"

definition demo_run :: "nat \<Rightarrow> server" where
  "demo_run i = (if i < 14 then the (run_schedule (take i demo_schedule) server_init)
     else demo_polls ((i - 14) div 3 mod 10) ((i - 14) mod 3))"

lemma demo_schedule_list:
  "demo_schedule = [By_main 100 1, By_main 100 1, By_main 100 1, By_main 100 1, By_worker 0, By_worker 0,
    By_worker 0, By_worker 0, By_worker 0, By_worker 0, By_worker 0, By_worker 0, By_worker 0, By_worker 0]"
  by (simp add: demo_schedule_def eval_nat_numeral)

lemma demo_end:
  "crashed demo_end = None" "queue_mutex demo_end = None" "main_at demo_end = M_Accept"
  "cq_head (srv_queue demo_end) = None" "worker_at demo_end w = W_Lock" "served demo_end = [1]"
  by (simp_all add: demo_end_def demo_schedule_list run_simps)

lemma demo_start:
  assumes "i < 14"
  shows "quiet (demo_who i) (demo_run i) \<and> step_fun (demo_who i) (demo_run i) = Some (demo_run (Suc i))"
proof -
  have "i \<in> {0, 1, 2, 3, 4, 5, 6, 7, 8, 9, 10, 11, 12, 13}"
    using assms unfolding insert_iff empty_iff by presburger
  moreover have "demo_polls 0 0 = demo_end" by (simp add: demo_polls_def)
  ultimately show ?thesis
    by (elim insertE)
      (simp_all add: demo_who_def demo_run_def demo_schedule_list demo_end_def run_simps quiet_def)
qed

lemma demo_poll:
  assumes "w < 10"
  shows "quiet (By_worker w) (demo_polls w k)" "k < 2 \<Longrightarrow> step_fun (By_worker w) (demo_polls w k) = Some (demo_polls w (Suc k))"
    "step_fun (By_worker w) (demo_polls w 2) = Some demo_end"
proof -
  have same: "(worker_at demo_end)(w := W_Lock) = worker_at demo_end" by (simp add: fun_eq_iff demo_end)
  show "quiet (By_worker w) (demo_polls w k)" by (simp add: quiet_def demo_polls_def demo_end goto_def)
  show "k < 2 \<Longrightarrow> step_fun (By_worker w) (demo_polls w k) = Some (demo_polls w (Suc k))"
    using assms demo_end by (auto simp: less_2_cases_iff step_fun_def worker_step_def demo_polls_def goto_def thread_count_def)
  show "step_fun (By_worker w) (demo_polls w 2) = Some demo_end"
    using assms demo_end same
    by (simp add: step_fun_def worker_step_def demo_polls_def goto_def thread_count_def)
qed

lemma demo_fair: "fair_run demo_who demo_run"
  unfolding fair_run_def
proof (intro conjI allI impI)
  show "demo_run 0 = server_init" by (simp add: demo_run_def)
next
  fix i
  have "quiet (demo_who i) (demo_run i) \<and> step_fun (demo_who i) (demo_run i) = Some (demo_run (Suc i))"
  proof (cases "i < 14")
    case False
    define n where "n = i - 14"
    define w where "w = n div 3 mod 10"
    have w: "w < 10" by (simp add: w_def)
    have i: "demo_who i = By_worker w" "demo_run i = demo_polls w (n mod 3)" "Suc i - 14 = Suc n"
      using False by (simp_all add: demo_who_def demo_run_def n_def w_def)
    have nx: "demo_run (Suc i) = demo_polls (Suc n div 3 mod 10) (Suc n mod 3)"
      unfolding demo_run_def i(3) using False by simp
    show ?thesis
    proof (cases "n mod 3 = 2")
      case True
      then have "demo_run (Suc i) = demo_end"
        by (simp add: nx demo_polls_def mod_Suc)
      then show ?thesis using demo_poll [OF w] True by (simp add: i)
    next
      case no: False
      then have "n mod 3 < 2" by (simp add: less_2_cases_iff) presburger
      moreover from this have "demo_run (Suc i) = demo_polls w (Suc (n mod 3))"
        by (simp add: nx mod_Suc div_Suc w_def)
      ultimately show ?thesis using demo_poll [OF w] by (simp add: i)
    qed
  qed (rule demo_start)
  then show "quiet (demo_who i) (demo_run i)" "step_fun (demo_who i) (demo_run i) = Some (demo_run (Suc i))"
    by simp_all
next
  fix w i assume w: "w < thread_count"
  have "demo_who (14 + 3 * (10 * i + w)) = By_worker w"
    using w by (simp add: demo_who_def thread_count_def)
  then show "\<exists>j \<ge> i. demo_who j = By_worker w" by (intro exI [of _ "14 + 3 * (10 * i + w)"]) simp
qed

theorem every_connection_served_witness:
  "accepted (demo_run 1) = [1] \<and> (\<exists>j. 1 \<in> set (served (demo_run j)) \<and> hd (taken (demo_run j)) = 1)"
proof -
  have a: "accepted (demo_run 1) = [1]" by (simp add: demo_run_def demo_schedule_list run_simps)
  obtain j rest where "taken (demo_run j) = accepted (demo_run 1) @ rest"
    "mset (accepted (demo_run 1)) \<subseteq># mset (served (demo_run j))"
    using every_connection_served [OF demo_fair, of 1] by blast
  then show ?thesis unfolding a by (intro conjI refl exI [of _ j]) auto
qed

end
