(* ===== verification/Socal.thy ===== *)
theory Socal
  imports Prelude
begin

text \<open>
  The memory mapped accesses of \<open>inc/socal.h\<close>. A memory is a function from 32 bit addresses to
  bytes, the processor is little-endian. Every macro is a definition, the reads and writes are
  instances of one interface, from which the bit operations follow.
\<close>

unbundle bit_operations_syntax

type_synonym memory = "32 word \<Rightarrow> 8 word"

section \<open>Reads and writes\<close>

definition alt_write_byte :: "memory \<Rightarrow> 32 word \<Rightarrow> 8 word \<Rightarrow> memory" where
  "alt_write_byte m dest src = m(dest := src)"

definition alt_read_byte :: "memory \<Rightarrow> 32 word \<Rightarrow> 8 word" where
  "alt_read_byte m src = m src"

definition alt_write_hword :: "memory \<Rightarrow> 32 word \<Rightarrow> 16 word \<Rightarrow> memory" where
  "alt_write_hword m dest src = m(dest := ucast src, dest + 1 := ucast (drop_bit 8 src))"

definition alt_read_hword :: "memory \<Rightarrow> 32 word \<Rightarrow> 16 word" where
  "alt_read_hword m src = ucast (m src) OR push_bit 8 (ucast (m (src + 1)))"

definition alt_write_word :: "memory \<Rightarrow> 32 word \<Rightarrow> 32 word \<Rightarrow> memory" where
  "alt_write_word m dest src =
     m(dest := ucast src, dest + 1 := ucast (drop_bit 8 src),
       dest + 2 := ucast (drop_bit 16 src), dest + 3 := ucast (drop_bit 24 src))"

definition alt_read_word :: "memory \<Rightarrow> 32 word \<Rightarrow> 32 word" where
  "alt_read_word m src = of_le32 [m src, m (src + 1), m (src + 2), m (src + 3)]"

definition alt_write_dword :: "memory \<Rightarrow> 32 word \<Rightarrow> 64 word \<Rightarrow> memory" where
  "alt_write_dword m dest src =
     alt_write_word (alt_write_word m dest (ucast src)) (dest + 4) (ucast (drop_bit 32 src))"

definition alt_read_dword :: "memory \<Rightarrow> 32 word \<Rightarrow> 64 word" where
  "alt_read_dword m src =
     ucast (alt_read_word m src) OR push_bit 32 (ucast (alt_read_word m (src + 4)))"

section \<open>Bit operations\<close>

definition alt_setbits_byte :: "memory \<Rightarrow> 32 word \<Rightarrow> 8 word \<Rightarrow> memory" where
  "alt_setbits_byte m dest bits = alt_write_byte m dest (alt_read_byte m dest OR bits)"

definition alt_clrbits_byte :: "memory \<Rightarrow> 32 word \<Rightarrow> 8 word \<Rightarrow> memory" where
  "alt_clrbits_byte m dest bits = alt_write_byte m dest (alt_read_byte m dest AND NOT bits)"

definition alt_xorbits_byte :: "memory \<Rightarrow> 32 word \<Rightarrow> 8 word \<Rightarrow> memory" where
  "alt_xorbits_byte m dest bits = alt_write_byte m dest (alt_read_byte m dest XOR bits)"

definition alt_replbits_byte :: "memory \<Rightarrow> 32 word \<Rightarrow> 8 word \<Rightarrow> 8 word \<Rightarrow> memory" where
  "alt_replbits_byte m dest msk src =
     alt_write_byte m dest ((alt_read_byte m dest AND NOT msk) OR (src AND msk))"

definition alt_setbits_hword :: "memory \<Rightarrow> 32 word \<Rightarrow> 16 word \<Rightarrow> memory" where
  "alt_setbits_hword m dest bits = alt_write_hword m dest (alt_read_hword m dest OR bits)"

definition alt_clrbits_hword :: "memory \<Rightarrow> 32 word \<Rightarrow> 16 word \<Rightarrow> memory" where
  "alt_clrbits_hword m dest bits = alt_write_hword m dest (alt_read_hword m dest AND NOT bits)"

definition alt_xorbits_hword :: "memory \<Rightarrow> 32 word \<Rightarrow> 16 word \<Rightarrow> memory" where
  "alt_xorbits_hword m dest bits = alt_write_hword m dest (alt_read_hword m dest XOR bits)"

definition alt_replbits_hword :: "memory \<Rightarrow> 32 word \<Rightarrow> 16 word \<Rightarrow> 16 word \<Rightarrow> memory" where
  "alt_replbits_hword m dest msk src =
     alt_write_hword m dest ((alt_read_hword m dest AND NOT msk) OR (src AND msk))"

definition alt_setbits_word :: "memory \<Rightarrow> 32 word \<Rightarrow> 32 word \<Rightarrow> memory" where
  "alt_setbits_word m dest bits = alt_write_word m dest (alt_read_word m dest OR bits)"

definition alt_clrbits_word :: "memory \<Rightarrow> 32 word \<Rightarrow> 32 word \<Rightarrow> memory" where
  "alt_clrbits_word m dest bits = alt_write_word m dest (alt_read_word m dest AND NOT bits)"

definition alt_xorbits_word :: "memory \<Rightarrow> 32 word \<Rightarrow> 32 word \<Rightarrow> memory" where
  "alt_xorbits_word m dest bits = alt_write_word m dest (alt_read_word m dest XOR bits)"

definition alt_replbits_word :: "memory \<Rightarrow> 32 word \<Rightarrow> 32 word \<Rightarrow> 32 word \<Rightarrow> memory" where
  "alt_replbits_word m dest msk src =
     alt_write_word m dest ((alt_read_word m dest AND NOT msk) OR (src AND msk))"

definition alt_setbits_dword :: "memory \<Rightarrow> 32 word \<Rightarrow> 64 word \<Rightarrow> memory" where
  "alt_setbits_dword m dest bits = alt_write_dword m dest (alt_read_dword m dest OR bits)"

definition alt_clrbits_dword :: "memory \<Rightarrow> 32 word \<Rightarrow> 64 word \<Rightarrow> memory" where
  "alt_clrbits_dword m dest bits = alt_write_dword m dest (alt_read_dword m dest AND NOT bits)"

definition alt_xorbits_dword :: "memory \<Rightarrow> 32 word \<Rightarrow> 64 word \<Rightarrow> memory" where
  "alt_xorbits_dword m dest bits = alt_write_dword m dest (alt_read_dword m dest XOR bits)"

definition alt_replbits_dword :: "memory \<Rightarrow> 32 word \<Rightarrow> 64 word \<Rightarrow> 64 word \<Rightarrow> memory" where
  "alt_replbits_dword m dest msk src =
     alt_write_dword m dest ((alt_read_dword m dest AND NOT msk) OR (src AND msk))"

section \<open>The interface\<close>

text \<open>
  A cell of a width: a read returns what was written, and a write leaves the bytes outside the
  cell alone. \<open>len\<close> is the number of bytes.
\<close>

definition in_cell :: "nat \<Rightarrow> 32 word \<Rightarrow> 32 word \<Rightarrow> bool" where
  "in_cell n d a \<longleftrightarrow> unat (a - d) < n"

locale io_cell =
  fixes rd :: "memory \<Rightarrow> 32 word \<Rightarrow> 'w::len word"
    and wr :: "memory \<Rightarrow> 32 word \<Rightarrow> 'w word \<Rightarrow> memory"
    and width :: nat
  assumes rd_wr: "rd (wr m d v) d = v"
    and wr_other: "\<not> in_cell width d a \<Longrightarrow> wr m d v a = m a"
begin

lemma set_bits: "rd (wr m d (rd m d OR b)) d = rd m d OR b"
  by (simp add: rd_wr)

lemma set_clear_bits:
  "rd (wr (wr m d (rd m d OR b)) d (rd (wr m d (rd m d OR b)) d AND NOT b)) d = rd m d AND NOT b"
  by (simp add: rd_wr bit_eq_iff bit_simps) blast

lemma xor_twice:
  "rd (wr (wr m d (rd m d XOR b)) d (rd (wr m d (rd m d XOR b)) d XOR b)) d = rd m d"
  by (simp add: rd_wr bit_eq_iff bit_simps) blast

lemma repl_bit:
  "bit (rd (wr m d ((rd m d AND NOT k) OR (s AND k))) d) i =
     (if bit k i then bit s i else bit (rd m d) i)"
  by (auto simp: rd_wr bit_simps dest: bit_imp_le_length)

end

lemma word_add_neq [simp]:
  "(d :: 32 word) + 1 \<noteq> d" "d + 2 \<noteq> d" "d + 3 \<noteq> d" "d + 1 \<noteq> d + 2" "d + 1 \<noteq> d + 3"
  "d + 2 \<noteq> d + 3" "d + 2 \<noteq> d + 1" "d + 3 \<noteq> d + 1" "d + 3 \<noteq> d + 2"
  "d \<noteq> d + 1" "d \<noteq> d + 2" "d \<noteq> d + 3"
  by simp_all

lemma alt_read_write_word [simp]: "alt_read_word (alt_write_word m d v) d = v"
  using of_le32_le32 [of v] by (simp add: alt_read_word_def alt_write_word_def le32_def)

lemma not_in_cellD: "\<not> in_cell n d a \<Longrightarrow> k < n \<Longrightarrow> n \<le> 8 \<Longrightarrow> a \<noteq> d + of_nat k"
  by (auto simp: in_cell_def unat_of_nat)

lemma alt_write_word_other:
  "\<not> in_cell 4 d a \<Longrightarrow> alt_write_word m d v a = m a"
  using not_in_cellD [of 4 d a 0] not_in_cellD [of 4 d a 1] not_in_cellD [of 4 d a 2]
    not_in_cellD [of 4 d a 3] by (simp add: alt_write_word_def)

interpretation byte_io: io_cell alt_read_byte alt_write_byte 1
  using not_in_cellD [of 1 _ _ 0]
  by unfold_locales (simp_all add: alt_read_byte_def alt_write_byte_def)

interpretation hword_io: io_cell alt_read_hword alt_write_hword 2
proof unfold_locales
  show "alt_read_hword (alt_write_hword m d v) d = v" for m d v
  proof (rule bit_word_eqI)
    fix n assume "n < LENGTH(16)"
    then show "bit (alt_read_hword (alt_write_hword m d v) d) n = bit v n"
      by (cases "n < 8") (auto simp: alt_read_hword_def alt_write_hword_def bit_simps)
  qed
  show "alt_write_hword m d v a = m a" if "\<not> in_cell 2 d a" for m d v a
    using not_in_cellD [OF that, of 0] not_in_cellD [OF that, of 1] by (simp add: alt_write_hword_def)
qed

interpretation word_io: io_cell alt_read_word alt_write_word 4
  by unfold_locales (simp_all add: alt_write_word_other)

lemma alt_read_word_cong:
  "(\<And>k. k < 4 \<Longrightarrow> m (d + of_nat k) = m' (d + of_nat k)) \<Longrightarrow> alt_read_word m d = alt_read_word m' d"
proof -
  assume h: "\<And>k. k < 4 \<Longrightarrow> m (d + of_nat k) = m' (d + of_nat k)"
  show "alt_read_word m d = alt_read_word m' d"
    using h [of 0] h [of 1] h [of 2] h [of 3] by (simp add: alt_read_word_def)
qed

lemma alt_write_dword_other:
  assumes "\<not> in_cell 8 d a"
  shows "alt_write_dword m d v a = m a"
proof -
  have "a \<noteq> d + of_nat k" if "k < 8" for k using not_in_cellD [OF assms that] by simp
  from this [of 0] this [of 1] this [of 2] this [of 3] this [of 4] this [of 5] this [of 6] this [of 7]
  show ?thesis by (simp add: alt_write_dword_def alt_write_word_def add.assoc)
qed

lemma alt_read_write_dword: "alt_read_dword (alt_write_dword m d v) d = v"
proof -
  have "in_cell 4 (d + 4) (d + of_nat k) = False" if "k < 4" for k
  proof -
    have "d + of_nat k - (d + 4) = (of_nat k - 4 :: 32 word)" by simp
    moreover have "k = 0 \<or> k = 1 \<or> k = 2 \<or> k = 3" using that by auto
    ultimately show ?thesis by (auto simp: in_cell_def unsigned_minus_1_eq_mask mask_eq_exp_minus_1)
  qed
  then have "alt_read_word (alt_write_dword m d v) d = ucast v"
    unfolding alt_write_dword_def
    using alt_read_word_cong [of "alt_write_word (alt_write_word m d (ucast v)) (d + 4) _" d
        "alt_write_word m d (ucast v)"]
    by (simp add: alt_write_word_other)
  moreover have "alt_read_word (alt_write_dword m d v) (d + 4) = ucast (drop_bit 32 v)"
    by (simp add: alt_write_dword_def)
  moreover have "(ucast (ucast v :: 32 word) :: 64 word) OR push_bit 32 (ucast (ucast (drop_bit 32 v) :: 32 word)) = v"
  proof (rule bit_word_eqI)
    fix n assume "n < LENGTH(64)"
    then show "bit ((ucast (ucast v :: 32 word) :: 64 word) OR push_bit 32 (ucast (ucast (drop_bit 32 v) :: 32 word))) n = bit v n"
      by (cases "n < 32") (auto simp: bit_simps)
  qed
  ultimately show ?thesis by (simp add: alt_read_dword_def)
qed

interpretation dword_io: io_cell alt_read_dword alt_write_dword 8
  by unfold_locales (simp_all add: alt_write_dword_other alt_read_write_dword)

section \<open>Properties\<close>

text \<open>The accesses of every width: a read returns the last write to its address, a write
  changes no byte outside the 1, 2, 4 or 8 bytes it names.\<close>

theorem access_laws:
  "alt_read_byte (alt_write_byte m d b) d = b \<and> alt_read_hword (alt_write_hword m d h) d = h \<and>
   alt_read_word (alt_write_word m d w) d = w \<and> alt_read_dword (alt_write_dword m d x) d = x \<and>
   {a. alt_write_byte m d b a \<noteq> m a} \<subseteq> {a. in_cell 1 d a} \<and>
   {a. alt_write_hword m d h a \<noteq> m a} \<subseteq> {a. in_cell 2 d a} \<and>
   {a. alt_write_word m d w a \<noteq> m a} \<subseteq> {a. in_cell 4 d a} \<and>
   {a. alt_write_dword m d x a \<noteq> m a} \<subseteq> {a. in_cell 8 d a}"
  using byte_io.rd_wr hword_io.rd_wr word_io.rd_wr dword_io.rd_wr
    byte_io.wr_other hword_io.wr_other word_io.wr_other dword_io.wr_other
  by (intro conjI subsetI) (simp_all, metis+)

text \<open>On a word, setting bits and then clearing the same bits leaves them clear and every
  other bit as it was, toggling twice changes nothing, and a replacement takes the bits under
  the mask from the source and the rest from the register.\<close>

theorem bit_operation_laws:
  "alt_read_word (alt_setbits_word m d b) d = alt_read_word m d OR b \<and>
   alt_read_word (alt_clrbits_word (alt_setbits_word m d b) d b) d = alt_read_word m d AND NOT b \<and>
   alt_read_word (alt_xorbits_word (alt_xorbits_word m d b) d b) d = alt_read_word m d \<and>
   bit (alt_read_word (alt_replbits_word m d k s) d) i =
     (if bit k i then bit s i else bit (alt_read_word m d) i)"
  unfolding alt_setbits_word_def alt_clrbits_word_def alt_xorbits_word_def alt_replbits_word_def
  using word_io.set_bits word_io.set_clear_bits word_io.xor_twice word_io.repl_bit by blast

end
