(* ===== verification/Hardware.thy ===== *)
theory Hardware
  imports Socal
begin

text \<open>
  The access to the FPGA of \<open>src/hardware.c\<close>: the addresses of the devices, the LED and GPIO
  registers, the strings that are laid out in the FPGA's SDRAM for the encoder, and the
  encoder's registers. Addresses are 32 bit words as on the ARM, a register reads back what was
  written last. The result of a system call is an argument.
\<close>

section \<open>Devices\<close>

definition SDRAM_CONTROLLER_0_BASE :: "32 word" where "SDRAM_CONTROLLER_0_BASE = 0x0"
definition SDRAM_CONTROLLER_0_SPAN :: "32 word" where "SDRAM_CONTROLLER_0_SPAN = 67108864"
definition SDRAM_CONTROLLER_0_END :: "32 word" where "SDRAM_CONTROLLER_0_END = 0x3ffffff"
definition ENCODER_0_BASE :: "32 word" where "ENCODER_0_BASE = 0x4000000"
definition ENCODER_0_SPAN :: "32 word" where "ENCODER_0_SPAN = 32"
definition ENCODER_0_END :: "32 word" where "ENCODER_0_END = 0x400001f"
definition LED_PIO_BASE :: "32 word" where "LED_PIO_BASE = 0x4000020"
definition LED_PIO_SPAN :: "32 word" where "LED_PIO_SPAN = 32"
definition LED_PIO_END :: "32 word" where "LED_PIO_END = 0x400003f"
definition LED_PIO_DATA_WIDTH :: nat where "LED_PIO_DATA_WIDTH = 10"
definition GPIO_PIO_BASE :: "32 word" where "GPIO_PIO_BASE = 0x4000040"
definition GPIO_PIO_SPAN :: "32 word" where "GPIO_PIO_SPAN = 32"
definition GPIO_PIO_END :: "32 word" where "GPIO_PIO_END = 0x400005f"

definition ALT_AXI_FPGASLVS_OFST :: "32 word" where "ALT_AXI_FPGASLVS_OFST = 0xc0000000"
definition HW_FPGA_AXI_SPAN :: "32 word" where "HW_FPGA_AXI_SPAN = 0x05000000"
definition HW_FPGA_AXI_MASK :: "32 word" where "HW_FPGA_AXI_MASK = HW_FPGA_AXI_SPAN - 1"

lemmas device_defs = SDRAM_CONTROLLER_0_BASE_def SDRAM_CONTROLLER_0_SPAN_def
  SDRAM_CONTROLLER_0_END_def ENCODER_0_BASE_def ENCODER_0_SPAN_def ENCODER_0_END_def
  LED_PIO_BASE_def LED_PIO_SPAN_def LED_PIO_END_def LED_PIO_DATA_WIDTH_def
  GPIO_PIO_BASE_def GPIO_PIO_SPAN_def GPIO_PIO_END_def
  ALT_AXI_FPGASLVS_OFST_def HW_FPGA_AXI_SPAN_def HW_FPGA_AXI_MASK_def

section \<open>The global addresses\<close>

record global_addrs =
  fd_dev_mem :: int
  h2f_axi_master :: "32 word"
  h2f_axi_master_span :: "32 word"
  fpga_leds :: "32 word"
  gpio_0 :: "32 word"
  encoder_memory :: "32 word"
  encoder :: "32 word"
  codes :: "32 word"
  tree_str :: "32 word"
  text_src :: "32 word"
  dst_addr :: "32 word"

datatype exit_reason =
    Cannot_open_mem
  | Mmap_failed
  | Munmap_failed

definition my_init_global_addrs :: global_addrs where
  "my_init_global_addrs = \<lparr>fd_dev_mem = 0, h2f_axi_master = 0,
     h2f_axi_master_span = HW_FPGA_AXI_SPAN, fpga_leds = 0, gpio_0 = 0, encoder_memory = 0,
     encoder = 0, codes = 0, tree_str = 0, text_src = 0, dst_addr = 0\<rparr>"

text \<open>\<open>fd\<close> is what \<open>open\<close> returns.\<close>

definition open_physical_memory_device :: "int \<Rightarrow> global_addrs \<Rightarrow> exit_reason + global_addrs" where
  "open_physical_memory_device fd addrs =
     (let addrs = addrs\<lparr>fd_dev_mem := fd\<rparr> in
      if fd_dev_mem addrs = -1 then Inl Cannot_open_mem else Inr addrs)"

text \<open>The descriptors that are closed.\<close>

definition close_physical_memory_device :: "global_addrs \<Rightarrow> int list" where
  "close_physical_memory_device addrs = [fd_dev_mem addrs]"

text \<open>\<open>p\<close> is what \<open>mmap\<close> returns, \<open>MAP_FAILED\<close> is \<open>-1\<close>.\<close>

definition mmap_fpga_peripherals :: "32 word \<Rightarrow> global_addrs \<Rightarrow> exit_reason + global_addrs" where
  "mmap_fpga_peripherals p addrs =
     (let addrs = addrs\<lparr>h2f_axi_master := p\<rparr> in
      if h2f_axi_master addrs = -1 then Inl Mmap_failed
      else Inr (addrs\<lparr>
        fpga_leds := h2f_axi_master addrs + LED_PIO_BASE,
        gpio_0 := h2f_axi_master addrs + GPIO_PIO_BASE,
        encoder_memory := h2f_axi_master addrs + SDRAM_CONTROLLER_0_BASE,
        encoder := h2f_axi_master addrs + ENCODER_0_BASE\<rparr>))"

definition munmap_fpga_peripherals :: "int \<Rightarrow> global_addrs \<Rightarrow> exit_reason + global_addrs" where
  "munmap_fpga_peripherals r addrs =
     (if r \<noteq> 0 then Inl Munmap_failed
      else Inr (addrs\<lparr>h2f_axi_master := 0, fpga_leds := 0, gpio_0 := 0, encoder_memory := 0,
        encoder := 0\<rparr>))"

section \<open>The bus\<close>

text \<open>The memory behind the bus and the words written to it, in order.\<close>

record bus =
  ram :: memory
  io :: "(32 word \<times> 32 word) list"

definition write_word :: "32 word \<Rightarrow> 32 word \<Rightarrow> bus \<Rightarrow> bus" where
  "write_word d v b = b\<lparr>ram := alt_write_word (ram b) d v, io := io b @ [(d, v)]\<rparr>"

definition write_byte_at :: "32 word \<Rightarrow> 8 word \<Rightarrow> bus \<Rightarrow> bus" where
  "write_byte_at d v b = b\<lparr>ram := alt_write_byte (ram b) d v\<rparr>"

lemma write_word_sel [simp]:
  "ram (write_word d v b) = alt_write_word (ram b) d v" "io (write_word d v b) = io b @ [(d, v)]"
  by (simp_all add: write_word_def)

lemma write_byte_sel [simp]:
  "ram (write_byte_at d v b) = (ram b)(d := v)" "io (write_byte_at d v b) = io b"
  by (simp_all add: write_byte_at_def alt_write_byte_def)

section \<open>LEDs and GPIO\<close>

definition setup_fpga_leds :: "global_addrs \<Rightarrow> bus \<Rightarrow> bus" where
  "setup_fpga_leds addrs b = write_word (fpga_leds addrs) 0x1 b"

text \<open>\<open>dir\<close> is the global variable of that name.\<close>

definition handle_fpga_leds :: "global_addrs \<Rightarrow> int \<times> bus \<Rightarrow> int \<times> bus" where
  "handle_fpga_leds addrs st =
     (let (dir, b) = st;
          leds_mask = alt_read_word (ram b) (fpga_leds addrs);
          (dir, leds_mask) =
            (if dir \<noteq> 0
             then if leds_mask \<noteq> push_bit (LED_PIO_DATA_WIDTH - 1) 0x01
               then (dir, push_bit 1 leds_mask) else (0, leds_mask)
             else if leds_mask \<noteq> 0x01
               then (dir, drop_bit 1 leds_mask) else (1, leds_mask))
      in (dir, write_word (fpga_leds addrs) leds_mask b))"

definition set_bit_at :: "global_addrs \<Rightarrow> nat \<Rightarrow> bus \<Rightarrow> bus" where
  "set_bit_at addrs index b = write_word (gpio_0 addrs + 16) (push_bit index 1) b"

definition clear_bit_at :: "global_addrs \<Rightarrow> nat \<Rightarrow> bus \<Rightarrow> bus" where
  "clear_bit_at addrs index b = write_word (gpio_0 addrs + 20) (push_bit index 1) b"

section \<open>Strings in the SDRAM\<close>

lemma next_index:
  fixes i :: "32 word"
  assumes "i < push_bit 26 1"
  shows "unat i < 67108864" "unat (i + 1) = Suc (unat i)"
proof -
  show "unat i < 67108864" using assms by (simp add: word_less_nat_alt)
  then show "unat (i + 1) = Suc (unat i)" by (simp add: unat_word_ariths)
qed

function print_loop :: "memory \<Rightarrow> 32 word \<Rightarrow> 32 word \<Rightarrow> char list" where
  "print_loop m src i =
     (if i < push_bit 26 1
      then let x = alt_read_byte m (src + i) in
        if x = 0 then [] else char_of (unat x) # print_loop m src (i + 1)
      else [])"
  by pat_completeness auto
termination
  by (relation "measure (\<lambda>(m, src, i). 67108864 - unat i)") (use next_index in fastforce)+

declare print_loop.simps [simp del]

text \<open>The text that \<open>print_str_from_mem\<close> prints.\<close>

definition print_str_from_mem :: "32 word \<Rightarrow> bus \<Rightarrow> char list" where
  "print_str_from_mem src b = print_loop (ram b) src 0 @ [CHR 0x0A]"

function copy_loop :: "32 word \<Rightarrow> char list \<Rightarrow> 32 word \<Rightarrow> bus \<Rightarrow> bus c" where
  "copy_loop dst str i b =
     (if i < push_bit 26 1
      then bindE (rd str (uint i)) (\<lambda>x.
        let b = write_byte_at (dst + i) (of_nat (of_char x)) b in
        if x = NUL then Inr b else copy_loop dst str (i + 1) b)
      else Inr b)"
  by pat_completeness auto
termination
  by (relation "measure (\<lambda>(dst, str, i, b). 67108864 - unat i)") (use next_index in fastforce)+

declare copy_loop.simps [simp del]

definition copy_str_to_mem :: "32 word \<Rightarrow> char list \<Rightarrow> bus \<Rightarrow> bus c" where
  "copy_str_to_mem dst str b = copy_loop dst str 0 b"

text \<open>The index wraps, so with no zero byte in the memory the loop does not end.\<close>

partial_function (option) str_len_loop :: "memory \<Rightarrow> 32 word \<Rightarrow> 32 word \<Rightarrow> 32 word option" where
  "str_len_loop m src i =
     (if alt_read_byte m (src + i) \<noteq> 0 then str_len_loop m src (i + 1) else Some i)"

definition str_len_mem :: "32 word \<Rightarrow> bus \<Rightarrow> 32 word c" where
  "str_len_mem src b =
     (case str_len_loop (ram b) src 0 of None \<Rightarrow> Inl Diverges | Some n \<Rightarrow> Inr n)"

text \<open>A code is the string without its terminator, as in \<open>get_codes\<close>.\<close>

function write_codes_loop ::
  "global_addrs \<Rightarrow> char list option list \<Rightarrow> int \<Rightarrow> bus \<Rightarrow> bus c" where
  "write_codes_loop addrs cds i b =
     (if i < 56
      then let prev = alt_read_word (ram b) (codes addrs + 4 * word_of_int (i - 1)) + encoder_memory addrs in
        bindE (str_len_mem prev b) (\<lambda>n.
        let code_2 = prev + n + 1 in
        bindE (rd_cell cds i) (\<lambda>code.
        bindE (copy_str_to_mem code_2 (code @ [NUL]) b) (\<lambda>b.
        write_codes_loop addrs cds (i + 1)
          (write_word (codes addrs + word_of_int i * 4) (code_2 - encoder_memory addrs) b))))
      else Inr b)"
  by pat_completeness auto
termination
  by (relation "measure (\<lambda>(addrs, cds, i, b). nat (56 - i))") auto

declare write_codes_loop.simps [simp del]

definition write_codes_to_mem ::
  "global_addrs \<Rightarrow> char list option list \<Rightarrow> bus \<Rightarrow> (global_addrs \<times> bus) c" where
  "write_codes_to_mem addrs cds b =
     (let addrs = addrs\<lparr>codes := encoder_memory addrs\<rparr>;
          code_1 = codes addrs + 256 in
      bindE (rd_cell cds 0) (\<lambda>code.
      bindE (copy_str_to_mem code_1 (code @ [NUL]) b) (\<lambda>b.
      bindE (write_codes_loop addrs cds 1
        (write_word (codes addrs) (code_1 - encoder_memory addrs) b)) (\<lambda>b.
      Inr (addrs, b)))))"

definition write_tree_to_mem :: "global_addrs \<Rightarrow> char list \<Rightarrow> bus \<Rightarrow> (global_addrs \<times> bus) c" where
  "write_tree_to_mem addrs tree b =
     (let last_code_addr = alt_read_word (ram b) (codes addrs + 55 * 4) + encoder_memory addrs in
      bindE (str_len_mem last_code_addr b) (\<lambda>n.
      let addrs = addrs\<lparr>tree_str := last_code_addr + n + 4\<rparr> in
      bindE (copy_str_to_mem (tree_str addrs) tree b) (\<lambda>b.
      Inr (addrs, b))))"

definition write_text_to_mem :: "global_addrs \<Rightarrow> char list \<Rightarrow> bus \<Rightarrow> (global_addrs \<times> bus) c" where
  "write_text_to_mem addrs txt b =
     bindE (str_len_mem (tree_str addrs) b) (\<lambda>n.
     let addrs = addrs\<lparr>text_src := tree_str addrs + n + 4\<rparr> in
     bindE (copy_str_to_mem (text_src addrs) txt b) (\<lambda>b.
     bindE (str_len_mem (text_src addrs) b) (\<lambda>n.
     Inr (addrs\<lparr>dst_addr := text_src addrs + n + 4\<rparr>, b))))"

section \<open>The encoder's registers\<close>

definition write_addrs_to_encoder :: "global_addrs \<Rightarrow> bus \<Rightarrow> bus" where
  "write_addrs_to_encoder addrs b =
     write_word (encoder addrs + 12) (dst_addr addrs - encoder_memory addrs)
     (write_word (encoder addrs + 8) (text_src addrs - encoder_memory addrs)
     (write_word (encoder addrs + 4) (tree_str addrs - encoder_memory addrs)
     (write_word (encoder addrs) (codes addrs - encoder_memory addrs) b)))"

definition reset_encoder :: "global_addrs \<Rightarrow> bus \<Rightarrow> bus" where
  "reset_encoder addrs b = write_word (encoder addrs + 16) 0x1 b"

definition start_encoder :: "global_addrs \<Rightarrow> bus \<Rightarrow> bus" where
  "start_encoder addrs b = write_word (encoder addrs + 16) 0x2 b"

text \<open>
  \<open>dev k\<close> is what the encoder does to the memory and to its registers before the \<open>k\<close>-th read of
  the status register.
\<close>

partial_function (option) wait_for_encoder ::
  "global_addrs \<Rightarrow> (nat \<Rightarrow> memory \<Rightarrow> memory) \<Rightarrow> nat \<Rightarrow> bus \<Rightarrow> bus option" where
  "wait_for_encoder addrs dev k b =
     (let b = b\<lparr>ram := dev k (ram b)\<rparr>;
          done = alt_read_word (ram b) (encoder addrs + 20) in
      if done \<noteq> 0 then Some b else wait_for_encoder addrs dev (k + 1) b)"

end
