(* ===== verification/HardwareProofs.thy ===== *)
theory HardwareProofs
  imports Hardware
begin

text \<open>
  Correctness of \<open>src/hardware.c\<close>: where the devices lie, how the LED runs, and where the codes,
  the tree and the text stand in the SDRAM when the encoder starts.
\<close>

section \<open>The LED\<close>

text \<open>The position of the lit LED after \<open>n\<close> calls, a cycle of 20.\<close>

definition led_pos :: "nat \<Rightarrow> nat" where
  "led_pos n = (let k = n mod 20 in if k < 10 then k else 19 - k)"

lemma led_pos_Suc:
  "led_pos (Suc n) =
     (if n mod 20 < 10 then if led_pos n = 9 then 9 else led_pos n + 1
      else if led_pos n = 0 then 0 else led_pos n - 1)"
  by (auto simp: led_pos_def Let_def mod_Suc)

lemma led_pos_le: "led_pos n \<le> 9"
  by (auto simp: led_pos_def Let_def)

lemma led_step:
  assumes "alt_read_word (ram b) (fpga_leds addrs) = push_bit k 1" "k \<le> 9" "d = 0 \<or> d = 1"
  shows "\<exists>b'. handle_fpga_leds addrs (d, b) =
      (if d = 1 \<and> k = 9 then 0 else if d = 0 \<and> k = 0 then 1 else d, b') \<and>
    alt_read_word (ram b') (fpga_leds addrs) =
      push_bit (if d = 1 then if k = 9 then 9 else k + 1 else if k = 0 then 0 else k - 1) 1"
proof -
  have k: "k \<in> {0, 1, 2, 3, 4, 5, 6, 7, 8, 9}" using assms(2) by auto
  show ?thesis
    using assms(1,3) k
    by (auto simp: handle_fpga_leds_def Let_def LED_PIO_DATA_WIDTH_def)
qed

lemma led_run:
  "(\<exists>b'. (handle_fpga_leds addrs ^^ n) (1, setup_fpga_leds addrs b) =
      (if n mod 20 < 10 then 1 else 0, b') \<and>
    alt_read_word (ram b') (fpga_leds addrs) = push_bit (led_pos n) 1)"
proof (induction n)
  case 0
  then show ?case by (simp add: setup_fpga_leds_def led_pos_def)
next
  case (Suc n)
  then obtain b' where b': "(handle_fpga_leds addrs ^^ n) (1, setup_fpga_leds addrs b) =
      (if n mod 20 < 10 then 1 else 0, b')"
    "alt_read_word (ram b') (fpga_leds addrs) = push_bit (led_pos n) 1" by blast
  have d: "(if n mod 20 < 10 then 1 else 0 :: int) = 0 \<or> (if n mod 20 < 10 then 1 else 0 :: int) = 1" by simp
  obtain b'' where b'': "handle_fpga_leds addrs (if n mod 20 < 10 then 1 else 0, b') =
      (if (if n mod 20 < 10 then 1 else 0 :: int) = 1 \<and> led_pos n = 9 then 0
       else if (if n mod 20 < 10 then 1 else 0 :: int) = 0 \<and> led_pos n = 0 then 1
       else (if n mod 20 < 10 then 1 else 0), b'')"
    "alt_read_word (ram b'') (fpga_leds addrs) =
      push_bit (if (if n mod 20 < 10 then 1 else 0 :: int) = 1 then if led_pos n = 9 then 9 else led_pos n + 1
        else if led_pos n = 0 then 0 else led_pos n - 1) 1"
    using led_step [OF b'(2) led_pos_le d] by blast
  have e: "(if (if n mod 20 < 10 then 1 else 0 :: int) = 1 \<and> led_pos n = 9 then 0
       else if (if n mod 20 < 10 then 1 else 0 :: int) = 0 \<and> led_pos n = 0 then 1
       else (if n mod 20 < 10 then 1 else 0 :: int)) = (if Suc n mod 20 < 10 then 1 else 0)"
    by (auto simp: led_pos_def Let_def mod_Suc)
  show ?case
    using b' b'' e by (intro exI [of _ b'']) (simp add: led_pos_Suc)
qed

section \<open>Strings in the memory\<close>

text \<open>The memory from \<open>base\<close> on.\<close>

definition view :: "memory \<Rightarrow> 32 word \<Rightarrow> nat \<Rightarrow> 8 word" where
  "view m base n = m (base + of_nat n)"

lemma of_nat_32_inj: "i < 2 ^ 32 \<Longrightarrow> k < 2 ^ 32 \<Longrightarrow> (of_nat i = (of_nat k :: 32 word)) = (i = k)"
proof
  assume b: "i < 2 ^ 32" "k < 2 ^ 32" and "of_nat i = (of_nat k :: 32 word)"
  then have "unat (of_nat i :: 32 word) = unat (of_nat k :: 32 word)" by simp
  then show "i = k" using b by (simp add: unat_of_nat)
qed simp

lemma view_upd:
  "k < 2 ^ 32 \<Longrightarrow> n < 2 ^ 32 \<Longrightarrow>
     view (m(base + of_nat k := x)) base n = (if n = k then x else view m base n)"
  by (auto simp: view_def of_nat_32_inj)

lemma view_write_byte:
  "k < 2 ^ 32 \<Longrightarrow> n < 2 ^ 32 \<Longrightarrow>
     view (ram (write_byte_at (base + of_nat k) x b)) base n = (if n = k then x else view (ram b) base n)"
  using view_upd [of k n "ram b" base x] by (simp only: write_byte_sel)

definition char_byte :: "char \<Rightarrow> 8 word" where
  "char_byte x = of_nat (of_char x)"

lemma char_byte_NUL [simp]: "char_byte NUL = 0"
  by (simp add: char_byte_def)

lemma char_byte_0_iff [simp]: "char_byte x = 0 \<longleftrightarrow> x = NUL"
proof
  assume "char_byte x = 0"
  then have "unat (char_byte x) = 0" by simp
  then have "(of_char x :: nat) = 0"
    using of_char_less [of x] by (simp add: char_byte_def unat_of_nat)
  then have "of_char x = (of_char NUL :: nat)" by simp
  then show "x = NUL" by (simp only: of_char_eq_iff)
qed simp

text \<open>The string \<open>s\<close> stands \<open>k\<close> bytes behind \<open>base\<close>.\<close>

definition str_at :: "memory \<Rightarrow> 32 word \<Rightarrow> nat \<Rightarrow> string \<Rightarrow> bool" where
  "str_at m base k s \<longleftrightarrow>
     (\<forall>i < length s. view m base (k + i) = char_byte (s ! i)) \<and> view m base (k + length s) = 0"

lemma str_at_cong:
  "(\<And>n. k \<le> n \<Longrightarrow> n \<le> k + length s \<Longrightarrow> view m' base n = view m base n) \<Longrightarrow>
   str_at m base k s \<Longrightarrow> str_at m' base k s"
  by (simp add: str_at_def)

lemma str_len_loop_ok:
  "str_at m base k s \<Longrightarrow> NUL \<notin> set s \<Longrightarrow> i \<le> length s \<Longrightarrow>
   str_len_loop m (base + of_nat k) (of_nat i) = Some (of_nat (length s))"
proof (induction "length s - i" arbitrary: i)
  case 0
  then have "m (base + of_nat k + of_nat i) = 0" by (simp add: str_at_def view_def add.assoc)
  then show ?case using 0 by (subst str_len_loop.simps) (simp add: alt_read_byte_def)
next
  case (Suc d)
  then have "s ! i \<in> set s" by simp
  then have "s ! i \<noteq> NUL" using Suc.prems(2) by metis
  then have "m (base + of_nat k + of_nat i) \<noteq> 0"
    using Suc by (simp add: str_at_def view_def add.assoc)
  moreover have "str_len_loop m (base + of_nat k) (of_nat (Suc i)) = Some (of_nat (length s))"
    using Suc.hyps(2) Suc.prems by (intro Suc.hyps(1)) simp_all
  ultimately show ?case by (subst str_len_loop.simps) (simp add: alt_read_byte_def add.commute)
qed

lemma str_len_mem_ok:
  "str_at (ram b) base k s \<Longrightarrow> NUL \<notin> set s \<Longrightarrow> str_len_mem (base + of_nat k) b = Inr (of_nat (length s))"
  using str_len_loop_ok [of "ram b" base k s 0] by (simp add: str_len_mem_def)

lemma copy_loop_step:
  assumes "i < length str" "i < 67108864"
  shows "copy_loop d str (of_nat i) b =
    (if str ! i = NUL then Inr (write_byte_at (d + of_nat i) 0 b)
     else copy_loop d str (of_nat (Suc i)) (write_byte_at (d + of_nat i) (char_byte (str ! i)) b))"
proof -
  have u: "unat (of_nat i :: 32 word) = i" using assms(2) by (simp add: unat_of_nat)
  have "(of_nat i :: 32 word) < push_bit 26 1" using assms(2) u by (simp add: word_less_nat_alt)
  moreover have "rd str (uint (of_nat i :: 32 word)) = Inr (str ! i)"
    using assms(1) u rd_int [of i str] by (simp add: uint_nat)
  ultimately show ?thesis
    by (subst copy_loop.simps) (simp add: Let_def add.commute flip: char_byte_def)
qed

lemma copy_loop_ok:
  "NUL \<notin> set s \<Longrightarrow> length s < 67108864 \<Longrightarrow> k + length s < 2 ^ 32 \<Longrightarrow> i \<le> length s \<Longrightarrow>
   \<exists>b'. copy_loop (base + of_nat k) (s @ NUL # rest) (of_nat i) b = Inr b' \<and> io b' = io b \<and>
     (\<forall>n < 2 ^ 32. view (ram b') base n =
       (if k + i \<le> n \<and> n < k + length s then char_byte (s ! (n - k))
        else if n = k + length s then 0 else view (ram b) base n))"
proof (induction "length s - i" arbitrary: i b)
  case 0
  then have i: "i = length s" by simp
  have a: "base + of_nat k + of_nat i = base + of_nat (k + i)" by simp
  have "copy_loop (base + of_nat k) (s @ NUL # rest) (of_nat i) b =
      Inr (write_byte_at (base + of_nat k + of_nat i) 0 b)"
    using 0 unfolding i by (subst copy_loop_step) simp_all
  moreover have "\<forall>n < 2 ^ 32. view (ram (write_byte_at (base + of_nat k + of_nat i) 0 b)) base n =
      (if n = k + i then 0 else view (ram b) base n)"
    unfolding a using 0 by (intro allI impI view_write_byte) simp_all
  ultimately obtain b' where b': "copy_loop (base + of_nat k) (s @ NUL # rest) (of_nat i) b = Inr b'"
    "io b' = io b" "\<forall>n < 2 ^ 32. view (ram b') base n = (if n = k + i then 0 else view (ram b) base n)"
    using write_byte_sel(2) by blast
  have "(k + i \<le> n \<and> n < k + length s) = False" for n unfolding i by simp
  then show ?case
    using b' by (intro exI [of _ b'] conjI) (simp_all only: if_False i simp_thms)
next
  case (Suc d)
  let ?b = "write_byte_at (base + of_nat (k + i)) (char_byte (s ! i)) b"
  have il: "i < length s" using Suc.hyps(2) by simp
  then have "s ! i \<in> set s" by (rule nth_mem)
  then have nz: "s ! i \<noteq> NUL" using Suc.prems(1) by metis
  have bound: "i < length (s @ NUL # rest)" "i < 67108864"
    using il less_trans [OF il Suc.prems(2)] by simp_all
  have at: "(s @ NUL # rest) ! i = s ! i" using il by (simp add: nth_append)
  have a: "base + of_nat k + of_nat i = base + of_nat (k + i)" by simp
  have "copy_loop (base + of_nat k) (s @ NUL # rest) (of_nat i) b =
      copy_loop (base + of_nat k) (s @ NUL # rest) (of_nat (Suc i)) ?b"
    unfolding copy_loop_step [OF bound] at a using nz by (simp only: if_False)
  moreover have i: "d = length s - Suc i" "Suc i \<le> length s" using Suc.hyps(2) il by simp_all
  moreover obtain b' where b': "copy_loop (base + of_nat k) (s @ NUL # rest) (of_nat (Suc i)) ?b = Inr b'"
    "io b' = io ?b" "\<forall>n < 2 ^ 32. view (ram b') base n =
       (if k + Suc i \<le> n \<and> n < k + length s then char_byte (s ! (n - k))
        else if n = k + length s then 0 else view (ram ?b) base n)"
    using Suc.hyps(1) [OF i(1) Suc.prems(1-3) i(2), of ?b] by blast
  moreover have v: "\<forall>n < 2 ^ 32. view (ram ?b) base n =
      (if n = k + i then char_byte (s ! i) else view (ram b) base n)"
    using il Suc.prems(3) by (intro allI impI view_write_byte) simp_all
  moreover have "view (ram b') base n = (if k + i \<le> n \<and> n < k + length s then char_byte (s ! (n - k))
      else if n = k + length s then 0 else view (ram b) base n)" if n: "n < 2 ^ 32" for n
  proof -
    have e: "view (ram b') base n = (if k + Suc i \<le> n \<and> n < k + length s then char_byte (s ! (n - k))
        else if n = k + length s then 0 else if n = k + i then char_byte (s ! i) else view (ram b) base n)"
      using b'(3) v n by simp
    show ?thesis unfolding e using i(2) by (cases "n = k + i") auto
  qed
  ultimately show ?case using write_byte_sel(2) by (intro exI [of _ b'] conjI allI impI) simp_all
qed

lemma copy_str_ok:
  assumes "NUL \<notin> set s" "length s < 67108864" "k + length s < 2 ^ 32"
  shows "\<exists>b'. copy_str_to_mem (base + of_nat k) (s @ NUL # rest) b = Inr b' \<and> io b' = io b \<and>
    str_at (ram b') base k s \<and>
    (\<forall>n < 2 ^ 32. n < k \<or> k + length s < n \<longrightarrow> view (ram b') base n = view (ram b) base n)"
proof -
  obtain b' where "copy_str_to_mem (base + of_nat k) (s @ NUL # rest) b = Inr b'" "io b' = io b"
    "\<forall>n < 2 ^ 32. view (ram b') base n =
       (if k \<le> n \<and> n < k + length s then char_byte (s ! (n - k))
        else if n = k + length s then 0 else view (ram b) base n)"
    using copy_loop_ok [OF assms, of 0 base rest b] by (auto simp: copy_str_to_mem_def)
  then show ?thesis using assms(3) by (intro exI [of _ b']) (auto simp: str_at_def)
qed

section \<open>Words in the memory\<close>

definition word_at :: "memory \<Rightarrow> 32 word \<Rightarrow> nat \<Rightarrow> 32 word" where
  "word_at m base k = of_le32 [view m base k, view m base (k + 1), view m base (k + 2), view m base (k + 3)]"

lemma next_addresses:
  "(base :: 32 word) + of_nat k + 1 = base + of_nat (k + 1)" "base + of_nat k + 2 = base + of_nat (k + 2)"
  "base + of_nat k + 3 = base + of_nat (k + 3)"
  by (simp_all add: algebra_simps)

lemma alt_read_word_at: "alt_read_word m (base + of_nat k) = word_at m base k"
  unfolding alt_read_word_def word_at_def view_def next_addresses ..

lemma view_write_word:
  assumes "k + 3 < 2 ^ 32" "n < 2 ^ 32" "n < k \<or> k + 3 < n"
  shows "view (alt_write_word m (base + of_nat k) v) base n = view m base n"
proof -
  have "k < 2 ^ 32" "k + 1 < 2 ^ 32" "k + 2 < 2 ^ 32" using assms(1) by simp_all
  note u = this [THEN view_upd, OF assms(2)] view_upd [OF assms(1,2)]
  have "n \<noteq> k" "n \<noteq> k + 1" "n \<noteq> k + 2" "n \<noteq> k + 3" using assms(3) by auto
  then show ?thesis
    unfolding alt_write_word_def next_addresses by (simp only: u if_False)
qed

lemma word_at_write: "word_at (alt_write_word m (base + of_nat k) v) base k = v"
  by (simp flip: alt_read_word_at)

lemma word_at_cong:
  "(\<And>n. k \<le> n \<Longrightarrow> n \<le> k + 3 \<Longrightarrow> view m' base n = view m base n) \<Longrightarrow> word_at m' base k = word_at m base k"
  by (simp add: word_at_def)

section \<open>The layout of the codes\<close>

fun code_off :: "string list \<Rightarrow> nat \<Rightarrow> nat" where
  "code_off ws 0 = 256"
| "code_off ws (Suc j) = code_off ws j + length (ws ! j) + 1"

lemma code_off_ge: "256 \<le> code_off ws j"
  by (induction j) auto

lemma code_off_mono: "j < i \<Longrightarrow> code_off ws j + length (ws ! j) + 1 \<le> code_off ws i"
proof (induction i)
  case (Suc i)
  then show ?case by (cases "j = i") auto
qed simp

lemma code_off_le: "\<forall>w \<in> set ws. length w \<le> 55 \<Longrightarrow> j \<le> length ws \<Longrightarrow> code_off ws j \<le> 256 + 56 * j"
proof (induction j)
  case (Suc j)
  then have "ws ! j \<in> set ws" by simp
  then have "length (ws ! j) \<le> 55" using Suc.prems(1) by blast
  moreover have "code_off ws j \<le> 256 + 56 * j" using Suc by simp
  ultimately show ?case by simp
qed simp

definition codes_laid :: "memory \<Rightarrow> 32 word \<Rightarrow> string list \<Rightarrow> nat \<Rightarrow> bool" where
  "codes_laid m base ws i \<longleftrightarrow>
     (\<forall>j < i. word_at m base (4 * j) = of_nat (code_off ws j) \<and> str_at m base (code_off ws j) (ws ! j))"

text \<open>The codes fit an alphabet of 56 letters with codes of at most 55 bits.\<close>

definition code_strings :: "string list \<Rightarrow> bool" where
  "code_strings ws \<longleftrightarrow> length ws = 56 \<and> (\<forall>w \<in> set ws. length w \<le> 55 \<and> NUL \<notin> set w)"

lemma code_strings_nth: "code_strings ws \<Longrightarrow> i < 56 \<Longrightarrow> length (ws ! i) \<le> 55 \<and> NUL \<notin> set (ws ! i)"
  by (auto simp: code_strings_def)

lemma code_strings_off: "code_strings ws \<Longrightarrow> i \<le> 56 \<Longrightarrow> code_off ws i \<le> 3392"
  using code_off_le [of ws i] by (auto simp: code_strings_def)

lemma codes_laid_frame:
  assumes "codes_laid m base ws i" "i \<le> 56"
    and "\<And>n. n < 4 * i \<or> 256 \<le> n \<and> n < code_off ws i \<Longrightarrow> view m' base n = view m base n"
  shows "codes_laid m' base ws i"
  unfolding codes_laid_def
proof (intro allI impI conjI)
  fix j assume j: "j < i"
  have "word_at m' base (4 * j) = word_at m base (4 * j)"
    using j by (intro word_at_cong assms(3)) simp
  then show "word_at m' base (4 * j) = of_nat (code_off ws j)"
    using assms(1) j by (simp add: codes_laid_def)
  have "view m' base n = view m base n" if "code_off ws j \<le> n" "n \<le> code_off ws j + length (ws ! j)" for n
    using that code_off_mono [OF j, of ws] code_off_ge [of ws j] by (intro assms(3)) simp
  then show "str_at m' base (code_off ws j) (ws ! j)"
    using assms(1) j by (intro str_at_cong [of _ _ m' base m]) (auto simp: codes_laid_def)
qed

lemma write_code_step:
  assumes ws: "code_strings ws" and i: "i < 56" and laid: "codes_laid (ram b) base ws i"
  shows "\<exists>b'. copy_str_to_mem (base + of_nat (code_off ws i)) (ws ! i @ [NUL]) b = Inr b' \<and>
    codes_laid (ram (write_word (base + of_nat (4 * i)) (of_nat (code_off ws i)) b')) base ws (Suc i)"
proof -
  note w = code_strings_nth [OF ws i]
  have off: "code_off ws i \<le> 3392" "256 \<le> code_off ws i"
    using code_strings_off [OF ws, of i] code_off_ge i by simp_all
  obtain b' where b': "copy_str_to_mem (base + of_nat (code_off ws i)) (ws ! i @ [NUL]) b = Inr b'"
    "str_at (ram b') base (code_off ws i) (ws ! i)"
    "\<forall>n < 2 ^ 32. n < code_off ws i \<or> code_off ws i + length (ws ! i) < n \<longrightarrow>
      view (ram b') base n = view (ram b) base n"
    using copy_str_ok [of "ws ! i" "code_off ws i" base "[]" b] w off(1) by auto
  let ?m = "alt_write_word (ram b') (base + of_nat (4 * i)) (of_nat (code_off ws i))"
  have v: "view ?m base n = view (ram b') base n" if "n < 2 ^ 32" "n < 4 * i \<or> 4 * i + 3 < n" for n
    using that i by (intro view_write_word) auto
  have "codes_laid ?m base ws i"
  proof (rule codes_laid_frame [OF laid])
    fix n assume n: "n < 4 * i \<or> 256 \<le> n \<and> n < code_off ws i"
    then have "n < 2 ^ 32" "n < 4 * i \<or> 4 * i + 3 < n" "n < code_off ws i" using i off by auto
    then show "view ?m base n = view (ram b) base n" using v b'(3) by simp
  qed (use i in simp)
  moreover have "word_at ?m base (4 * i) = of_nat (code_off ws i)" by (rule word_at_write)
  moreover have "str_at ?m base (code_off ws i) (ws ! i)"
  proof (rule str_at_cong [OF _ b'(2)])
    fix n assume "code_off ws i \<le> n" "n \<le> code_off ws i + length (ws ! i)"
    then show "view ?m base n = view (ram b') base n" using off w i by (intro v) auto
  qed
  ultimately have "codes_laid ?m base ws (Suc i)" by (auto simp: codes_laid_def less_Suc_eq)
  then show ?thesis using b'(1) by auto
qed

lemma write_codes_loop_ok:
  assumes ws: "code_strings ws" and a: "codes addrs = base" "encoder_memory addrs = base"
  shows "1 \<le> i \<Longrightarrow> i \<le> 56 \<Longrightarrow> codes_laid (ram b) base ws i \<Longrightarrow>
    \<exists>b'. write_codes_loop addrs (map Some ws) (int i) b = Inr b' \<and> codes_laid (ram b') base ws 56"
proof (induction "56 - i" arbitrary: i b)
  case 0
  then have "i = 56" by simp
  then show ?case using 0 by (subst write_codes_loop.simps) simp
next
  case (Suc d)
  then have i: "i < 56" by simp
  obtain j where j: "i = Suc j" using Suc.prems(1) by (cases i) auto
  let ?prev = "base + of_nat (code_off ws j)"
  have laid: "word_at (ram b) base (4 * j) = of_nat (code_off ws j)"
    "str_at (ram b) base (code_off ws j) (ws ! j)"
    using Suc.prems(3) j by (auto simp: codes_laid_def)
  have "codes addrs + 4 * word_of_int (int i - 1) = base + of_nat (4 * j)" by (simp add: a j)
  then have prev: "alt_read_word (ram b) (codes addrs + 4 * word_of_int (int i - 1)) + encoder_memory addrs = ?prev"
    by (simp only: alt_read_word_at laid(1) a(2) add.commute)
  have n: "str_len_mem ?prev b = Inr (of_nat (length (ws ! j)))"
    using str_len_mem_ok [OF laid(2)] code_strings_nth [OF ws, of j] i j by simp
  have c2: "?prev + of_nat (length (ws ! j)) + 1 = base + of_nat (code_off ws i)" by (simp add: j)
  have cell: "rd_cell (map Some ws) (int i) = Inr (ws ! i)"
    using ws i by (intro rd_cell_int) (simp_all add: code_strings_def)
  obtain b' where b': "copy_str_to_mem (base + of_nat (code_off ws i)) (ws ! i @ [NUL]) b = Inr b'"
    "codes_laid (ram (write_word (base + of_nat (4 * i)) (of_nat (code_off ws i)) b')) base ws (Suc i)"
    using write_code_step [OF ws i Suc.prems(3)] by blast
  have adr: "codes addrs + word_of_int (int i) * 4 = base + of_nat (4 * i)"
    "base + of_nat (code_off ws i) - encoder_memory addrs = of_nat (code_off ws i)" by (simp_all add: a)
  have "write_codes_loop addrs (map Some ws) (int i) b =
      write_codes_loop addrs (map Some ws) (int (Suc i))
        (write_word (base + of_nat (4 * i)) (of_nat (code_off ws i)) b')"
    using i by (subst write_codes_loop.simps)
      (simp only: prev n cell Let_def bindE.simps c2 b'(1) adr, simp add: add.commute)
  then show ?case
    using Suc.hyps(1) [of "Suc i"] Suc.hyps(2) i b'(2) by simp
qed

lemma write_codes_ok:
  assumes ws: "code_strings ws" and a: "encoder_memory addrs = base"
  shows "\<exists>b'. write_codes_to_mem addrs (map Some ws) b = Inr (addrs\<lparr>codes := base\<rparr>, b') \<and>
    codes_laid (ram b') base ws 56"
proof -
  have "codes_laid (ram b) base ws 0" by (simp add: codes_laid_def)
  then obtain b1 where b1: "copy_str_to_mem (base + of_nat (code_off ws 0)) (ws ! 0 @ [NUL]) b = Inr b1"
    "codes_laid (ram (write_word (base + of_nat (4 * 0)) (of_nat (code_off ws 0)) b1)) base ws (Suc 0)"
    using write_code_step [OF ws, of 0 b base] by auto
  have c: "rd_cell (map Some ws) 0 = Inr (ws ! 0)"
    using ws rd_cell_int [of 0 "map Some ws"] by (simp add: code_strings_def)
  obtain b2 where "write_codes_loop (addrs\<lparr>codes := base\<rparr>) (map Some ws) (int 1) (write_word base 256 b1) = Inr b2"
    "codes_laid (ram b2) base ws 56"
    using write_codes_loop_ok [OF ws, of "addrs\<lparr>codes := base\<rparr>" base 1 "write_word base 256 b1"] b1(2) a
    by auto
  then show ?thesis using b1(1) c a by (simp add: write_codes_to_mem_def Let_def)
qed

section \<open>The layout of the tree and the text\<close>

definition tree_off :: "string list \<Rightarrow> nat" where
  "tree_off ws = code_off ws 55 + length (ws ! 55) + 4"

definition text_off :: "string list \<Rightarrow> string \<Rightarrow> nat" where
  "text_off ws tree = tree_off ws + length tree + 4"

definition dst_off :: "string list \<Rightarrow> string \<Rightarrow> string \<Rightarrow> nat" where
  "dst_off ws tree txt = text_off ws tree + length txt + 4"

lemma tree_off_bounds: "code_strings ws \<Longrightarrow> code_off ws 56 \<le> tree_off ws \<and> tree_off ws \<le> 3395"
  using code_strings_off [of ws 56] code_off.simps(2) [of ws 55] by (simp add: tree_off_def)

lemma write_tree_ok:
  assumes ws: "code_strings ws" and laid: "codes_laid (ram b) base ws 56"
    and a: "codes addrs = base" "encoder_memory addrs = base"
    and tree: "NUL \<notin> set tree" "length tree \<le> 255"
  shows "\<exists>b'. write_tree_to_mem addrs (tree @ NUL # rest) b =
      Inr (addrs\<lparr>tree_str := base + of_nat (tree_off ws)\<rparr>, b') \<and> io b' = io b \<and>
    codes_laid (ram b') base ws 56 \<and> str_at (ram b') base (tree_off ws) tree"
proof -
  have last: "word_at (ram b) base (4 * 55) = of_nat (code_off ws 55)"
    "str_at (ram b) base (code_off ws 55) (ws ! 55)"
    using laid [unfolded codes_laid_def, rule_format, of 55] by simp_all
  have "codes addrs + 55 * 4 = base + of_nat (4 * 55)" by (simp add: a)
  then have adr: "alt_read_word (ram b) (codes addrs + 55 * 4) + encoder_memory addrs =
      base + of_nat (code_off ws 55)"
    by (simp only: alt_read_word_at last(1) a(2) add.commute)
  have n: "str_len_mem (base + of_nat (code_off ws 55)) b = Inr (of_nat (length (ws ! 55)))"
    using str_len_mem_ok [OF last(2)] code_strings_nth [OF ws, of 55] by simp
  have t: "base + of_nat (code_off ws 55) + of_nat (length (ws ! 55)) + 4 = base + of_nat (tree_off ws)"
    by (simp add: tree_off_def)
  note tb = tree_off_bounds [OF ws]
  have fit: "length tree < 67108864" "tree_off ws + length tree < 2 ^ 32" using tb tree(2) by simp_all
  obtain b' where b': "copy_str_to_mem (base + of_nat (tree_off ws)) (tree @ NUL # rest) b = Inr b'"
    "io b' = io b" "str_at (ram b') base (tree_off ws) tree"
    "\<forall>n < 2 ^ 32. n < tree_off ws \<or> tree_off ws + length tree < n \<longrightarrow>
      view (ram b') base n = view (ram b) base n"
    using copy_str_ok [OF tree(1) fit, of base rest b] by blast
  have "codes_laid (ram b') base ws 56"
  proof (rule codes_laid_frame [OF laid])
    fix n assume "n < 4 * 56 \<or> 256 \<le> n \<and> n < code_off ws 56"
    then have "n < tree_off ws" "n < 2 ^ 32" using tb code_off_ge [of ws 56] by auto
    then show "view (ram b') base n = view (ram b) base n" using b'(4) by blast
  qed simp
  moreover have "tree_str (addrs\<lparr>tree_str := v\<rparr>) = v" for v by simp
  then have "write_tree_to_mem addrs (tree @ NUL # rest) b =
      Inr (addrs\<lparr>tree_str := base + of_nat (tree_off ws)\<rparr>, b')"
    by (simp only: write_tree_to_mem_def Let_def adr n t b'(1) bindE.simps)
  ultimately show ?thesis using b'(2,3) by blast
qed

lemma write_text_ok:
  assumes ws: "code_strings ws" and laid: "codes_laid (ram b) base ws 56"
    and tr: "str_at (ram b) base (tree_off ws) tree" "tree_str addrs = base + of_nat (tree_off ws)"
    and tree: "NUL \<notin> set tree" "length tree \<le> 255"
    and tx: "NUL \<notin> set txt" "length txt < 67000000"
  shows "\<exists>b'. write_text_to_mem addrs (txt @ NUL # rest) b =
      Inr (addrs\<lparr>text_src := base + of_nat (text_off ws tree),
        dst_addr := base + of_nat (dst_off ws tree txt)\<rparr>, b') \<and> io b' = io b \<and>
    codes_laid (ram b') base ws 56 \<and> str_at (ram b') base (tree_off ws) tree \<and>
    str_at (ram b') base (text_off ws tree) txt"
proof -
  have n: "str_len_mem (tree_str addrs) b = Inr (of_nat (length tree))"
    using str_len_mem_ok [OF tr(1) tree(1)] tr(2) by simp
  have x: "tree_str addrs + of_nat (length tree) + 4 = base + of_nat (text_off ws tree)"
    by (simp add: text_off_def tr(2))
  note tb = tree_off_bounds [OF ws]
  have fit: "length txt < 67108864" "text_off ws tree + length txt < 2 ^ 32"
    using tb tree(2) tx(2) by (simp_all add: text_off_def)
  obtain b' where b': "copy_str_to_mem (base + of_nat (text_off ws tree)) (txt @ NUL # rest) b = Inr b'"
    "io b' = io b" "str_at (ram b') base (text_off ws tree) txt"
    "\<forall>n < 2 ^ 32. n < text_off ws tree \<or> text_off ws tree + length txt < n \<longrightarrow>
      view (ram b') base n = view (ram b) base n"
    using copy_str_ok [OF tx(1) fit, of base rest b] by blast
  have keep: "view (ram b') base n = view (ram b) base n" if "n < text_off ws tree" for n
  proof -
    have "n < 2 ^ 32" using that fit(2) by linarith
    then show ?thesis using b'(4) that by blast
  qed
  have "codes_laid (ram b') base ws 56"
  proof (rule codes_laid_frame [OF laid])
    fix n assume "n < 4 * 56 \<or> 256 \<le> n \<and> n < code_off ws 56"
    then have "n < text_off ws tree" using tb code_off_ge [of ws 56] by (auto simp: text_off_def)
    then show "view (ram b') base n = view (ram b) base n" by (rule keep)
  qed simp
  moreover have "str_at (ram b') base (tree_off ws) tree"
    by (rule str_at_cong [OF keep tr(1)]) (simp add: text_off_def)
  moreover have n': "str_len_mem (base + of_nat (text_off ws tree)) b' = Inr (of_nat (length txt))"
    by (rule str_len_mem_ok [OF b'(3) tx(1)])
  moreover have d: "base + of_nat (text_off ws tree) + of_nat (length txt) + 4 =
      base + of_nat (dst_off ws tree txt)" by (simp add: dst_off_def)
  moreover have "text_src (addrs\<lparr>text_src := v\<rparr>) = v" for v by simp
  ultimately have "write_text_to_mem addrs (txt @ NUL # rest) b =
      Inr (addrs\<lparr>text_src := base + of_nat (text_off ws tree),
        dst_addr := base + of_nat (dst_off ws tree txt)\<rparr>, b')"
    by (simp only: write_text_to_mem_def Let_def n x b'(1) bindE.simps)
  then show ?thesis
    using b'(2,3) \<open>codes_laid (ram b') base ws 56\<close> \<open>str_at (ram b') base (tree_off ws) tree\<close> by blast
qed

section \<open>Properties\<close>

text \<open>The devices the program uses lie one behind the other in the window that it maps, and
  the window is large enough for all of them.\<close>

theorem devices_in_window:
  assumes "p \<noteq> -1" "mmap_fpga_peripherals p a = Inr addrs"
  shows "encoder_memory addrs = p \<and> encoder addrs = p + SDRAM_CONTROLLER_0_SPAN \<and>
    fpga_leds addrs = encoder addrs + ENCODER_0_SPAN \<and>
    gpio_0 addrs = fpga_leds addrs + LED_PIO_SPAN \<and>
    gpio_0 addrs - p + GPIO_PIO_SPAN \<le> HW_FPGA_AXI_SPAN"
proof -
  have a: "addrs = a\<lparr>h2f_axi_master := p, fpga_leds := p + LED_PIO_BASE, gpio_0 := p + GPIO_PIO_BASE,
      encoder_memory := p, encoder := p + ENCODER_0_BASE\<rparr>"
    using assms by (simp add: mmap_fpga_peripherals_def SDRAM_CONTROLLER_0_BASE_def Let_def)
  have "gpio_0 addrs - p + GPIO_PIO_SPAN = 0x4000060" by (simp add: a device_defs)
  moreover have "(0x4000060 :: 32 word) \<le> HW_FPGA_AXI_SPAN" by (simp add: HW_FPGA_AXI_SPAN_def)
  ultimately show ?thesis by (simp only:) (simp add: a device_defs)
qed

theorem devices_in_window_witness:
  "\<exists>addrs. mmap_fpga_peripherals 0x76000000 my_init_global_addrs = Inr addrs \<and>
    encoder addrs = 0x7A000000"
proof -
  obtain addrs where a: "mmap_fpga_peripherals 0x76000000 my_init_global_addrs = Inr addrs"
    by (simp add: mmap_fpga_peripherals_def Let_def)
  have "encoder addrs = 0x76000000 + SDRAM_CONTROLLER_0_SPAN"
    using devices_in_window [OF _ a] by simp
  then show ?thesis using a by (simp add: device_defs)
qed

text \<open>After the setup and any number of calls of \<open>handle_fpga_leds\<close> exactly one of the ten
  LEDs is lit; the light runs to the last LED and back in a cycle of 20 calls, resting one call
  at each end.\<close>

theorem led_bounces:
  "\<exists>b'. (handle_fpga_leds addrs ^^ n) (1, setup_fpga_leds addrs b) = (if n mod 20 < 10 then 1 else 0, b') \<and>
    alt_read_word (ram b') (fpga_leds addrs) = push_bit (if n mod 20 < 10 then n mod 20 else 19 - n mod 20) 1"
  using led_run [where addrs = addrs and n = n and b = b] by (simp add: led_pos_def Let_def)

text \<open>C28: when the three writers have run, each of the 56 words at the start of the SDRAM is the
  offset of the terminated code of that letter, the terminated tree string and text stand behind
  them at the addresses stored in \<open>addrs\<close>, nothing overlaps, and the place for the result,
  behind the text, is still inside the SDRAM.\<close>

theorem sdram_layout:
  assumes "code_strings ws" "encoder_memory addrs = base"
    and "NUL \<notin> set tree" "length tree \<le> 255" "NUL \<notin> set t" "length t < 67000000"
  shows "\<exists>a1 b1 a2 b2 a3 b3.
    write_codes_to_mem addrs (map Some ws) b = Inr (a1, b1) \<and>
    write_tree_to_mem a1 (tree @ NUL # rest) b1 = Inr (a2, b2) \<and>
    write_text_to_mem a2 (t @ NUL # rest') b2 = Inr (a3, b3) \<and>
    (\<forall>j < 56. alt_read_word (ram b3) (base + of_nat (4 * j)) = of_nat (code_off ws j) \<and>
      str_at (ram b3) base (code_off ws j) (ws ! j)) \<and>
    tree_str a3 = base + of_nat (tree_off ws) \<and> str_at (ram b3) base (tree_off ws) tree \<and>
    text_src a3 = base + of_nat (text_off ws tree) \<and> str_at (ram b3) base (text_off ws tree) t \<and>
    dst_addr a3 = base + of_nat (dst_off ws tree t) \<and> dst_off ws tree t < unat SDRAM_CONTROLLER_0_SPAN"
proof -
  obtain b1 where b1: "write_codes_to_mem addrs (map Some ws) b = Inr (addrs\<lparr>codes := base\<rparr>, b1)"
    "codes_laid (ram b1) base ws 56" using write_codes_ok [OF assms(1,2)] by blast
  obtain b2 where b2: "write_tree_to_mem (addrs\<lparr>codes := base\<rparr>) (tree @ NUL # rest) b1 =
      Inr (addrs\<lparr>codes := base, tree_str := base + of_nat (tree_off ws)\<rparr>, b2)"
    "codes_laid (ram b2) base ws 56" "str_at (ram b2) base (tree_off ws) tree"
    using write_tree_ok [OF assms(1) b1(2), of "addrs\<lparr>codes := base\<rparr>" tree rest] assms(2-4) by auto
  obtain b3 where b3: "write_text_to_mem (addrs\<lparr>codes := base, tree_str := base + of_nat (tree_off ws)\<rparr>)
      (t @ NUL # rest') b2 =
      Inr (addrs\<lparr>codes := base, tree_str := base + of_nat (tree_off ws),
        text_src := base + of_nat (text_off ws tree), dst_addr := base + of_nat (dst_off ws tree t)\<rparr>, b3)"
    "codes_laid (ram b3) base ws 56" "str_at (ram b3) base (tree_off ws) tree"
    "str_at (ram b3) base (text_off ws tree) t"
    using write_text_ok [OF assms(1) b2(2,3) _ assms(3-6),
        of "addrs\<lparr>codes := base, tree_str := base + of_nat (tree_off ws)\<rparr>" rest'] by auto
  have "dst_off ws tree t < unat SDRAM_CONTROLLER_0_SPAN"
    using tree_off_bounds [OF assms(1)] assms(4,6)
    by (simp add: dst_off_def text_off_def SDRAM_CONTROLLER_0_SPAN_def)
  moreover have "\<forall>j < 56. alt_read_word (ram b3) (base + of_nat (4 * j)) = of_nat (code_off ws j) \<and>
      str_at (ram b3) base (code_off ws j) (ws ! j)"
    using b3(2) by (simp only: codes_laid_def alt_read_word_at)
  ultimately show ?thesis
    using b1(1) b2(1) b3(1,3,4)
    by (intro exI [of _ "addrs\<lparr>codes := base\<rparr>"] exI [of _ b1]
        exI [of _ "addrs\<lparr>codes := base, tree_str := base + of_nat (tree_off ws)\<rparr>"] exI [of _ b2]
        exI [of _ "addrs\<lparr>codes := base, tree_str := base + of_nat (tree_off ws),
          text_src := base + of_nat (text_off ws tree), dst_addr := base + of_nat (dst_off ws tree t)\<rparr>"]
        exI [of _ b3]) simp
qed

theorem sdram_layout_witness:
  "\<exists>a1 b1 a2 b2 a3 b3.
    write_codes_to_mem my_init_global_addrs (map Some (replicate 56 ''01'')) \<lparr>ram = (\<lambda>a. 255), io = []\<rparr> =
      Inr (a1, b1) \<and>
    write_tree_to_mem a1 (''1a1b0'' @ NUL # []) b1 = Inr (a2, b2) \<and>
    write_text_to_mem a2 (''ab'' @ NUL # []) b2 = Inr (a3, b3) \<and>
    str_at (ram b3) 0 (text_off (replicate 56 ''01'') ''1a1b0'') ''ab''"
proof -
  have h: "code_strings (replicate 56 ''01'')" "encoder_memory my_init_global_addrs = 0"
    "NUL \<notin> set ''1a1b0''" "length ''1a1b0'' \<le> 255" "NUL \<notin> set ''ab''" "length ''ab'' < 67000000"
    by (simp_all add: code_strings_def my_init_global_addrs_def)
  show ?thesis using sdram_layout [OF h, of "\<lparr>ram = (\<lambda>a. 255), io = []\<rparr>" "[]" "[]"] by blast
qed

end
