(* ===== verification/Startup.thy ===== *)
theory Startup
  imports ServerProofs HardwareProofs
begin

text \<open>
  The straight-line part of \<open>main.c\<close>: the start of the threads, the socket, the mapping of the
  FPGA, the accept loop with the steps of the workers in between, and the loop of the LED thread. The
  results of the system calls are arguments.
\<close>

section \<open>Start\<close>







section \<open>The accept loop\<close>

text \<open>
  What happens once \<open>main\<close> is at its loop, in the order of time: an \<open>accept\<close> returns, with its result,
  the address of the \<open>int\<close> that keeps it and the address of the queue node; \<open>main\<close> goes on inside
  \<open>enqueue\<close>; or a worker makes a step. Only the workers whose \<open>pthread_create\<close> returned 0 exist.
\<close>

datatype event =
    Accepts int addr addr
  | Goes_on
  | Worker_steps nat


section \<open>The end\<close>





definition returns_0 :: "event list \<Rightarrow> bool" where
  "returns_0 es \<longleftrightarrow> (\<exists>cell a. Accepts 0 cell a \<in> set es)"

lemma returns_0_simps [simp]:
  "\<not> returns_0 []" "returns_0 (Accepts fd cell a # es) \<longleftrightarrow> fd = 0 \<or> returns_0 es"
  "returns_0 (Goes_on # es) = returns_0 es" "returns_0 (Worker_steps w # es) = returns_0 es"
  by (auto simp: returns_0_def)







section \<open>The LED thread\<close>

text \<open>One round: the pause in microseconds and the new counter.\<close>

definition led_round :: "int \<Rightarrow> int \<times> int" where
  "led_round counter =
     (let (counter, pause) = (if counter smod 9 = 0 then (0, 5000) else (counter, 50000))
      in (pause, counter + 1))"

fun led_function :: "nat \<Rightarrow> global_addrs \<Rightarrow> int \<Rightarrow> int \<times> bus \<Rightarrow> int list \<times> int \<times> bus" where
  "led_function 0 addrs counter st = ([], st)"
| "led_function (Suc n) addrs counter st =
     (let (pause, counter) = led_round counter;
          (pauses, st) = led_function n addrs counter (handle_fpga_leds addrs st)
      in (pause # pauses, st))"

lemma led_round_cases:
  "0 \<le> k \<Longrightarrow> k \<le> 9 \<Longrightarrow> led_round k = (if k = 0 \<or> k = 9 then (5000, 1) else (50000, k + 1))"
proof -
  assume "0 \<le> k" "k \<le> (9 :: int)"
  then have "k \<in> {0, 1, 2, 3, 4, 5, 6, 7, 8, 9}" by (simp only: insert_iff empty_iff) presburger
  then show ?thesis by (auto simp: led_round_def signed_modulo_int_def)
qed

lemma led_function_state:
  "snd (led_function n addrs counter st) = (handle_fpga_leds addrs ^^ n) st"
proof (induction n arbitrary: counter st)
  case (Suc n)
  then show ?case
    by (simp add: case_prod_unfold Let_def funpow_swap1)
qed simp

lemma led_function_pauses:
  "i < n \<Longrightarrow> k < 9 \<Longrightarrow> (c = int k \<or> k = 0 \<and> c = 9) \<Longrightarrow>
   fst (led_function n addrs c st) ! i = (if (k + i) mod 9 = 0 then 5000 else 50000)"
proof (induction n arbitrary: i k c st)
  case (Suc n)
  have r: "led_round c = (if k = 0 then (5000, 1) else (50000, int k + 1))"
    using Suc.prems led_round_cases [of c] by auto
  show ?case
  proof (cases i)
    case 0
    then show ?thesis using r Suc.prems(2) by (simp add: case_prod_unfold Let_def)
  next
    case (Suc j)
    let ?k = "Suc k mod 9" and ?c = "int k + 1"
    have "(if k = 0 then 1 else int k + 1) = ?c" by simp
    then have "fst (led_function (Suc n) addrs c st) ! i =
        fst (led_function n addrs ?c (handle_fpga_leds addrs st)) ! j"
      using r Suc by (simp add: case_prod_unfold Let_def split: if_splits)
    also have "\<dots> = (if (?k + j) mod 9 = 0 then 5000 else 50000)"
    proof (rule Suc.IH)
      show "?c = int ?k \<or> ?k = 0 \<and> ?c = 9" using Suc.prems(2) by (cases "k = 8") auto
    qed (use Suc Suc.prems in simp_all)
    also have "(?k + j) mod 9 = (k + i) mod 9" using Suc by (simp add: mod_simps)
    finally show ?thesis .
  qed
qed simp

section \<open>Properties\<close>






text \<open>The LED thread's pauses: every ninth is 5 ms, the others 50 ms, while the light goes
  through its cycle of 20 one step per round; the counter never leaves 0 to 9.\<close>

theorem led_thread_timing:
  "(\<forall>i < n. fst (led_function n addrs 0 (1, setup_fpga_leds addrs b)) ! i =
      (if i mod 9 = 0 then 5000 else 50000)) \<and>
   (\<exists>b'. snd (led_function n addrs 0 (1, setup_fpga_leds addrs b)) = (if n mod 20 < 10 then 1 else 0, b') \<and>
      alt_read_word (ram b') (fpga_leds addrs) = push_bit (if n mod 20 < 10 then n mod 20 else 19 - n mod 20) 1)"
  using led_function_pauses [of _ n 0 0 addrs "(1, setup_fpga_leds addrs b)"]
    led_run [where addrs = addrs and n = n and b = b]
  by (simp add: led_function_state led_pos_def Let_def)

theorem led_thread_timing_witness:
  "fst (led_function 11 my_init_global_addrs 0 (1, setup_fpga_leds my_init_global_addrs \<lparr>ram = (\<lambda>a. 0), io = []\<rparr>)) ! 9 = 5000"
  using led_thread_timing [of 11 my_init_global_addrs "\<lparr>ram = (\<lambda>a. 0), io = []\<rparr>"] by simp

end
