(* ===== verification/Http.thy ===== *)
theory Http
  imports Prelude
begin

text \<open>
  Requests and responses of \<open>src/handlers.c\<close>: \<open>strtok_r\<close>, the parser of a request, the header
  lists, and the printing of a response into its buffer of 65536 bytes. A C string is the list
  of its characters without the terminator, \<open>NULL\<close> is \<open>None\<close>. A list of headers, which the
  source keeps with a pointer to its last node, is a list.
\<close>

section \<open>Library functions\<close>

text \<open>
  \<open>strtok_r\<close>: the token, if there is one, and the rest that the save pointer leads to. The
  delimiter behind the token is consumed.
\<close>

definition strtok_r :: "string \<Rightarrow> string \<Rightarrow> string option \<times> string" where
  "strtok_r delims s =
     (let t = dropWhile (\<lambda>x. x \<in> set delims) s in
      if t = [] then (None, [])
      else (Some (takeWhile (\<lambda>x. x \<notin> set delims) t), tl (dropWhile (\<lambda>x. x \<notin> set delims) t)))"

text \<open>\<open>strdup\<close> and every other function that reads its argument, on \<open>NULL\<close>.\<close>

definition strdup :: "string option \<Rightarrow> string c" where
  "strdup s = (case s of None \<Rightarrow> Inl Null_deref | Some s \<Rightarrow> Inr s)"

text \<open>\<open>sprintf\<close> and \<open>strcat\<close> of \<open>t\<close> behind \<open>s\<close> in a buffer of \<open>cap\<close> bytes.\<close>

definition buf_append :: "nat \<Rightarrow> string \<Rightarrow> string \<Rightarrow> string c" where
  "buf_append cap s t = (if length s + length t + 1 \<le> cap then Inr (s @ t) else Inl Out_of_bounds)"

lemma strtok_r_None: "strtok_r d s = (None, r) \<longleftrightarrow> set s \<subseteq> set d \<and> r = []"
  by (auto simp: strtok_r_def Let_def dropWhile_eq_Nil_conv)

lemma strtok_r_shorter:
  assumes "strtok_r d s = (Some t, r)"
  shows "length r < length s"
proof -
  let ?u = "dropWhile (\<lambda>x. x \<in> set d) s"
  have u: "?u \<noteq> []" "r = tl (dropWhile (\<lambda>x. x \<notin> set d) ?u)"
    using assms by (auto simp: strtok_r_def Let_def split: if_splits)
  obtain x v where x: "?u = x # v" "x \<notin> set d"
    using u(1) hd_dropWhile [of "\<lambda>x. x \<in> set d" s] by (cases ?u) auto
  have "length (dropWhile (\<lambda>x. x \<notin> set d) ?u) \<le> length v" 
    using x length_dropWhile_le [of "\<lambda>x. x \<notin> set d" v] by simp
  moreover have "length ?u \<le> length s" by (rule length_dropWhile_le)
  ultimately show ?thesis using u(2) x(1) by simp
qed

lemma strtok_r_token:
  assumes "set t \<inter> set d = {}" "t \<noteq> []" "x \<in> set d"
  shows "strtok_r d (t @ x # r) = (Some t, r)" "strtok_r d t = (Some t, [])"
proof -
  obtain y u where t: "t = y # u" "y \<notin> set d" using assms(1,2) by (cases t) auto
  have dw: "dropWhile (\<lambda>x. x \<in> set d) (t @ v) = t @ v" for v using t by simp
  have all: "\<forall>z \<in> set t. z \<notin> set d" using assms(1) by auto
  then have "takeWhile (\<lambda>x. x \<notin> set d) (t @ x # r) = t"
    using assms(3) by (subst takeWhile_append2) auto
  moreover have "dropWhile (\<lambda>x. x \<notin> set d) (t @ x # r) = x # r"
    using all assms(3) by (subst dropWhile_append2) auto
  ultimately show "strtok_r d (t @ x # r) = (Some t, r)"
    using assms(2) dw by (simp add: strtok_r_def Let_def)
  have w: "takeWhile (\<lambda>x. x \<notin> set d) t = t" "dropWhile (\<lambda>x. x \<notin> set d) t = []"
    using all by (auto simp: takeWhile_eq_all_conv dropWhile_eq_Nil_conv)
  have "dropWhile (\<lambda>x. x \<in> set d) t = t" using dw [of "[]"] by simp
  then show "strtok_r d t = (Some t, [])"
    using assms(2) unfolding strtok_r_def Let_def by (simp only: w if_False list.sel)
qed

lemma strtok_r_skip: "x \<in> set d \<Longrightarrow> strtok_r d (x # s) = strtok_r d s"
  by (simp add: strtok_r_def)

section \<open>Requests\<close>

definition GET :: int where "GET = 0"

definition POST :: int where "POST = 1"

type_synonym header = "string \<times> string"

record request =
  req_client_socket :: int
  req_method :: int
  req_url :: "string option"
  req_body :: "string option"
  req_headers :: "header list"

record response =
  res_status :: int
  res_headers :: "header list"
  res_body :: "string option"

text \<open>What \<open>calloc\<close> returns.\<close>

definition new_request :: request where
  "new_request = \<lparr>req_client_socket = 0, req_method = 0, req_url = None, req_body = None, req_headers = []\<rparr>"

definition new_response :: response where
  "new_response = \<lparr>res_status = 0, res_headers = [], res_body = None\<rparr>"

definition add_header_to_request :: "string \<Rightarrow> string \<Rightarrow> request \<Rightarrow> request" where
  "add_header_to_request k v req = req\<lparr>req_headers := req_headers req @ [(k, v)]\<rparr>"

definition add_header_to_response :: "string \<Rightarrow> string \<Rightarrow> response \<Rightarrow> response" where
  "add_header_to_response k v res = res\<lparr>res_headers := res_headers res @ [(k, v)]\<rparr>"

abbreviation CR :: char where "CR \<equiv> CHR 0x0D"

abbreviation LF :: char where "LF \<equiv> CHR 0x0A"

definition parse_header :: "string \<Rightarrow> (string \<times> string) c" where
  "parse_header line =
     (let (k, state2) = strtok_r '':'' line in
      bindE (strdup k) (\<lambda>k.
      let (v, state2) = strtok_r '' '' state2 in
      bindE (strdup v) (\<lambda>v. Inr (k, v))))"

text \<open>The blank line: \<open>state1\<close> is at the line feed, another line break follows.\<close>

definition at_blank_line :: "string \<Rightarrow> bool" where
  "at_blank_line state1 \<longleftrightarrow> 1 < length state1 \<and> (state1 ! 1 = LF \<or> state1 ! 1 = CR)"

function header_loop :: "string option \<Rightarrow> string \<Rightarrow> request \<Rightarrow> (string \<times> request) c" where
  "header_loop line state1 req =
     (case line of None \<Rightarrow> Inr (state1, req)
      | Some line \<Rightarrow>
          bindE (parse_header line) (\<lambda>(k, v).
          let req = add_header_to_request k v req in
          if at_blank_line state1 then Inr (state1, req)
          else case strtok_r [CR, LF] state1 of (line, state1) \<Rightarrow> header_loop line state1 req))"
  by pat_completeness auto
termination
  by (relation "measure (\<lambda>(line, state1, req). case line of None \<Rightarrow> 0 | Some l \<Rightarrow> Suc (length state1))")
    (auto split: option.splits dest: strtok_r_shorter sym)

declare header_loop.simps [simp del]

definition request_body :: "string \<Rightarrow> string option" where
  "request_body state1 = (if length state1 \<le> 2 then None else Some (drop 2 state1))"

definition parse_request :: "string \<Rightarrow> request c" where
  "parse_request working_string =
     (let req = new_request;
          (meth, state1) = strtok_r '' '' working_string in
      bindE (strdup meth) (\<lambda>meth.
      if meth \<noteq> ''GET'' \<and> meth \<noteq> ''POST'' then Inr req
      else let req = req\<lparr>req_method := (if meth = ''GET'' then GET else POST)\<rparr>;
               (url, state1) = strtok_r '' '' state1 in
        bindE (strdup url) (\<lambda>url.
        let req = req\<lparr>req_url := Some url\<rparr>;
            (version, state1) = strtok_r [CR, LF] state1;
            (line, state1) = strtok_r [CR, LF] state1 in
        bindE (header_loop line state1 req) (\<lambda>(state1, req).
        Inr (req\<lparr>req_body := request_body state1\<rparr>)))))"

section \<open>Responses\<close>

definition response_size :: nat where
  "response_size = 65536"

fun print_headers :: "header list \<Rightarrow> string \<Rightarrow> string c" where
  "print_headers [] buffer = Inr buffer"
| "print_headers ((k, v) # hs) buffer =
     bindE (buf_append response_size buffer (k @ '': '' @ v @ [LF])) (print_headers hs)"

definition response_to_string :: "response \<Rightarrow> string c" where
  "response_to_string res =
     bindE (buf_append response_size [] (''HTTP/1.1 '' @ show_int (res_status res) @ '' OK'' @ [LF])) (\<lambda>buffer.
     bindE (print_headers (res_headers res) buffer) (\<lambda>buffer.
     bindE (case res_body res of None \<Rightarrow> Inr buffer
            | Some body \<Rightarrow> buf_append response_size buffer (LF # body)) (\<lambda>buffer.
     buf_append response_size buffer [LF])))"

definition error_response :: string where
  "error_response = ''HTTP/1.1 500 Internal Server Error'' @ [LF] @ ''Content-Type: text/plain'' @ [LF] @
     ''Content-Length: 33'' @ [LF, LF] @ ''There was an error on the server.''"

end
