(* ===== verification/Handlers.thy ===== *)
theory Handlers
  imports Http Hardware Compress
begin

text \<open>
  The handlers of \<open>src/handlers.c\<close>: compression in memory and by the encoder of the FPGA, the
  pages, and \<open>handler\<close>, which serves one connection.

  The file system, the socket and the encoder are arguments. Memory that the C standard leaves
  undefined is an argument as well: \<open>heap_slack\<close> lies behind a buffer that \<open>malloc\<close> returned,
  \<open>heap_before\<close> before one; both are \<open>[]\<close> for the objects as C defines them. Memory is never
  exhausted, and what \<open>free_req\<close> and \<open>free_res\<close> release is not used again.
\<close>

record handler_env =
  file_at :: "string \<Rightarrow> char list option"
  dir_at :: "string \<Rightarrow> (string \<times> bool) list option"
  heap_slack :: "char list"
  heap_before :: "char list"
  encoder_dev :: "nat \<Rightarrow> memory \<Rightarrow> memory"

definition HOMEPATH :: string where
  "HOMEPATH = ''files''"

text \<open>\<open>sprintf\<close> of the path into its 512 bytes, \<open>fopen\<close>, and the contents of the file.\<close>

definition open_home :: "handler_env \<Rightarrow> string \<Rightarrow> char list option c" where
  "open_home env file_name =
     bindE (buf_append 512 [] (HOMEPATH @ file_name)) (\<lambda>full_path. Inr (file_at env full_path))"

section \<open>Compression in memory\<close>

definition encoded_size :: nat where
  "encoded_size = 65536"

text \<open>\<open>memcpy (encoded_data + 12 + header_len + written, &b, 1)\<close>.\<close>

definition store_byte :: "int \<Rightarrow> 8 word \<Rightarrow> enc_state \<Rightarrow> enc_state c" where
  "store_byte header_len b st =
     bindE (blit (output_bytes st) (12 + header_len + written st) [b]) (\<lambda>out.
     Inr (st\<lparr>output_bytes := out\<rparr>))"

text \<open>The loop of \<open>compress\<close>: \<open>compress_loop\<close> without the check for invalid characters.\<close>

function encode_loop ::
  "(8 word \<Rightarrow> enc_state \<Rightarrow> enc_state c) \<Rightarrow> char list \<Rightarrow> 32 word \<Rightarrow> char list option list \<Rightarrow>
   enc_state \<Rightarrow> int \<Rightarrow> enc_state c" where
  "encode_loop emit txt file_size cds st i =
     (if less_unsigned i file_size
      then bindE (rd txt i) (\<lambda>x.
           bindE (find_letter letters x 0) (\<lambda>j.
           bindE (append_code cds j st) (\<lambda>st.
           bindE (drain_loop emit st) (\<lambda>st.
           bindE (add_int i 1) (\<lambda>i.
           encode_loop emit txt file_size cds st i)))))
      else Inr st)"
  by pat_completeness auto
termination
  by (relation "measure (\<lambda>(emit, txt, file_size, cds, st, i). nat (int_max - i))")
    (auto dest!: add_int_InrD rd_InrD)

declare encode_loop.simps [simp del]

text \<open>The result is \<open>encoded_data\<close>, or \<open>NULL\<close> when there is no such file.\<close>

definition compress ::
  "handler_env \<Rightarrow> global_addrs \<Rightarrow> string \<Rightarrow> bus \<Rightarrow> (8 word list option \<times> bus) c" where
  "compress env addrs file_name b =
     bindE (open_home env file_name) (\<lambda>example_file.
     case example_file of None \<Rightarrow> Inr (None, b)
     | Some contents \<Rightarrow>
         let file_size = of_nat (length contents); txt = contents @ heap_slack env;
             b = set_bit_at addrs 2 b in
         bindE (prepare_frequencies txt letters (replicate 56 0)) (\<lambda>frequencies.
         bindE (HuffmanCodes letters frequencies 56 (replicate 56 None)) (\<lambda>(str_rep, cds).
         let b = set_bit_at addrs 1 (clear_bit_at addrs 2 b) in
         bindE (strlen str_rep) (\<lambda>n.
         let header_len = (word_of_int n :: 32 word) in
         bindE (blit (replicate encoded_size 0) 4 (le32 header_len)) (\<lambda>data.
         bindE (blit data 8 (le32 file_size)) (\<lambda>data.
         bindE (rd_front str_rep (uint header_len)) (\<lambda>header.
         bindE (blit data 12 (bytes_of header)) (\<lambda>data.
         let st = \<lparr>working_string = replicate 64 NUL, offset = 0, str8 = replicate 9 NUL,
           output_bytes = data, written = 0\<rparr> in
         bindE (encode_loop (store_byte (uint header_len)) txt file_size cds st 0) (\<lambda>st.
         bindE (pad_byte (store_byte (uint header_len)) st) (\<lambda>st.
         let total_len = 12 + header_len + word_of_int (written st) in
         bindE (blit (output_bytes st) 0 (le32 total_len)) (\<lambda>data.
         Inr (Some data, clear_bit_at addrs 1 b))))))))))))"

section \<open>Compression by the encoder\<close>

text \<open>The loop that copies the result out of the SDRAM, from byte \<open>i\<close> on.\<close>

function read_back :: "memory \<Rightarrow> 32 word \<Rightarrow> 32 word \<Rightarrow> int \<Rightarrow> 8 word list c" where
  "read_back m dst total_len i =
     (if less_unsigned i total_len
      then bindE (add_int i 1) (\<lambda>i'.
           bindE (read_back m dst total_len i') (\<lambda>bs.
           Inr (alt_read_byte m (dst + word_of_int i) # bs)))
      else Inr [])"
  by pat_completeness auto
termination
  by (relation "measure (\<lambda>(m, dst, total_len, i). nat (int_max - i))") (auto dest!: add_int_InrD)

declare read_back.simps [simp del]

text \<open>\<open>encoder_dev\<close> is what the encoder does between its start and the last read of its status.\<close>

definition hw_compress ::
  "handler_env \<Rightarrow> global_addrs \<Rightarrow> string \<Rightarrow> bus \<Rightarrow> (8 word list option \<times> global_addrs \<times> bus) c" where
  "hw_compress env addrs file_name b =
     bindE (open_home env file_name) (\<lambda>example_file.
     case example_file of None \<Rightarrow> Inr (None, addrs, b)
     | Some contents \<Rightarrow>
         let txt = contents @ heap_slack env in
         bindE (prepare_frequencies txt letters (replicate 56 0)) (\<lambda>frequencies.
         bindE (HuffmanCodes letters frequencies 56 (replicate 56 None)) (\<lambda>(str_rep, cds).
         let b = set_bit_at addrs 0 b in
         bindE (write_codes_to_mem addrs cds b) (\<lambda>(addrs, b).
         bindE (write_tree_to_mem addrs str_rep b) (\<lambda>(addrs, b).
         bindE (write_text_to_mem addrs txt b) (\<lambda>(addrs, b).
         let b = start_encoder addrs (reset_encoder addrs (write_addrs_to_encoder addrs b)) in
         case wait_for_encoder addrs (encoder_dev env) 0 b of None \<Rightarrow> Inl Diverges
         | Some b \<Rightarrow>
             let total_len = alt_read_word (ram b) (dst_addr addrs) in
             bindE (read_back (ram b) (dst_addr addrs) total_len 0) (\<lambda>encoded.
             Inr (Some encoded, addrs, clear_bit_at addrs 0 b))))))))"

section \<open>Pages\<close>

abbreviation DQ :: char where "DQ \<equiv> CHR 0x22"

definition working_size :: nat where
  "working_size = 65536"

text \<open>The link one folder up: every segment of the path but the last.\<close>

function up_path :: "string option \<Rightarrow> string \<Rightarrow> string \<Rightarrow> string c" where
  "up_path path_segment rem_path w =
     (case path_segment of None \<Rightarrow> Inr w
      | Some s \<Rightarrow>
          bindE (buf_append working_size w ''/'') (\<lambda>w.
          bindE (if rem_path \<noteq> [] then buf_append working_size w s else Inr w) (\<lambda>w.
          case strtok_r ''/'' rem_path of (s', rem') \<Rightarrow> up_path s' rem' w)))"
  by pat_completeness auto
termination
  by (relation "measure (\<lambda>(s, r, w). case s of None \<Rightarrow> 0 | Some s \<Rightarrow> Suc (length r))")
    (auto split: option.splits dest: strtok_r_shorter sym)

declare up_path.simps [simp del]

text \<open>\<open>memcmp (d_name, ".", 1)\<close>.\<close>

definition hidden :: "string \<Rightarrow> bool" where
  "hidden d_name \<longleftrightarrow> (case d_name of [] \<Rightarrow> False | x # xs \<Rightarrow> x = CHR ''.'')"

definition link_to :: "string \<Rightarrow> string \<Rightarrow> string" where
  "link_to path d_name = (if path = ''/'' then path @ d_name else path @ ''/'' @ d_name)"

definition folder_item :: "string \<Rightarrow> string \<Rightarrow> string" where
  "folder_item link_path d_name =
     ''<a class='' @ [DQ] @ ''folder-item'' @ [DQ] @ '' href='' @ [DQ] @ link_path @ [DQ] @
     ''>&#x1F4C1; '' @ d_name @ ''</a>'' @ [LF]"

definition file_item :: "string \<Rightarrow> string \<Rightarrow> string" where
  "file_item link_path d_name =
     ''<div class='' @ [DQ] @ ''file-item'' @ [DQ] @ ''><a class='' @ [DQ] @ ''sw-dl-btn'' @ [DQ] @
     '' href='' @ [DQ] @ link_path @ [DQ] @ ''>&#8664;</a><a class='' @ [DQ] @ ''hw-dl-btn'' @ [DQ] @
     '' href='' @ [DQ] @ link_path @ ''?hardware'' @ [DQ] @ ''>&#8664;</a>&#x1F4C3; '' @ d_name @
     ''</div>'' @ [LF]"

fun add_entries :: "string \<Rightarrow> (string \<times> bool) list \<Rightarrow> string \<Rightarrow> string c" where
  "add_entries path [] w = Inr w"
| "add_entries path ((d_name, is_dir) # ds) w =
     (if hidden d_name then add_entries path ds w
      else bindE (buf_append 512 [] (link_to path d_name)) (\<lambda>link_path.
           bindE (buf_append 2048 []
             (if is_dir then folder_item link_path d_name else file_item link_path d_name)) (\<lambda>item_string.
           bindE (buf_append working_size w item_string) (add_entries path ds))))"

text \<open>The next part of the page template, up to a question mark.\<close>

definition add_token :: "string \<Rightarrow> string \<Rightarrow> (string \<times> string) c" where
  "add_token html w =
     (let (t, rest) = strtok_r ''?'' html in
      bindE (strdup t) (\<lambda>t. bindE (buf_append working_size w t) (\<lambda>w. Inr (w, rest))))"

definition add_items :: "handler_env \<Rightarrow> string \<Rightarrow> string \<Rightarrow> string c" where
  "add_items env path html =
     bindE (add_token html []) (\<lambda>(w, rest).
     let (path_segment, rem_path) = strtok_r ''/'' path in
     bindE (up_path path_segment rem_path w) (\<lambda>w.
     bindE (add_token rest w) (\<lambda>(w, rest).
     bindE (buf_append working_size w path) (\<lambda>w.
     bindE (add_token rest w) (\<lambda>(w, rest).
     bindE (buf_append 512 [] (HOMEPATH @ path)) (\<lambda>full_path.
     bindE (case dir_at env full_path of None \<Rightarrow> Inr w | Some ds \<Rightarrow> add_entries path ds w) (\<lambda>w.
     buf_append working_size w rest)))))))"

definition index_handler :: "handler_env \<Rightarrow> string \<Rightarrow> response \<Rightarrow> response c" where
  "index_handler env path res =
     (case file_at env ''html/index.html'' of None \<Rightarrow> Inr res
      | Some contents \<Rightarrow>
          let res = add_header_to_response ''Content-Type'' ''text/html''
            (res\<lparr>res_status := 200, res_headers := []\<rparr>) in
          bindE (cstr (contents @ [NUL])) (\<lambda>index_html.
          bindE (add_items env path index_html) (\<lambda>body.
          Inr (add_header_to_response ''Content-Length'' (show_nat (length body))
            (res\<lparr>res_body := Some body\<rparr>)))))"

text \<open>
  The text of the style sheet gets no terminator; \<open>res_body\<close> is the string that the pointer
  leads to, which \<open>response_to_string\<close> reads next.
\<close>

definition style_handler :: "handler_env \<Rightarrow> response \<Rightarrow> response c" where
  "style_handler env res =
     (case file_at env ''html/style.css'' of None \<Rightarrow> Inr res
      | Some contents \<Rightarrow>
          let res = add_header_to_response ''Content-Length'' (show_nat (length contents))
            (add_header_to_response ''Content-Type'' ''text/css''
              (res\<lparr>res_status := 200, res_headers := []\<rparr>)) in
          bindE (cstr (contents @ heap_slack env)) (\<lambda>style_text.
          Inr (res\<lparr>res_body := Some style_text\<rparr>)))"

definition get_handler :: "handler_env \<Rightarrow> request \<Rightarrow> response \<Rightarrow> response c" where
  "get_handler env req res =
     bindE (strdup (req_url req)) (\<lambda>url.
     if url = ''/style.css'' then style_handler env res
     else if url = ''/favicon.ico'' then Inr res
     else index_handler env url res)"

section \<open>A connection\<close>

datatype net_event =
    Send int "8 word list"
  | Close int

definition server_err_handler :: "int \<Rightarrow> net_event list" where
  "server_err_handler client_socket = [Send client_socket (bytes_of error_response), Close client_socket]"

text \<open>
  \<open>strcmp (url + strlen (url) - 4, ".txt") == 0\<close>. Before the token in \<open>req_path\<close> stand the
  question marks that \<open>strtok_r\<close> skipped, and before them \<open>heap_before\<close>.
\<close>

definition before_url :: "handler_env \<Rightarrow> string \<Rightarrow> string" where
  "before_url env url = heap_before env @ takeWhile (\<lambda>x. x = CHR ''?'') url"

definition is_txt :: "string \<Rightarrow> string \<Rightarrow> bool c" where
  "is_txt before url =
     (if length (before @ url) < 4 then Inl Out_of_bounds
      else Inr (drop (length (before @ url) - 4) (before @ url) = ''.txt''))"

text \<open>The loop \<open>while (*file_path != '/') file_path++\<close>; the terminator of the token is followed
  by \<open>hardware_param\<close>.\<close>

definition path_from_slash :: "string \<Rightarrow> string \<Rightarrow> string c" where
  "path_from_slash url hardware_param =
     (case dropWhile (\<lambda>x. x \<noteq> CHR ''/'') (url @ NUL # hardware_param) of [] \<Rightarrow> Inl Out_of_bounds
      | x # xs \<Rightarrow> Inr (takeWhile (\<lambda>c. c \<noteq> NUL) (x # xs)))"

text \<open>The loop \<open>while (*file_name_temp != '/') file_name_temp--\<close> and the cut of the suffix.\<close>

definition base_name :: "string \<Rightarrow> string \<Rightarrow> string c" where
  "base_name before url =
     (if CHR ''/'' \<notin> set (before @ url) then Inl Out_of_bounds
      else let file_name = rev (takeWhile (\<lambda>x. x \<noteq> CHR ''/'') (rev (before @ url))) in
        if length file_name < 4 then Inl Out_of_bounds
        else Inr (take (length file_name - 4) file_name))"

definition send_compressed ::
  "int \<Rightarrow> string \<Rightarrow> string \<Rightarrow> string \<Rightarrow> response \<Rightarrow> 8 word list option \<Rightarrow> net_event list c" where
  "send_compressed fd before url hardware_param res compressed =
     (case compressed of None \<Rightarrow> Inl Null_deref
      | Some data \<Rightarrow>
          let res = add_header_to_response ''Content-Type'' ''application/octet-stream''
            (res\<lparr>res_status := 200, res_headers := []\<rparr>) in
          bindE (base_name before url) (\<lambda>file_name.
          bindE (buf_append 512 [] (''attachment; filename='' @ file_name @
            (if hardware_param = ''hardware'' then ''_hw.hfc'' else ''.hfc''))) (\<lambda>file_name_header.
          let res = add_header_to_response ''Content-Disposition'' file_name_header res in
          bindE (rd_front data 4) (\<lambda>w.
          let size = unat (of_le32 w);
              res = add_header_to_response ''Content-Length'' (show_nat size) res in
          bindE (response_to_string res) (\<lambda>res_str.
          bindE (rd_front data (int size)) (\<lambda>src.
          if length res_str + size \<le> response_size
          then Inr [Send fd (bytes_of res_str @ src), Close fd]
          else Inl Out_of_bounds))))))"

text \<open>\<open>received\<close> is what \<open>recv\<close> returned and wrote into the buffer of 65536 bytes.\<close>

definition handler ::
  "handler_env \<Rightarrow> int \<Rightarrow> char list \<Rightarrow> global_addrs \<Rightarrow> int \<Rightarrow> bus \<Rightarrow>
   (net_event list \<times> global_addrs \<times> bus) c" where
  "handler env len_received received addrs client_socket b =
     (if len_received < 0 then Inr (server_err_handler client_socket, addrs, b)
      else if len_received = 0 then Inr ([Close client_socket], addrs, b)
      else bindE (cstr (received @ heap_slack env)) (\<lambda>buffer.
        bindE (parse_request buffer) (\<lambda>req.
        let req = req\<lparr>req_client_socket := client_socket\<rparr>; res = new_response in
        bindE (strdup (req_url req)) (\<lambda>req_path.
        let (url, hardware_param) = strtok_r ''?'' req_path; before = before_url env req_path in
        if req_method req = GET
        then bindE (strdup url) (\<lambda>url.
          bindE (is_txt before url) (\<lambda>txt.
          if txt
          then bindE (path_from_slash url hardware_param) (\<lambda>path.
            bindE (if hardware_param = ''hardware'' then hw_compress env addrs path b
              else bindE (compress env addrs path b) (\<lambda>(data, b). Inr (data, addrs, b)))
              (\<lambda>(data, addrs, b).
            bindE (send_compressed client_socket before url hardware_param res data) (\<lambda>evs.
            Inr (evs, addrs, b))))
          else bindE (get_handler env req res) (\<lambda>res.
            bindE (response_to_string res) (\<lambda>res_str.
            Inr ([Send client_socket (bytes_of res_str), Close client_socket], addrs, b)))))
        else Inr (server_err_handler client_socket, addrs, b)))))"

end
