(* ===== verification/HttpProofs.thy ===== *)
theory HttpProofs
  imports Http
begin

text \<open>
  Correctness of the request parser on well-formed requests, its failures on others, and the
  text of a response.
\<close>

section \<open>Well-formed requests\<close>

text \<open>A header line: the key, the first word of the value, the rest of the line.\<close>

type_synonym header_line = "string \<times> string \<times> string"

definition header_text :: "header_line \<Rightarrow> string" where
  "header_text h = (case h of (k, v, w) \<Rightarrow> k @ '': '' @ v @ w)"

definition good_header :: "header_line \<Rightarrow> bool" where
  "good_header h \<longleftrightarrow> (case h of (k, v, w) \<Rightarrow>
     k \<noteq> [] \<and> v \<noteq> [] \<and> CHR '':'' \<notin> set k \<and> CHR '' '' \<notin> set v \<and>
     (w = [] \<or> hd w = CHR '' '') \<and> CR \<notin> set (header_text h) \<and> LF \<notin> set (header_text h))"

lemma parse_header_ok:
  assumes "good_header (k, v, w)"
  shows "parse_header (header_text (k, v, w)) = Inr (k, v)"
proof -
  have k: "strtok_r '':'' (k @ CHR '':'' # '' '' @ v @ w) = (Some k, '' '' @ v @ w)"
    using assms by (intro strtok_r_token) (auto simp: good_header_def)
  have "fst (strtok_r '' '' (v @ w)) = Some v"
  proof (cases w)
    case Nil
    then show ?thesis
      using assms strtok_r_token(2) [of v "'' ''" "CHR '' ''"] by (auto simp: good_header_def)
  next
    case (Cons x u)
    then show ?thesis
      using assms strtok_r_token(1) [of v "'' ''" "CHR '' ''" u] by (auto simp: good_header_def)
  qed
  then have v: "fst (strtok_r '' '' ('' '' @ v @ w)) = Some v"
    using strtok_r_skip [of "CHR '' ''" "'' ''" "v @ w"] by simp
  show ?thesis
    using k v by (simp add: parse_header_def header_text_def strdup_def case_prod_unfold Let_def)
qed

text \<open>What follows a header line: a line feed, the other lines, the blank line, the body.\<close>

definition header_rest :: "header_line list \<Rightarrow> string \<Rightarrow> string" where
  "header_rest hs body = LF # concat (map (\<lambda>h. header_text h @ [CR, LF]) hs) @ [CR, LF] @ body"

lemma header_rest_Cons:
  "header_rest (h # hs) body = LF # header_text h @ CR # header_rest hs body"
  by (simp add: header_rest_def)

lemma header_text_first: "good_header h \<Longrightarrow> \<exists>x s. header_text h = x # s \<and> x \<noteq> CR \<and> x \<noteq> LF"
  by (cases h; cases "fst h") (auto simp: good_header_def header_text_def)

lemma next_line:
  assumes "good_header h"
  shows "strtok_r [CR, LF] (LF # header_text h @ CR # s) = (Some (header_text h), s)"
proof -
  have "strtok_r [CR, LF] (header_text h @ CR # s) = (Some (header_text h), s)"
    using assms header_text_first [OF assms]
    by (intro strtok_r_token) (auto simp: good_header_def split: prod.splits)
  then show ?thesis by (simp add: strtok_r_skip)
qed

definition add_lines :: "header_line list \<Rightarrow> request \<Rightarrow> request" where
  "add_lines hs req = req\<lparr>req_headers := req_headers req @ map (\<lambda>(k, v, w). (k, v)) hs\<rparr>"

lemma header_loop_ok:
  "good_header h \<Longrightarrow> \<forall>h \<in> set hs. good_header h \<Longrightarrow>
   header_loop (Some (header_text h)) (header_rest hs body) req =
     Inr (LF # CR # LF # body, add_lines (h # hs) req)"
proof (induction hs arbitrary: h req)
  case Nil
  obtain k v w where h: "h = (k, v, w)" by (cases h) auto
  have "at_blank_line (header_rest [] body)" by (simp add: at_blank_line_def header_rest_def)
  then show ?case
    using Nil parse_header_ok [of k v w] h
    by (subst header_loop.simps)
      (simp add: Let_def add_header_to_request_def add_lines_def header_rest_def)
next
  case (Cons g hs)
  obtain k v w where h: "h = (k, v, w)" by (cases h) auto
  have g: "good_header g" using Cons.prems(2) by simp
  obtain x s where "header_text g = x # s" "x \<noteq> CR" "x \<noteq> LF" using header_text_first [OF g] by blast
  then have nb: "\<not> at_blank_line (header_rest (g # hs) body)"
    by (simp add: at_blank_line_def header_rest_Cons)
  have nl: "strtok_r [CR, LF] (header_rest (g # hs) body) = (Some (header_text g), header_rest hs body)"
    unfolding header_rest_Cons by (rule next_line [OF g])
  have "header_loop (Some (header_text h)) (header_rest (g # hs) body) req =
      header_loop (Some (header_text g)) (header_rest hs body) (add_header_to_request k v req)"
    using Cons.prems(1) parse_header_ok [of k v w] h nb nl
    by (subst header_loop.simps) (simp add: Let_def)
  also have "\<dots> = Inr (LF # CR # LF # body, add_lines (g # hs) (add_header_to_request k v req))"
    using Cons.prems(2) by (intro Cons.IH) simp_all
  finally show ?case by (simp add: add_lines_def add_header_to_request_def h)
qed

definition request_text :: "string \<Rightarrow> string \<Rightarrow> string \<Rightarrow> header_line list \<Rightarrow> string \<Rightarrow> string" where
  "request_text meth url version hs body =
     meth @ '' '' @ url @ '' '' @ version @ CR # header_rest hs body"

lemma parse_request_ok:
  assumes m: "meth = ''GET'' \<or> meth = ''POST''"
    and u: "url \<noteq> []" "CHR '' '' \<notin> set url"
    and v: "version \<noteq> []" "CR \<notin> set version" "LF \<notin> set version"
    and hs: "hs \<noteq> []" "\<forall>h \<in> set hs. good_header h"
  shows "parse_request (request_text meth url version hs body) =
    Inr \<lparr>req_client_socket = 0, req_method = (if meth = ''GET'' then GET else POST), req_url = Some url,
      req_body = Some (LF # body), req_headers = map (\<lambda>(k, v, w). (k, v)) hs\<rparr>"
proof -
  obtain h gs where h: "hs = h # gs" "good_header h" "\<forall>h \<in> set gs. good_header h"
    using hs by (cases hs) auto
  have 1: "strtok_r '' '' (meth @ CHR '' '' # url @ CHR '' '' # version @ CR # header_rest hs body) =
      (Some meth, url @ CHR '' '' # version @ CR # header_rest hs body)"
    using m by (intro strtok_r_token) auto
  have 2: "strtok_r '' '' (url @ CHR '' '' # version @ CR # header_rest hs body) =
      (Some url, version @ CR # header_rest hs body)"
    using u by (intro strtok_r_token) auto
  have 3: "strtok_r [CR, LF] (version @ CR # header_rest hs body) = (Some version, header_rest hs body)"
    using v by (intro strtok_r_token) auto
  have 4: "strtok_r [CR, LF] (header_rest hs body) = (Some (header_text h), header_rest gs body)"
    unfolding h(1) header_rest_Cons by (rule next_line [OF h(2)])
  have shape: "request_text meth url version hs body =
      meth @ CHR '' '' # url @ CHR '' '' # version @ CR # header_rest hs body"
    by (simp add: request_text_def)
  have ok: "(meth \<noteq> ''GET'' \<and> meth \<noteq> ''POST'') = False" using m by blast
  have body: "request_body (LF # CR # LF # body) = Some (LF # body)" by (simp add: request_body_def)
  show ?thesis
    unfolding parse_request_def shape Let_def 1 prod.case strdup_def option.case bindE.simps ok
      if_False 2 3 4 header_loop_ok [OF h(2,3)] body
    by (simp add: new_request_def add_lines_def h(1))
qed

section \<open>Responses\<close>

definition response_text :: "response \<Rightarrow> string" where
  "response_text res =
     ''HTTP/1.1 '' @ show_int (res_status res) @ '' OK'' @ [LF] @
     concat (map (\<lambda>(k, v). k @ '': '' @ v @ [LF]) (res_headers res)) @
     (case res_body res of None \<Rightarrow> [] | Some body \<Rightarrow> LF # body) @ [LF]"

lemma buf_append_bind:
  "bindE (buf_append cap s t) f = (if length s + length t < cap then f (s @ t) else Inl Out_of_bounds)"
  by (simp add: buf_append_def)

lemma print_headers_text:
  "length buffer < response_size \<Longrightarrow>
   print_headers hs buffer =
     (let t = concat (map (\<lambda>(k, v). k @ '': '' @ v @ [LF]) hs) in
      if length buffer + length t < response_size then Inr (buffer @ t) else Inl Out_of_bounds)"
proof (induction hs arbitrary: buffer)
  case (Cons h hs)
  obtain k v where h: "h = (k, v)" by force
  show ?case
  proof (cases "length buffer + length (k @ '': '' @ v @ [LF]) < response_size")
    case True
    then show ?thesis
      using Cons.IH [of "buffer @ k @ '': '' @ v @ [LF]"] h by (simp add: buf_append_bind Let_def)
  next
    case False
    then show ?thesis by (simp add: buf_append_bind Let_def h)
  qed
qed simp

lemma response_to_string_text:
  "response_to_string res =
     (if length (response_text res) < response_size then Inr (response_text res) else Inl Out_of_bounds)"
proof -
  define l where "l = ''HTTP/1.1 '' @ show_int (res_status res) @ '' OK'' @ [LF]"
  define h where "h = concat (map (\<lambda>(k, v). k @ '': '' @ v @ [LF]) (res_headers res))"
  define b where "b = (case res_body res of None \<Rightarrow> [] | Some body \<Rightarrow> LF # body)"
  have t: "response_text res = l @ h @ b @ [LF]"
    unfolding response_text_def l_def h_def b_def by (simp only: append_assoc)
  have body: "(case res_body res of None \<Rightarrow> Inr buffer
       | Some body \<Rightarrow> buf_append response_size buffer (LF # body)) = buf_append response_size buffer b"
    if "length buffer < response_size" for buffer
    using that by (cases "res_body res") (simp_all add: buf_append_def b_def)
  have heads: "print_headers (res_headers res) l =
      (if length l + length h < response_size then Inr (l @ h) else Inl Out_of_bounds)"
    if "length l < response_size"
    using print_headers_text [OF that, of "res_headers res"] by (simp only: Let_def h_def)
  have all: "response_to_string res =
      bindE (buf_append response_size [] l) (\<lambda>buffer.
      bindE (print_headers (res_headers res) buffer) (\<lambda>buffer.
      bindE (case res_body res of None \<Rightarrow> Inr buffer
            | Some body \<Rightarrow> buf_append response_size buffer (LF # body)) (\<lambda>buffer.
      buf_append response_size buffer [LF])))"
    by (simp only: response_to_string_def l_def)
  show ?thesis
  proof (cases "length l + length h < response_size")
    case True
    then show ?thesis
      unfolding all t using heads body [of "l @ h"] by (simp add: buf_append_bind) (simp add: buf_append_def)
  next
    case False
    then show ?thesis
      unfolding all t using heads by (simp add: buf_append_bind)
  qed
qed

section \<open>Properties\<close>

lemma strtok_r_blank: "set s \<subseteq> set d \<Longrightarrow> strtok_r d s = (None, [])"
  by (simp add: strtok_r_None)

lemma parse_request_no_method: "set s \<subseteq> {CHR '' ''} \<Longrightarrow> parse_request s = Inl Null_deref"
  unfolding parse_request_def using strtok_r_blank [of s "'' ''"] by (simp add: strdup_def)

lemma parse_request_unsupported:
  assumes "m \<noteq> []" "CHR '' '' \<notin> set m" "m \<noteq> ''GET''" "m \<noteq> ''POST''"
  shows "parse_request (m @ CHR '' '' # r) = Inr new_request"
proof -
  have 1: "strtok_r '' '' (m @ CHR '' '' # r) = (Some m, r)"
    using assms by (intro strtok_r_token) auto
  have ok: "(m \<noteq> ''GET'' \<and> m \<noteq> ''POST'') = True" using assms by blast
  show ?thesis
    unfolding parse_request_def 1 Let_def prod.case strdup_def option.case bindE.simps ok if_True ..
qed

lemma parse_request_no_url:
  assumes "m = ''GET'' \<or> m = ''POST''" "set s \<subseteq> {CHR '' ''}"
  shows "parse_request (m @ CHR '' '' # s) = Inl Null_deref"
proof -
  have 1: "strtok_r '' '' (m @ CHR '' '' # s) = (Some m, s)"
    using assms by (intro strtok_r_token) auto
  have 2: "strtok_r '' '' s = (None, [])" using assms by (intro strtok_r_blank) simp
  have ok: "(m \<noteq> ''GET'' \<and> m \<noteq> ''POST'') = False" using assms by blast
  show ?thesis
    unfolding parse_request_def 1 Let_def prod.case strdup_def option.case bindE.simps ok if_False 2 ..
qed

lemma parse_request_no_value:
  assumes "m = ''GET'' \<or> m = ''POST''" "u \<noteq> []" "CHR '' '' \<notin> set u"
    and "v \<noteq> []" "CR \<notin> set v" "LF \<notin> set v"
    and "l \<noteq> []" "CR \<notin> set l" "LF \<notin> set l" "CHR '':'' \<notin> set l"
  shows "parse_request (m @ CHR '' '' # u @ CHR '' '' # v @ CR # LF # l @ CR # s) = Inl Null_deref"
proof -
  have 1: "strtok_r '' '' (m @ CHR '' '' # u @ CHR '' '' # v @ CR # LF # l @ CR # s) =
      (Some m, u @ CHR '' '' # v @ CR # LF # l @ CR # s)"
    using assms by (intro strtok_r_token) auto
  have 2: "strtok_r '' '' (u @ CHR '' '' # v @ CR # LF # l @ CR # s) =
      (Some u, v @ CR # LF # l @ CR # s)"
    using assms by (intro strtok_r_token) auto
  have 3: "strtok_r [CR, LF] (v @ CR # LF # l @ CR # s) = (Some v, LF # l @ CR # s)"
    using assms by (intro strtok_r_token) auto
  have "strtok_r [CR, LF] (l @ CR # s) = (Some l, s)"
    using assms by (intro strtok_r_token) auto
  then have 4: "strtok_r [CR, LF] (LF # l @ CR # s) = (Some l, s)"
    by (subst strtok_r_skip) simp_all
  have k: "strtok_r '':'' l = (Some l, [])" using assms by (intro strtok_r_token) auto
  have v: "strtok_r '' '' [] = (None, [])" by (rule strtok_r_blank) simp
  have h: "parse_header l = Inl Null_deref"
    unfolding parse_header_def k Let_def prod.case strdup_def option.case bindE.simps v ..
  have ok: "(m \<noteq> ''GET'' \<and> m \<noteq> ''POST'') = False" using assms(1) by blast
  have loop: "header_loop (Some l) s req = Inl Null_deref" for req
    by (subst header_loop.simps) (simp add: h)
  show ?thesis
    unfolding parse_request_def 1 Let_def prod.case strdup_def option.case bindE.simps ok if_False
      2 3 4 loop ..
qed

text \<open>C23: \<open>parse_request\<close> reads a request with a \<open>GET\<close> or \<open>POST\<close> line and at least one header
  line: it returns the method, the url, every key with the first word of its value in order, and
  the body behind the line feed that ends the blank line.\<close>

theorem requests_are_parsed:
  assumes "meth = ''GET'' \<or> meth = ''POST''"
    and "url \<noteq> []" "CHR '' '' \<notin> set url"
    and "version \<noteq> []" "CR \<notin> set version" "LF \<notin> set version"
    and "hs \<noteq> []" "\<forall>h \<in> set hs. good_header h"
  shows "parse_request (request_text meth url version hs body) =
    Inr \<lparr>req_client_socket = 0, req_method = (if meth = ''GET'' then GET else POST), req_url = Some url,
      req_body = Some (LF # body), req_headers = map (\<lambda>(k, v, w). (k, v)) hs\<rparr>"
  by (rule parse_request_ok [OF assms])

lemma requests_are_parsed_witness:
  "parse_request (''GET /a.txt HTTP/1.1'' @ [CR, LF] @ ''Host: de1-soc'' @ [CR, LF] @
     ''Accept: text/html, image/png'' @ [CR, LF, CR, LF] @ ''x'') =
   Inr \<lparr>req_client_socket = 0, req_method = GET, req_url = Some ''/a.txt'',
      req_body = Some (LF # ''x''),
      req_headers = [(''Host'', ''de1-soc''), (''Accept'', ''text/html,'')]\<rparr>"
  using requests_are_parsed [of "''GET''" "''/a.txt''" "''HTTP/1.1''"
      "[(''Host'', ''de1-soc'', []), (''Accept'', ''text/html,'', '' image/png'')]" "''x''"]
  by (simp add: good_header_def header_text_def request_text_def header_rest_def)

text \<open>C33: the requests the parser does not survive and those it gives up on: an empty request, a
  request line without url and a header line without colon end in a read of the null pointer
  that \<open>strtok_r\<close> returned; an unknown method returns the request as \<open>calloc\<close> made it, with no
  url.\<close>

theorem request_failures:
  assumes "set blank \<subseteq> {CHR '' ''}"
    and "m = ''GET'' \<or> m = ''POST''"
    and "u \<noteq> []" "CHR '' '' \<notin> set u" "v \<noteq> []" "CR \<notin> set v" "LF \<notin> set v"
    and "l \<noteq> []" "CR \<notin> set l" "LF \<notin> set l" "CHR '':'' \<notin> set l"
    and "n \<noteq> []" "CHR '' '' \<notin> set n" "n \<noteq> ''GET''" "n \<noteq> ''POST''"
  shows "parse_request blank = Inl Null_deref \<and>
    parse_request (m @ CHR '' '' # blank) = Inl Null_deref \<and>
    parse_request (m @ CHR '' '' # u @ CHR '' '' # v @ CR # LF # l @ CR # rest) = Inl Null_deref \<and>
    parse_request (n @ CHR '' '' # rest) = Inr new_request \<and> req_url new_request = None"
  using parse_request_no_method [OF assms(1)] parse_request_no_url [OF assms(2,1)]
    parse_request_no_value [OF assms(2-11)] parse_request_unsupported [OF assms(12-15)]
  by (simp add: new_request_def)

lemma request_failures_witness:
  "parse_request '''' = Inl Null_deref \<and> parse_request ''GET '' = Inl Null_deref \<and>
   parse_request (''GET / HTTP/1.1'' @ [CR, LF] @ ''Host'' @ [CR, LF]) = Inl Null_deref \<and>
   parse_request (''HEAD / HTTP/1.1'' @ [CR]) = Inr new_request \<and> req_url new_request = None"
proof -
  have p: "''GET '' = ''GET'' @ CHR '' '' # ''''"
    "''GET / HTTP/1.1'' @ [CR, LF] @ ''Host'' @ [CR, LF] =
      ''GET'' @ CHR '' '' # ''/'' @ CHR '' '' # ''HTTP/1.1'' @ CR # LF # ''Host'' @ CR # [LF]"
    "''HEAD / HTTP/1.1'' @ [CR] = ''HEAD'' @ CHR '' '' # ''/ HTTP/1.1'' @ [CR]"
    by simp_all
  show ?thesis
    unfolding p
    using request_failures [of "''''" "''GET''" "''/''" "''HTTP/1.1''" "''Host''" "''HEAD''" "[LF]"]
      request_failures [of "''''" "''GET''" "''/''" "''HTTP/1.1''" "''Host''" "''HEAD''"
        "''/ HTTP/1.1'' @ [CR]"]
    by simp
qed

text \<open>C32: \<open>response_to_string\<close> prints the status line, the headers in order, the body behind an
  empty line and a final line feed, and leaves its buffer of 65536 bytes exactly when this text
  and its terminator do not fit.\<close>

theorem response_fits_buffer:
  "response_to_string res =
     (if length (response_text res) < response_size then Inr (response_text res) else Inl Out_of_bounds)"
  by (rule response_to_string_text)

end
