(* ===== verification/Encoder.thy ===== *)
theory Encoder
  imports Hardware
begin

text \<open>
  The encoder of the FPGA, \<open>src/hw/hdl\<close>: the tree handler, which copies the tree string, the text
  handler with its letter indexer, code reader and code writer, and the encoder itself, which runs
  the two and writes the size of the file.

  A clocked process is translated to what it does between its start and its \<open>done\<close> signal: one
  step per bus transaction or register update, the wait states left out. The Avalon master
  transfers bytes, its address 0 is the first byte of the SDRAM, which the processor sees at
  \<open>base\<close>. A \<open>std_logic_vector (63 downto 0)\<close> is the list of its bits, bit 63 first. A result
  \<open>None\<close> is a process that never ends or leaves the bounds of a register.
\<close>

section \<open>The bus master\<close>

definition mstr_read :: "32 word \<Rightarrow> 32 word \<Rightarrow> memory \<Rightarrow> 8 word" where
  "mstr_read base a m = alt_read_byte m (base + a)"

definition mstr_write :: "32 word \<Rightarrow> 32 word \<Rightarrow> 8 word \<Rightarrow> memory \<Rightarrow> memory" where
  "mstr_write base a v m = alt_write_byte m (base + a) v"

text \<open>The four writes of a length, and the four reads of a pointer.\<close>

definition mstr_write4 :: "32 word \<Rightarrow> 32 word \<Rightarrow> 32 word \<Rightarrow> memory \<Rightarrow> memory" where
  "mstr_write4 base a v m =
     mstr_write base (a + 3) (ucast (drop_bit 24 v))
     (mstr_write base (a + 2) (ucast (drop_bit 16 v))
     (mstr_write base (a + 1) (ucast (drop_bit 8 v))
     (mstr_write base a (ucast v) m)))"

definition mstr_read4 :: "32 word \<Rightarrow> 32 word \<Rightarrow> memory \<Rightarrow> 32 word" where
  "mstr_read4 base a m =
     of_le32 [mstr_read base a m, mstr_read base (a + 1) m, mstr_read base (a + 2) m, mstr_read base (a + 3) m]"

section \<open>The tree handler\<close>

partial_function (option) copy_tree ::
  "32 word \<Rightarrow> 32 word \<Rightarrow> 32 word \<Rightarrow> 32 word \<Rightarrow> memory \<Rightarrow> (32 word \<times> memory) option" where
  "copy_tree base tree_addr dst off m =
     (let c = mstr_read base (tree_addr + off) m in
      if c = 0 then Some (off, m)
      else copy_tree base tree_addr dst (off + 1) (mstr_write base (dst + 12 + off) c m))"

text \<open>The size of the tree string and the memory.\<close>

definition tree_handler ::
  "32 word \<Rightarrow> 32 word \<Rightarrow> 32 word \<Rightarrow> memory \<Rightarrow> (32 word \<times> memory) option" where
  "tree_handler base tree_addr dst m =
     (case copy_tree base tree_addr dst 0 m of None \<Rightarrow> None
      | Some (off, m) \<Rightarrow> Some (off, mstr_write4 base (dst + 4) off m))"

section \<open>The letter indexer\<close>

definition letter_indices :: "(8 word \<times> 6 word) list" where
  "letter_indices = [
   (0x41, 0), (0x42, 1), (0x43, 2), (0x44, 3), (0x45, 4), (0x46, 5), (0x47, 6),
   (0x48, 7), (0x49, 8), (0x4a, 9), (0x4b, 10), (0x4c, 11), (0x4d, 12), (0x4e, 13),
   (0x4f, 14), (0x50, 15), (0x51, 16), (0x52, 17), (0x53, 18), (0x54, 19), (0x55, 20),
   (0x56, 21), (0x57, 22), (0x58, 23), (0x59, 24), (0x5a, 25), (0x61, 26), (0x62, 27),
   (0x63, 28), (0x64, 29), (0x65, 30), (0x66, 31), (0x67, 32), (0x68, 33), (0x69, 34),
   (0x6a, 35), (0x6b, 36), (0x6c, 37), (0x6d, 38), (0x6e, 39), (0x6f, 40), (0x70, 41),
   (0x71, 42), (0x72, 43), (0x73, 44), (0x74, 45), (0x75, 46), (0x76, 47), (0x77, 48),
   (0x78, 49), (0x79, 50), (0x7a, 51), (0x20, 52), (0x2c, 53), (0x2e, 54), (0x0a, 55)]"

definition letter_indexer :: "8 word \<Rightarrow> 6 word" where
  "letter_indexer letter = (case map_of letter_indices letter of Some i \<Rightarrow> i | None \<Rightarrow> 0)"

section \<open>The code reader\<close>

partial_function (option) read_code ::
  "32 word \<Rightarrow> 32 word \<Rightarrow> 32 word \<Rightarrow> bool list \<Rightarrow> memory \<Rightarrow> (6 word \<times> bool list) option" where
  "read_code base code_addr off code_reg m =
     (let c = mstr_read base (code_addr + off) m in
      if c = 0x30 \<or> c = 0x31
      then if unat off < 64
        then read_code base code_addr (off + 1) (code_reg[unat off := c = 0x31]) m else None
      else Some (ucast off, code_reg))"

definition code_reader :: "32 word \<Rightarrow> 32 word \<Rightarrow> memory \<Rightarrow> (6 word \<times> bool list) option" where
  "code_reader base addr m = read_code base (mstr_read4 base addr m) 0 (replicate 64 False) m"

section \<open>The code writer\<close>

record cw_state =
  wip_reg :: "bool list"
  wip_idx :: int
  cw_dst_addr :: "32 word"
  cw_dst_offset :: "32 word"

definition cw_init :: "32 word \<Rightarrow> cw_state" where
  "cw_init dst = \<lparr>wip_reg = replicate 64 False, wip_idx = 63, cw_dst_addr = dst, cw_dst_offset = 0\<rparr>"

text \<open>State \<open>ADD_CODE\<close>: bit \<open>wip_idx - i\<close> of the register becomes bit \<open>63 - i\<close> of the code.\<close>

definition add_code :: "bool list \<Rightarrow> 6 word \<Rightarrow> cw_state \<Rightarrow> cw_state option" where
  "add_code code len cw =
     (if int (unat len) \<le> wip_idx cw + 1
      then Some (cw\<lparr>
        wip_reg := fold (\<lambda>i reg. if i < unat len
            then reg[nat (63 - (wip_idx cw - int i)) := code ! i] else reg) [0..<64] (wip_reg cw),
        wip_idx := wip_idx cw - int (unat len)\<rparr>)
      else None)"

definition byte_of_bits :: "bool list \<Rightarrow> 8 word" where
  "byte_of_bits bs = foldl (\<lambda>b x. 2 * b + of_bool x) 0 bs"

text \<open>The states \<open>WRITE_CODE\<close>: the upper byte goes out, the register moves up by 8.\<close>

function write_code :: "32 word \<Rightarrow> cw_state \<Rightarrow> memory \<Rightarrow> cw_state \<times> memory" where
  "write_code base cw m =
     (if wip_idx cw < 56
      then write_code base
        (cw\<lparr>wip_reg := drop 8 (wip_reg cw) @ drop 56 (wip_reg cw), wip_idx := wip_idx cw + 8,
          cw_dst_offset := cw_dst_offset cw + 1\<rparr>)
        (mstr_write base (cw_dst_addr cw + cw_dst_offset cw) (byte_of_bits (take 8 (wip_reg cw))) m)
      else (cw, m))"
  by pat_completeness auto
termination
  by (relation "measure (\<lambda>(base, cw, m). nat (56 - wip_idx cw))") auto

declare write_code.simps [simp del]

definition code_writer ::
  "32 word \<Rightarrow> bool list \<Rightarrow> 6 word \<Rightarrow> cw_state \<Rightarrow> memory \<Rightarrow> (cw_state \<times> memory) option" where
  "code_writer base code len cw m =
     (case add_code code len cw of None \<Rightarrow> None | Some cw \<Rightarrow> Some (write_code base cw m))"

section \<open>The text handler\<close>

partial_function (option) encode_text ::
  "32 word \<Rightarrow> 32 word \<Rightarrow> 32 word \<Rightarrow> 32 word \<Rightarrow> cw_state \<Rightarrow> memory \<Rightarrow>
   (32 word \<times> cw_state \<times> memory) option" where
  "encode_text base codes_addr text_addr off cw m =
     (let c = mstr_read base (text_addr + off) m in
      if c = 0 then Some (off, cw, m)
      else case code_reader base (codes_addr + ucast (letter_indexer c) * 4) m of None \<Rightarrow> None
        | Some (len, code) \<Rightarrow>
            (case code_writer base code len cw m of None \<Rightarrow> None
             | Some (cw, m) \<Rightarrow> encode_text base codes_addr text_addr (off + 1) cw m))"

text \<open>The number of bytes written for the text, and the memory.\<close>

definition text_handler ::
  "32 word \<Rightarrow> 32 word \<Rightarrow> 32 word \<Rightarrow> 32 word \<Rightarrow> 32 word \<Rightarrow> memory \<Rightarrow> (32 word \<times> memory) option" where
  "text_handler base codes_addr text_addr dst header_size m =
     (case encode_text base codes_addr text_addr 0 (cw_init (dst + 12 + header_size)) m of None \<Rightarrow> None
      | Some (off, cw, m) \<Rightarrow>
          (case code_writer base (replicate 64 False) 8 cw m of None \<Rightarrow> None
           | Some (cw, m) \<Rightarrow> Some (cw_dst_offset cw, mstr_write4 base (dst + 8) off m)))"

section \<open>The encoder\<close>

definition encoder_run ::
  "32 word \<Rightarrow> 32 word \<Rightarrow> 32 word \<Rightarrow> 32 word \<Rightarrow> 32 word \<Rightarrow> memory \<Rightarrow> memory option" where
  "encoder_run base codes_addr tree_addr text_addr dst m =
     (case tree_handler base tree_addr dst m of None \<Rightarrow> None
      | Some (tree_size, m) \<Rightarrow>
          (case text_handler base codes_addr text_addr dst tree_size m of None \<Rightarrow> None
           | Some (encoding_size, m) \<Rightarrow> Some (mstr_write4 base dst (12 + tree_size + encoding_size) m)))"

text \<open>
  The encoder as the processor sees it, between two reads of the status register at \<open>enc + 20\<close>:
  when bit 1 of the control register has been written, the status is 0 until the run over the
  registers' addresses is done, before read number \<open>latency\<close>, and then 1. The processor cannot
  read the control register, so the moment in which the bit is cleared does not matter.
\<close>

definition encoder_device :: "32 word \<Rightarrow> 32 word \<Rightarrow> nat \<Rightarrow> nat \<Rightarrow> memory \<Rightarrow> memory" where
  "encoder_device enc base latency k m =
     (if \<not> bit (alt_read_word m (enc + 16)) 1 then m
      else if k < latency then alt_write_word m (enc + 20) 0
      else case encoder_run base (alt_read_word m enc) (alt_read_word m (enc + 4))
          (alt_read_word m (enc + 8)) (alt_read_word m (enc + 12)) m of
        None \<Rightarrow> alt_write_word m (enc + 20) 0
      | Some m \<Rightarrow> alt_write_word (alt_write_word m (enc + 16) 0) (enc + 20) 1)"

end
