(* ===== verification/EncoderProofs.thy ===== *)
theory EncoderProofs
  imports Encoder HardwareProofs CompressProofs
begin

text \<open>
  What the encoder of the FPGA makes of the codes, the tree and the text that
  \<open>src/hardware.c\<close> laid out in the SDRAM.
\<close>

section \<open>Bytes put into the memory\<close>

definition put :: "32 word \<Rightarrow> nat \<Rightarrow> 8 word list \<Rightarrow> memory \<Rightarrow> memory" where
  "put base k bs m =
     (\<lambda>a. let n = unat (a - base) in if k \<le> n \<and> n < k + length bs then bs ! (n - k) else m a)"

lemma put_Nil [simp]: "put base k [] m = m"
  by (rule ext) (auto simp: put_def Let_def)

lemma put_nth:
  "put base k bs m a = (if k \<le> unat (a - base) \<and> unat (a - base) < k + length bs
     then bs ! (unat (a - base) - k) else m a)"
  by (simp add: put_def Let_def)

lemma two_puts:
  "(if k + length bs \<le> n \<and> n < k + length bs + length cs then cs ! (n - (k + length bs))
    else if k \<le> n \<and> n < k + length bs then bs ! (n - k) else x) =
   (if k \<le> n \<and> n < k + length (bs @ cs) then (bs @ cs) ! (n - k) else x)"
proof -
  consider "n < k" | i where "n = k + i" using le_Suc_ex not_less by blast
  then show ?thesis
  proof cases
    case 2
    consider "i < length bs" | j where "i = length bs + j" using le_Suc_ex not_less by blast
    then show ?thesis using 2 by cases (simp_all add: nth_append)
  qed simp
qed

lemma put_put: "put base (k + length bs) cs (put base k bs m) = put base k (bs @ cs) m"
proof
  fix a
  show "put base (k + length bs) cs (put base k bs m) a = put base k (bs @ cs) m a"
    using two_puts [of k bs "unat (a - base)" cs "m a"] by (simp only: put_nth)
qed

lemma put_comm:
  "k + length bs \<le> k' \<Longrightarrow> put base k bs (put base k' cs m) = put base k' cs (put base k bs m)"
  by (rule ext) (simp only: put_nth, auto)

lemma put_put': "put base k bs (put base (k + length bs) cs m) = put base k (bs @ cs) m"
  using put_comm [of k bs "k + length bs"] put_put by simp

lemma view_put:
  "n < 2 ^ 32 \<Longrightarrow>
   view (put base k bs m) base n = (if k \<le> n \<and> n < k + length bs then bs ! (n - k) else view m base n)"
  by (simp add: put_def view_def unat_of_nat)

lemma mstr_write_put: "k < 2 ^ 32 \<Longrightarrow> mstr_write base (of_nat k) v m = put base k [v] m"
proof
  fix a
  assume k: "k < 2 ^ 32"
  have "a = base + of_nat k \<longleftrightarrow> unat (a - base) = k"
  proof
    assume "unat (a - base) = k"
    then have "a - base = of_nat k" by auto
    then show "a = base + of_nat k" by (simp add: algebra_simps)
  qed (use k in \<open>simp add: unat_of_nat\<close>)
  then show "mstr_write base (of_nat k) v m a = put base k [v] m a"
    by (auto simp: mstr_write_def alt_write_byte_def put_def Let_def)
qed

lemma mstr_read_view: "mstr_read base (of_nat k) m = view m base k"
  by (simp add: mstr_read_def alt_read_byte_def view_def)

lemma mstr_write4_put:
  assumes "k + 3 < 2 ^ 32"
  shows "mstr_write4 base (of_nat k) v m = put base k (le32 v) m"
proof -
  have a: "(of_nat k :: 32 word) + 1 = of_nat (k + 1)" "(of_nat k :: 32 word) + 2 = of_nat (k + 2)"
    "(of_nat k :: 32 word) + 3 = of_nat (k + 3)" by simp_all
  have "put base (k + 3) cs (put base k [a, b, c] m) = put base k (a # b # c # cs) m"
    "put base (k + 2) cs (put base k [a, b] m) = put base k (a # b # cs) m"
    "put base (k + 1) cs (put base k [a] m) = put base k (a # cs) m" for a b c cs
    using put_put [of base k "[a, b, c]" cs m] put_put [of base k "[a, b]" cs m]
      put_put [of base k "[a]" cs m] by (simp_all add: numeral_3_eq_3)
  note p = this
  have "k < 2 ^ 32" "k + 1 < 2 ^ 32" "k + 2 < 2 ^ 32" using assms by simp_all
  note w = this [THEN mstr_write_put] mstr_write_put [OF assms]
  show ?thesis unfolding mstr_write4_def a w p le32_def ..
qed

lemma mstr_read4_word: "mstr_read4 base (of_nat k) m = word_at m base k"
proof -
  have a: "(of_nat k :: 32 word) + 1 = of_nat (k + 1)" "(of_nat k :: 32 word) + 2 = of_nat (k + 2)"
    "(of_nat k :: 32 word) + 3 = of_nat (k + 3)" by simp_all
  show ?thesis unfolding mstr_read4_def word_at_def a mstr_read_view ..
qed

lemma str_at_put: "k + length s < d \<Longrightarrow> d < 2 ^ 32 \<Longrightarrow> str_at m base k s \<Longrightarrow> str_at (put base d bs m) base k s"
  by (erule str_at_cong [rotated]) (simp add: view_put)

lemma codes_laid_put:
  assumes "codes_laid m base ws 56" "code_off ws 56 \<le> d" "d < 2 ^ 32"
  shows "codes_laid (put base d bs m) base ws 56"
  by (rule codes_laid_frame [OF assms(1)])
    (use assms(2,3) code_off_ge [of ws 56] in \<open>auto simp: view_put\<close>)

section \<open>The tree handler\<close>

lemma copy_tree_ok:
  "str_at m base k s \<Longrightarrow> NUL \<notin> set s \<Longrightarrow> k + length s < d \<Longrightarrow> d + 12 + length s < 2 ^ 32 \<Longrightarrow> i \<le> length s \<Longrightarrow>
   copy_tree base (of_nat k) (of_nat d) (of_nat i) (put base (d + 12) (map char_byte (take i s)) m) =
     Some (of_nat (length s), put base (d + 12) (map char_byte s) m)"
proof (induction "length s - i" arbitrary: i)
  case 0
  let ?m = "put base (d + 12) (map char_byte (take i s)) m"
  have "str_at ?m base k s" using 0 by (intro str_at_put) simp_all
  then have "mstr_read base (of_nat k + of_nat i) ?m = 0"
    using 0 mstr_read_view [of base "k + i" ?m] by (simp add: str_at_def)
  then show ?case using 0 by (subst copy_tree.simps) simp
next
  case (Suc j)
  let ?m = "put base (d + 12) (map char_byte (take i s)) m"
  have i: "i < length s" using Suc.hyps(2) by simp
  have "str_at ?m base k s" using Suc.prems by (intro str_at_put) simp_all
  then have r: "mstr_read base (of_nat k + of_nat i) ?m = char_byte (s ! i)"
    using i mstr_read_view [of base "k + i" ?m] by (simp add: str_at_def)
  have "s ! i \<noteq> NUL" using Suc.prems(2) nth_mem [OF i] by metis
  then have nz: "char_byte (s ! i) \<noteq> 0" by simp
  have a: "of_nat d + 12 + of_nat i = (of_nat (d + 12 + i) :: 32 word)" by simp
  have w: "mstr_write base (of_nat d + 12 + of_nat i) (char_byte (s ! i)) ?m =
      put base (d + 12) (map char_byte (take (Suc i) s)) m"
    unfolding a using i Suc.prems(4) using put_put [of base "d + 12" "map char_byte (take i s)"]
    by (subst mstr_write_put) (simp_all add: take_Suc_conv_app_nth)
  have s: "of_nat i + 1 = (of_nat (Suc i) :: 32 word)" by simp
  have "copy_tree base (of_nat k) (of_nat d) (of_nat (Suc i)) (put base (d + 12) (map char_byte (take (Suc i) s)) m) =
      Some (of_nat (length s), put base (d + 12) (map char_byte s) m)"
    using Suc.hyps(2) i by (intro Suc.hyps(1) Suc.prems) simp_all
  then show ?case
    by (subst copy_tree.simps) (simp only: r nz w s Let_def if_False)
qed

lemma tree_handler_ok:
  assumes "str_at m base k s" "NUL \<notin> set s" "k + length s < d" "d + 12 + length s < 2 ^ 32"
  shows "tree_handler base (of_nat k) (of_nat d) m =
    Some (of_nat (length s), put base (d + 4) (le32 (of_nat (length s))) (put base (d + 12) (map char_byte s) m))"
proof -
  have a: "of_nat d + 4 = (of_nat (d + 4) :: 32 word)" by simp
  show ?thesis
    unfolding tree_handler_def a
    using copy_tree_ok [OF assms, of 0] assms(4) by (simp add: mstr_write4_put del: of_nat_add)
qed

section \<open>The letter indexer\<close>

lemma letter_indexer_all: "map (\<lambda>x. letter_indexer (char_byte x)) letters = map of_nat [0..<56]"
  by code_simp

lemma letter_indexer_ok:
  assumes "j < 56"
  shows "letter_indexer (char_byte (letters ! j)) = of_nat j"
proof -
  have "map (\<lambda>x. letter_indexer (char_byte x)) letters ! j = of_nat j"
    unfolding letter_indexer_all using assms by simp
  then show ?thesis using assms letters_alphabet(1) by simp
qed


section \<open>The code reader\<close>

abbreviation bools :: "string \<Rightarrow> bool list" where
  "bools w \<equiv> map (\<lambda>x. x = CHR ''1'') w"

lemma bit_char:
  assumes "x \<in> set ''01''"
  shows "char_byte x = 0x30 \<or> char_byte x = 0x31" "char_byte x = 0x31 \<longleftrightarrow> x = CHR ''1''"
  using assms by (auto simp: char_byte_def)

lemma bools_update:
  "i < length w \<Longrightarrow> length w \<le> n \<Longrightarrow>
   (bools (take i w) @ replicate (n - i) False)[i := w ! i = CHR ''1''] =
   bools (take (Suc i) w) @ replicate (n - Suc i) False"
  by (simp add: list_update_append take_Suc_conv_app_nth Suc_diff_Suc [symmetric])

lemma read_code_ok:
  "str_at m base k w \<Longrightarrow> set w \<subseteq> set ''01'' \<Longrightarrow> length w \<le> 55 \<Longrightarrow> i \<le> length w \<Longrightarrow>
   read_code base (of_nat k) (of_nat i) (bools (take i w) @ replicate (64 - i) False) m =
     Some (of_nat (length w), bools w @ replicate (64 - length w) False)"
proof (induction "length w - i" arbitrary: i)
  case 0
  then have "mstr_read base (of_nat k + of_nat i) m = 0"
    using mstr_read_view [of base "k + i" m] by (simp add: str_at_def)
  then show ?case using 0 by (subst read_code.simps) (simp add: Word.unsigned_of_nat take_bit_nat_eq_self)
next
  case (Suc j)
  have i: "i < length w" using Suc.hyps(2) by simp
  then have r: "mstr_read base (of_nat k + of_nat i) m = char_byte (w ! i)"
    using Suc.prems(1) mstr_read_view [of base "k + i" m] by (simp add: str_at_def)
  have "w ! i \<in> set ''01''" using Suc.prems(2) nth_mem [OF i] by blast
  note b = bit_char [OF this]
  have u: "unat (of_nat i :: 32 word) = i" using i Suc.prems(3) by (simp add: unat_of_nat)
  have i64: "i < 64" using i Suc.prems(3) by simp
  have s: "of_nat i + 1 = (of_nat (Suc i) :: 32 word)" by simp
  have w: "length w \<le> 64" using Suc.prems(3) by simp
  have "read_code base (of_nat k) (of_nat (Suc i)) (bools (take (Suc i) w) @ replicate (64 - Suc i) False) m =
      Some (of_nat (length w), bools w @ replicate (64 - length w) False)"
    using Suc.hyps(2) i by (intro Suc.hyps(1) Suc.prems) simp_all
  then show ?case
    using b(1) i64 by (subst read_code.simps) (simp only: r b u s Let_def if_True if_False bools_update [OF i w])
qed

lemma code_reader_ok:
  assumes "codes_laid m base ws 56" "code_strings ws" "\<forall>w \<in> set ws. set w \<subseteq> set ''01''" "j < 56"
  shows "code_reader base (of_nat (4 * j)) m =
    Some (of_nat (length (ws ! j)), bools (ws ! j) @ replicate (64 - length (ws ! j)) False)"
proof -
  have "mstr_read4 base (of_nat (4 * j)) m = of_nat (code_off ws j)" "str_at m base (code_off ws j) (ws ! j)"
    using assms(1,4) mstr_read4_word [of base "4 * j" m] by (simp_all add: codes_laid_def)
  moreover have "ws ! j \<in> set ws" using assms(2,4) by (simp add: code_strings_def)
  ultimately show ?thesis
    using read_code_ok [of m base "code_off ws j" "ws ! j" 0] assms(3) code_strings_nth [OF assms(2,4)]
    by (simp add: code_reader_def)
qed

section \<open>The code writer\<close>

text \<open>The register holds the bits \<open>w\<close>, \<open>n\<close> bytes have been written from \<open>e\<close> on.\<close>

definition cw_holds :: "cw_state \<Rightarrow> string \<Rightarrow> nat \<Rightarrow> nat \<Rightarrow> bool" where
  "cw_holds cw w e n \<longleftrightarrow> length (wip_reg cw) = 64 \<and> length w \<le> 64 \<and> take (length w) (wip_reg cw) = bools w \<and>
     wip_idx cw = 63 - int (length w) \<and> cw_dst_addr cw = of_nat e \<and> cw_dst_offset cw = of_nat n"

lemma cw_holds_init: "cw_holds (cw_init (of_nat e)) [] e 0"
  by (simp add: cw_holds_def cw_init_def)

lemma add_code_fold:
  "p + L \<le> length reg \<Longrightarrow> L \<le> length code \<Longrightarrow>
   fold (\<lambda>i reg. if i < L then reg[nat (63 - ((63 - int p) - int i)) := code ! i] else reg) [0..<n] reg =
   take p reg @ take (min n L) code @ drop (p + min n L) reg"
proof (induction n)
  case (Suc n)
  show ?case
  proof (cases "n < L")
    case True
    have "(take p reg @ take n code @ drop (p + n) reg)[p + n := code ! n] =
        take p reg @ take (Suc n) code @ drop (p + Suc n) reg"
      using Suc.prems True
      by (simp add: list_update_append take_Suc_conv_app_nth Cons_nth_drop_Suc [symmetric])
    moreover have "nat (63 - ((63 - int p) - int n)) = p + n" by simp
    moreover have "min n L = n" "min (Suc n) L = Suc n" using True by simp_all
    ultimately show ?thesis using Suc True by (simp only: upt_Suc_append fold_append fold.simps comp_apply id_apply if_True)
  next
    case False
    then have "min n L = L" "min (Suc n) L = L" by simp_all
    then show ?thesis using Suc False by simp
  qed
qed simp

lemma add_code_ok:
  assumes "cw_holds cw w e n" "length w + length c \<le> 63" "bools c = take (length c) code"
    "length code = 64" "len = of_nat (length c)"
  shows "\<exists>cw'. add_code code len cw = Some cw' \<and> cw_holds cw' (w @ c) e n"
proof -
  have u: "unat len = length c" using assms(2,5) by (simp add: unat_of_nat)
  have wi: "wip_idx cw = 63 - int (length w)" using assms(1) by (simp add: cw_holds_def)
  let ?reg = "fold (\<lambda>i reg. if i < length c then reg[nat (63 - (63 - int (length w) - int i)) := code ! i]
    else reg) [0..<64] (wip_reg cw)"
  have "?reg = take (length w) (wip_reg cw) @ bools c @ drop (length w + length c) (wip_reg cw)"
    using add_code_fold [of "length w" "length c" "wip_reg cw" code 64] assms(1-4) by (simp add: cw_holds_def)
  then have "cw_holds (cw\<lparr>wip_reg := ?reg, wip_idx := 63 - int (length w) - int (length c)\<rparr>) (w @ c) e n"
    using assms(1,2) by (simp add: cw_holds_def)
  moreover have "add_code code len cw =
      Some (cw\<lparr>wip_reg := ?reg, wip_idx := 63 - int (length w) - int (length c)\<rparr>)"
    using assms(2) by (simp only: add_code_def u wi) simp
  ultimately show ?thesis by blast
qed

lemma byte_of_bools: "byte_of_bits (bools w) = of_nat (bits_val w)"
proof (induction w rule: rev_induct)
  case (snoc x w)
  then show ?case by (simp add: byte_of_bits_def)
qed (simp add: byte_of_bits_def)

lemma write_code_ok:
  "cw_holds cw w e n \<Longrightarrow> e + n + length w < 2 ^ 32 \<Longrightarrow>
   \<exists>cw'. write_code base cw m = (cw', put base (e + n) (pack w) m) \<and>
     cw_holds cw' (leftover w) e (n + length (pack w))"
proof (induction w arbitrary: cw n m rule: pack.induct)
  case (1 w)
  show ?case
  proof (cases "8 \<le> length w")
    case False
    then show ?thesis using 1(2) by (subst write_code.simps) (simp add: pack_short cw_holds_def)
  next
    case True
    let ?cw = "cw\<lparr>wip_reg := drop 8 (wip_reg cw) @ drop 56 (wip_reg cw), wip_idx := wip_idx cw + 8,
      cw_dst_offset := cw_dst_offset cw + 1\<rparr>"
    have "take (length w - 8) (drop 8 (wip_reg cw)) = bools (drop 8 w)"
      using 1(2) by (metis cw_holds_def drop_map drop_take)
    then have h: "cw_holds ?cw (drop 8 w) e (n + 1)"
      using 1(2) True by (auto simp: cw_holds_def)
    have "take 8 (wip_reg cw) = bools (take 8 w)"
      using 1(2) True by (metis cw_holds_def min_def take_map take_take)
    then have v: "byte_of_bits (take 8 (wip_reg cw)) = of_nat (bits_val (take 8 w))" by (simp only: byte_of_bools)
    have a: "cw_dst_addr cw + cw_dst_offset cw = of_nat (e + n)" using 1(2) by (simp add: cw_holds_def)
    have d: "wip_idx cw < 56" using 1(2) True by (simp add: cw_holds_def)
    have l: "length (take 8 w) = 8" using True by simp
    have p: "pack w = of_nat (bits_val (take 8 w)) # pack (drop 8 w)" "leftover w = leftover (drop 8 w)"
      using pack_leftover_step [OF l, of "drop 8 w"] by simp_all
    have n: "e + (n + 1) + length (drop 8 w) < 2 ^ 32" "e + n < 2 ^ 32" using 1(3) True by simp_all
    obtain cw' where "write_code base ?cw (put base (e + n) [of_nat (bits_val (take 8 w))] m) =
        (cw', put base (e + (n + 1)) (pack (drop 8 w)) (put base (e + n) [of_nat (bits_val (take 8 w))] m))"
      "cw_holds cw' (leftover (drop 8 w)) e (n + 1 + length (pack (drop 8 w)))"
      using 1(1) [OF True h n(1)] by blast
    then show ?thesis
      using d put_put [of base "e + n" "[of_nat (bits_val (take 8 w))]" "pack (drop 8 w)" m]
      by (subst write_code.simps) (simp add: v a mstr_write_put [OF n(2)] p del: of_nat_add)
  qed
qed

lemma code_writer_ok:
  assumes "cw_holds cw w e n" "length w < 8" "length c \<le> 55" "bools c = take (length c) code"
    "length code = 64" "len = of_nat (length c)" "e + n + length w + length c < 2 ^ 32"
  shows "\<exists>cw'. code_writer base code len cw m = Some (cw', put base (e + n) (pack (w @ c)) m) \<and>
    cw_holds cw' (leftover (w @ c)) e (n + length (pack (w @ c)))"
proof -
  have "length w + length c \<le> 63" using assms(2,3) by simp
  then obtain cw1 where "add_code code len cw = Some cw1" "cw_holds cw1 (w @ c) e n"
    using add_code_ok [OF assms(1) _ assms(4-6)] by blast
  then show ?thesis
    using write_code_ok [of cw1 "w @ c" e n base m] assms(7) by (auto simp: code_writer_def add.assoc)
qed

text \<open>What the encoder finds in the SDRAM.\<close>

definition encoder_input :: "memory \<Rightarrow> 32 word \<Rightarrow> string list \<Rightarrow> string \<Rightarrow> string \<Rightarrow> bool" where
  "encoder_input m base ws tree t \<longleftrightarrow>
     codes_laid m base ws 56 \<and> str_at m base (tree_off ws) tree \<and> str_at m base (text_off ws tree) t"

lemma encoder_input_frame:
  assumes "encoder_input m base ws tree t" "code_strings ws" "length tree \<le> 255" "length t < 67000000"
    and "\<And>n. n < 67108864 \<Longrightarrow> view m' base n = view m base n"
  shows "encoder_input m' base ws tree t"
proof -
  note b = tree_off_bounds [OF assms(2)]
  have "codes_laid m' base ws 56"
    using assms(1) b by (intro codes_laid_frame [of m base ws 56 m'] assms(5)) (auto simp: encoder_input_def)
  moreover have "str_at m' base (tree_off ws) tree"
    using assms(1,3) b by (intro str_at_cong [of _ _ m' base m] assms(5)) (auto simp: encoder_input_def)
  moreover have "str_at m' base (text_off ws tree) t"
    using assms(1,3,4) b
    by (intro str_at_cong [of _ _ m' base m] assms(5)) (auto simp: encoder_input_def text_off_def)
  ultimately show ?thesis by (simp add: encoder_input_def)
qed

lemma layout_written:
  assumes ws: "code_strings ws" and a: "encoder_memory addrs = base"
    and t: "NUL \<notin> set tree" "length tree \<le> 255" "NUL \<notin> set t" "length t < 67000000"
  obtains b1 b2 b3 where
    "write_codes_to_mem addrs (map Some ws) b = Inr (addrs\<lparr>codes := base\<rparr>, b1)"
    "write_tree_to_mem (addrs\<lparr>codes := base\<rparr>) (tree @ NUL # rest) b1 =
      Inr (addrs\<lparr>codes := base, tree_str := base + of_nat (tree_off ws)\<rparr>, b2)"
    "write_text_to_mem (addrs\<lparr>codes := base, tree_str := base + of_nat (tree_off ws)\<rparr>) (t @ NUL # rest') b2 =
      Inr (addrs\<lparr>codes := base, tree_str := base + of_nat (tree_off ws),
        text_src := base + of_nat (text_off ws tree), dst_addr := base + of_nat (dst_off ws tree t)\<rparr>, b3)"
    "encoder_input (ram b3) base ws tree t"
proof -
  obtain b1 where b1: "write_codes_to_mem addrs (map Some ws) b = Inr (addrs\<lparr>codes := base\<rparr>, b1)"
    "codes_laid (ram b1) base ws 56" using write_codes_ok [OF ws a] by blast
  obtain b2 where b2: "write_tree_to_mem (addrs\<lparr>codes := base\<rparr>) (tree @ NUL # rest) b1 =
      Inr (addrs\<lparr>codes := base, tree_str := base + of_nat (tree_off ws)\<rparr>, b2)"
    "codes_laid (ram b2) base ws 56" "str_at (ram b2) base (tree_off ws) tree"
    using write_tree_ok [OF ws b1(2), of "addrs\<lparr>codes := base\<rparr>" tree rest] a t by auto
  obtain b3 where b3: "write_text_to_mem (addrs\<lparr>codes := base, tree_str := base + of_nat (tree_off ws)\<rparr>)
      (t @ NUL # rest') b2 =
      Inr (addrs\<lparr>codes := base, tree_str := base + of_nat (tree_off ws),
        text_src := base + of_nat (text_off ws tree), dst_addr := base + of_nat (dst_off ws tree t)\<rparr>, b3)"
    "codes_laid (ram b3) base ws 56" "str_at (ram b3) base (tree_off ws) tree"
    "str_at (ram b3) base (text_off ws tree) t"
    using write_text_ok [OF ws b2(2,3) _ t(1-4),
        of "addrs\<lparr>codes := base, tree_str := base + of_nat (tree_off ws)\<rparr>" rest'] a by auto
  show ?thesis using that [OF b1(1) b2(1) b3(1)] b3(2-4) by (simp add: encoder_input_def)
qed

section \<open>The text handler\<close>

abbreviation coded :: "(char \<Rightarrow> string) \<Rightarrow> string \<Rightarrow> string" where
  "coded f s \<equiv> concat (map f s)"

text \<open>The bytes that the encoder writes for the bits \<open>w\<close>: eight more zeros are always added.\<close>

definition hw_encoded :: "string \<Rightarrow> 8 word list" where
  "hw_encoded w = pack (w @ replicate 8 (CHR ''0''))"

lemma pack_zeros:
  assumes "length w < 8"
  shows "pack (w @ replicate 8 (CHR ''0'')) =
    [of_nat (bits_val (w @ replicate (8 - length w) (CHR ''0'')))]"
proof -
  have l: "length (w @ replicate (8 - length w) (CHR ''0'')) = 8" using assms by simp
  have "w @ replicate 8 (CHR ''0'') = (w @ replicate (8 - length w) (CHR ''0'')) @ replicate (length w) (CHR ''0'')"
    using assms by (simp flip: replicate_add)
  then show ?thesis using pack_leftover_step(1) [OF l] assms by (simp add: pack_short)
qed

lemma hw_encoded: "hw_encoded w = (if leftover w = [] then encoded w @ [0] else encoded w)"
  using pack_append [of w "replicate 8 (CHR ''0'')"] pack_zeros [OF leftover_less, of w]
    bits_val_pad [of "CHR ''0''" "[]" 8]
  by (simp add: hw_encoded_def encoded_def)

lemma leftover_dvd: "leftover w = [] \<longleftrightarrow> 8 dvd length w"
proof
  assume "8 dvd length w"
  then have "8 dvd length (leftover w)" using length_pack [of w] by (metis dvd_add_right_iff dvd_triv_left)
  then show "leftover w = []" using leftover_less [of w] by (auto elim!: dvdE)
next
  assume "leftover w = []"
  then show "8 dvd length w" using length_pack [of w] by (metis add_0_right dvd_triv_left list.size(3))
qed

lemma length_coded: "\<forall>x \<in> set s. length (f x) \<le> 55 \<Longrightarrow> length (coded f s) \<le> 55 * length s"
  by (induction s) auto

lemma letter_pointer:
  assumes "j < 56"
  shows "0 + ucast (of_nat j :: 6 word) * 4 = (of_nat (4 * j) :: 32 word)"
proof -
  have "unat (of_nat j :: 6 word) = j" using assms by (simp add: unat_of_nat)
  then have "ucast (of_nat j :: 6 word) = (of_nat j :: 32 word)" by (metis of_nat_unat)
  then show ?thesis by (simp add: mult.commute)
qed

lemma read_letter_code:
  assumes "codes_laid m base (map f letters) 56" "code_strings (map f letters)"
    and "\<forall>x \<in> set letters. set (f x) \<subseteq> set ''01''" "x \<in> set letters"
  shows "code_reader base (0 + ucast (letter_indexer (char_byte x)) * 4) m =
    Some (of_nat (length (f x)), bools (f x) @ replicate (64 - length (f x)) False)"
    "length (f x) \<le> 55"
proof -
  obtain j where j: "j < 56" "x = letters ! j"
    using assms(4) letters_alphabet(1) by (metis in_set_conv_nth)
  then have w: "map f letters ! j = f x" using letters_alphabet(1) by simp
  have b: "\<forall>w \<in> set (map f letters). set w \<subseteq> set ''01''" using assms(3) by simp
  show "code_reader base (0 + ucast (letter_indexer (char_byte x)) * 4) m =
      Some (of_nat (length (f x)), bools (f x) @ replicate (64 - length (f x)) False)"
    using code_reader_ok [OF assms(1,2) b j(1)] letter_indexer_ok [OF j(1)] w
    by (simp only: letter_pointer [OF j(1)] j(2) [symmetric])
  show "length (f x) \<le> 55" using code_strings_nth [OF assms(2) j(1)] w by simp
qed

lemma encode_text_ok:
  assumes inp: "encoder_input m base (map f letters) tree s" "code_strings (map f letters)"
    and bits: "\<forall>x \<in> set letters. set (f x) \<subseteq> set ''01''" and s: "set s \<subseteq> set letters"
    and e: "text_off (map f letters) tree + length s < e" "e + 55 * length s + 64 < 2 ^ 32"
  shows "i \<le> length s \<Longrightarrow>
    cw_holds cw (leftover (coded f (take i s))) e (length (pack (coded f (take i s)))) \<Longrightarrow>
    \<exists>cw'. encode_text base 0 (of_nat (text_off (map f letters) tree)) (of_nat i) cw
        (put base e (pack (coded f (take i s))) m) =
      Some (of_nat (length s), cw', put base e (pack (coded f s)) m) \<and>
    cw_holds cw' (leftover (coded f s)) e (length (pack (coded f s)))"
proof (induction "length s - i" arbitrary: i cw)
  case 0
  let ?m = "put base e (pack (coded f (take i s))) m"
  have "str_at ?m base (text_off (map f letters) tree) s"
    using inp(1) e by (intro str_at_put) (simp_all add: encoder_input_def)
  then have "mstr_read base (of_nat (text_off (map f letters) tree) + of_nat i) ?m = 0"
    using 0 mstr_read_view [of base "text_off (map f letters) tree + i" ?m] by (simp add: str_at_def)
  then show ?case using 0 by (subst encode_text.simps) simp
next
  case (Suc j)
  let ?t = "text_off (map f letters) tree" and ?w = "coded f (take i s)"
  let ?m = "put base e (pack ?w) m"
  have i: "i < length s" using Suc.hyps(2) by simp
  have "str_at ?m base ?t s" using inp(1) e by (intro str_at_put) (simp_all add: encoder_input_def)
  then have r: "mstr_read base (of_nat ?t + of_nat i) ?m = char_byte (s ! i)"
    using i mstr_read_view [of base "?t + i" ?m] by (simp add: str_at_def)
  have x: "s ! i \<in> set letters" using s nth_mem [OF i] by blast
  then have nz: "char_byte (s ! i) \<noteq> 0" using NUL_not_letter by (metis char_byte_0_iff)
  have "code_off (map f letters) 56 \<le> e"
    using tree_off_bounds [OF inp(2)] e(1) by (simp add: text_off_def)
  then have laid: "codes_laid ?m base (map f letters) 56"
    using inp(1) e(2) by (intro codes_laid_put) (simp_all add: encoder_input_def)
  note rd = read_letter_code [OF laid inp(2) bits x]
  have "\<forall>x \<in> set (take i s). length (f x) \<le> 55"
    using read_letter_code(2) [OF laid inp(2) bits] s set_take_subset [of i s] by blast
  then have "length ?w \<le> 55 * i" using length_coded [of "take i s" f] i by simp
  then have "length (pack ?w) \<le> 55 * length s" using length_pack [of ?w] i by linarith
  then have room: "e + length (pack ?w) + length (leftover ?w) + length (f (s ! i)) < 2 ^ 32"
    using e(2) rd(2) leftover_less [of ?w] by linarith
  have w: "coded f (take (Suc i) s) = ?w @ f (s ! i)" using i by (simp add: take_Suc_conv_app_nth)
  note pa = pack_append [of ?w "f (s ! i)"]
  have c: "bools (f (s ! i)) = take (length (f (s ! i))) (bools (f (s ! i)) @ replicate (64 - length (f (s ! i))) False)"
    "length (bools (f (s ! i)) @ replicate (64 - length (f (s ! i))) False) = 64" using rd(2) by simp_all
  obtain cw1 where cw1: "code_writer base (bools (f (s ! i)) @ replicate (64 - length (f (s ! i))) False)
      (of_nat (length (f (s ! i)))) cw ?m = Some (cw1, put base e (pack (coded f (take (Suc i) s))) m)"
    "cw_holds cw1 (leftover (coded f (take (Suc i) s))) e (length (pack (coded f (take (Suc i) s))))"
    using code_writer_ok [OF Suc.prems(2) leftover_less rd(2) c refl room, of base ?m] pa
    by (auto simp: w put_put)
  have a: "of_nat i + 1 = (of_nat (Suc i) :: 32 word)" by simp
  have "j = length s - Suc i" "Suc i \<le> length s" using Suc.hyps(2) i by simp_all
  from Suc.hyps(1) [OF this cw1(2)]
  obtain cw' where "encode_text base 0 (of_nat ?t) (of_nat (Suc i)) cw1 (put base e (pack (coded f (take (Suc i) s))) m) =
      Some (of_nat (length s), cw', put base e (pack (coded f s)) m)"
    "cw_holds cw' (leftover (coded f s)) e (length (pack (coded f s)))"
    by blast
  then show ?case
    by (subst encode_text.simps) (simp only: r nz rd(1) cw1(1) a Let_def if_False option.case prod.case, blast)
qed

lemma text_handler_ok:
  assumes inp: "encoder_input m base (map f letters) tree s" "code_strings (map f letters)"
    and bits: "\<forall>x \<in> set letters. set (f x) \<subseteq> set ''01''" and s: "set s \<subseteq> set letters"
    and d: "text_off (map f letters) tree + length s < d" "d + 12 + h + 55 * length s + 64 < 2 ^ 32"
  shows "text_handler base 0 (of_nat (text_off (map f letters) tree)) (of_nat d) (of_nat h) m =
    Some (of_nat (length (hw_encoded (coded f s))),
      put base (d + 8) (le32 (of_nat (length s))) (put base (d + 12 + h) (hw_encoded (coded f s)) m))"
proof -
  let ?e = "d + 12 + h" and ?w = "coded f s" and ?zero = "replicate 8 (CHR ''0'')"
  have init: "cw_init (of_nat d + 12 + of_nat h) = cw_init (of_nat ?e)" by simp
  have e: "text_off (map f letters) tree + length s < ?e" using d(1) by simp
  have c0: "cw_holds (cw_init (of_nat ?e)) (leftover (coded f (take 0 s))) ?e (length (pack (coded f (take 0 s))))"
    using cw_holds_init [of ?e] by (simp add: pack_short)
  obtain cw where cw: "encode_text base 0 (of_nat (text_off (map f letters) tree)) 0 (cw_init (of_nat ?e)) m =
      Some (of_nat (length s), cw, put base ?e (pack ?w) m)"
    "cw_holds cw (leftover ?w) ?e (length (pack ?w))"
    using encode_text_ok [OF inp bits s e d(2) _ c0] by (auto simp: pack_short)
  have "codes_laid m base (map f letters) 56" using inp(1) by (simp add: encoder_input_def)
  then have "\<forall>x \<in> set s. length (f x) \<le> 55" using read_letter_code(2) [OF _ inp(2) bits] s by blast
  then have "length (pack ?w) \<le> 55 * length s" using length_coded [of s f] length_pack [of ?w] by linarith
  then have room: "?e + length (pack ?w) + length (leftover ?w) + length ?zero < 2 ^ 32"
    using d(2) leftover_less [of ?w] by simp
  have z: "length ?zero \<le> 55" "bools ?zero = take (length ?zero) (replicate 64 False)"
    "length (replicate 64 False) = 64" "8 = of_nat (length ?zero)" by (simp_all add: eval_nat_numeral)
  obtain cw' where "code_writer base (replicate 64 False) 8 cw (put base ?e (pack ?w) m) =
      Some (cw', put base ?e (hw_encoded ?w) m)"
    "cw_holds cw' (leftover (leftover ?w @ ?zero)) ?e (length (hw_encoded ?w))"
    using code_writer_ok [OF cw(2) leftover_less z room, of base "put base ?e (pack ?w) m"]
      pack_append [of ?w ?zero] by (auto simp: hw_encoded_def put_put)
  moreover have "of_nat d + 8 = (of_nat (d + 8) :: 32 word)" by simp
  moreover have "d + 8 + 3 < 2 ^ 32" using d(2) by simp
  ultimately show ?thesis
    using cw(1) mstr_write4_put [of "d + 8" base "of_nat (length s)"]
    unfolding text_handler_def init by (simp add: cw_holds_def del: of_nat_add)
qed

section \<open>The encoder\<close>

lemma put_file:
  "length h = 4 \<Longrightarrow> length l = 4 \<Longrightarrow> length n = 4 \<Longrightarrow>
   put base d h (put base (d + 8) n (put base (d + 12 + length t) c
     (put base (d + 4) l (put base (d + 12) t m)))) = put base d (h @ l @ n @ t @ c) m"
proof -
  assume l: "length h = 4" "length l = 4" "length n = 4"
  have "put base (d + 12 + length t) c (put base (d + 4) l (put base (d + 12) t m)) =
      put base (d + 4) l (put base (d + 12) (t @ c) m)"
    using put_comm [of "d + 4" l "d + 12 + length t" base c "put base (d + 12) t m"] put_put [of base "d + 12" t c m] l
    by simp
  moreover have "put base (d + 8) n (put base (d + 4) l M) = put base (d + 4) (l @ n) M" for M
    using put_put [of base "d + 4" l n M] l by (simp add: add.commute)
  moreover have "put base (d + 4) (l @ n) (put base (d + 12) (t @ c) m) = put base (d + 4) (l @ n @ t @ c) m"
    using put_put' [of base "d + 4" "l @ n" "t @ c" m] l by (simp add: add.commute)
  moreover have "put base d h (put base (d + 4) (l @ n @ t @ c) m) = put base d (h @ l @ n @ t @ c) m"
    using put_put' [of base d h "l @ n @ t @ c" m] l by simp
  ultimately show ?thesis by simp
qed

text \<open>The bytes that the encoder leaves for the tree string \<open>tree\<close>, the text \<open>s\<close> and its bits \<open>w\<close>.\<close>

definition hw_bytes :: "string \<Rightarrow> string \<Rightarrow> string \<Rightarrow> 8 word list" where
  "hw_bytes tree s w =
     le32 (of_nat (12 + length tree + length (hw_encoded w))) @ le32 (of_nat (length tree)) @
     le32 (of_nat (length s)) @ map char_byte tree @ hw_encoded w"

lemma encoder_run_ok:
  assumes inp: "encoder_input m base (map f letters) tree s" "code_strings (map f letters)"
    and bits: "\<forall>x \<in> set letters. set (f x) \<subseteq> set ''01''" and s: "set s \<subseteq> set letters" "length s < 67000000"
    and t: "NUL \<notin> set tree" "length tree \<le> 255"
  shows "encoder_run base 0 (of_nat (tree_off (map f letters))) (of_nat (text_off (map f letters) tree))
      (of_nat (dst_off (map f letters) tree s)) m =
    Some (put base (dst_off (map f letters) tree s) (hw_bytes tree s (coded f s)) m)"
proof -
  let ?ws = "map f letters" and ?d = "dst_off (map f letters) tree s" and ?n = "length tree"
  note tb = tree_off_bounds [OF inp(2)]
  have d: "tree_off ?ws + ?n < ?d" "text_off ?ws tree + length s < ?d" "?d \<le> 67003662"
    using tb s(2) t(2) by (simp_all add: dst_off_def text_off_def)
  have tr: "str_at m base (tree_off ?ws) tree" using inp(1) by (simp add: encoder_input_def)
  have "?d + 12 + ?n < 2 ^ 32" using d(3) t(2) by simp
  note th = tree_handler_ok [OF tr t(1) d(1) this]
  let ?m = "put base (?d + 4) (le32 (of_nat ?n)) (put base (?d + 12) (map char_byte tree) m)"
  have "encoder_input ?m base ?ws tree s"
    using inp(1) tb d t(2) unfolding encoder_input_def
    by (intro conjI codes_laid_put str_at_put) (simp_all add: text_off_def)
  note tx = text_handler_ok [OF this inp(2) bits s(1) d(2), of ?n]
  have fits: "?d + 12 + ?n + 55 * length s + 64 < 2 ^ 32" using d(3) t(2) s(2) by simp
  have sz: "12 + of_nat ?n + of_nat (length (hw_encoded (coded f s))) =
      (of_nat (12 + ?n + length (hw_encoded (coded f s))) :: 32 word)" by simp
  have "?d + 3 < 2 ^ 32" using d(3) by simp
  then show ?thesis
    unfolding encoder_run_def th option.case prod.case tx [OF fits] sz
    using put_file [of "le32 (of_nat (12 + ?n + length (hw_encoded (coded f s))))" "le32 (of_nat ?n)"
        "le32 (of_nat (length s))" base ?d "map char_byte tree" "hw_encoded (coded f s)" m]
    by (simp add: mstr_write4_put hw_bytes_def del: of_nat_add)
qed

section \<open>Waiting for the encoder\<close>

lemma read_write_other:
  assumes "k + 3 < 2 ^ 32" "j + 3 < 2 ^ 32" "k + 3 < j \<or> j + 3 < k"
  shows "alt_read_word (alt_write_word m (base + of_nat k) v) (base + of_nat j) = alt_read_word m (base + of_nat j)"
  unfolding alt_read_word_at by (rule word_at_cong) (use assms in \<open>intro view_write_word; auto\<close>)

text \<open>The registers when the encoder has been started.\<close>

definition encoder_regs :: "memory \<Rightarrow> 32 word \<Rightarrow> 32 word \<Rightarrow> 32 word \<Rightarrow> 32 word \<Rightarrow> bool" where
  "encoder_regs m enc tree_addr text_addr dst \<longleftrightarrow>
     alt_read_word m enc = 0 \<and> alt_read_word m (enc + 4) = tree_addr \<and> alt_read_word m (enc + 8) = text_addr \<and>
     alt_read_word m (enc + 12) = dst \<and> alt_read_word m (enc + 16) = 2"

lemma encoder_regs_status:
  "encoder_regs m enc tr tx d \<Longrightarrow> encoder_regs (alt_write_word m (enc + 20) v) enc tr tx d"
  using read_write_other [of 20 0 m enc v] read_write_other [of 20 4 m enc v] read_write_other [of 20 8 m enc v]
    read_write_other [of 20 12 m enc v] read_write_other [of 20 16 m enc v]
  by (simp add: encoder_regs_def)

lemma encoder_regs_started:
  "encoder_regs (alt_write_word (alt_write_word (alt_write_word (alt_write_word (alt_write_word (alt_write_word m
     enc 0) (enc + 4) tr) (enc + 8) tx) (enc + 12) d) (enc + 16) x) (enc + 16) 2) enc tr tx d"
  using read_write_other [of _ 0 _ enc] read_write_other [of _ 4 _ enc] read_write_other [of _ 8 _ enc]
    read_write_other [of _ 12 _ enc]
  by (simp add: encoder_regs_def read_write_other [of 4 0 _ enc, simplified] read_write_other [of 8 0 _ enc, simplified]
      read_write_other [of 12 0 _ enc, simplified] read_write_other [of 16 0 _ enc, simplified]
      read_write_other [of 8 4 _ enc, simplified] read_write_other [of 12 4 _ enc, simplified]
      read_write_other [of 16 4 _ enc, simplified] read_write_other [of 12 8 _ enc, simplified]
      read_write_other [of 16 8 _ enc, simplified] read_write_other [of 16 12 _ enc, simplified])

lemma view_register:
  assumes "n < 67108864" "c \<le> 20"
  shows "view (alt_write_word m (base + 0x4000000 + of_nat c) v) base n = view m base n"
  using view_write_word [of "67108864 + c" n m base v] assms by (simp add: add.assoc)

text \<open>The busy wait ends when the encoder is done, and then its bytes stand in the memory.\<close>

lemma wait_for_encoder_ok:
  assumes ws: "code_strings (map f letters)" "\<forall>x \<in> set letters. set (f x) \<subseteq> set ''01''"
    and s: "set s \<subseteq> set letters" "length s < 67000000" and t: "NUL \<notin> set tree" "length tree \<le> 255"
    and enc: "encoder addrs = base + 0x4000000"
    and out: "dst_off (map f letters) tree s + length (hw_bytes tree s (coded f s)) \<le> 67108864"
  shows "k \<le> latency \<Longrightarrow> encoder_input (ram b) base (map f letters) tree s \<Longrightarrow>
    encoder_regs (ram b) (encoder addrs) (of_nat (tree_off (map f letters)))
      (of_nat (text_off (map f letters) tree)) (of_nat (dst_off (map f letters) tree s)) \<Longrightarrow>
    \<exists>b'. wait_for_encoder addrs (encoder_device (encoder addrs) base latency) k b = Some b' \<and> io b' = io b \<and>
      (\<forall>i < length (hw_bytes tree s (coded f s)).
        ram b' (base + of_nat (dst_off (map f letters) tree s) + of_nat i) = hw_bytes tree s (coded f s) ! i)"
proof (induction "latency - k" arbitrary: k b)
  case 0
  let ?d = "dst_off (map f letters) tree s" and ?out = "hw_bytes tree s (coded f s)"
  let ?m = "alt_write_word (alt_write_word (put base ?d ?out (ram b)) (encoder addrs + 16) 0) (encoder addrs + 20) 1"
  have "bit (2 :: 32 word) 1" by simp
  then have "encoder_device (encoder addrs) base latency k (ram b) = ?m"
    using 0 encoder_run_ok [OF 0(3) ws s t] by (simp add: encoder_device_def encoder_regs_def)
  then have "wait_for_encoder addrs (encoder_device (encoder addrs) base latency) k b = Some (b\<lparr>ram := ?m\<rparr>)"
    by (subst wait_for_encoder.simps) simp
  moreover have "?m (base + of_nat ?d + of_nat i) = ?out ! i" if i: "i < length ?out" for i
  proof -
    have n: "?d + i < 67108864" using i out by simp
    have "view ?m base (?d + i) = ?out ! i"
      using view_register [OF n, of 20] view_register [OF n, of 16] n i enc by (simp add: view_put)
    then show ?thesis by (simp add: view_def add.assoc)
  qed
  ultimately show ?case by simp
next
  case (Suc j)
  let ?m = "alt_write_word (ram b) (encoder addrs + 20) 0"
  have "k < latency" using Suc.hyps(2) by simp
  then have d: "encoder_device (encoder addrs) base latency k (ram b) = ?m"
    using Suc.prems(3) by (simp add: encoder_device_def encoder_regs_def)
  have "view ?m base n = view (ram b) base n" if "n < 67108864" for n
    using view_register [OF that, of 20] enc by simp
  then have "encoder_input (ram (b\<lparr>ram := ?m\<rparr>)) base (map f letters) tree s"
    using encoder_input_frame [OF Suc.prems(2) ws(1) t(2) s(2), of ?m] by simp
  moreover have "encoder_regs (ram (b\<lparr>ram := ?m\<rparr>)) (encoder addrs) (of_nat (tree_off (map f letters)))
      (of_nat (text_off (map f letters) tree)) (of_nat (dst_off (map f letters) tree s))"
    using encoder_regs_status [OF Suc.prems(3)] by simp
  moreover have "j = latency - (k + 1)" "k + 1 \<le> latency" using Suc.hyps(2) by simp_all
  ultimately obtain b' where
    "wait_for_encoder addrs (encoder_device (encoder addrs) base latency) (k + 1) (b\<lparr>ram := ?m\<rparr>) = Some b'"
    "io b' = io (b\<lparr>ram := ?m\<rparr>)" "\<forall>i < length (hw_bytes tree s (coded f s)).
        ram b' (base + of_nat (dst_off (map f letters) tree s) + of_nat i) = hw_bytes tree s (coded f s) ! i"
    using Suc.hyps(1) by blast
  then show ?case by (subst wait_for_encoder.simps) (simp add: d)
qed

end
