(* ===== verification/HandlersProofs.thy ===== *)
theory HandlersProofs
  imports Handlers HttpProofs EncoderProofs
begin

text \<open>
  Correctness of the handlers: the buffer that \<open>compress\<close> fills holds the file that
  \<open>compress.c\<close> writes, \<open>hw_compress\<close> hands the encoder the text and returns what it left, and
  the answers of \<open>handler\<close>.
\<close>

section \<open>The buffer as a sink of bytes\<close>

context byte_sink
begin

lemma encode_loop_run:
  assumes t: "letter_tree t"
  shows "set s \<subseteq> set letters \<Longrightarrow> length pre + length s \<le> N \<Longrightarrow> int N \<le> int_max \<Longrightarrow>
    enc_inv st (leftover B) (pack B) \<Longrightarrow>
    \<forall>n < length (pack (B @ text_bits t s)). fits n \<Longrightarrow>
    int (length (pack (B @ text_bits t s))) \<le> int_max \<Longrightarrow>
    \<exists>st'. encode_loop emit (pre @ s @ rest) (of_nat N) (code_table t) st (int (length pre)) =
        encode_loop emit (pre @ s @ rest) (of_nat N) (code_table t) st' (int (length pre + length s)) \<and>
      enc_inv st' (leftover (B @ text_bits t s)) (pack (B @ text_bits t s))"
proof (induction s arbitrary: pre st B)
  case (Cons x s)
  have x: "x \<in> set letters" and s: "set s \<subseteq> set letters" using Cons.prems(1) by auto
  have B: "B @ text_bits t (x # s) = (B @ code_of t x) @ text_bits t s" by simp
  have le: "length (pack (B @ code_of t x)) \<le> length (pack ((B @ code_of t x) @ text_bits t s))"
    by (rule length_pack_mono)
  have fits1: "\<forall>n < length (pack (B @ code_of t x)). fits n"
    using Cons.prems(5) le unfolding B by (meson less_le_trans)
  have len1: "int (length (pack (B @ code_of t x))) \<le> int_max"
    using Cons.prems(6) le unfolding B by linarith
  obtain st1 where st1: "bindE (append_code (code_table t) (int (index_of letters x)) st) (drain_loop emit) = Inr st1"
    "enc_inv st1 (leftover (B @ code_of t x)) (pack (B @ code_of t x))"
    using encode_letter [OF t x Cons.prems(4) fits1 len1] by blast
  obtain st2 where st2: "append_code (code_table t) (int (index_of letters x)) st = Inr st2"
    "drain_loop emit st2 = Inr st1"
    using st1(1) by auto
  have a: "add_int (int (length pre)) 1 = Inr (int (length (pre @ [x])))"
    using Cons.prems(2,3) by (subst add_int_ok) auto
  have lt: "less_unsigned (int (length pre)) (of_nat N)"
    using Cons.prems(2,3) by (subst less_unsigned_nat) auto
  have step: "encode_loop emit (pre @ (x # s) @ rest) (of_nat N) (code_table t) st (int (length pre)) =
      encode_loop emit ((pre @ [x]) @ s @ rest) (of_nat N) (code_table t) st1 (int (length (pre @ [x])))"
    using lt st2 a by (subst encode_loop.simps) (simp add: rd_append find_letter_0)
  have n: "length (pre @ [x]) + length s \<le> N" using Cons.prems(2) by simp
  obtain st3 where "encode_loop emit ((pre @ [x]) @ s @ rest) (of_nat N) (code_table t) st1
      (int (length (pre @ [x]))) =
      encode_loop emit ((pre @ [x]) @ s @ rest) (of_nat N) (code_table t) st3
        (int (length (pre @ [x]) + length s))"
    "enc_inv st3 (leftover ((B @ code_of t x) @ text_bits t s)) (pack ((B @ code_of t x) @ text_bits t s))"
    using Cons.IH [OF s n Cons.prems(3) st1(2)] Cons.prems(5,6) unfolding B by blast
  then show ?case
    using step by (intro exI [of _ st3]) simp
qed (auto intro!: exI)

end

interpretation mem: byte_sink "store_byte (int (length hdr) - 12)"
  "\<lambda>out bs. out = hdr @ bs @ replicate (encoded_size - length hdr - length bs) 0"
  "\<lambda>n. length hdr + n < encoded_size" for hdr
proof
  fix st :: enc_state and bs :: "8 word list" and b
  assume out: "output_bytes st = hdr @ bs @ replicate (encoded_size - length hdr - length bs) 0"
    and w: "written st = int (length bs)" and room: "length hdr + length bs < encoded_size"
  obtain k where k: "encoded_size - length hdr - length bs = Suc k"
    using room by (metis Suc_diff_Suc diff_diff_left)
  have k': "encoded_size - length hdr - length (bs @ [b]) = k" using k by simp
  have "blit (output_bytes st) (int (length (hdr @ bs))) [b] = Inr (hdr @ (bs @ [b]) @ replicate k 0)"
    unfolding out k using blit_int [of "length (hdr @ bs)" "[b]" "hdr @ bs @ replicate (Suc k) 0"] by simp
  then have "store_byte (int (length hdr) - 12) b st =
      Inr (st\<lparr>output_bytes := hdr @ (bs @ [b]) @ replicate k 0\<rparr>)"
    by (simp add: store_byte_def w algebra_simps)
  then show "\<exists>out. store_byte (int (length hdr) - 12) b st = Inr (st\<lparr>output_bytes := out\<rparr>) \<and>
      out = hdr @ (bs @ [b]) @ replicate (encoded_size - length hdr - length (bs @ [b])) 0"
    using k' by blast
qed

section \<open>\<open>compress\<close>\<close>

lemma blit_fill:
  "i = int (length front) \<Longrightarrow> n = length src + k \<Longrightarrow>
     blit (front @ replicate n z) i src = Inr (front @ src @ replicate k z)"
  using blit_int [of "length front" src "front @ replicate n z"] by (simp add: replicate_add)

lemma le32_0: "le32 0 = replicate 4 0"
  by (simp add: le32_def eval_nat_numeral)

lemma encoded_length_pack:
  "length (encoded w) = length (pack w) + (if leftover w = [] then 0 else 1)"
proof (cases "leftover w = []")
  case True
  then show ?thesis using encoded_pack [of w] by (simp add: encoded_def pack_short)
next
  case False
  then have "length (encoded (leftover w)) = 1"
    using leftover_less [of w] by (simp add: encoded_def pack_short)
  then show ?thesis using False encoded_pack [of w] by simp
qed

lemma encode_all:
  assumes t: "letter_tree t" and s: "set s \<subseteq> set letters" "7 * int (length s) \<le> int_max"
    and room: "length hdr + length (encoded (text_bits t s)) < encoded_size"
    and inv: "mem.enc_inv hdr st [] []"
  shows "\<exists>st' st''. encode_loop (store_byte (int (length hdr) - 12)) (s @ rest) (of_nat (length s))
      (code_table t) st 0 = Inr st' \<and>
    pad_byte (store_byte (int (length hdr) - 12)) st' = Inr st'' \<and>
    written st'' = int (length (encoded (text_bits t s))) \<and>
    output_bytes st'' = hdr @ encoded (text_bits t s) @
      replicate (encoded_size - length hdr - length (encoded (text_bits t s))) 0"
proof -
  let ?w = "text_bits t s"
  have b: "int (length (pack ?w)) < int_max" by (rule pack_text_bound [OF t s])
  have n: "int (length s) \<le> int_max" using s(2) by simp
  have le: "length (pack ?w) \<le> length (encoded ?w)" by (simp add: encoded_length_pack)
  have fits: "\<forall>n < length (pack ([] @ ?w)). length hdr + n < encoded_size"
    and fit: "length hdr + length (pack ?w) < encoded_size"
    using room le by auto
  have inv0: "mem.enc_inv hdr st (leftover []) (pack [])" using inv by (simp add: pack_short)
  obtain st' where st': "encode_loop (store_byte (int (length hdr) - 12)) (s @ rest) (of_nat (length s))
      (code_table t) st 0 =
      encode_loop (store_byte (int (length hdr) - 12)) (s @ rest) (of_nat (length s)) (code_table t) st'
        (int (length s))"
    "mem.enc_inv hdr st' (leftover ?w) (pack ?w)"
    using mem.encode_loop_run [OF t s(1), of "[]" "length s" hdr st "[]" rest] inv0 b n fits by auto
  have stop: "encode_loop (store_byte (int (length hdr) - 12)) (s @ rest) (of_nat (length s)) (code_table t) st'
      (int (length s)) = Inr st'"
    using n by (subst encode_loop.simps) (simp add: less_unsigned_nat)
  obtain st'' where "pad_byte (store_byte (int (length hdr) - 12)) st' = Inr st''"
    "written st'' = int (length (pack ?w @ encoded (leftover ?w)))"
    "output_bytes st'' = hdr @ (pack ?w @ encoded (leftover ?w)) @
      replicate (encoded_size - length hdr - length (pack ?w @ encoded (leftover ?w))) 0"
    using mem.pad_byte_ok [OF st'(2) leftover_less fit b] by blast
  then show ?thesis using st'(1) stop unfolding encoded_pack [of ?w] by auto
qed

lemma length_file_of:
  "set s \<subseteq> set letters \<Longrightarrow> int (length s) \<le> int_max \<Longrightarrow>
     length (file_of s) = 179 + length (encoded (text_bits (text_tree s) s))"
  using tree_string_text_tree(1) text_tree_ok(2) [of s "replicate 56 None"]
  by (simp add: file_of_def Let_def)

text \<open>The GPIO writes of a run of \<open>compress\<close>.\<close>

definition sw_pulses :: "global_addrs \<Rightarrow> bus \<Rightarrow> bus" where
  "sw_pulses addrs b =
     clear_bit_at addrs 1 (set_bit_at addrs 1 (clear_bit_at addrs 2 (set_bit_at addrs 2 b)))"

lemma compress_result:
  assumes f: "open_home env file_name = Inr (Some s)" "heap_slack env = NUL # rest"
    and s: "set s \<subseteq> set letters" "7 * int (length s) \<le> int_max"
    and room: "length (file_of s) < encoded_size"
  shows "compress env addrs file_name b =
    Inr (Some (file_of s @ replicate (encoded_size - length (file_of s)) 0), sw_pulses addrs b)"
proof -
  have n: "int (length s) \<le> int_max" using s(2) by simp
  have nul: "NUL \<notin> set s" using s(1) NUL_not_letter by blast
  let ?t = "text_tree s" and ?bs = "encoded (text_bits (text_tree s) s)"
  have fr: "prepare_frequencies (s @ NUL # rest) letters (replicate 56 0) = Inr (counts letters s)"
    using nul s(1) n by (intro prepare_frequencies_ok) simp_all
  have hc: "HuffmanCodes letters (counts letters s) 56 (replicate 56 None) =
      Inr (tree_string ?t @ replicate 89 NUL, code_table ?t)"
    using text_tree_ok(1) [OF s(1) n] by simp
  have t: "letter_tree ?t" by (rule text_tree_ok(2) [OF s(1) n, of "replicate 56 None"]) simp
  note hs = header_string [OF t]
  have len: "length (tree_string ?t) = 167" by (rule tree_string_text_tree(1) [OF t])
  let ?hdr = "le32 0 @ le32 167 @ le32 (of_nat (length s)) @ bytes_of (tree_string ?t)"
  have lh: "length ?hdr = 179" using len by simp
  have "replicate encoded_size (0 :: 8 word) = replicate (4 + 65532) 0" by (simp add: encoded_size_def)
  then have "replicate encoded_size (0 :: 8 word) = le32 0 @ replicate 65532 0"
    by (simp only: replicate_add le32_0)
  then have b1: "blit (replicate encoded_size 0) 4 (le32 167) =
      Inr ((le32 0 @ le32 167) @ replicate 65528 0)"
    using blit_fill [of 4 "le32 0" 65532 "le32 167" 65528 0] by simp
  have b2: "blit ((le32 0 @ le32 167) @ replicate 65528 0) 8 (le32 (of_nat (length s))) =
      Inr ((le32 0 @ le32 167 @ le32 (of_nat (length s))) @ replicate 65524 0)"
    using blit_fill [of 8 "le32 0 @ le32 167" 65528 "le32 (of_nat (length s))" 65524 0] by simp
  have b3: "blit ((le32 0 @ le32 167 @ le32 (of_nat (length s))) @ replicate 65524 0) 12
      (bytes_of (tree_string ?t)) = Inr (?hdr @ replicate 65357 0)"
    using blit_fill [of 12 "le32 0 @ le32 167 @ le32 (of_nat (length s))" 65524
        "bytes_of (tree_string ?t)" 65357 0] len by simp
  let ?st = "\<lparr>working_string = replicate 64 NUL, offset = 0, str8 = replicate 9 NUL,
    output_bytes = ?hdr @ replicate 65357 0, written = 0\<rparr>"
  have inv: "mem.enc_inv ?hdr ?st [] []"
    by (rule mem.enc_inv_init) (use lh in \<open>simp add: encoded_size_def\<close>)
  have room': "length ?hdr + length ?bs < encoded_size"
    using room length_file_of [OF s(1) n] lh by simp
  obtain st' st'' where st: "encode_loop (store_byte 167) (s @ NUL # rest) (of_nat (length s)) (code_table ?t) ?st 0 =
      Inr st'"
    "pad_byte (store_byte 167) st' = Inr st''" "written st'' = int (length ?bs)"
    "output_bytes st'' = ?hdr @ ?bs @ replicate (encoded_size - 179 - length ?bs) 0"
    using encode_all [OF t s room' inv, of "NUL # rest"] lh by auto
  have last: "blit (output_bytes st'') 0 (le32 (12 + 167 + word_of_int (written st''))) =
      Inr (file_of s @ replicate (encoded_size - length (file_of s)) 0)"
    unfolding st(3,4) length_file_of [OF s(1) n]
    by (simp add: blit_le32_front file_of_def Let_def)
  show ?thesis
    unfolding compress_def f bindE.simps option.case Let_def fr hc prod.case hs(1)
    using hs(2) b1 b2 b3 st(1,2) last by (simp add: sw_pulses_def)
qed

section \<open>\<open>hw_compress\<close>\<close>

lemma read_back_from:
  "int (unat n) \<le> int_max \<Longrightarrow> i \<le> unat n \<Longrightarrow>
   read_back m dst n (int i) = Inr (map (\<lambda>k. m (dst + of_nat k)) [i..<unat n])"
proof (induction "unat n - i" arbitrary: i)
  case 0
  then have "\<not> less_unsigned (int i) n" by (simp add: less_unsigned_def word_less_nat_alt unat_of_nat)
  then show ?case using 0 by (subst read_back.simps) simp
next
  case (Suc d)
  then have i: "i < unat n" by simp
  have lt: "less_unsigned (int i) n"
    using i Suc.prems(1) by (simp add: less_unsigned_def word_less_nat_alt unat_of_nat)
  have "int i + 1 \<le> int_max" using i Suc.prems(1) by linarith
  then have a: "add_int (int i) 1 = Inr (int (Suc i))" by (subst add_int_ok) auto
  have "d = unat n - Suc i" using Suc.hyps(2) by simp
  then have "read_back m dst n (int (Suc i)) = Inr (map (\<lambda>k. m (dst + of_nat k)) [Suc i..<unat n])"
    using i by (intro Suc.hyps(1) [OF _ Suc.prems(1)]) simp_all
  then show ?case
    using lt a i by (subst read_back.simps) (simp add: upt_conv_Cons alt_read_byte_def)
qed

lemma read_back_result:
  assumes "int (length out) \<le> int_max" "\<forall>i < length out. m (dst + of_nat i) = out ! i"
  shows "read_back m dst (of_nat (length out)) 0 = Inr out"
proof -
  have n: "unat (of_nat (length out) :: 32 word) = length out" using assms(1) by (simp add: unat_of_nat)
  have "map (\<lambda>k. m (dst + of_nat k)) [0..<length out] = out"
    using assms(2) by (intro nth_equalityI) simp_all
  then show ?thesis
    using read_back_from [of "of_nat (length out)" 0 m dst] assms(1) n by simp
qed

text \<open>The writes to the encoder's registers, in order.\<close>

definition encoder_writes :: "32 word \<Rightarrow> string list \<Rightarrow> string \<Rightarrow> string \<Rightarrow> (32 word \<times> 32 word) list" where
  "encoder_writes enc ws tree t =
     [(enc, 0), (enc + 4, of_nat (tree_off ws)), (enc + 8, of_nat (text_off ws tree)),
      (enc + 12, of_nat (dst_off ws tree t)), (enc + 16, 1), (enc + 16, 2)]"

lemma encoder_started:
  assumes "encoder addrs = base + 0x4000000" "encoder_memory addrs = base" "codes addrs = base"
    "tree_str addrs = base + of_nat (tree_off ws)" "text_src addrs = base + of_nat (text_off ws tree)"
    "dst_addr addrs = base + of_nat (dst_off ws tree t)"
    and inp: "encoder_input (ram b) base ws tree t" "code_strings ws" "length tree \<le> 255" "length t < 67000000"
  shows "encoder_input (ram (start_encoder addrs (reset_encoder addrs (write_addrs_to_encoder addrs b))))
      base ws tree t"
    "io (start_encoder addrs (reset_encoder addrs (write_addrs_to_encoder addrs b))) =
      io b @ encoder_writes (encoder addrs) ws tree t"
    "encoder_regs (ram (start_encoder addrs (reset_encoder addrs (write_addrs_to_encoder addrs b)))) (encoder addrs)
      (of_nat (tree_off ws)) (of_nat (text_off ws tree)) (of_nat (dst_off ws tree t))"
proof -
  have w: "view (alt_write_word m (encoder addrs + of_nat c) v) base n = view m base n"
    if "n < 67108864" "c \<le> 16" for n c m v
    using view_write_word [of "67108864 + c" n m base v] that assms(1) by (simp add: add.assoc)
  note ws = w [of _ 0, simplified] w [of _ 4, simplified] w [of _ 8, simplified] w [of _ 12, simplified]
    w [of _ 16, simplified]
  show "encoder_input (ram (start_encoder addrs (reset_encoder addrs (write_addrs_to_encoder addrs b))))
      base ws tree t"
    by (rule encoder_input_frame [OF inp])
      (simp only: start_encoder_def reset_encoder_def write_addrs_to_encoder_def write_word_sel ws)
  show "io (start_encoder addrs (reset_encoder addrs (write_addrs_to_encoder addrs b))) =
      io b @ encoder_writes (encoder addrs) ws tree t"
    using assms(1-6)
    by (simp add: start_encoder_def reset_encoder_def write_addrs_to_encoder_def encoder_writes_def)
  show "encoder_regs (ram (start_encoder addrs (reset_encoder addrs (write_addrs_to_encoder addrs b)))) (encoder addrs)
      (of_nat (tree_off ws)) (of_nat (text_off ws tree)) (of_nat (dst_off ws tree t))"
    using assms(2-6) encoder_regs_started [of "ram b" "encoder addrs"]
    by (simp add: start_encoder_def reset_encoder_def write_addrs_to_encoder_def)
qed

text \<open>The code table as a list of strings.\<close>

definition code_list :: "string \<Rightarrow> string list" where
  "code_list s = map (code_of (text_tree s)) letters"

lemma code_list:
  assumes "letter_tree (text_tree s)"
  shows "code_table (text_tree s) = map Some (code_list s)" "code_strings (code_list s)"
proof -
  show "code_table (text_tree s) = map Some (code_list s)"
    using map_of_code [OF assms] by (simp add: code_table_def code_list_def)
  show "code_strings (code_list s)"
    using code_of_props(2,3) [OF assms] letters_alphabet(1) by (auto simp: code_strings_def code_list_def)
qed

text \<open>
  The file that the encoder makes: the one of \<open>compress.c\<close>, unless the bits of the text fill its
  last byte; then a zero byte more follows, and the total length counts it.
\<close>

definition hw_file_of :: "string \<Rightarrow> 8 word list" where
  "hw_file_of s =
     (if 8 dvd length (text_bits (text_tree s) s)
      then le32 (of_nat (length (file_of s) + 1)) @ drop 4 (file_of s) @ [0]
      else file_of s)"

lemma hw_bytes_file:
  assumes "set s \<subseteq> set letters" "int (length s) \<le> int_max"
  shows "hw_bytes (tree_string (text_tree s)) s (coded (code_of (text_tree s)) s) = hw_file_of s"
proof -
  have t: "length (tree_string (text_tree s)) = 167"
    using tree_string_text_tree(1) text_tree_ok(2) [OF assms, of "replicate 56 None"] by simp
  have b: "map char_byte (tree_string (text_tree s)) = bytes_of (tree_string (text_tree s))"
    by (simp add: char_byte_def bytes_of_def)
  show ?thesis
    unfolding text_bits_def [symmetric]
    by (simp add: hw_bytes_def hw_file_of_def hw_encoded leftover_dvd b t length_file_of [OF assms])
      (simp add: file_of_def Let_def)
qed

lemma length_hw_file_of:
  assumes "set s \<subseteq> set letters" "int (length s) \<le> int_max"
  shows "length (file_of s) \<le> length (hw_file_of s)" "length (hw_file_of s) \<le> length (file_of s) + 1"
    "take 4 (hw_file_of s) = le32 (of_nat (length (hw_file_of s)))" "4 \<le> length (hw_file_of s)"
proof -
  have "take 4 (file_of s) = le32 (of_nat (length (file_of s)))" "4 \<le> length (file_of s)"
    using length_file_of [OF assms] by (simp_all add: file_of_def Let_def)
  then show "length (file_of s) \<le> length (hw_file_of s)" "length (hw_file_of s) \<le> length (file_of s) + 1"
    "take 4 (hw_file_of s) = le32 (of_nat (length (hw_file_of s)))" "4 \<le> length (hw_file_of s)"
    by (auto simp: hw_file_of_def)
qed

text \<open>C38: on a memory with the codes, the tree string and a text of the alphabet, as
  \<open>hardware.c\<close> laid them out, the encoder's run ends, writes exactly the bytes of its file behind
  the text and no other byte. The file is that of \<open>compress.c\<close> iff the bits of the text do not fill
  their last byte.\<close>

theorem encoder_makes_file:
  assumes "set s \<subseteq> set letters" "int (length s) \<le> int_max" "length s < 67000000"
    and "encoder_input m base (code_list s) (tree_string (text_tree s)) s"
  shows "\<exists>m'. encoder_run base 0 (of_nat (tree_off (code_list s)))
      (of_nat (text_off (code_list s) (tree_string (text_tree s))))
      (of_nat (dst_off (code_list s) (tree_string (text_tree s)) s)) m = Some m' \<and>
    (\<forall>n < 2 ^ 32. let d = dst_off (code_list s) (tree_string (text_tree s)) s in
      m' (base + of_nat n) = (if d \<le> n \<and> n < d + length (hw_file_of s) then hw_file_of s ! (n - d)
        else m (base + of_nat n))) \<and>
    (hw_file_of s = file_of s \<longleftrightarrow> \<not> 8 dvd length (text_bits (text_tree s) s))"
proof -
  let ?t = "text_tree s" and ?d = "dst_off (code_list s) (tree_string (text_tree s)) s"
  have t: "letter_tree ?t" by (rule text_tree_ok(2) [OF assms(1,2), of "replicate 56 None"]) simp
  note ts = tree_string_text_tree [OF t]
  have wsm: "code_list s = map (code_of ?t) letters" by (simp add: code_list_def)
  have cb: "\<forall>x \<in> set letters. set (code_of ?t x) \<subseteq> set ''01''" using code_of_props(1) [OF t] by blast
  have "encoder_run base 0 (of_nat (tree_off (code_list s))) (of_nat (text_off (code_list s) (tree_string ?t)))
      (of_nat ?d) m = Some (put base ?d (hw_file_of s) m)"
    using encoder_run_ok [of m base "code_of ?t" "tree_string ?t" s] assms ts code_list(2) [OF t] cb
    unfolding wsm [symmetric] hw_bytes_file [OF assms(1,2)] by simp
  moreover have "\<forall>n < 2 ^ 32. put base ?d (hw_file_of s) m (base + of_nat n) =
      (if ?d \<le> n \<and> n < ?d + length (hw_file_of s) then hw_file_of s ! (n - ?d) else m (base + of_nat n))"
    using view_put [of _ base ?d "hw_file_of s" m] by (simp add: view_def)
  moreover have "hw_file_of s = file_of s \<longleftrightarrow> \<not> 8 dvd length (text_bits ?t s)"
  proof (cases "8 dvd length (text_bits ?t s)")
    case True
    then have "length (hw_file_of s) = length (file_of s) + 1"
      using length_file_of [OF assms(1,2)] by (simp add: hw_file_of_def)
    then show ?thesis using True by (metis n_not_Suc_n Suc_eq_plus1)
  qed (simp add: hw_file_of_def)
  ultimately show ?thesis by (simp add: Let_def)
qed

lemma encoder_makes_file_witness:
  "\<exists>m m'. encoder_run 0 0 (of_nat (tree_off (code_list ''ab'')))
      (of_nat (text_off (code_list ''ab'') (tree_string (text_tree ''ab''))))
      (of_nat (dst_off (code_list ''ab'') (tree_string (text_tree ''ab'')) ''ab'')) m = Some m' \<and>
    (\<forall>n < 2 ^ 32. let d = dst_off (code_list ''ab'') (tree_string (text_tree ''ab'')) ''ab'' in
      m' (0 + of_nat n) = (if d \<le> n \<and> n < d + length (hw_file_of ''ab'') then hw_file_of ''ab'' ! (n - d)
        else m (0 + of_nat n))) \<and>
    (hw_file_of ''ab'' = file_of ''ab'' \<longleftrightarrow> \<not> 8 dvd length (text_bits (text_tree ''ab'') ''ab''))"
proof -
  have s: "set ''ab'' \<subseteq> set letters" "int (length ''ab'') \<le> int_max" "length ''ab'' < 67000000"
    by (simp_all add: letters_def)
  have t: "letter_tree (text_tree ''ab'')" by (rule text_tree_ok(2) [OF s(1,2), of "replicate 56 None"]) simp
  note ts = tree_string_text_tree [OF t]
  have a: "encoder_memory my_init_global_addrs = 0" "length (tree_string (text_tree ''ab'')) \<le> 255"
    "NUL \<notin> set ''ab''" using ts(1) by (simp_all add: my_init_global_addrs_def)
  have "\<exists>m. encoder_input m 0 (code_list ''ab'') (tree_string (text_tree ''ab'')) ''ab''"
    by (rule layout_written [OF code_list(2) [OF t] a(1) ts(2) a(2,3) s(3)]) blast
  then show ?thesis using encoder_makes_file [OF s] by blast
qed

lemma hw_compress_result:
  assumes f: "open_home env file_name = Inr (Some s)" "heap_slack env = NUL # rest"
    and s: "set s \<subseteq> set letters" "int (length s) \<le> int_max" "length s < 67000000"
    and a: "encoder_memory addrs = base" "encoder addrs = base + 0x4000000"
    and dev: "encoder_dev env = encoder_device (encoder addrs) base latency"
    and out: "length (hw_file_of s) \<le> 65536"
  shows "\<exists>addrs' b' pre. hw_compress env addrs file_name b = Inr (Some (hw_file_of s), addrs', b') \<and>
    io b' = pre @ encoder_writes (encoder addrs) (code_list s) (tree_string (text_tree s)) s @
      [(gpio_0 addrs + 20, 1)]"
proof -
  let ?t = "text_tree s" and ?out = "hw_file_of s" and ?ws = "code_list s" and ?tr = "tree_string (text_tree s)"
  have nul: "NUL \<notin> set s" using s(1) NUL_not_letter by blast
  have fr: "prepare_frequencies (s @ NUL # rest) letters (replicate 56 0) = Inr (counts letters s)"
    using nul s(1,2) by (intro prepare_frequencies_ok) simp_all
  have hc: "HuffmanCodes letters (counts letters s) 56 (replicate 56 None) =
      Inr (?tr @ replicate 89 NUL, code_table ?t)"
    using text_tree_ok(1) [OF s(1,2)] by simp
  have t: "letter_tree ?t" by (rule text_tree_ok(2) [OF s(1,2), of "replicate 56 None"]) simp
  note ws = code_list [OF t] and ts = tree_string_text_tree [OF t]
  have tl: "length ?tr \<le> 255" using ts(1) by simp
  have r89: "replicate 89 NUL = NUL # replicate 88 NUL" by (simp add: eval_nat_numeral)
  obtain b1 b2 b3 where lay:
    "write_codes_to_mem addrs (map Some ?ws) (set_bit_at addrs 0 b) = Inr (addrs\<lparr>codes := base\<rparr>, b1)"
    "write_tree_to_mem (addrs\<lparr>codes := base\<rparr>) (?tr @ NUL # replicate 88 NUL) b1 =
      Inr (addrs\<lparr>codes := base, tree_str := base + of_nat (tree_off ?ws)\<rparr>, b2)"
    "write_text_to_mem (addrs\<lparr>codes := base, tree_str := base + of_nat (tree_off ?ws)\<rparr>) (s @ NUL # rest) b2 =
      Inr (addrs\<lparr>codes := base, tree_str := base + of_nat (tree_off ?ws),
        text_src := base + of_nat (text_off ?ws ?tr), dst_addr := base + of_nat (dst_off ?ws ?tr s)\<rparr>, b3)"
    "encoder_input (ram b3) base ?ws ?tr s"
    using layout_written [OF ws(2) a(1) ts(2) tl nul s(3)] by metis
  define ad where "ad = addrs\<lparr>codes := base, tree_str := base + of_nat (tree_off ?ws),
    text_src := base + of_nat (text_off ?ws ?tr), dst_addr := base + of_nat (dst_off ?ws ?tr s)\<rparr>"
  define b4 where "b4 = start_encoder ad (reset_encoder ad (write_addrs_to_encoder ad b3))"
  have b4: "encoder_input (ram b4) base ?ws ?tr s" "io b4 = io b3 @ encoder_writes (encoder addrs) ?ws ?tr s"
    "encoder_regs (ram b4) (encoder ad) (of_nat (tree_off ?ws)) (of_nat (text_off ?ws ?tr)) (of_nat (dst_off ?ws ?tr s))"
    unfolding b4_def using encoder_started [of ad base ?ws ?tr s b3] lay(4) ws(2) tl s(3) a
    by (simp_all add: ad_def)
  have dst: "dst_addr ad = base + of_nat (dst_off ?ws ?tr s)" "encoder ad = encoder addrs" by (simp_all add: ad_def)
  have "dst_off ?ws ?tr s \<le> 67003662"
    using tree_off_bounds [OF ws(2)] s(3) tl by (simp add: dst_off_def text_off_def)
  then have room: "dst_off ?ws ?tr s + length (hw_bytes ?tr s (coded (code_of ?t) s)) \<le> 67108864"
    using out unfolding hw_bytes_file [OF s(1,2)] by simp
  have cb: "\<forall>x \<in> set letters. set (code_of ?t x) \<subseteq> set ''01''" using code_of_props(1) [OF t] by blast
  have wsm: "?ws = map (code_of ?t) letters" by (simp add: code_list_def)
  obtain b5 where b5: "wait_for_encoder ad (encoder_dev env) 0 b4 = Some b5" "io b5 = io b4"
    "\<forall>i < length ?out. ram b5 (dst_addr ad + of_nat i) = ?out ! i"
    using wait_for_encoder_ok [of "code_of ?t" s ?tr ad base 0 latency b4] ws(2) cb s(1,3) ts(2) tl a(2) room b4(1,3)
    unfolding dst dev wsm [symmetric] hw_bytes_file [OF s(1,2)] by auto
  note o = length_hw_file_of [OF s(1,2)]
  have "?out \<noteq> []" using o(4) by auto
  then have "alt_read_word (ram b5) (dst_addr ad) = of_le32 [?out ! 0, ?out ! 1, ?out ! 2, ?out ! 3]"
    using b5(3) [rule_format, of 0] b5(3) [rule_format, of 1] b5(3) [rule_format, of 2] b5(3) [rule_format, of 3] o(4)
    by (simp add: alt_read_word_def)
  also have "[?out ! 0, ?out ! 1, ?out ! 2, ?out ! 3] = take 4 ?out"
    using o(4) by (intro nth_equalityI) (auto simp: less_Suc_eq numeral_eq_Suc)
  finally have len: "alt_read_word (ram b5) (dst_addr ad) = of_nat (length ?out)" using o(3) by simp
  have rb: "read_back (ram b5) (dst_addr ad) (of_nat (length ?out)) 0 = Inr ?out"
    using out by (intro read_back_result b5(3)) simp
  have "hw_compress env addrs file_name b = Inr (Some ?out, ad, clear_bit_at ad 0 b5)"
    unfolding hw_compress_def f bindE.simps option.case Let_def fr hc prod.case ws(1) r89 lay(1,2,3)
      ad_def [symmetric] b4_def [symmetric] b5(1) len rb ..
  moreover have "io (clear_bit_at ad 0 b5) = io b3 @ encoder_writes (encoder addrs) ?ws ?tr s @
      [(gpio_0 addrs + 20, 1)]"
    using b4(2) b5(2) by (simp add: clear_bit_at_def ad_def)
  ultimately show ?thesis by blast
qed

section \<open>Downloads\<close>

text \<open>The headers of a download.\<close>

definition download_headers :: "string \<Rightarrow> nat \<Rightarrow> string" where
  "download_headers file_name n =
     response_text \<lparr>res_status = 200,
       res_headers = [(''Content-Type'', ''application/octet-stream''),
         (''Content-Disposition'', ''attachment; filename='' @ file_name),
         (''Content-Length'', show_nat n)],
       res_body = None\<rparr>"

lemma rev_takeWhile_last:
  assumes "x \<notin> set name"
  shows "rev (takeWhile (\<lambda>y. y \<noteq> x) (rev (dir @ x # name))) = name"
proof -
  have "takeWhile (\<lambda>y. y \<noteq> x) (rev name @ x # rev dir) = rev name"
    using assms by (subst takeWhile_append2) auto
  then show ?thesis by simp
qed

lemma base_name_txt:
  assumes "CHR ''/'' \<notin> set name"
  shows "base_name before (dir @ CHR ''/'' # name @ ''.txt'') = Inr name"
proof -
  have "CHR ''/'' \<notin> set (name @ ''.txt'')" using assms by simp
  then have "rev (takeWhile (\<lambda>y. y \<noteq> CHR ''/'') (rev (before @ dir @ CHR ''/'' # name @ ''.txt''))) =
      name @ ''.txt''"
    using rev_takeWhile_last [of "CHR ''/''" "name @ ''.txt''" "before @ dir"] by simp
  then show ?thesis by (simp add: base_name_def del: rev_append)
qed

lemma send_compressed_ok:
  assumes data: "take 4 data = le32 (of_nat n)" "n \<le> length data" "n < 2 ^ 32" "4 \<le> n"
    and name: "CHR ''/'' \<notin> set name" "length name < 400"
    and sfx: "sfx = (if hardware_param = ''hardware'' then ''_hw.hfc'' else ''.hfc'')"
    and room: "length (download_headers (name @ sfx) n) + n \<le> response_size"
  shows "send_compressed fd before (dir @ CHR ''/'' # name @ ''.txt'') hardware_param new_response (Some data) =
    Inr [Send fd (bytes_of (download_headers (name @ sfx) n) @ take n data), Close fd]"
proof -
  have len: "length data \<ge> 4" using data by simp
  then have r4: "rd_front data 4 = Inr (le32 (of_nat n))"
    using rd_front_int [of 4 data] data(1) by simp
  have u: "unat (of_nat n :: 32 word) = n" using data(3) by (simp add: unat_of_nat)
  have rn: "rd_front data (int n) = Inr (take n data)" using data(2) by simp
  have "length (''attachment; filename='' @ name @ sfx) < 500" using name(2) sfx by simp
  then have fit: "buf_append 512 [] (''attachment; filename='' @ name @ sfx) =
      Inr (''attachment; filename='' @ name @ sfx)"
    unfolding buf_append_def by simp
  have "length (download_headers (name @ sfx) n) < response_size" using room data(4) by linarith
  then have rs: "response_to_string \<lparr>res_status = 200,
       res_headers = [(''Content-Type'', ''application/octet-stream''),
         (''Content-Disposition'', ''attachment; filename='' @ name @ sfx),
         (''Content-Length'', show_nat n)],
       res_body = None\<rparr> = Inr (download_headers (name @ sfx) n)"
    unfolding download_headers_def response_to_string_text by simp
  have res: "add_header_to_response ''Content-Length'' (show_nat n)
      (add_header_to_response ''Content-Disposition'' (''attachment; filename='' @ name @ sfx)
        (add_header_to_response ''Content-Type'' ''application/octet-stream''
          (new_response\<lparr>res_status := 200, res_headers := []\<rparr>))) =
      \<lparr>res_status = 200,
       res_headers = [(''Content-Type'', ''application/octet-stream''),
         (''Content-Disposition'', ''attachment; filename='' @ name @ sfx),
         (''Content-Length'', show_nat n)],
       res_body = None\<rparr>"
    by (simp only: add_header_to_response_def new_response_def response.simps response.select_convs append.simps)
  show ?thesis
    unfolding send_compressed_def option.case Let_def base_name_txt [OF name(1)] bindE.simps
      sfx [symmetric] fit r4 of_le32_le32 u res rs rn
    using room by simp
qed

text \<open>A url that names a text file below \<open>files\<close>.\<close>

definition txt_url :: "string \<Rightarrow> string \<Rightarrow> string" where
  "txt_url dir name = dir @ CHR ''/'' # name @ ''.txt''"

definition good_url :: "string \<Rightarrow> string \<Rightarrow> bool" where
  "good_url dir name \<longleftrightarrow>
     set (dir @ name) \<inter> {CHR '' '', CHR ''?'', NUL} = {} \<and> CHR ''/'' \<notin> set name \<and>
     (dir = [] \<or> hd dir = CHR ''/'') \<and> length dir + length name < 400"

lemma txt_url_props:
  assumes "good_url dir name"
  shows "txt_url dir name \<noteq> []" "CHR '' '' \<notin> set (txt_url dir name)" "CHR ''?'' \<notin> set (txt_url dir name)"
    "NUL \<notin> set (txt_url dir name)" "is_txt before (txt_url dir name) = Inr True"
    "path_from_slash (txt_url dir name) param = Inr (txt_url dir name)"
    "length (txt_url dir name) < 405"
proof -
  have c: "set (dir @ name) \<inter> {CHR '' '', CHR ''?'', NUL} = {}" using assms by (simp add: good_url_def)
  then show "CHR '' '' \<notin> set (txt_url dir name)" "CHR ''?'' \<notin> set (txt_url dir name)"
    and nul: "NUL \<notin> set (txt_url dir name)"
    by (auto simp: txt_url_def)
  show "txt_url dir name \<noteq> []" by (simp add: txt_url_def)
  show "length (txt_url dir name) < 405" using assms by (simp add: txt_url_def good_url_def)
  have "before @ txt_url dir name = (before @ dir @ CHR ''/'' # name) @ ''.txt''" by (simp add: txt_url_def)
  moreover have "drop (length (v @ ''.txt'') - 4) (v @ ''.txt'') = ''.txt''" for v :: string by simp
  ultimately have "drop (length (before @ txt_url dir name) - 4) (before @ txt_url dir name) = ''.txt''"
    by metis
  moreover have "4 \<le> length (before @ txt_url dir name)" by (simp add: txt_url_def)
  ultimately show "is_txt before (txt_url dir name) = Inr True"
    unfolding is_txt_def by simp
  obtain v where v: "txt_url dir name = CHR ''/'' # v"
    using assms by (cases dir) (auto simp: good_url_def txt_url_def)
  have "NUL \<notin> set v" using nul v by simp
  then have "takeWhile (\<lambda>c. c \<noteq> NUL) (v @ NUL # param) = v" by (subst takeWhile_append2) auto
  then show "path_from_slash (txt_url dir name) param = Inr (txt_url dir name)"
    unfolding path_from_slash_def v by simp
qed

lemma handler_txt:
  assumes len: "0 < len_received" and buf: "cstr (received @ heap_slack env) = Inr buffer"
    and req: "parse_request buffer = Inr req" "req_method req = GET" "req_url req = Some req_path"
    and url: "strtok_r ''?'' req_path = (Some (txt_url dir name), param)" "good_url dir name"
  shows "handler env len_received received addrs fd b =
    bindE (if param = ''hardware'' then hw_compress env addrs (txt_url dir name) b
      else bindE (compress env addrs (txt_url dir name) b) (\<lambda>(data, b). Inr (data, addrs, b)))
      (\<lambda>(data, addrs, b).
    bindE (send_compressed fd (before_url env req_path) (txt_url dir name) param new_response data) (\<lambda>evs.
    Inr (evs, addrs, b)))"
proof -
  have l: "(len_received < 0) = False" "(len_received = 0) = False" using len by simp_all
  have r: "req_method (req\<lparr>req_client_socket := fd\<rparr>) = GET" "req_url (req\<lparr>req_client_socket := fd\<rparr>) = Some req_path"
    using req by simp_all
  show ?thesis
    unfolding handler_def l if_False buf bindE.simps req(1) Let_def r strdup_def option.case url(1) prod.case
      txt_url_props(5,6) [OF url(2)] if_True by (simp only: refl if_True)
qed

lemma open_home_ok:
  "good_url dir name \<Longrightarrow> open_home env (txt_url dir name) = Inr (file_at env (HOMEPATH @ txt_url dir name))"
  using txt_url_props(7) [of dir name] by (simp add: open_home_def buf_append_def HOMEPATH_def)

lemma take_file_of:
  assumes "set s \<subseteq> set letters" "int (length s) \<le> int_max"
  shows "take 4 (file_of s @ r) = le32 (of_nat (length (file_of s)))" "4 \<le> length (file_of s)"
  unfolding length_file_of [OF assms] by (simp_all add: file_of_def Let_def)

lemma strtok_r_url:
  assumes "good_url dir name"
  shows "strtok_r ''?'' (txt_url dir name) = (Some (txt_url dir name), [])"
    "strtok_r ''?'' (txt_url dir name @ CHR ''?'' # param) = (Some (txt_url dir name), param)"
  using txt_url_props(1,3) [OF assms] strtok_r_token(1) [of "txt_url dir name" "''?''" "CHR ''?''" param]
    strtok_r_token(2) [of "txt_url dir name" "''?''" "CHR ''?''"] by auto

section \<open>Properties\<close>

text \<open>C3: a request for a text file is answered with its compressed form: the headers of a download
  and, as the body, the file that \<open>compress.c\<close> writes for the text; the socket is closed, and the
  GPIO pins have been raised and lowered around the two phases.\<close>

theorem software_download:
  assumes "0 < len_received"
    and "cstr (received @ heap_slack env) = Inr (request_text ''GET'' (txt_url dir name) version hs body)"
    and "good_url dir name" "version \<noteq> []" "CR \<notin> set version" "LF \<notin> set version"
    and "hs \<noteq> []" "\<forall>h \<in> set hs. good_header h"
    and "file_at env (HOMEPATH @ txt_url dir name) = Some s" "heap_slack env = NUL # rest"
    and "set s \<subseteq> set letters" "7 * int (length s) \<le> int_max"
    and "length (download_headers (name @ ''.hfc'') (length (file_of s))) + length (file_of s) \<le> response_size"
  shows "handler env len_received received addrs fd b =
    Inr ([Send fd (bytes_of (download_headers (name @ ''.hfc'') (length (file_of s))) @ file_of s), Close fd],
      addrs, sw_pulses addrs b)"
proof -
  note url = txt_url_props [OF assms(3)]
  have n: "int (length s) \<le> int_max" using assms(12) by simp
  have req: "parse_request (request_text ''GET'' (txt_url dir name) version hs body) =
      Inr \<lparr>req_client_socket = 0, req_method = GET, req_url = Some (txt_url dir name),
        req_body = Some (LF # body), req_headers = map (\<lambda>(k, v, w). (k, v)) hs\<rparr>"
    using parse_request_ok [OF disjI1 [OF refl] url(1,2) assms(4-8)] by simp
  have "1 \<le> length (download_headers (name @ ''.hfc'') (length (file_of s)))"
    by (simp add: download_headers_def response_text_def)
  then have room: "length (file_of s) < encoded_size"
    using assms(13) by (simp add: response_size_def encoded_size_def)
  have c: "compress env addrs (txt_url dir name) b =
      Inr (Some (file_of s @ replicate (encoded_size - length (file_of s)) 0), sw_pulses addrs b)"
    by (rule compress_result [OF _ assms(10-12) room]) (simp add: open_home_ok [OF assms(3)] assms(9))
  have d: "send_compressed fd before (txt_url dir name) [] new_response
      (Some (file_of s @ replicate (encoded_size - length (file_of s)) 0)) =
      Inr [Send fd (bytes_of (download_headers (name @ ''.hfc'') (length (file_of s))) @ file_of s), Close fd]" for before
    using send_compressed_ok [where data = "file_of s @ replicate (encoded_size - length (file_of s)) 0" and
        n = "length (file_of s)" and name = name and sfx = "''.hfc''" and hardware_param = "[]" and fd = fd
        and before = before and dir = dir] take_file_of [OF assms(11) n] assms(3,13) room
    by (simp add: txt_url_def good_url_def encoded_size_def)
  show ?thesis
    using handler_txt [OF assms(1,2) req _ _ strtok_r_url(1) [OF assms(3)] assms(3), where addrs = addrs and fd = fd and b = b]
    by (simp add: c d)
qed

lemma length_show_nat: "length (show_nat n) \<le> n + 1"
proof (induction n rule: show_nat.induct)
  case (1 n)
  show ?case
  proof (cases "n < 10")
    case False
    then have "length (show_nat (n div 10)) \<le> n div 10 + 1" by (rule 1)
    then show ?thesis using False by (subst show_nat.simps) simp
  qed (subst show_nat.simps, simp)
qed

lemma length_file_of_le:
  assumes "set s \<subseteq> set letters" "int (length s) \<le> int_max"
  shows "length (file_of s) \<le> 180 + 7 * length s"
proof -
  let ?w = "text_bits (text_tree s) s"
  have "length ?w \<le> 55 * length s"
    using text_tree_ok(2) [OF assms, of "replicate 56 None"] assms(1) by (intro length_text_bits) simp_all
  moreover have "8 * length (encoded ?w) = length ?w + padding ?w" by (rule length_encoded)
  moreover have "padding ?w < 8" by (rule padding_less)
  ultimately show ?thesis unfolding length_file_of [OF assms] by linarith
qed

lemma length_download_headers:
  "length (download_headers name n) \<le> 130 + length name + n"
  using length_show_nat [of n] by (simp add: download_headers_def response_text_def show_int_def show_nat.simps [of 200]
      show_nat.simps [of 20] show_nat.simps [of 2])

definition demo_env :: "string \<Rightarrow> string \<Rightarrow> (nat \<Rightarrow> memory \<Rightarrow> memory) \<Rightarrow> handler_env" where
  "demo_env path txt dev =
     \<lparr>file_at = (\<lambda>p. if p = path then Some txt else None), dir_at = (\<lambda>p. None), heap_slack = [NUL],
       heap_before = [], encoder_dev = dev\<rparr>"

lemma demo_request:
  "cstr (request_text ''GET'' url ''HTTP/1.1'' [(''Host'', ''de1'', '''')] '''' @ [NUL]) =
     Inr (request_text ''GET'' url ''HTTP/1.1'' [(''Host'', ''de1'', '''')] '''')"
  if "NUL \<notin> set url"
  using that by (intro cstr_append) (auto simp: request_text_def header_rest_def header_text_def)

lemma demo_ab: "set ''ab'' \<subseteq> set letters" "7 * int (length ''ab'') \<le> int_max" "int (length ''ab'') \<le> int_max"
  by (simp_all add: letters_def)

lemma demo_fits:
  assumes "length name + length ext \<le> 100"
  shows "length (download_headers (name @ ext) (length (file_of ''ab''))) + length (file_of ''ab'') \<le> response_size"
proof -
  have "length (file_of ''ab'') \<le> 194" using length_file_of_le [OF demo_ab(1,3)] by simp
  then show ?thesis
    using assms length_download_headers [of "name @ ext" "length (file_of ''ab'')"] by (simp add: response_size_def)
qed

lemma software_download_witness:
  "handler (demo_env ''files/x/a.txt'' ''ab'' (\<lambda>k m. m)) 40
     (request_text ''GET'' ''/x/a.txt'' ''HTTP/1.1'' [(''Host'', ''de1'', '''')] '''') my_init_global_addrs 7
     \<lparr>ram = (\<lambda>a. 0), io = []\<rparr> =
   Inr ([Send 7 (bytes_of (download_headers ''a.hfc'' (length (file_of ''ab''))) @ file_of ''ab''), Close 7],
     my_init_global_addrs, sw_pulses my_init_global_addrs \<lparr>ram = (\<lambda>a. 0), io = []\<rparr>)"
proof -
  have u: "txt_url ''/x'' ''a'' = ''/x/a.txt''" "good_url ''/x'' ''a''"
    by (simp_all add: txt_url_def good_url_def)
  have h: "\<forall>h \<in> set [(''Host'', ''de1'', '''')]. good_header h" by (simp add: good_header_def header_text_def)
  show ?thesis
    using software_download [where env = "demo_env ''files/x/a.txt'' ''ab'' (\<lambda>k m. m)" and dir = "''/x''" and name = "''a''"
        and hs = "[(''Host'', ''de1'', '''')]" and version = "''HTTP/1.1''" and body = "''''" and rest = "[]"
        and received = "request_text ''GET'' ''/x/a.txt'' ''HTTP/1.1'' [(''Host'', ''de1'', '''')] ''''"
        and s = "''ab''" and fd = 7 and len_received = 40 and addrs = my_init_global_addrs
        and b = "\<lparr>ram = (\<lambda>a. 0), io = []\<rparr>"]
      u h demo_request [of "''/x/a.txt''"] demo_ab(1,2) demo_fits [of "''a''" "''.hfc''"]
    by (simp add: demo_env_def HOMEPATH_def)
qed

text \<open>C12: the same download with \<open>?hardware\<close>, with the encoder of \<open>src/hw/hdl\<close> on the bus: whatever
  number of status reads it takes, the wait ends and the client gets the bytes the encoder left.
  They are the body of the software download, except when the bits of the text fill its last byte:
  then the padding of the text handler adds a zero byte, and the length counts it. The processor's
  last writes are the offsets of codes, tree, text and result, the reset and the start.\<close>

theorem hardware_download:
  assumes "0 < len_received"
    and "cstr (received @ heap_slack env) =
      Inr (request_text ''GET'' (txt_url dir name @ ''?hardware'') version hs body)"
    and "good_url dir name" "version \<noteq> []" "CR \<notin> set version" "LF \<notin> set version"
    and "hs \<noteq> []" "\<forall>h \<in> set hs. good_header h"
    and "file_at env (HOMEPATH @ txt_url dir name) = Some s" "heap_slack env = NUL # rest"
    and "set s \<subseteq> set letters" "7 * int (length s) \<le> int_max"
    and "length (download_headers (name @ ''_hw.hfc'') (length (hw_file_of s))) + length (hw_file_of s) \<le> response_size"
    and "encoder addrs = encoder_memory addrs + ENCODER_0_BASE"
    and "encoder_dev env = encoder_device (encoder addrs) (encoder_memory addrs) latency"
  shows "\<exists>addrs' b' pre. handler env len_received received addrs fd b =
    Inr ([Send fd (bytes_of (download_headers (name @ ''_hw.hfc'') (length (hw_file_of s))) @ hw_file_of s), Close fd],
      addrs', b') \<and>
    io b' = pre @ encoder_writes (encoder addrs) (code_list s) (tree_string (text_tree s)) s @
      [(gpio_0 addrs + 20, 1)]"
proof -
  note url = txt_url_props [OF assms(3)]
  have n: "int (length s) \<le> int_max" using assms(12) by simp
  have nb: "txt_url dir name @ ''?hardware'' \<noteq> []" "CHR '' '' \<notin> set (txt_url dir name @ ''?hardware'')"
    using url(1,2) by simp_all
  have req: "parse_request (request_text ''GET'' (txt_url dir name @ ''?hardware'') version hs body) =
      Inr \<lparr>req_client_socket = 0, req_method = GET, req_url = Some (txt_url dir name @ ''?hardware''),
        req_body = Some (LF # body), req_headers = map (\<lambda>(k, v, w). (k, v)) hs\<rparr>"
    using parse_request_ok [OF disjI1 [OF refl] nb assms(4-8)] by simp
  have "1 \<le> length (download_headers (name @ ''_hw.hfc'') (length (hw_file_of s)))"
    by (simp add: download_headers_def response_text_def)
  then have small: "length (hw_file_of s) < 65536" using assms(13) by (simp add: response_size_def)
  note o = length_hw_file_of [OF assms(11) n]
  have "length s \<le> length (text_bits (text_tree s) s)"
    using text_tree_ok(2) [OF assms(11) n, of "replicate 56 None"] assms(11) by (intro length_text_bits_ge) simp_all
  also have "\<dots> \<le> 8 * length (encoded (text_bits (text_tree s) s))" by (simp add: length_encoded)
  also have "\<dots> \<le> 8 * length (file_of s)" using length_file_of [OF assms(11) n] by simp
  finally have bits: "length s < 67000000" using small o(1) by simp
  obtain addrs' b' pre where hw:
    "hw_compress env addrs (txt_url dir name) b = Inr (Some (hw_file_of s), addrs', b')"
    "io b' = pre @ encoder_writes (encoder addrs) (code_list s) (tree_string (text_tree s)) s @
      [(gpio_0 addrs + 20, 1)]"
    using hw_compress_result [OF _ assms(10,11) n bits refl _ assms(15), of "txt_url dir name" b]
      open_home_ok [OF assms(3), of env] assms(9,14) small by (auto simp: ENCODER_0_BASE_def)
  have d: "send_compressed fd before (txt_url dir name) ''hardware'' new_response (Some (hw_file_of s)) =
      Inr [Send fd (bytes_of (download_headers (name @ ''_hw.hfc'') (length (hw_file_of s))) @ hw_file_of s), Close fd]" for before
    using send_compressed_ok [where data = "hw_file_of s" and n = "length (hw_file_of s)" and name = name
        and sfx = "''_hw.hfc''" and hardware_param = "''hardware''" and fd = fd and before = before and dir = dir]
      o(3,4) assms(3,13) small
    by (simp add: txt_url_def good_url_def)
  have "strtok_r ''?'' (txt_url dir name @ ''?hardware'') = (Some (txt_url dir name), ''hardware'')"
    using strtok_r_url(2) [OF assms(3)] by simp
  then have "handler env len_received received addrs fd b =
    Inr ([Send fd (bytes_of (download_headers (name @ ''_hw.hfc'') (length (hw_file_of s))) @ hw_file_of s), Close fd],
      addrs', b')"
    using handler_txt [OF assms(1,2) req _ _ _ assms(3), where addrs = addrs and fd = fd and b = b] hw(1)
    by (simp add: d)
  then show ?thesis using hw(2) by blast
qed

lemma hardware_download_witness:
  "\<exists>addrs' b' pre. handler (demo_env ''files/x/a.txt'' ''ab'' (encoder_device 0x4000000 0 3)) 40
     (request_text ''GET'' ''/x/a.txt?hardware'' ''HTTP/1.1'' [(''Host'', ''de1'', '''')] '''')
     (my_init_global_addrs\<lparr>encoder := 0x4000000\<rparr>) 7 \<lparr>ram = (\<lambda>a. 0), io = []\<rparr> =
   Inr ([Send 7 (bytes_of (download_headers ''a_hw.hfc'' (length (hw_file_of ''ab''))) @ hw_file_of ''ab''), Close 7],
     addrs', b') \<and>
   io b' = pre @ encoder_writes 0x4000000 (code_list ''ab'') (tree_string (text_tree ''ab'')) ''ab'' @ [(20, 1)]"
proof -
  have fit: "length (download_headers ''a_hw.hfc'' (length (hw_file_of ''ab''))) + length (hw_file_of ''ab'') \<le> response_size"
    using length_hw_file_of(2) [OF demo_ab(1,3)] length_file_of_le [OF demo_ab(1,3)]
      length_download_headers [of "''a_hw.hfc''" "length (hw_file_of ''ab'')"] by (simp add: response_size_def)
  have u: "txt_url ''/x'' ''a'' = ''/x/a.txt''" "good_url ''/x'' ''a''"
    by (simp_all add: txt_url_def good_url_def)
  have h: "\<forall>h \<in> set [(''Host'', ''de1'', '''')]. good_header h" by (simp add: good_header_def header_text_def)
  show ?thesis
    using hardware_download [where env = "demo_env ''files/x/a.txt'' ''ab'' (encoder_device 0x4000000 0 3)" and dir = "''/x''"
        and name = "''a''" and hs = "[(''Host'', ''de1'', '''')]" and version = "''HTTP/1.1''" and body = "''''" and rest = "[]"
        and received = "request_text ''GET'' ''/x/a.txt?hardware'' ''HTTP/1.1'' [(''Host'', ''de1'', '''')] ''''"
        and s = "''ab''" and fd = 7 and len_received = 40 and addrs = "my_init_global_addrs\<lparr>encoder := 0x4000000\<rparr>"
        and b = "\<lparr>ram = (\<lambda>a. 0), io = []\<rparr>" and latency = 3]
      u h fit demo_request [of "''/x/a.txt?hardware''"] demo_ab(1,2)
    by (simp add: demo_env_def HOMEPATH_def my_init_global_addrs_def ENCODER_0_BASE_def)
qed

text \<open>C26: the other answers: a failed \<open>recv\<close> and a \<open>POST\<close> are answered with the error page and a
  closed socket, an empty one with a closed socket alone; an unknown method and a text file that
  does not exist end in a read of the null pointer; and the test of the suffix of a url that is
  shorter than four characters, the index page among them, reads in front of the url.\<close>

theorem handler_failures:
  assumes "cstr (received @ heap_slack env) = Inr buffer" "0 < n"
    and "parse_request buffer = Inr req"
  shows "handler env (-1) received addrs fd b =
      Inr ([Send fd (bytes_of error_response), Close fd], addrs, b) \<and>
    handler env 0 received addrs fd b = Inr ([Close fd], addrs, b) \<and>
    (req_url req = Some url \<and> req_method req = POST \<longrightarrow>
      handler env n received addrs fd b = Inr ([Send fd (bytes_of error_response), Close fd], addrs, b)) \<and>
    (req = new_request \<longrightarrow> handler env n received addrs fd b = Inl Null_deref) \<and>
    (req_method req = GET \<and> req_url req = Some (txt_url dir name) \<and> good_url dir name \<and>
      file_at env (HOMEPATH @ txt_url dir name) = None \<longrightarrow>
      handler env n received addrs fd b = Inl Null_deref) \<and>
    (req_method req = GET \<and> req_url req = Some url \<and> CHR ''?'' \<notin> set url \<and> url \<noteq> [] \<and> length url < 4 \<and>
      heap_before env = [] \<longrightarrow> handler env n received addrs fd b = Inl Out_of_bounds)"
proof (intro conjI impI)
  show "handler env (-1) received addrs fd b = Inr ([Send fd (bytes_of error_response), Close fd], addrs, b)"
    "handler env 0 received addrs fd b = Inr ([Close fd], addrs, b)"
    by (simp_all add: handler_def server_err_handler_def)
next
  assume "req_url req = Some url \<and> req_method req = POST"
  then show "handler env n received addrs fd b = Inr ([Send fd (bytes_of error_response), Close fd], addrs, b)"
    using assms by (simp add: handler_def strdup_def Let_def POST_def GET_def server_err_handler_def split: prod.splits)
next
  assume "req = new_request"
  then show "handler env n received addrs fd b = Inl Null_deref"
    using assms by (simp add: handler_def strdup_def Let_def new_request_def)
next
  assume h: "req_method req = GET \<and> req_url req = Some (txt_url dir name) \<and> good_url dir name \<and>
      file_at env (HOMEPATH @ txt_url dir name) = None"
  then have "compress env addrs (txt_url dir name) b = Inr (None, b)"
    by (simp add: compress_def open_home_ok)
  then show "handler env n received addrs fd b = Inl Null_deref"
    using handler_txt [OF assms(2,1,3) _ _ strtok_r_url(1), where dir = dir and name = name and addrs = addrs and fd = fd and b = b] h
    by (simp add: strtok_r_url(1) send_compressed_def)
next
  assume h: "req_method req = GET \<and> req_url req = Some url \<and> CHR ''?'' \<notin> set url \<and> url \<noteq> [] \<and> length url < 4 \<and>
      heap_before env = []"
  then obtain x v where x: "url = x # v" "x \<noteq> CHR ''?''" by (cases url) auto
  have "strtok_r ''?'' url = (Some url, [])" using h by (intro strtok_r_token(2)) auto
  moreover have "before_url env url = []" using h x by (simp add: before_url_def)
  ultimately show "handler env n received addrs fd b = Inl Out_of_bounds"
    using assms h by (simp add: handler_def strdup_def Let_def is_txt_def)
qed

lemma handler_failures_witness:
  "handler (demo_env ''files/a.txt'' ''ab'' (\<lambda>k m. m)) 16
     (request_text ''GET'' ''/'' ''HTTP/1.1'' [(''Host'', ''de1'', '''')] '''') my_init_global_addrs 7
     \<lparr>ram = (\<lambda>a. 0), io = []\<rparr> = Inl Out_of_bounds"
proof -
  let ?r = "request_text ''GET'' ''/'' ''HTTP/1.1'' [(''Host'', ''de1'', '''')] ''''"
  have h: "\<forall>h \<in> set [(''Host'', ''de1'', '''')]. good_header h" by (simp add: good_header_def header_text_def)
  have p: "parse_request ?r = Inr \<lparr>req_client_socket = 0, req_method = GET, req_url = Some ''/'',
        req_body = Some [LF], req_headers = [(''Host'', ''de1'')]\<rparr>"
    using parse_request_ok [of "''GET''" "''/''" "''HTTP/1.1''" "[(''Host'', ''de1'', '''')]" "''''"] h by simp
  have c: "cstr (?r @ heap_slack (demo_env ''files/a.txt'' ''ab'' (\<lambda>k m. m))) = Inr ?r"
    using demo_request [of "''/''"] by (simp add: demo_env_def)
  show ?thesis
    using handler_failures [OF c _ p, of 16 my_init_global_addrs 7 "\<lparr>ram = (\<lambda>a. 0), io = []\<rparr>" "''/''"]
    by (simp add: demo_env_def)
qed

section \<open>The index page\<close>

text \<open>A folder by the names on the way to it, the link to the folder above, an entry of the list.\<close>

definition rooted :: "string list \<Rightarrow> string" where
  "rooted segs = concat (map (\<lambda>s. CHR ''/'' # s) segs)"

definition folder_path :: "string list \<Rightarrow> string" where
  "folder_path segs = (if segs = [] then ''/'' else rooted segs)"

definition parent_link :: "string list \<Rightarrow> string" where
  "parent_link segs = (if segs = [] then [] else rooted (butlast segs) @ ''/'')"

definition listing :: "string \<Rightarrow> (string \<times> bool) list \<Rightarrow> string" where
  "listing path ds = concat (map (\<lambda>(d_name, is_dir).
     (if is_dir then folder_item else file_item) (link_to path d_name) d_name)
     (filter (\<lambda>(d_name, is_dir). \<not> hidden d_name) ds))"

definition index_text :: "string \<Rightarrow> string \<Rightarrow> string \<Rightarrow> string \<Rightarrow> string list \<Rightarrow> (string \<times> bool) list \<Rightarrow> string" where
  "index_text p1 p2 p3 p4 segs ds =
     p1 @ parent_link segs @ p2 @ folder_path segs @ p3 @ listing (folder_path segs) ds @ p4"

lemma buf_append_ok: "length s + length t < cap \<Longrightarrow> buf_append cap s t = Inr (s @ t)"
  by (simp add: buf_append_def)

lemma strtok_r_rooted:
  assumes "s \<noteq> []" "CHR ''/'' \<notin> set s" "\<forall>s \<in> set ss. s \<noteq> []"
  obtains r where "strtok_r ''/'' (rooted (s # ss)) = (Some s, r)"
    "strtok_r ''/'' r = strtok_r ''/'' (rooted ss)" "r = [] \<longleftrightarrow> ss = []"
proof (cases ss)
  case Nil
  have "strtok_r ''/'' s = (Some s, [])" using assms by (intro strtok_r_token(2) [of s "''/''" "CHR ''/''"]) auto
  then show ?thesis using that [of "[]"] Nil by (simp add: rooted_def strtok_r_skip)
next
  case (Cons x xs)
  have "strtok_r ''/'' (s @ CHR ''/'' # x @ rooted xs) = (Some s, x @ rooted xs)"
    using assms by (intro strtok_r_token(1)) auto
  then show ?thesis using that [of "x @ rooted xs"] Cons assms(3) by (auto simp: rooted_def strtok_r_skip)
qed

lemma up_path_ok:
  "\<forall>s \<in> set segs. s \<noteq> [] \<and> CHR ''/'' \<notin> set s \<Longrightarrow> length (w @ parent_link segs) < working_size \<Longrightarrow>
   strtok_r ''/'' p = strtok_r ''/'' (rooted segs) \<Longrightarrow>
   up_path (fst (strtok_r ''/'' p)) (snd (strtok_r ''/'' p)) w = Inr (w @ parent_link segs)"
proof (induction segs arbitrary: w p)
  case Nil
  have "strtok_r ''/'' p = (None, [])" using Nil.prems(3) by (simp add: rooted_def strtok_r_None)
  then show ?case by (subst up_path.simps) (simp add: parent_link_def)
next
  case (Cons s ss)
  have ne: "\<forall>s \<in> set ss. s \<noteq> []" using Cons.prems(1) by simp
  obtain r where r: "strtok_r ''/'' (rooted (s # ss)) = (Some s, r)"
    "strtok_r ''/'' r = strtok_r ''/'' (rooted ss)" "r = [] \<longleftrightarrow> ss = []"
    using strtok_r_rooted [of s ss] Cons.prems(1) ne by auto
  show ?case
  proof (cases "ss = []")
    case True
    then have "strtok_r ''/'' r = (None, [])" using r(2) by (simp add: rooted_def strtok_r_None)
    then have "up_path (Some s) r w = Inr (w @ ''/'')"
      using True r(3) Cons.prems(2)
      by (subst up_path.simps) (simp add: buf_append_ok parent_link_def rooted_def up_path.simps)
    then show ?thesis using Cons.prems(3) r(1) True by (simp add: parent_link_def rooted_def)
  next
    case False
    have pl: "parent_link (s # ss) = CHR ''/'' # s @ parent_link ss"
      using False by (simp add: parent_link_def rooted_def)
    have "up_path (Some s) r w = up_path (fst (strtok_r ''/'' r)) (snd (strtok_r ''/'' r)) (w @ ''/'' @ s)"
      using False r(3) Cons.prems(2) unfolding pl
      by (subst up_path.simps) (simp add: buf_append_ok split: prod.splits)
    also have "\<dots> = Inr ((w @ ''/'' @ s) @ parent_link ss)"
      using Cons.prems(1,2) r(2) pl by (intro Cons.IH) simp_all
    finally show ?thesis using Cons.prems(3) r(1) pl by simp
  qed
qed

lemma length_items:
  "length (folder_item l n) \<le> 60 + length l + length n" "length (file_item l n) \<le> 160 + 2 * length l + length n"
  by (simp_all add: folder_item_def file_item_def)

lemma add_entries_ok:
  "\<forall>d \<in> set ds. length path + length (fst d) < 500 \<Longrightarrow> length (w @ listing path ds) < working_size \<Longrightarrow>
   add_entries path ds w = Inr (w @ listing path ds)"
proof (induction ds arbitrary: w)
  case (Cons d ds)
  obtain n k where d: "d = (n, k)" by force
  let ?item = "(if k then folder_item else file_item) (link_to path n) n"
  have item: "(if k then folder_item (link_to path n) n else file_item (link_to path n) n) = ?item" by simp
  show ?case
  proof (cases "hidden n")
    case True
    then show ?thesis using Cons by (simp add: d listing_def)
  next
    case False
    have l: "listing path (d # ds) = ?item @ listing path ds" using False by (simp add: d listing_def)
    have "length (link_to path n) < 501" using Cons.prems(1) by (auto simp: link_to_def d)
    then have 1: "buf_append 512 [] (link_to path n) = Inr (link_to path n)"
      and "length ?item < 2048"
      using length_items [of "link_to path n" n] Cons.prems(1) by (auto simp: buf_append_ok d)
    then have 2: "buf_append 2048 [] ?item = Inr ?item" by (simp add: buf_append_ok)
    have 3: "buf_append working_size w ?item = Inr (w @ ?item)"
      using Cons.prems(2) unfolding l by (intro buf_append_ok) simp
    have "add_entries path ds (w @ ?item) = Inr ((w @ ?item) @ listing path ds)"
      using Cons.prems unfolding l by (intro Cons.IH) simp_all
    then show ?thesis
      unfolding d add_entries.simps using False l d by (simp only: 1 2 3 item if_False bindE.simps append_assoc)
  qed
qed (simp add: listing_def)

lemma add_token_ok:
  assumes "p \<noteq> []" "CHR ''?'' \<notin> set p" "length w + length p < working_size"
  shows "add_token (p @ CHR ''?'' # rest) w = Inr (w @ p, rest)"
  using strtok_r_token(1) [of p "''?''" "CHR ''?''" rest] assms
  by (simp add: add_token_def strdup_def buf_append_ok)

lemma add_items_ok:
  assumes p: "p1 \<noteq> []" "p2 \<noteq> []" "p3 \<noteq> []" "CHR ''?'' \<notin> set (p1 @ p2 @ p3)"
    and segs: "\<forall>s \<in> set segs. s \<noteq> [] \<and> CHR ''/'' \<notin> set s" "length (folder_path segs) < 500"
    and ds: "dir_at env (HOMEPATH @ folder_path segs) = Some ds"
      "\<forall>d \<in> set ds. length (folder_path segs) + length (fst d) < 500"
    and room: "length (index_text p1 p2 p3 p4 segs ds) < working_size"
  shows "add_items env (folder_path segs) (p1 @ CHR ''?'' # p2 @ CHR ''?'' # p3 @ CHR ''?'' # p4) =
    Inr (index_text p1 p2 p3 p4 segs ds)"
proof -
  let ?path = "folder_path segs" and ?u = "parent_link segs"
  have len: "length p1 + length ?u + length p2 + length ?path + length p3 + length (listing ?path ds) +
      length p4 < working_size"
    using room by (simp add: index_text_def)
  have 1: "add_token (p1 @ CHR ''?'' # r) [] = Inr (p1, r)" for r
    using add_token_ok [of p1 "[]" r] p len by simp
  have "strtok_r ''/'' ?path = strtok_r ''/'' (rooted segs)"
    by (simp add: folder_path_def strtok_r_skip rooted_def)
  then have up: "up_path (fst (strtok_r ''/'' ?path)) (snd (strtok_r ''/'' ?path)) p1 = Inr (p1 @ ?u)"
    using segs(1) len by (intro up_path_ok) simp_all
  have 2: "add_token (p2 @ CHR ''?'' # r) (p1 @ ?u) = Inr ((p1 @ ?u) @ p2, r)" for r
    using p len by (intro add_token_ok) simp_all
  have 3: "buf_append working_size ((p1 @ ?u) @ p2) ?path = Inr (((p1 @ ?u) @ p2) @ ?path)"
    using len by (intro buf_append_ok) simp
  have 4: "add_token (p3 @ CHR ''?'' # r) (((p1 @ ?u) @ p2) @ ?path) = Inr ((((p1 @ ?u) @ p2) @ ?path) @ p3, r)" for r
    using p len by (intro add_token_ok) simp_all
  have 5: "buf_append 512 [] (HOMEPATH @ ?path) = Inr (HOMEPATH @ ?path)"
    using segs(2) buf_append_ok [of "[]" "HOMEPATH @ ?path" 512] by (simp add: HOMEPATH_def)
  have 6: "add_entries ?path ds ((((p1 @ ?u) @ p2) @ ?path) @ p3) =
      Inr (((((p1 @ ?u) @ p2) @ ?path) @ p3) @ listing ?path ds)"
    using ds(2) len by (intro add_entries_ok) simp_all
  have 7: "buf_append working_size (((((p1 @ ?u) @ p2) @ ?path) @ p3) @ listing ?path ds) p4 =
      Inr ((((((p1 @ ?u) @ p2) @ ?path) @ p3) @ listing ?path ds) @ p4)"
    using len by (intro buf_append_ok) simp
  show ?thesis
    unfolding add_items_def 1 bindE.simps prod.case case_prod_beta Let_def fst_conv snd_conv up 2 3 4 5 ds(1)
      option.case 6 7
    by (simp add: index_text_def)
qed

text \<open>C29: the index page of a folder: the template with the link to the folder above, the path, and
  one item for each entry whose name has no leading dot, in the order of the directory, with the
  length of the page in \<open>Content-Length\<close>.\<close>

theorem index_page:
  assumes "file_at env ''html/index.html'' =
      Some (p1 @ CHR ''?'' # p2 @ CHR ''?'' # p3 @ CHR ''?'' # p4)"
    and "p1 \<noteq> []" "p2 \<noteq> []" "p3 \<noteq> []" "CHR ''?'' \<notin> set (p1 @ p2 @ p3)" "NUL \<notin> set (p1 @ p2 @ p3 @ p4)"
    and "\<forall>s \<in> set segs. s \<noteq> [] \<and> CHR ''/'' \<notin> set s" "length (folder_path segs) < 500"
    and "dir_at env (HOMEPATH @ folder_path segs) = Some ds"
    and "\<forall>d \<in> set ds. length (folder_path segs) + length (fst d) < 500"
    and "length (index_text p1 p2 p3 p4 segs ds) < working_size"
  shows "index_handler env (folder_path segs) res = Inr (res\<lparr>res_status := 200,
      res_headers := [(''Content-Type'', ''text/html''),
        (''Content-Length'', show_nat (length (index_text p1 p2 p3 p4 segs ds)))],
      res_body := Some (index_text p1 p2 p3 p4 segs ds)\<rparr>)"
proof -
  have "cstr ((p1 @ CHR ''?'' # p2 @ CHR ''?'' # p3 @ CHR ''?'' # p4) @ [NUL]) =
      Inr (p1 @ CHR ''?'' # p2 @ CHR ''?'' # p3 @ CHR ''?'' # p4)"
    using assms(6) by (intro cstr_append) auto
  then show ?thesis
    unfolding index_handler_def assms(1) option.case Let_def
    using add_items_ok [OF assms(2-5,7-11)] by (simp add: add_header_to_response_def)
qed

lemma index_page_witness:
  "index_handler (demo_env ''html/index.html'' ''a?b?c?d'' (\<lambda>k m. m)
      \<lparr>dir_at := (\<lambda>p. if p = ''files/x/y'' then Some [(''.'', True), (''z'', True)] else None)\<rparr>) ''/x/y'' new_response =
    Inr \<lparr>res_status = 200, res_headers = [(''Content-Type'', ''text/html''),
        (''Content-Length'', show_nat (length (index_text ''a'' ''b'' ''c'' ''d'' [''x'', ''y''] [(''.'', True), (''z'', True)])))],
      res_body = Some (''a/x/b/x/yc'' @ folder_item ''/x/y/z'' ''z'' @ ''d'')\<rparr>"
proof -
  have i: "index_text ''a'' ''b'' ''c'' ''d'' [''x'', ''y''] [(''.'', True), (''z'', True)] =
      ''a/x/b/x/yc'' @ folder_item ''/x/y/z'' ''z'' @ ''d''"
    by (simp add: index_text_def parent_link_def rooted_def folder_path_def listing_def hidden_def link_to_def)
  show ?thesis
    using index_page [where env = "demo_env ''html/index.html'' ''a?b?c?d'' (\<lambda>k m. m)
      \<lparr>dir_at := (\<lambda>p. if p = ''files/x/y'' then Some [(''.'', True), (''z'', True)] else None)\<rparr>"
      and ?p1.0 = "''a''" and ?p2.0 = "''b''" and ?p3.0 = "''c''" and ?p4.0 = "''d''" and segs = "[''x'', ''y'']"
      and ds = "[(''.'', True), (''z'', True)]" and res = new_response]
    unfolding i using length_items(1) [of "''/x/y/z''" "''z''"]
    by (simp add: demo_env_def folder_path_def rooted_def HOMEPATH_def working_size_def new_response_def)
qed

end
