(* ===== verification/HandlersMemory.thy ===== *)
theory HandlersMemory
  imports Handlers
begin

text \<open>
  The memory of a connection: the functions of \<open>src/handlers.c\<close> on the C heap, with the structures
  \<open>header\<close>, \<open>request\<close> and \<open>response\<close> of \<open>inc/handlers.h\<close> as blocks that hold pointers, and every
  \<open>malloc\<close>, \<open>calloc\<close>, \<open>strdup\<close> and \<open>free\<close> of the source.

  The heap is the list of all blocks that were ever allocated; a pointer is an index into it, or \<open>None\<close>
  for \<open>NULL\<close>. A block that was freed is \<open>None\<close>. No address is handed out twice, so that each use of
  a freed block, and each second \<open>free\<close> of one, is the error \<open>Bad_pointer\<close>.
  What the strings say is computed by the operations of \<open>Http\<close> and \<open>Handlers\<close>.
\<close>

section \<open>Blocks\<close>

type_synonym ptr = "nat option"

record request_node =
  rq_client_socket :: int
  rq_method :: int
  rq_url :: ptr
  rq_body :: ptr
  rq_head :: ptr
  rq_tail :: ptr

record response_node =
  rs_status :: int
  rs_head :: ptr
  rs_tail :: ptr
  rs_body :: ptr

datatype block =
    Chars string
  | Bytes "8 word list"
  | Socket int
  | Header_node ptr ptr ptr
  | Request_node request_node
  | Response_node response_node

type_synonym heap = "block option list"

definition cell :: "heap \<Rightarrow> nat \<Rightarrow> block option" where
  "cell h a = (if a < length h then h ! a else None)"

definition malloc :: "block \<Rightarrow> heap \<Rightarrow> nat \<times> heap" where
  "malloc b h = (length h, h @ [Some b])"

definition load :: "ptr \<Rightarrow> heap \<Rightarrow> block c" where
  "load p h = (case p of None \<Rightarrow> Inl Null_deref
    | Some a \<Rightarrow> (case cell h a of None \<Rightarrow> Inl Bad_pointer | Some b \<Rightarrow> Inr b))"

definition store :: "ptr \<Rightarrow> block \<Rightarrow> heap \<Rightarrow> heap c" where
  "store p b h = bindE (load p h) (\<lambda>x. Inr (h[the p := Some b]))"

text \<open>\<open>free (NULL)\<close> does nothing.\<close>

definition free :: "ptr \<Rightarrow> heap \<Rightarrow> heap c" where
  "free p h = (case p of None \<Rightarrow> Inr h | Some a \<Rightarrow> bindE (load p h) (\<lambda>x. Inr (h[a := None])))"

definition load_chars :: "ptr \<Rightarrow> heap \<Rightarrow> string c" where
  "load_chars p h = bindE (load p h) (\<lambda>b. case b of Chars s \<Rightarrow> Inr s | x \<Rightarrow> Inl Bad_pointer)"

definition load_bytes :: "ptr \<Rightarrow> heap \<Rightarrow> 8 word list c" where
  "load_bytes p h = bindE (load p h) (\<lambda>b. case b of Bytes d \<Rightarrow> Inr d | x \<Rightarrow> Inl Bad_pointer)"

definition load_socket :: "ptr \<Rightarrow> heap \<Rightarrow> int c" where
  "load_socket p h = bindE (load p h) (\<lambda>b. case b of Socket i \<Rightarrow> Inr i | x \<Rightarrow> Inl Bad_pointer)"

definition load_header :: "ptr \<Rightarrow> heap \<Rightarrow> (ptr \<times> ptr \<times> ptr) c" where
  "load_header p h = bindE (load p h) (\<lambda>b.
     case b of Header_node k v n \<Rightarrow> Inr (k, v, n) | x \<Rightarrow> Inl Bad_pointer)"

definition load_request :: "ptr \<Rightarrow> heap \<Rightarrow> request_node c" where
  "load_request p h = bindE (load p h) (\<lambda>b. case b of Request_node n \<Rightarrow> Inr n | x \<Rightarrow> Inl Bad_pointer)"

definition load_response :: "ptr \<Rightarrow> heap \<Rightarrow> response_node c" where
  "load_response p h = bindE (load p h) (\<lambda>b. case b of Response_node n \<Rightarrow> Inr n | x \<Rightarrow> Inl Bad_pointer)"

text \<open>An assignment to fields of a structure.\<close>

definition set_request :: "ptr \<Rightarrow> (request_node \<Rightarrow> request_node) \<Rightarrow> heap \<Rightarrow> heap c" where
  "set_request p f h = bindE (load_request p h) (\<lambda>n. store p (Request_node (f n)) h)"

definition set_response :: "ptr \<Rightarrow> (response_node \<Rightarrow> response_node) \<Rightarrow> heap \<Rightarrow> heap c" where
  "set_response p f h = bindE (load_response p h) (\<lambda>n. store p (Response_node (f n)) h)"

text \<open>\<open>strdup\<close> of a string that may be \<open>NULL\<close>.\<close>

definition dup :: "string option \<Rightarrow> heap \<Rightarrow> (nat \<times> heap) c" where
  "dup s h = bindE (strdup s) (\<lambda>s. Inr (malloc (Chars s) h))"

section \<open>Header lists\<close>

text \<open>The new node \<open>n\<close> behind the last one; the pointers are those of the request or the response.\<close>

definition link_header :: "nat \<Rightarrow> ptr \<Rightarrow> ptr \<Rightarrow> heap \<Rightarrow> (ptr \<times> heap) c" where
  "link_header n head tail h =
     (if head = None then Inr (Some n, h)
      else bindE (load_header tail h) (\<lambda>(k, v, next).
           bindE (store tail (Header_node k v (Some n)) h) (\<lambda>h. Inr (head, h))))"

definition request_header :: "ptr \<Rightarrow> ptr \<Rightarrow> ptr \<Rightarrow> heap \<Rightarrow> heap c" where
  "request_header req key val h =
     (let (n, h) = malloc (Header_node key val None) h in
      bindE (load_request req h) (\<lambda>r.
      bindE (link_header n (rq_head r) (rq_tail r) h) (\<lambda>(head, h).
      set_request req (\<lambda>r. r\<lparr>rq_head := head, rq_tail := Some n\<rparr>) h)))"

definition response_header :: "ptr \<Rightarrow> string \<Rightarrow> string \<Rightarrow> heap \<Rightarrow> heap c" where
  "response_header res key val h =
     (let (n, h) = malloc (Header_node None None None) h;
          (k, h) = malloc (Chars key) h;
          (v, h) = malloc (Chars val) h in
      bindE (store (Some n) (Header_node (Some k) (Some v) None) h) (\<lambda>h.
      bindE (load_response res h) (\<lambda>r.
      bindE (link_header n (rs_head r) (rs_tail r) h) (\<lambda>(head, h).
      set_response res (\<lambda>r. r\<lparr>rs_head := head, rs_tail := Some n\<rparr>) h))))"

definition live :: "heap \<Rightarrow> nat" where
  "live h = length (filter (\<lambda>b. b \<noteq> None) h)"

lemma live_update:
  "cell h a \<noteq> None \<Longrightarrow> live (h[a := Some b]) = live h \<and> Suc (live (h[a := None])) = live h"
proof (induction h arbitrary: a)
  case (Cons x h)
  then show ?case by (cases a) (auto simp: live_def cell_def split: if_splits)
qed (simp add: cell_def)

lemma free_live: "free (Some a) h = Inr h' \<Longrightarrow> Suc (live h') = live h"
  by (auto simp: free_def load_def live_update split: option.splits)

section \<open>Release\<close>

function free_headers :: "ptr \<Rightarrow> heap \<Rightarrow> heap c" where
  "free_headers head h =
     (case head of None \<Rightarrow> Inr h
      | Some a \<Rightarrow>
          bindE (load_header head h) (\<lambda>(k, v, temp).
          bindE (free head h) (\<lambda>h. free_headers temp h)))"
  by pat_completeness auto
termination
  by (relation "measure (\<lambda>(p, h). live h)") (auto dest!: free_live)

declare free_headers.simps [simp del]

definition free_req :: "ptr \<Rightarrow> heap \<Rightarrow> heap c" where
  "free_req req h =
     bindE (load_request req h) (\<lambda>r.
     bindE (free_headers (rq_head r) h) (\<lambda>h.
     bindE (load_request req h) (\<lambda>r.
     bindE (free (rq_url r) h) (\<lambda>h.
     bindE (load_request req h) (\<lambda>r.
     bindE (free (rq_body r) h) (\<lambda>h.
     free req h))))))"

definition free_res :: "ptr \<Rightarrow> heap \<Rightarrow> heap c" where
  "free_res res h =
     bindE (load_response res h) (\<lambda>r.
     bindE (free_headers (rs_head r) h) (\<lambda>h.
     bindE (load_response res h) (\<lambda>r.
     bindE (free (rs_body r) h) (\<lambda>h.
     free res h))))"

text \<open>The order of the source: the socket's block, the response, the request.\<close>

definition server_err_memory :: "ptr \<Rightarrow> ptr \<Rightarrow> ptr \<Rightarrow> heap \<Rightarrow> (net_event list \<times> heap) c" where
  "server_err_memory client_socket req res h =
     bindE (load_socket client_socket h) (\<lambda>fd.
     bindE (free client_socket h) (\<lambda>h.
     bindE (if res \<noteq> None then free_res res h else Inr h) (\<lambda>h.
     bindE (if req \<noteq> None then free_req req h else Inr h) (\<lambda>h.
     Inr (server_err_handler fd, h)))))"

section \<open>Requests\<close>

text \<open>\<open>parse_header\<close> and the two copies.\<close>

definition header_memory :: "string \<Rightarrow> heap \<Rightarrow> (nat \<times> nat \<times> heap) c" where
  "header_memory line h =
     (let (k, state2) = strtok_r '':'' line in
      bindE (dup k h) (\<lambda>(key, h).
      let (v, state2) = strtok_r '' '' state2 in
      bindE (dup v h) (\<lambda>(val, h). Inr (key, val, h))))"

function header_loop_memory :: "ptr \<Rightarrow> string option \<Rightarrow> string \<Rightarrow> heap \<Rightarrow> (string \<times> heap) c" where
  "header_loop_memory req line state1 h =
     (case line of None \<Rightarrow> Inr (state1, h)
      | Some line \<Rightarrow>
          bindE (header_memory line h) (\<lambda>(key, val, h).
          bindE (request_header req (Some key) (Some val) h) (\<lambda>h.
          if at_blank_line state1 then Inr (state1, h)
          else case strtok_r [CR, LF] state1 of (line, state1) \<Rightarrow> header_loop_memory req line state1 h)))"
  by pat_completeness auto
termination
  by (relation "measure (\<lambda>(req, line, state1, h). case line of None \<Rightarrow> 0 | Some l \<Rightarrow> Suc (length state1))")
    (auto split: option.splits dest: strtok_r_shorter sym)

declare header_loop_memory.simps [simp del]

text \<open>
  The copy \<open>working_string\<close>, into which the tokens point, is a block whose characters are the
  state of \<open>strtok_r\<close>; it is released only at the end.
\<close>

definition parse_memory :: "string \<Rightarrow> heap \<Rightarrow> (nat \<times> heap) c" where
  "parse_memory request_string h =
     (let (req, h) = malloc (Request_node \<lparr>rq_client_socket = 0, rq_method = 0, rq_url = None,
            rq_body = None, rq_head = None, rq_tail = None\<rparr>) h;
          (working_string, h) = malloc (Chars request_string) h;
          (meth, state1) = strtok_r '' '' request_string in
      bindE (strdup meth) (\<lambda>meth.
      if meth \<noteq> ''GET'' \<and> meth \<noteq> ''POST'' then Inr (req, h)
      else bindE (set_request (Some req) (\<lambda>r. r\<lparr>rq_method := (if meth = ''GET'' then GET else POST)\<rparr>) h) (\<lambda>h.
        let (url, state1) = strtok_r '' '' state1 in
        bindE (dup url h) (\<lambda>(url, h).
        bindE (set_request (Some req) (\<lambda>r. r\<lparr>rq_url := Some url\<rparr>) h) (\<lambda>h.
        let (version, state1) = strtok_r [CR, LF] state1;
            (line, state1) = strtok_r [CR, LF] state1 in
        bindE (header_loop_memory (Some req) line state1 h) (\<lambda>(state1, h).
        let (body, h) = (case request_body state1 of None \<Rightarrow> (None, h)
              | Some s \<Rightarrow> (case malloc (Chars s) h of (a, h) \<Rightarrow> (Some a, h))) in
        bindE (set_request (Some req) (\<lambda>r. r\<lparr>rq_body := body\<rparr>) h) (\<lambda>h.
        bindE (free (Some working_string) h) (\<lambda>h.
        Inr (req, h)))))))))"

section \<open>Responses\<close>

text \<open>
  The loop over the headers. A list without a cycle has no more nodes than the heap, \<open>n\<close>: a walk that
  is longer does not end.
\<close>

fun print_list :: "nat \<Rightarrow> ptr \<Rightarrow> heap \<Rightarrow> string \<Rightarrow> string c" where
  "print_list n None h buffer = Inr buffer"
| "print_list 0 (Some a) h buffer = Inl Diverges"
| "print_list (Suc n) (Some a) h buffer =
     bindE (load_header (Some a) h) (\<lambda>(k, v, next).
     bindE (load_chars k h) (\<lambda>k.
     bindE (load_chars v h) (\<lambda>v.
     bindE (buf_append response_size buffer (k @ '': '' @ v @ [LF])) (print_list n next h))))"

definition response_memory :: "ptr \<Rightarrow> heap \<Rightarrow> (nat \<times> string \<times> heap) c" where
  "response_memory res h =
     (let (buffer, h) = malloc (Chars []) h in
      bindE (load_response res h) (\<lambda>r.
      bindE (buf_append response_size [] (''HTTP/1.1 '' @ show_int (rs_status r) @ '' OK'' @ [LF])) (\<lambda>s.
      bindE (print_list (length h) (rs_head r) h s) (\<lambda>s.
      bindE (if rs_body r = None then Inr s
             else bindE (load_chars (rs_body r) h) (\<lambda>body. buf_append response_size s (LF # body))) (\<lambda>s.
      bindE (buf_append response_size s [LF]) (\<lambda>s.
      bindE (store (Some buffer) (Chars s) h) (\<lambda>h. Inr (buffer, s, h))))))))"

section \<open>Pages\<close>

definition items_memory :: "handler_env \<Rightarrow> string \<Rightarrow> string \<Rightarrow> heap \<Rightarrow> (nat \<times> string \<times> heap) c" where
  "items_memory env path html h =
     (let (working_str, h) = malloc (Chars []) h;
          (path_copy, h) = malloc (Chars path) h in
      bindE (add_items env path html) (\<lambda>s.
      bindE (store (Some working_str) (Chars s) h) (\<lambda>h. Inr (working_str, s, h))))"

text \<open>The header with the length, printed into a block of its own.\<close>

definition length_header :: "ptr \<Rightarrow> nat \<Rightarrow> heap \<Rightarrow> (nat \<times> heap) c" where
  "length_header res n h =
     (let (length_num, h) = malloc (Chars (show_nat n)) h in
      bindE (response_header res ''Content-Length'' (show_nat n) h) (\<lambda>h. Inr (length_num, h)))"

definition index_memory :: "handler_env \<Rightarrow> string \<Rightarrow> ptr \<Rightarrow> heap \<Rightarrow> heap c" where
  "index_memory env path res h =
     (case file_at env ''html/index.html'' of None \<Rightarrow> Inr h
      | Some contents \<Rightarrow>
          bindE (set_response res (\<lambda>r. r\<lparr>rs_status := 200, rs_head := None, rs_tail := None\<rparr>) h) (\<lambda>h.
          bindE (response_header res ''Content-Type'' ''text/html'' h) (\<lambda>h.
          bindE (cstr (contents @ [NUL])) (\<lambda>html.
          let (index_html, h) = malloc (Chars html) h in
          bindE (items_memory env path html h) (\<lambda>(body, s, h).
          bindE (set_response res (\<lambda>r. r\<lparr>rs_body := Some body\<rparr>) h) (\<lambda>h.
          bindE (length_header res (length s) h) (\<lambda>(length_num, h).
          bindE (free (Some length_num) h) (\<lambda>h.
          free (Some index_html) h))))))))"

definition style_memory :: "handler_env \<Rightarrow> ptr \<Rightarrow> heap \<Rightarrow> heap c" where
  "style_memory env res h =
     (case file_at env ''html/style.css'' of None \<Rightarrow> Inr h
      | Some contents \<Rightarrow>
          bindE (cstr (contents @ heap_slack env)) (\<lambda>s.
          let (style_text, h) = malloc (Chars s) h in
          bindE (set_response res (\<lambda>r. r\<lparr>rs_status := 200, rs_head := None, rs_tail := None\<rparr>) h) (\<lambda>h.
          bindE (response_header res ''Content-Type'' ''text/css'' h) (\<lambda>h.
          bindE (length_header res (length contents) h) (\<lambda>(length_num, h).
          bindE (free (Some length_num) h) (\<lambda>h.
          set_response res (\<lambda>r. r\<lparr>rs_body := Some style_text\<rparr>) h))))))"

definition get_memory :: "handler_env \<Rightarrow> ptr \<Rightarrow> ptr \<Rightarrow> heap \<Rightarrow> heap c" where
  "get_memory env req res h =
     bindE (load_request req h) (\<lambda>r.
     bindE (load_chars (rq_url r) h) (\<lambda>url.
     if url = ''/style.css'' then style_memory env res h
     else if url = ''/favicon.ico'' then Inr h
     else index_memory env url res h))"

section \<open>A connection\<close>

text \<open>
  The blocks of a compressor: \<open>junk\<close> are those that it allocates and never releases, which are all
  but the result.
\<close>

definition compressed_memory :: "block list \<Rightarrow> 8 word list option \<Rightarrow> heap \<Rightarrow> ptr \<times> heap" where
  "compressed_memory junk data h =
     (case data of None \<Rightarrow> (None, h)
      | Some d \<Rightarrow> (case malloc (Bytes d) (h @ map Some junk) of (a, h) \<Rightarrow> (Some a, h)))"

definition download_memory ::
  "ptr \<Rightarrow> ptr \<Rightarrow> string \<Rightarrow> string \<Rightarrow> string \<Rightarrow> ptr \<Rightarrow> heap \<Rightarrow> (net_event list \<times> heap) c" where
  "download_memory req res before url hardware_param compressed h =
     bindE (load_bytes compressed h) (\<lambda>data.
     bindE (set_response res (\<lambda>r. r\<lparr>rs_status := 200, rs_head := None, rs_tail := None\<rparr>) h) (\<lambda>h.
     bindE (response_header res ''Content-Type'' ''application/octet-stream'' h) (\<lambda>h.
     bindE (base_name before url) (\<lambda>name.
     let (file_name, h) = malloc (Chars name) h in
     bindE (buf_append 512 [] (''attachment; filename='' @ name @
       (if hardware_param = ''hardware'' then ''_hw.hfc'' else ''.hfc''))) (\<lambda>file_name_header.
     bindE (response_header res ''Content-Disposition'' file_name_header h) (\<lambda>h.
     bindE (rd_front data 4) (\<lambda>w.
     let size = unat (of_le32 w) in
     bindE (length_header res size h) (\<lambda>(length_num, h).
     bindE (response_memory res h) (\<lambda>(res_str, s, h).
     bindE (rd_front data (int size)) (\<lambda>src.
     if length s + size \<le> response_size
     then bindE (load_request req h) (\<lambda>r.
       bindE (free compressed h) (\<lambda>h.
       bindE (free_req req h) (\<lambda>h.
       bindE (free_res res h) (\<lambda>h.
       Inr ([Send (rq_client_socket r) (bytes_of s @ src), Close (rq_client_socket r)], h)))))
     else Inl Out_of_bounds))))))))))"

definition page_memory :: "handler_env \<Rightarrow> ptr \<Rightarrow> ptr \<Rightarrow> heap \<Rightarrow> (net_event list \<times> heap) c" where
  "page_memory env req res h =
     bindE (get_memory env req res h) (\<lambda>h.
     bindE (response_memory res h) (\<lambda>(res_str, s, h).
     bindE (load_request req h) (\<lambda>r.
     bindE (free_req req h) (\<lambda>h.
     bindE (free_res res h) (\<lambda>h.
     Inr ([Send (rq_client_socket r) (bytes_of s), Close (rq_client_socket r)], h))))))"

text \<open>The branch for a text file, whose url has passed \<open>is_txt\<close>.\<close>

definition file_memory ::
  "handler_env \<Rightarrow> block list \<Rightarrow> global_addrs \<Rightarrow> ptr \<Rightarrow> ptr \<Rightarrow> string \<Rightarrow> string \<Rightarrow> string \<Rightarrow> bus \<Rightarrow> heap \<Rightarrow>
   (net_event list \<times> global_addrs \<times> bus \<times> heap) c" where
  "file_memory env junk addrs req res before url hardware_param b h =
     bindE (path_from_slash url hardware_param) (\<lambda>path_str.
     let (path, h) = malloc (Chars path_str) h in
     bindE (if hardware_param = ''hardware'' then hw_compress env addrs path_str b
       else bindE (compress env addrs path_str b) (\<lambda>(data, b). Inr (data, addrs, b)))
       (\<lambda>(data, addrs, b).
     let (compressed, h) = compressed_memory junk data h in
     bindE (download_memory req res before url hardware_param compressed h) (\<lambda>(evs, h).
     Inr (evs, addrs, b, h))))"

text \<open>From the copy of the url on: \<open>req\<close> and \<open>res\<close> are the request and the response.\<close>

definition answer_memory ::
  "handler_env \<Rightarrow> block list \<Rightarrow> global_addrs \<Rightarrow> ptr \<Rightarrow> ptr \<Rightarrow> ptr \<Rightarrow> bus \<Rightarrow> heap \<Rightarrow>
   (net_event list \<times> global_addrs \<times> bus \<times> heap) c" where
  "answer_memory env junk addrs client_socket req res b h =
     bindE (load_request req h) (\<lambda>r.
     bindE (load_chars (rq_url r) h) (\<lambda>req_url.
     let (req_path, h) = malloc (Chars req_url) h;
         (url, hardware_param) = strtok_r ''?'' req_url; before = before_url env req_url in
     if rq_method r = GET
     then bindE (strdup url) (\<lambda>url.
       bindE (is_txt before url) (\<lambda>txt.
       if txt
       then file_memory env junk addrs req res before url hardware_param b h
       else bindE (page_memory env req res h) (\<lambda>(evs, h). Inr (evs, addrs, b, h))))
     else bindE (server_err_memory client_socket req res h) (\<lambda>(evs, h). Inr (evs, addrs, b, h))))"

definition handler_memory ::
  "handler_env \<Rightarrow> block list \<Rightarrow> int \<Rightarrow> char list \<Rightarrow> global_addrs \<Rightarrow> ptr \<Rightarrow> bus \<Rightarrow> heap \<Rightarrow>
   (net_event list \<times> global_addrs \<times> bus \<times> heap) c" where
  "handler_memory env junk len_received received addrs client_socket b h =
     bindE (load_socket client_socket h) (\<lambda>connection_fd.
     let (buffer, h) = malloc (Chars []) h in
     if len_received < 0
     then bindE (server_err_memory client_socket None None h) (\<lambda>(evs, h). Inr (evs, addrs, b, h))
     else if len_received = 0 then Inr ([Close connection_fd], addrs, b, h)
     else bindE (cstr (received @ heap_slack env)) (\<lambda>s.
       bindE (store (Some buffer) (Chars s) h) (\<lambda>h.
       bindE (parse_memory s h) (\<lambda>(req, h).
       bindE (free (Some buffer) h) (\<lambda>h.
       bindE (set_request (Some req) (\<lambda>r. r\<lparr>rq_client_socket := connection_fd\<rparr>) h) (\<lambda>h.
       let (res, h) = malloc (Response_node \<lparr>rs_status = 0, rs_head = None, rs_tail = None, rs_body = None\<rparr>) h in
       answer_memory env junk addrs client_socket (Some req) (Some res) b h))))))"

end
