(* ===== verification/HeapStructures.thy ===== *)
theory HeapStructures
  imports HandlersMemory
begin

text \<open>
  Requests, responses and their lists of headers on the heap of \<open>HandlersMemory\<close>: \<open>request_at\<close> and
  \<open>response_at\<close> say that a structure and everything it owns stand in the heap, and represent a value of
  \<open>Http\<close>; \<open>evolves\<close> says that an operation touches nothing but what is owned and what is new. The
  footprint, the list of owned blocks without repetition, tells how many blocks a release leaves.
\<close>

section \<open>Cells\<close>

lemma cell_append [simp]: "cell (h @ [b]) a = (if a = length h then b else cell h a)"
  by (simp add: cell_def nth_append)

lemma cell_update [simp]: "cell (h[a := b]) c = (if c = a \<and> a < length h then b else cell h c)"
  by (simp add: cell_def)

lemma cell_new [simp]: "cell h (length h) = None"
  by (simp add: cell_def)

lemma cell_length: "cell h a = Some b \<Longrightarrow> a < length h"
  by (auto simp: cell_def split: if_splits)

lemma live_append [simp]: "live (g @ h) = live g + live h" "live [] = 0" "live (Some b # h) = Suc (live h)"
  by (simp_all add: live_def)

lemma load_cell: "cell h a = Some b \<Longrightarrow> load (Some a) h = Inr b"
  by (simp add: load_def)

lemma store_cell: "cell h a = Some b \<Longrightarrow> store (Some a) x h = Inr (h[a := Some x])"
  by (simp add: store_def load_cell)

lemma free_cell: "cell h a = Some b \<Longrightarrow> free (Some a) h = Inr (h[a := None])"
  by (simp add: free_def load_cell)

lemma free_NULL [simp]: "free None h = Inr h"
  by (simp add: free_def)

lemmas loads = load_chars_def load_bytes_def load_socket_def load_header_def load_request_def
  load_response_def set_request_def set_response_def load_cell store_cell

section \<open>Lists and structures\<close>

type_synonym header_cells = "nat \<times> nat \<times> nat \<times> string \<times> string"

fun header_chain :: "heap \<Rightarrow> ptr \<Rightarrow> header_cells list \<Rightarrow> bool" where
  "header_chain h p [] = (p = None)"
| "header_chain h p ((a, k, v, s, t) # xs) =
     (p = Some a \<and> (\<exists>q. cell h a = Some (Header_node (Some k) (Some v) q) \<and> header_chain h q xs) \<and>
      cell h k = Some (Chars s) \<and> cell h v = Some (Chars t))"

definition nodes :: "header_cells list \<Rightarrow> nat list" where
  "nodes xs = concat (map (\<lambda>(a, k, v, s, t). [a, k, v]) xs)"

definition texts :: "header_cells list \<Rightarrow> header list" where
  "texts xs = map (\<lambda>(a, k, v, s, t). (s, t)) xs"

definition end_of :: "header_cells list \<Rightarrow> ptr \<Rightarrow> bool" where
  "end_of xs tail \<longleftrightarrow> xs \<noteq> [] \<longrightarrow> tail = Some (fst (last xs))"

lemma nodes_simps [simp]:
  "nodes [] = []" "nodes ((a, k, v, s, t) # xs) = a # k # v # nodes xs"
  "nodes (xs @ ys) = nodes xs @ nodes ys"
  by (simp_all add: nodes_def)

lemma texts_simps [simp]:
  "texts [] = []" "texts ((a, k, v, s, t) # xs) = (s, t) # texts xs"
  "texts (xs @ ys) = texts xs @ texts ys" "length (texts xs) = length xs"
  by (simp_all add: texts_def)

lemma end_of_simps [simp]: "end_of [] p" "end_of (xs @ [(a, k, v, s, t)]) p \<longleftrightarrow> p = Some a"
  by (simp_all add: end_of_def)

lemma length_nodes: "length (nodes xs) = 3 * length xs"
  by (induction xs) auto

lemma header_chain_cong: "header_chain h p xs \<Longrightarrow> \<forall>a \<in> set (nodes xs). cell h' a = cell h a \<Longrightarrow> header_chain h' p xs"
  by (induction h p xs rule: header_chain.induct) auto

lemma header_chain_live: "header_chain h p xs \<Longrightarrow> \<forall>a \<in> set (nodes xs). cell h a \<noteq> None"
  by (induction h p xs rule: header_chain.induct) auto

lemma header_chain_snoc:
  "header_chain h p (xs @ [(a, k, v, s, t)]) \<Longrightarrow> distinct (nodes (xs @ [(a, k, v, s, t)])) \<Longrightarrow>
   cell h n = Some (Header_node (Some k') (Some v') None) \<Longrightarrow> cell h k' = Some (Chars s') \<Longrightarrow>
   cell h v' = Some (Chars t') \<Longrightarrow> {n, k', v'} \<inter> set (nodes (xs @ [(a, k, v, s, t)])) = {} \<Longrightarrow>
   header_chain (h[a := Some (Header_node (Some k) (Some v) (Some n))]) p (xs @ [(a, k, v, s, t), (n, k', v', s', t')])"
proof (induction h p xs rule: header_chain.induct)
  case (1 h p)
  then show ?case by (auto dest: cell_length)
next
  case (2 h p b l w x y xs)
  then obtain q where q: "p = Some b" "cell h b = Some (Header_node (Some l) (Some w) q)"
    "header_chain h q (xs @ [(a, k, v, s, t)])" by auto
  show ?case using "2.IH" [OF q(3)] "2.prems" q by auto
qed

lemma link_header_chain:
  assumes "header_chain h head xs" "end_of xs tail" "distinct (nodes xs)"
    and "cell h n = Some (Header_node (Some k) (Some v) None)" "cell h k = Some (Chars s)"
    "cell h v = Some (Chars t)" "{n, k, v} \<inter> set (nodes xs) = {}"
  shows "\<exists>head' h'. link_header n head tail h = Inr (head', h') \<and> header_chain h' head' (xs @ [(n, k, v, s, t)]) \<and>
    length h' = length h \<and> live h' = live h \<and> (\<forall>a. a \<notin> set (nodes xs) \<longrightarrow> cell h' a = cell h a)"
proof (cases xs rule: rev_cases)
  case Nil
  then show ?thesis using assms by (auto simp: link_header_def)
next
  case (snoc ys y)
  obtain a k' v' s' t' where y: "y = (a, k', v', s', t')" by (cases y) auto
  have "head \<noteq> None" using assms(1) snoc by (cases ys) (auto simp: y)
  moreover obtain q where q: "cell h a = Some (Header_node (Some k') (Some v') q)"
    using assms(1) unfolding snoc y by (induction h head ys rule: header_chain.induct) auto
  ultimately have "link_header n head tail h =
      Inr (head, h[a := Some (Header_node (Some k') (Some v') (Some n))])"
    using assms(2) by (simp add: link_header_def snoc y loads)
  moreover have "header_chain (h[a := Some (Header_node (Some k') (Some v') (Some n))]) head (xs @ [(n, k, v, s, t)])"
    using header_chain_snoc [of h head ys a k' v' s' t' n k v s t] assms by (simp add: snoc y)
  ultimately show ?thesis
    using q live_update [of h a] by (simp add: snoc y)
qed

definition addrs_of :: "ptr \<Rightarrow> nat list" where
  "addrs_of p = (case p of None \<Rightarrow> [] | Some a \<Rightarrow> [a])"

definition text_at :: "heap \<Rightarrow> ptr \<Rightarrow> string option \<Rightarrow> bool" where
  "text_at h p s = (case p of None \<Rightarrow> s = None | Some a \<Rightarrow> (\<exists>x. s = Some x \<and> cell h a = Some (Chars x)))"

definition request_at :: "heap \<Rightarrow> nat \<Rightarrow> request \<Rightarrow> nat list \<Rightarrow> bool" where
  "request_at h p r F \<longleftrightarrow> (\<exists>n xs. cell h p = Some (Request_node n) \<and>
     rq_client_socket n = req_client_socket r \<and> rq_method n = req_method r \<and>
     text_at h (rq_url n) (req_url r) \<and> text_at h (rq_body n) (req_body r) \<and>
     header_chain h (rq_head n) xs \<and> end_of xs (rq_tail n) \<and> texts xs = req_headers r \<and>
     F = p # addrs_of (rq_url n) @ addrs_of (rq_body n) @ nodes xs \<and> distinct F)"

definition response_at :: "heap \<Rightarrow> nat \<Rightarrow> response \<Rightarrow> nat list \<Rightarrow> bool" where
  "response_at h p r F \<longleftrightarrow> (\<exists>n xs. cell h p = Some (Response_node n) \<and>
     rs_status n = res_status r \<and> text_at h (rs_body n) (res_body r) \<and>
     header_chain h (rs_head n) xs \<and> end_of xs (rs_tail n) \<and> texts xs = res_headers r \<and>
     F = p # addrs_of (rs_body n) @ nodes xs \<and> distinct F)"

text \<open>From a state in which \<open>F\<close> is owned to one in which \<open>F'\<close> is.\<close>

definition evolves :: "nat list \<Rightarrow> nat list \<Rightarrow> heap \<Rightarrow> heap \<Rightarrow> bool" where
  "evolves F F' h h' \<longleftrightarrow> length h \<le> length h' \<and>
     (\<forall>a < length h. a \<notin> set F \<longrightarrow> cell h' a = cell h a) \<and>
     set F' \<subseteq> set F \<union> {length h..<length h'}"

lemma addrs_of_simps [simp]: "addrs_of None = []" "addrs_of (Some a) = [a]"
  by (simp_all add: addrs_of_def)

lemma text_at_simps [simp]:
  "text_at h None s \<longleftrightarrow> s = None" "text_at h (Some a) s \<longleftrightarrow> (\<exists>x. s = Some x \<and> cell h a = Some (Chars x))"
  by (simp_all add: text_at_def)

lemma text_at_cong: "text_at h p s \<Longrightarrow> \<forall>a \<in> set (addrs_of p). cell h' a = cell h a \<Longrightarrow> text_at h' p s"
  by (cases p) auto

lemma text_at_live: "text_at h p s \<Longrightarrow> \<forall>a \<in> set (addrs_of p). cell h a \<noteq> None"
  by (cases p) auto

lemma evolves_refl: "evolves F F h h"
  by (simp add: evolves_def)

lemma evolves_trans:
  assumes "evolves F F' h h'" "evolves F' F'' h' h''"
  shows "evolves F F'' h h''"
proof -
  have l: "length h \<le> length h'" "length h' \<le> length h''"
    and s: "set F' \<subseteq> set F \<union> {length h..<length h'}" "set F'' \<subseteq> set F' \<union> {length h'..<length h''}"
    using assms by (simp_all add: evolves_def)
  have "cell h'' a = cell h a" if "a < length h" "a \<notin> set F" for a
  proof -
    have "a \<notin> set F'" using s(1) that by auto
    then show ?thesis using assms that l by (simp add: evolves_def)
  qed
  moreover have "set F'' \<subseteq> set F \<union> {length h..<length h''}" using s l by fastforce
  ultimately show ?thesis using l by (simp add: evolves_def)
qed

lemma evolves_keeps: "evolves F F' h h' \<Longrightarrow> cell h a = Some b \<Longrightarrow> a \<notin> set F \<Longrightarrow> cell h' a = Some b \<and> a \<notin> set F'"
  using cell_length [of h a b] by (auto simp: evolves_def subset_iff)

lemma request_at_frame:
  "request_at h p r F \<Longrightarrow> \<forall>a \<in> set F. cell h' a = cell h a \<Longrightarrow> request_at h' p r F"
  unfolding request_at_def by (elim exE conjE, intro exI conjI) (auto elim!: text_at_cong header_chain_cong)

lemma response_at_frame:
  "response_at h p r F \<Longrightarrow> \<forall>a \<in> set F. cell h' a = cell h a \<Longrightarrow> response_at h' p r F"
  unfolding response_at_def by (elim exE conjE, intro exI conjI) (auto elim!: text_at_cong header_chain_cong)

lemma cell_bound: "cell h a \<noteq> None \<Longrightarrow> a < length h"
  by (auto dest: cell_length)

lemma request_at_cells: "request_at h p r F \<Longrightarrow> a \<in> set F \<Longrightarrow> cell h a \<noteq> None"
  unfolding request_at_def
  by (elim exE conjE) (auto dest: bspec [OF text_at_live] bspec [OF header_chain_live] simp del: not_None_eq)

lemma response_at_cells: "response_at h p r F \<Longrightarrow> a \<in> set F \<Longrightarrow> cell h a \<noteq> None"
  unfolding response_at_def
  by (elim exE conjE) (auto dest: bspec [OF text_at_live] bspec [OF header_chain_live] simp del: not_None_eq)

lemmas request_at_bound = cell_bound [OF request_at_cells]

lemmas response_at_bound = cell_bound [OF response_at_cells]

lemma header_chain_bound: "header_chain h p xs \<Longrightarrow> a \<in> set (nodes xs) \<Longrightarrow> a < length h"
  using bspec [OF header_chain_live] cell_bound by blast

lemma header_chain_append: "header_chain h p xs \<Longrightarrow> header_chain (h @ [b]) p xs"
  by (rule header_chain_cong, assumption) (auto dest: header_chain_bound)

lemma request_at_append: "request_at h p r F \<Longrightarrow> request_at (h @ [b]) p r F"
  by (rule request_at_frame, assumption) (auto dest: request_at_bound)

lemma response_at_append: "response_at h p r F \<Longrightarrow> response_at (h @ [b]) p r F"
  by (rule response_at_frame, assumption) (auto dest: response_at_bound)

text \<open>The node is new, the list of the structure grows by it: both kinds of structure share this.\<close>

lemma new_header_linked:
  assumes "header_chain h head xs" "end_of xs tail" "distinct (nodes xs)"
    and "cell h n = Some (Header_node (Some k) (Some v) None)" "cell h k = Some (Chars s)"
    "cell h v = Some (Chars t)" "{n, k, v} \<inter> set (nodes xs) = {}" "distinct [n, k, v]"
  obtains head' h' where "link_header n head tail h = Inr (head', h')"
    "header_chain h' head' (xs @ [(n, k, v, s, t)])" "end_of (xs @ [(n, k, v, s, t)]) (Some n)"
    "distinct (nodes (xs @ [(n, k, v, s, t)]))" "length h' = length h" "live h' = live h"
    "\<And>a. a \<notin> set (nodes xs) \<Longrightarrow> cell h' a = cell h a"
  using link_header_chain [OF assms(1-7)] assms(3,7,8) by auto

lemma request_header_at:
  assumes r: "request_at h p r F" and k: "cell h k = Some (Chars s)" "cell h v = Some (Chars t)"
    "{k, v} \<inter> set F = {}" "k \<noteq> v"
  shows "\<exists>h' F'. request_header (Some p) (Some k) (Some v) h = Inr h' \<and>
    request_at h' p (add_header_to_request s t r) F' \<and> evolves (k # v # F) F' h h' \<and>
    live h' = Suc (live h) \<and> length F' = length F + 3"
proof -
  obtain n xs where n: "cell h p = Some (Request_node n)"
    "rq_client_socket n = req_client_socket r" "rq_method n = req_method r"
    "text_at h (rq_url n) (req_url r)" "text_at h (rq_body n) (req_body r)"
    "header_chain h (rq_head n) xs" "end_of xs (rq_tail n)" "texts xs = req_headers r"
    "F = p # addrs_of (rq_url n) @ addrs_of (rq_body n) @ nodes xs" "distinct F"
    using r by (auto simp: request_at_def)
  let ?N = "length h" and ?h1 = "h @ [Some (Header_node (Some k) (Some v) None)]"
  have b: "p < ?N" "k < ?N" "v < ?N" "?N \<notin> set F"
    using k(1,2) n(1) request_at_bound [OF r, of ?N] by (auto dest: cell_length)
  have "header_chain ?h1 (rq_head n) xs" using n(6) by (rule header_chain_append)
  then obtain head' h2 where h2: "link_header ?N (rq_head n) (rq_tail n) ?h1 = Inr (head', h2)"
    "header_chain h2 head' (xs @ [(?N, k, v, s, t)])" "end_of (xs @ [(?N, k, v, s, t)]) (Some ?N)"
    "distinct (nodes (xs @ [(?N, k, v, s, t)]))" "length h2 = length ?h1" "live h2 = live ?h1"
    "\<And>a. a \<notin> set (nodes xs) \<Longrightarrow> cell h2 a = cell ?h1 a"
    by (rule new_header_linked [where k = k and v = v and s = s and t = t and n = ?N, OF _ n(7)])
      (use n b k in auto)
  have p: "cell h2 p = Some (Request_node n)" using n b h2(7) [of p] by auto
  let ?h3 = "h2[p := Some (Request_node (n\<lparr>rq_head := head', rq_tail := Some ?N\<rparr>))]"
  let ?F = "p # addrs_of (rq_url n) @ addrs_of (rq_body n) @ nodes (xs @ [(?N, k, v, s, t)])"
  have F: "distinct ?F" "set ?F = insert ?N (insert k (insert v (set F)))"
    using n(9,10) h2(4) b k by auto
  have same: "cell ?h3 a = cell h a" if "a \<noteq> p" "a \<notin> set (nodes xs)" "a \<noteq> ?N" for a
    using that h2(7) [of a] by auto
  have run: "request_header (Some p) (Some k) (Some v) h = Inr ?h3"
    using b n(1) h2(1) p by (simp add: request_header_def malloc_def loads)
  have u: "text_at ?h3 (rq_url n) (req_url r)" "text_at ?h3 (rq_body n) (req_body r)"
    using n(9,10) b by (auto intro!: text_at_cong [OF n(4)] text_at_cong [OF n(5)] same)
  have c: "header_chain ?h3 head' (xs @ [(?N, k, v, s, t)])"
    using n(9,10) b k(3) by (intro header_chain_cong [OF h2(2)]) auto
  have "request_at ?h3 p (add_header_to_request s t r) ?F"
    unfolding request_at_def
    by (rule exI [of _ "n\<lparr>rq_head := head', rq_tail := Some ?N\<rparr>"], rule exI [of _ "xs @ [(?N, k, v, s, t)]"])
      (use n b c u F(1) h2(5) in \<open>simp add: add_header_to_request_def\<close>)
  moreover have "evolves (k # v # F) ?F h ?h3"
    unfolding evolves_def
  proof (intro conjI allI impI)
    show "length h \<le> length ?h3" using h2(5) by simp
    show "cell ?h3 a = cell h a" if "a < length h" "a \<notin> set (k # v # F)" for a
      using that n(9) by (intro same) auto
    show "set ?F \<subseteq> set (k # v # F) \<union> {length h..<length ?h3}" using F(2) h2(5) by auto
  qed
  moreover have "live ?h3 = Suc (live h)" using live_update [of h2 p] p h2(6) by simp
  ultimately show ?thesis using run n(9) by (intro exI conjI) (assumption, assumption, assumption, assumption, simp)
qed

lemma response_header_at:
  assumes r: "response_at h p r F"
  shows "\<exists>h' F'. response_header (Some p) s t h = Inr h' \<and>
    response_at h' p (add_header_to_response s t r) F' \<and> evolves F F' h h' \<and>
    live h' = live h + 3 \<and> length F' = length F + 3"
proof -
  obtain n xs where n: "cell h p = Some (Response_node n)"
    "rs_status n = res_status r" "text_at h (rs_body n) (res_body r)"
    "header_chain h (rs_head n) xs" "end_of xs (rs_tail n)" "texts xs = res_headers r"
    "F = p # addrs_of (rs_body n) @ nodes xs" "distinct F"
    using r by (auto simp: response_at_def)
  let ?N = "length h"
  let ?g = "((h @ [Some (Header_node None None None)]) @ [Some (Chars s)]) @ [Some (Chars t)]"
  define h1 where "h1 = ?g[?N := Some (Header_node (Some (Suc ?N)) (Some (Suc (Suc ?N))) None)]"
  let ?y = "(?N, Suc ?N, Suc (Suc ?N), s, t)"
  have b: "p < ?N" "\<And>a. a \<in> set F \<Longrightarrow> a < ?N"
    using n(1) request_at_bound response_at_bound [OF r] by (auto dest: cell_length)
  have fresh: "?N \<notin> set F" "Suc ?N \<notin> set F" "Suc (Suc ?N) \<notin> set F"
    using b(2) [of ?N] b(2) [of "Suc ?N"] b(2) [of "Suc (Suc ?N)"] by auto
  have h1: "cell h1 a = cell h a" if "a < ?N" for a using that by (simp add: h1_def cell_def nth_append)
  have new: "cell h1 ?N = Some (Header_node (Some (Suc ?N)) (Some (Suc (Suc ?N))) None)"
    "cell h1 (Suc ?N) = Some (Chars s)" "cell h1 (Suc (Suc ?N)) = Some (Chars t)"
    "length h1 = ?N + 3" "live h1 = live h + 3"
    using live_update [of ?g ?N] by (simp_all add: h1_def cell_def nth_append)
  have "header_chain h1 (rs_head n) xs" using n(4) by (rule header_chain_cong) (use header_chain_bound [OF n(4)] h1 in blast)
  then obtain head' h2 where h2: "link_header ?N (rs_head n) (rs_tail n) h1 = Inr (head', h2)"
    "header_chain h2 head' (xs @ [?y])" "end_of (xs @ [?y]) (Some ?N)"
    "distinct (nodes (xs @ [?y]))" "length h2 = length h1" "live h2 = live h1"
    "\<And>a. a \<notin> set (nodes xs) \<Longrightarrow> cell h2 a = cell h1 a"
    by (rule new_header_linked [where k = "Suc ?N" and v = "Suc (Suc ?N)" and s = s and t = t and n = ?N, OF _ n(5)])
      (use n b fresh new in auto)
  have p: "cell h2 p = Some (Response_node n)" using n(1,7,8) b(1) h2(7) [of p] h1 [of p] by simp
  let ?h3 = "h2[p := Some (Response_node (n\<lparr>rs_head := head', rs_tail := Some ?N\<rparr>))]"
  let ?F = "p # addrs_of (rs_body n) @ nodes (xs @ [?y])"
  have F: "distinct ?F" "set ?F = {?N, Suc ?N, Suc (Suc ?N)} \<union> set F"
    using n(7,8) h2(4) fresh by auto
  have same: "cell ?h3 a = cell h a" if "a \<noteq> p" "a \<notin> set (nodes xs)" "a < ?N" for a
    using that h2(7) [of a] h1 [of a] by simp
  have "store (Some ?N) (Header_node (Some (Suc ?N)) (Some (Suc (Suc ?N))) None) ?g = Inr h1"
    unfolding h1_def by (rule store_cell) (simp add: cell_def nth_append)
  then have run: "response_header (Some p) s t h = Inr ?h3"
    using h2(1) p h1 [OF b(1)] n(1)
    by (simp add: response_header_def malloc_def loads del: cell_update)
  have u: "text_at ?h3 (rs_body n) (res_body r)"
    using n(7,8) b by (intro text_at_cong [OF n(3)] ballI same) auto
  have c: "header_chain ?h3 head' (xs @ [?y])"
    using n(7,8) b(1) by (intro header_chain_cong [OF h2(2)]) auto
  have "response_at ?h3 p (add_header_to_response s t r) ?F"
    unfolding response_at_def
    by (rule exI [of _ "n\<lparr>rs_head := head', rs_tail := Some ?N\<rparr>"], rule exI [of _ "xs @ [?y]"])
      (use n cell_length [OF p] c u F(1) in \<open>simp add: add_header_to_response_def\<close>)
  moreover have "evolves F ?F h ?h3"
    unfolding evolves_def
  proof (intro conjI allI impI)
    show "length h \<le> length ?h3" using h2(5) new(4) by simp
    show "cell ?h3 a = cell h a" if "a < length h" "a \<notin> set F" for a
      using that n(7) by (intro same) auto
    show "set ?F \<subseteq> set F \<union> {length h..<length ?h3}" using F(2) h2(5) new(4) by auto
  qed
  moreover have "live ?h3 = live h + 3" using live_update [of h2 p] p h2(6) new(5) by simp
  ultimately show ?thesis using run n(7) by (intro exI conjI) (assumption, assumption, assumption, assumption, simp)
qed

section \<open>Assignments\<close>

lemma stored_evolves: "p \<in> set F \<Longrightarrow> set F' \<subseteq> set F \<Longrightarrow> evolves F F' h (h[p := b])"
  by (auto simp: evolves_def)

lemma set_request_cell:
  "cell h p = Some (Request_node n) \<Longrightarrow>
   set_request (Some p) f h = Inr (h[p := Some (Request_node (f n))]) \<and>
   live (h[p := Some (Request_node (f n))]) = live h"
  using live_update [of h p] by (simp add: loads)

lemma set_response_cell:
  "cell h p = Some (Response_node n) \<Longrightarrow>
   set_response (Some p) f h = Inr (h[p := Some (Response_node (f n))]) \<and>
   live (h[p := Some (Response_node (f n))]) = live h"
  using live_update [of h p] by (simp add: loads)

text \<open>The contents that a structure points to do not change when its own block does.\<close>

lemma update_elsewhere: "text_at h q s \<Longrightarrow> a \<notin> set (addrs_of q) \<Longrightarrow> text_at (h[a := b]) q s"
  by (erule text_at_cong) auto

lemma header_chain_elsewhere: "header_chain h q xs \<Longrightarrow> a \<notin> set (nodes xs) \<Longrightarrow> header_chain (h[a := b]) q xs"
  by (erule header_chain_cong) auto

lemma request_socket_at:
  assumes "request_at h p r F"
  shows "\<exists>h'. set_request (Some p) (\<lambda>r. r\<lparr>rq_client_socket := x\<rparr>) h = Inr h' \<and>
    request_at h' p (r\<lparr>req_client_socket := x\<rparr>) F \<and> evolves F F h h' \<and> live h' = live h"
proof -
  obtain n xs where n: "cell h p = Some (Request_node n)" "rq_method n = req_method r"
    "text_at h (rq_url n) (req_url r)" "text_at h (rq_body n) (req_body r)"
    "header_chain h (rq_head n) xs" "end_of xs (rq_tail n)" "texts xs = req_headers r"
    "F = p # addrs_of (rq_url n) @ addrs_of (rq_body n) @ nodes xs" "distinct F"
    using assms by (auto simp: request_at_def)
  note there = update_elsewhere [OF n(3)] update_elsewhere [OF n(4)] header_chain_elsewhere [OF n(5)]
  show ?thesis
    using set_request_cell [OF n(1), of "\<lambda>r. r\<lparr>rq_client_socket := x\<rparr>"] n there cell_length [OF n(1)]
    by (auto simp: request_at_def intro!: stored_evolves exI [of _ "n\<lparr>rq_client_socket := x\<rparr>"] exI [of _ xs])
qed

lemma request_assign:
  assumes "request_at h p r F" "cell h a = Some (Chars s)" "a \<notin> set F"
  shows "req_url r = None \<Longrightarrow> \<exists>h' F'. set_request (Some p) (\<lambda>r. r\<lparr>rq_url := Some a\<rparr>) h = Inr h' \<and>
      request_at h' p (r\<lparr>req_url := Some s\<rparr>) F' \<and> evolves (a # F) F' h h' \<and> live h' = live h \<and>
      length F' = Suc (length F)"
    and "req_body r = None \<Longrightarrow> \<exists>h' F'. set_request (Some p) (\<lambda>r. r\<lparr>rq_body := Some a\<rparr>) h = Inr h' \<and>
      request_at h' p (r\<lparr>req_body := Some s\<rparr>) F' \<and> evolves (a # F) F' h h' \<and> live h' = live h \<and>
      length F' = Suc (length F)"
    and "req_body r = None \<Longrightarrow> \<exists>h'. set_request (Some p) (\<lambda>r. r\<lparr>rq_body := None\<rparr>) h = Inr h' \<and>
      request_at h' p r F \<and> evolves F F h h' \<and> live h' = live h"
proof -
  obtain n xs where n: "cell h p = Some (Request_node n)"
    "rq_client_socket n = req_client_socket r" "rq_method n = req_method r"
    "text_at h (rq_url n) (req_url r)" "text_at h (rq_body n) (req_body r)"
    "header_chain h (rq_head n) xs" "end_of xs (rq_tail n)" "texts xs = req_headers r"
    "F = p # addrs_of (rq_url n) @ addrs_of (rq_body n) @ nodes xs" "distinct F"
    using assms(1) by (auto simp: request_at_def)
  have p: "p < length h" "a \<noteq> p" using n(1) assms(2,3) n(9) by (auto dest: cell_length)
  note there = update_elsewhere [OF n(4)] update_elsewhere [OF n(5)] header_chain_elsewhere [OF n(6)]
  show "\<exists>h' F'. set_request (Some p) (\<lambda>r. r\<lparr>rq_url := Some a\<rparr>) h = Inr h' \<and>
      request_at h' p (r\<lparr>req_url := Some s\<rparr>) F' \<and> evolves (a # F) F' h h' \<and> live h' = live h \<and>
      length F' = Suc (length F)" if "req_url r = None"
  proof -
    have "rq_url n = None" using n(4) that by (cases "rq_url n") auto
    then have "request_at (h[p := Some (Request_node (n\<lparr>rq_url := Some a\<rparr>))]) p (r\<lparr>req_url := Some s\<rparr>)
        (p # a # addrs_of (rq_body n) @ nodes xs)"
      unfolding request_at_def using n p there assms(2,3)
      by (intro exI [of _ "n\<lparr>rq_url := Some a\<rparr>"] exI [of _ xs]) auto
    moreover have "evolves (a # F) (p # a # addrs_of (rq_body n) @ nodes xs) h
        (h[p := Some (Request_node (n\<lparr>rq_url := Some a\<rparr>))])"
      using n(9) by (intro stored_evolves) auto
    moreover have "length (p # a # addrs_of (rq_body n) @ nodes xs) = Suc (length F)"
      using n(9) \<open>rq_url n = None\<close> by simp
    ultimately show ?thesis
      using set_request_cell [OF n(1), of "\<lambda>r. r\<lparr>rq_url := Some a\<rparr>"] by blast
  qed
  show "\<exists>h' F'. set_request (Some p) (\<lambda>r. r\<lparr>rq_body := Some a\<rparr>) h = Inr h' \<and>
      request_at h' p (r\<lparr>req_body := Some s\<rparr>) F' \<and> evolves (a # F) F' h h' \<and> live h' = live h \<and>
      length F' = Suc (length F)" if "req_body r = None"
  proof -
    have "rq_body n = None" using n(5) that by (cases "rq_body n") auto
    then have "request_at (h[p := Some (Request_node (n\<lparr>rq_body := Some a\<rparr>))]) p (r\<lparr>req_body := Some s\<rparr>)
        (p # addrs_of (rq_url n) @ a # nodes xs)"
      unfolding request_at_def using n p there assms(2,3)
      by (intro exI [of _ "n\<lparr>rq_body := Some a\<rparr>"] exI [of _ xs]) auto
    moreover have "evolves (a # F) (p # addrs_of (rq_url n) @ a # nodes xs) h
        (h[p := Some (Request_node (n\<lparr>rq_body := Some a\<rparr>))])"
      using n(9) by (intro stored_evolves) auto
    moreover have "length (p # addrs_of (rq_url n) @ a # nodes xs) = Suc (length F)"
      using n(9) \<open>rq_body n = None\<close> by simp
    ultimately show ?thesis
      using set_request_cell [OF n(1), of "\<lambda>r. r\<lparr>rq_body := Some a\<rparr>"] by blast
  qed
  show "\<exists>h'. set_request (Some p) (\<lambda>r. r\<lparr>rq_body := None\<rparr>) h = Inr h' \<and>
      request_at h' p r F \<and> evolves F F h h' \<and> live h' = live h" if "req_body r = None"
  proof -
    have "rq_body n = None" using n(5) that by (cases "rq_body n") auto
    then show ?thesis
      using set_request_cell [OF n(1), of "\<lambda>r. r\<lparr>rq_body := None\<rparr>"] n p there
      by (auto simp: request_at_def intro!: stored_evolves exI [of _ n] exI [of _ xs])
  qed
qed

lemma response_assign:
  assumes "response_at h p r F"
  shows "res_headers r = [] \<Longrightarrow>
      \<exists>h'. set_response (Some p) (\<lambda>r. r\<lparr>rs_status := i, rs_head := None, rs_tail := None\<rparr>) h = Inr h' \<and>
      response_at h' p (r\<lparr>res_status := i, res_headers := []\<rparr>) F \<and> evolves F F h h' \<and> live h' = live h"
    and "res_body r = None \<Longrightarrow> cell h a = Some (Chars s) \<Longrightarrow> a \<notin> set F \<Longrightarrow>
      \<exists>h' F'. set_response (Some p) (\<lambda>r. r\<lparr>rs_body := Some a\<rparr>) h = Inr h' \<and>
      response_at h' p (r\<lparr>res_body := Some s\<rparr>) F' \<and> evolves (a # F) F' h h' \<and> live h' = live h \<and>
      length F' = Suc (length F)"
proof -
  obtain n xs where n: "cell h p = Some (Response_node n)"
    "rs_status n = res_status r" "text_at h (rs_body n) (res_body r)"
    "header_chain h (rs_head n) xs" "end_of xs (rs_tail n)" "texts xs = res_headers r"
    "F = p # addrs_of (rs_body n) @ nodes xs" "distinct F"
    using assms by (auto simp: response_at_def)
  have p: "p < length h" using n(1) by (rule cell_length)
  note there = update_elsewhere [OF n(3)] header_chain_elsewhere [OF n(4)]
  let ?n = "n\<lparr>rs_status := i, rs_head := None, rs_tail := None\<rparr>"
  show "\<exists>h'. set_response (Some p) (\<lambda>r. r\<lparr>rs_status := i, rs_head := None, rs_tail := None\<rparr>) h = Inr h' \<and>
      response_at h' p (r\<lparr>res_status := i, res_headers := []\<rparr>) F \<and> evolves F F h h' \<and> live h' = live h"
    if "res_headers r = []"
  proof -
    have "xs = []" using n(6) that by (auto simp: texts_def)
    then have "response_at (h[p := Some (Response_node ?n)]) p (r\<lparr>res_status := i, res_headers := []\<rparr>) F"
      unfolding response_at_def using n p there by (intro exI [of _ ?n] exI [of _ "[]"]) auto
    moreover have "evolves F F h (h[p := Some (Response_node ?n)])"
      using n(7) by (intro stored_evolves) auto
    ultimately show ?thesis
      using set_response_cell [OF n(1), of "\<lambda>r. r\<lparr>rs_status := i, rs_head := None, rs_tail := None\<rparr>"] by blast
  qed
  show "\<exists>h' F'. set_response (Some p) (\<lambda>r. r\<lparr>rs_body := Some a\<rparr>) h = Inr h' \<and>
      response_at h' p (r\<lparr>res_body := Some s\<rparr>) F' \<and> evolves (a # F) F' h h' \<and> live h' = live h \<and>
      length F' = Suc (length F)" if b: "res_body r = None" and a: "cell h a = Some (Chars s)" "a \<notin> set F"
  proof -
    have "rs_body n = None" using n(3) b by (cases "rs_body n") auto
    then have "response_at (h[p := Some (Response_node (n\<lparr>rs_body := Some a\<rparr>))]) p (r\<lparr>res_body := Some s\<rparr>)
        (p # a # nodes xs)"
      unfolding response_at_def using n p there a
      by (intro exI [of _ "n\<lparr>rs_body := Some a\<rparr>"] exI [of _ xs]) auto
    moreover have "evolves (a # F) (p # a # nodes xs) h (h[p := Some (Response_node (n\<lparr>rs_body := Some a\<rparr>))])"
      using n(7) by (intro stored_evolves) auto
    moreover have "length (p # a # nodes xs) = Suc (length F)" using n(7) \<open>rs_body n = None\<close> by simp
    ultimately show ?thesis
      using set_response_cell [OF n(1), of "\<lambda>r. r\<lparr>rs_body := Some a\<rparr>"] by blast
  qed
qed

section \<open>Reading\<close>

lemma load_text_at: "text_at h p s \<Longrightarrow> load_chars p h = strdup s"
  by (auto simp: text_at_def strdup_def load_chars_def load_def split: option.splits)

lemma load_request_at: "request_at h p r F \<Longrightarrow> \<exists>n. load_request (Some p) h = Inr n \<and>
    rq_client_socket n = req_client_socket r \<and> rq_method n = req_method r \<and>
    load_chars (rq_url n) h = strdup (req_url r)"
  unfolding request_at_def load_request_def by (elim exE conjE) (simp add: load_cell load_text_at)

lemma header_chain_length:
  assumes "header_chain h p xs" "distinct (nodes xs)"
  shows "length xs \<le> length h"
proof -
  have "set (nodes xs) \<subseteq> {..<length h}" using header_chain_bound [OF assms(1)] by auto
  from card_mono [OF _ this] have "length (nodes xs) \<le> length h"
    using distinct_card [OF assms(2)] by simp
  then show ?thesis by (simp add: length_nodes)
qed

lemma print_list_at:
  "header_chain h p xs \<Longrightarrow> length xs \<le> n \<Longrightarrow> print_list n p h buffer = print_headers (texts xs) buffer"
proof (induction xs arbitrary: n p buffer)
  case (Cons x xs)
  obtain a k v s t where x: "x = (a, k, v, s, t)" by (cases x) auto
  then obtain q m where q: "p = Some a" "cell h a = Some (Header_node (Some k) (Some v) q)" "header_chain h q xs"
    "cell h k = Some (Chars s)" "cell h v = Some (Chars t)" "n = Suc m"
    using Cons.prems by (cases n) auto
  have "print_list m q h = print_headers (texts xs)"
    using Cons.IH [OF q(3)] Cons.prems(2) q(6) by (intro ext) simp
  then show ?case using q by (simp add: x loads)
qed simp

lemma response_memory_at:
  assumes "response_at h p r F"
  shows "response_memory (Some p) h =
    bindE (response_to_string r) (\<lambda>s. Inr (length h, s, h @ [Some (Chars s)]))"
proof -
  let ?h = "h @ [Some (Chars [])]"
  obtain n xs where n: "cell ?h p = Some (Response_node n)" "rs_status n = res_status r"
    "text_at ?h (rs_body n) (res_body r)" "header_chain ?h (rs_head n) xs" "texts xs = res_headers r" "distinct (nodes xs)"
    using response_at_append [OF assms, of "Some (Chars [])"] by (auto simp: response_at_def)
  have p: "print_list (length ?h) (rs_head n) ?h = print_headers (res_headers r)"
    using print_list_at [OF n(4) header_chain_length [OF n(4,6)]] n(5) by (intro ext) simp
  have b: "(if rs_body n = None then Inr s else bindE (load_chars (rs_body n) ?h) (\<lambda>body. f body)) =
      (case res_body r of None \<Rightarrow> Inr s | Some body \<Rightarrow> f body)" for s f
    using n(3) by (auto simp: text_at_def loads split: option.splits)
  have w: "store (Some (length h)) (Chars s) ?h = Inr (h @ [Some (Chars s)])" for s
    by (simp add: store_def load_def)
  show ?thesis
    unfolding response_memory_def response_to_string_def malloc_def Let_def prod.case
    by (simp only: load_response_def load_cell [OF n(1)] bindE.simps block.case p n(2) b w bindE_assoc)
qed

section \<open>Release\<close>

text \<open>What a release does to the heap: \<open>n\<close> blocks of \<open>F\<close> are gone, the others are as they were.\<close>

definition released :: "nat \<Rightarrow> nat set \<Rightarrow> heap \<Rightarrow> heap \<Rightarrow> bool" where
  "released n S h h' \<longleftrightarrow> length h' = length h \<and> live h = live h' + n \<and>
     (\<forall>a. a \<notin> S \<longrightarrow> cell h' a = cell h a)"

lemma released_trans:
  "released m S h h' \<Longrightarrow> released n T h' h'' \<Longrightarrow> released (m + n) (S \<union> T) h h''"
  by (auto simp: released_def)

lemma released_mono: "released n S h h' \<Longrightarrow> S \<subseteq> T \<Longrightarrow> released n T h h'"
  by (auto simp: released_def)

lemma free_released: "cell h a = Some b \<Longrightarrow> \<exists>h'. free (Some a) h = Inr h' \<and> released 1 {a} h h'"
  using live_update [of h a] by (simp add: free_cell released_def)

lemma free_text:
  "text_at h p s \<Longrightarrow> \<exists>h'. free p h = Inr h' \<and> released (length (addrs_of p)) (set (addrs_of p)) h h'"
  by (cases p) (auto simp: released_def dest: free_released)

lemma free_headers_at:
  "header_chain h p xs \<Longrightarrow> distinct (nodes xs) \<Longrightarrow>
   \<exists>h'. free_headers p h = Inr h' \<and> released (length xs) (set (map fst xs)) h h'"
proof (induction xs arbitrary: h p)
  case (Cons x xs)
  obtain a k v s t where x: "x = (a, k, v, s, t)" by (cases x) auto
  obtain q where q: "p = Some a" "cell h a = Some (Header_node (Some k) (Some v) q)" "header_chain h q xs"
    using Cons.prems(1) x by auto
  obtain h1 where h1: "free (Some a) h = Inr h1" "released 1 {a} h h1" using free_released [OF q(2)] by blast
  have "header_chain h1 q xs"
    by (rule header_chain_cong [OF q(3)]) (use h1(2) Cons.prems(2) x in \<open>auto simp: released_def\<close>)
  then obtain h2 where h2: "free_headers q h1 = Inr h2" "released (length xs) (set (map fst xs)) h1 h2"
    using Cons.IH Cons.prems(2) x by auto
  have "free_headers p h = Inr h2"
    using q h1(1) h2(1) by (subst free_headers.simps) (simp add: loads)
  then show ?case using released_trans [OF h1(2) h2(2)] by (simp add: x)
qed (simp add: free_headers.simps released_def)

lemma set_fst_nodes: "set (map fst xs) \<subseteq> set (nodes xs)"
  by (induction xs) auto

lemma released_cell: "released n S h h' \<Longrightarrow> a \<notin> S \<Longrightarrow> cell h' a = cell h a"
  by (simp add: released_def)

lemma released_text: "released n S h h' \<Longrightarrow> text_at h p s \<Longrightarrow> set (addrs_of p) \<inter> S = {} \<Longrightarrow> text_at h' p s"
  by (auto simp: released_def elim!: text_at_cong)

lemma free_req_at:
  assumes "request_at h p r F"
  shows "\<exists>h' n. free_req (Some p) h = Inr h' \<and> released n (set F) h h' \<and>
    n + 2 * length (req_headers r) = length F"
proof -
  obtain n xs where n: "cell h p = Some (Request_node n)"
    "text_at h (rq_url n) (req_url r)" "text_at h (rq_body n) (req_body r)"
    "header_chain h (rq_head n) xs" "texts xs = req_headers r"
    "F = p # addrs_of (rq_url n) @ addrs_of (rq_body n) @ nodes xs" "distinct F"
    using assms by (auto simp: request_at_def)
  let ?X = "set (map fst xs)"
  have X: "?X \<inter> set (addrs_of (rq_url n)) = {}" "?X \<inter> set (addrs_of (rq_body n)) = {}" "p \<notin> ?X"
    using n(6,7) set_fst_nodes [of xs] by auto
  obtain h1 where h1: "free_headers (rq_head n) h = Inr h1" "released (length xs) ?X h h1"
    using free_headers_at [OF n(4)] n(6,7) by auto
  have t1: "text_at h1 (rq_url n) (req_url r)" "text_at h1 (rq_body n) (req_body r)" "cell h1 p = Some (Request_node n)"
    using released_text [OF h1(2) n(2)] released_text [OF h1(2) n(3)] released_cell [OF h1(2) X(3)] X n(1) by auto
  obtain h2 where h2: "free (rq_url n) h1 = Inr h2"
    "released (length (addrs_of (rq_url n))) (set (addrs_of (rq_url n))) h1 h2"
    using free_text [OF t1(1)] by blast
  have t2: "text_at h2 (rq_body n) (req_body r)" "cell h2 p = Some (Request_node n)"
    using released_text [OF h2(2) t1(2)] released_cell [OF h2(2), of p] n(6,7) t1(3) by auto
  obtain h3 where h3: "free (rq_body n) h2 = Inr h3"
    "released (length (addrs_of (rq_body n))) (set (addrs_of (rq_body n))) h2 h3"
    using free_text [OF t2(1)] by blast
  have t3: "cell h3 p = Some (Request_node n)" using released_cell [OF h3(2), of p] n(6,7) t2(2) by auto
  obtain h4 where h4: "free (Some p) h3 = Inr h4" "released 1 {p} h3 h4" using free_released [OF t3] by blast
  have "free_req (Some p) h = Inr h4"
    using n(1) h1(1) t1(3) h2(1) t2(2) h3(1) h4(1) by (simp add: free_req_def loads)
  moreover have "released (length xs + length (addrs_of (rq_url n)) + length (addrs_of (rq_body n)) + 1)
      (?X \<union> set (addrs_of (rq_url n)) \<union> set (addrs_of (rq_body n)) \<union> {p}) h h4"
    using released_trans [OF released_trans [OF released_trans [OF h1(2) h2(2)] h3(2)] h4(2)] .
  then have "released (length xs + length (addrs_of (rq_url n)) + length (addrs_of (rq_body n)) + 1) (set F) h h4"
    by (rule released_mono) (use set_fst_nodes [of xs] in \<open>unfold n(6) list.set set_append, blast\<close>)
  moreover have "length (req_headers r) = length xs" using arg_cong [OF n(5), of length] by simp
  ultimately show ?thesis using n(6) by (intro exI conjI) (assumption, assumption, simp add: length_nodes)
qed

lemma free_res_at:
  assumes "response_at h p r F"
  shows "\<exists>h' n. free_res (Some p) h = Inr h' \<and> released n (set F) h h' \<and>
    n + 2 * length (res_headers r) = length F"
proof -
  obtain n xs where n: "cell h p = Some (Response_node n)" "text_at h (rs_body n) (res_body r)"
    "header_chain h (rs_head n) xs" "texts xs = res_headers r"
    "F = p # addrs_of (rs_body n) @ nodes xs" "distinct F"
    using assms by (auto simp: response_at_def)
  let ?X = "set (map fst xs)"
  have X: "?X \<inter> set (addrs_of (rs_body n)) = {}" "p \<notin> ?X"
    using n(5,6) set_fst_nodes [of xs] by auto
  obtain h1 where h1: "free_headers (rs_head n) h = Inr h1" "released (length xs) ?X h h1"
    using free_headers_at [OF n(3)] n(5,6) by auto
  have t1: "text_at h1 (rs_body n) (res_body r)" "cell h1 p = Some (Response_node n)"
    using released_text [OF h1(2) n(2)] released_cell [OF h1(2) X(2)] X n(1) by auto
  obtain h2 where h2: "free (rs_body n) h1 = Inr h2"
    "released (length (addrs_of (rs_body n))) (set (addrs_of (rs_body n))) h1 h2"
    using free_text [OF t1(1)] by blast
  have t2: "cell h2 p = Some (Response_node n)" using released_cell [OF h2(2), of p] n(5,6) t1(2) by auto
  obtain h3 where h3: "free (Some p) h2 = Inr h3" "released 1 {p} h2 h3" using free_released [OF t2] by blast
  have "free_res (Some p) h = Inr h3"
    using n(1) h1(1) t1(2) h2(1) h3(1) by (simp add: free_res_def loads)
  moreover have "released (length xs + length (addrs_of (rs_body n)) + 1)
      (?X \<union> set (addrs_of (rs_body n)) \<union> {p}) h h3"
    using released_trans [OF released_trans [OF h1(2) h2(2)] h3(2)] .
  then have "released (length xs + length (addrs_of (rs_body n)) + 1) (set F) h h3"
    by (rule released_mono) (use set_fst_nodes [of xs] in \<open>unfold n(5) list.set set_append, blast\<close>)
  moreover have "length (res_headers r) = length xs" using arg_cong [OF n(4), of length] by simp
  ultimately show ?thesis using n(5) by (intro exI conjI) (assumption, assumption, simp add: length_nodes)
qed

end
