(* ===== verification/HandlersMemoryProofs.thy ===== *)
theory HandlersMemoryProofs
  imports HeapStructures
begin

text \<open>
  The parser, the pages, the downloads and \<open>handler\<close> itself: on the heap they do what they do on
  values, and how many blocks are left when a connection is closed.
\<close>

section \<open>Parsing\<close>

text \<open>An operation on the request at \<open>p\<close> that allocates nothing but what the request then owns.\<close>

definition request_step :: "nat \<Rightarrow> nat list \<Rightarrow> heap \<Rightarrow> request \<Rightarrow> heap \<Rightarrow> bool" where
  "request_step p F h r' h' \<longleftrightarrow>
     (\<exists>F'. request_at h' p r' F' \<and> evolves F F' h h' \<and> live h' + length F = live h + length F')"

lemma request_stepI:
  "request_at h' p r' F' \<Longrightarrow> evolves F F' h h' \<Longrightarrow> live h' + length F = live h + length F' \<Longrightarrow>
   request_step p F h r' h'"
  by (auto simp: request_step_def)

lemma request_step_trans:
  assumes "request_at h1 p r1 F1" "evolves F F1 h h1" "live h1 + length F = live h + length F1"
    and "request_step p F1 h1 r2 h2"
  shows "request_step p F h r2 h2"
proof -
  obtain F2 where "request_at h2 p r2 F2" "evolves F1 F2 h1 h2" "live h2 + length F1 = live h1 + length F2"
    using assms(4) by (auto simp: request_step_def)
  then show ?thesis using assms(3) by (intro request_stepI evolves_trans [OF assms(2)]) auto
qed

text \<open>Fresh blocks, filled before the structure points to them.\<close>

lemma evolves_fresh:
  assumes "evolves (xs @ F) F' (h @ ys) h'" "set xs \<subseteq> {length h..<length (h @ ys)}"
  shows "evolves F F' h h'"
proof -
  have "cell h' a = cell h a" if "a < length h" "a \<notin> set F" for a
  proof -
    have "a \<notin> set (xs @ F)" using that assms(2) by force
    then show ?thesis using assms(1) that by (simp add: evolves_def) (simp add: cell_def nth_append)
  qed
  then show ?thesis using assms unfolding evolves_def by fastforce
qed

lemma header_memory_parse:
  "header_memory line h = bindE (parse_header line) (\<lambda>(k, v).
     Inr (length h, Suc (length h), (h @ [Some (Chars k)]) @ [Some (Chars v)]))"
proof -
  obtain k st where k: "strtok_r '':'' line = (k, st)" by force
  obtain v st' where v: "strtok_r '' '' st = (v, st')" by force
  show ?thesis by (simp add: header_memory_def parse_header_def dup_def malloc_def bindE_assoc k v)
qed

lemma parsed_header_at:
  assumes "request_at h p r F"
  shows "\<exists>h'. request_header (Some p) (Some (length h)) (Some (Suc (length h)))
      ((h @ [Some (Chars k)]) @ [Some (Chars v)]) = Inr h' \<and>
    request_step p F h (add_header_to_request k v r) h'"
proof -
  let ?h = "(h @ [Some (Chars k)]) @ [Some (Chars v)]"
  have r: "request_at ?h p r F" by (intro request_at_append assms)
  have new: "{length h, Suc (length h)} \<inter> set F = {}" using request_at_bound [OF assms, of "length h"] request_at_bound [OF assms, of "Suc (length h)"] by auto
  from request_header_at [OF r _ _ new, of k v] obtain h' F' where
    h': "request_header (Some p) (Some (length h)) (Some (Suc (length h))) ?h = Inr h'"
    "request_at h' p (add_header_to_request k v r) F'"
    "evolves (length h # Suc (length h) # F) F' ?h h'" "live h' = Suc (live ?h)" "length F' = length F + 3"
    by (auto simp: cell_def nth_append)
  have "evolves F F' h h'"
    using evolves_fresh [of "[length h, Suc (length h)]" F F' h "[Some (Chars k), Some (Chars v)]" h'] h'(3) by simp
  then show ?thesis using h' by (auto intro: request_stepI)
qed

lemma header_loop_at:
  "request_at h p r F \<Longrightarrow>
   (case header_loop line state1 r of Inl e \<Rightarrow> header_loop_memory (Some p) line state1 h = Inl e
    | Inr (state2, r') \<Rightarrow> \<exists>h'. header_loop_memory (Some p) line state1 h = Inr (state2, h') \<and>
        request_step p F h r' h' \<and> req_body r' = req_body r \<and> req_url r' = req_url r)"
proof (induction line state1 r arbitrary: h F rule: header_loop.induct)
  case (1 line state1 r)
  show ?case
  proof (cases line)
    case None
    then show ?thesis
      using 1 by (auto simp: header_loop.simps header_loop_memory.simps intro: request_stepI evolves_refl)
  next
    case (Some l)
    show ?thesis
    proof (cases "parse_header l")
      case (Inl e)
      then show ?thesis
        by (simp add: Some header_loop.simps header_loop_memory.simps header_memory_parse)
    next
      case (Inr kv)
      obtain k v where kv: "kv = (k, v)" by force
      obtain h1 F1 where h1: "request_header (Some p) (Some (length h)) (Some (Suc (length h)))
          ((h @ [Some (Chars k)]) @ [Some (Chars v)]) = Inr h1"
        "request_at h1 p (add_header_to_request k v r) F1" "evolves F F1 h h1"
        "live h1 + length F = live h + length F1"
        using parsed_header_at [OF 1(2), of k v] by (auto simp: request_step_def)
      show ?thesis
      proof (cases "at_blank_line state1")
        case True
        then show ?thesis
          using h1 by (auto simp: Some Inr kv header_loop.simps [of "Some l"]
              header_loop_memory.simps [of _ "Some l"] header_memory_parse add_header_to_request_def
              intro: request_stepI)
      next
        case False
        obtain l' st' where n: "strtok_r [CR, LF] state1 = (l', st')" by force
        have IH: "case header_loop l' st' (add_header_to_request k v r) of
            Inl e \<Rightarrow> header_loop_memory (Some p) l' st' h1 = Inl e
          | Inr (state2, r') \<Rightarrow> \<exists>h'. header_loop_memory (Some p) l' st' h1 = Inr (state2, h') \<and>
              request_step p F1 h1 r' h' \<and> req_body r' = req_body (add_header_to_request k v r) \<and>
              req_url r' = req_url (add_header_to_request k v r)"
          using 1(1) [OF Some Inr _ refl False _ h1(2)] kv n by simp
        have e: "header_loop line state1 r = header_loop l' st' (add_header_to_request k v r)"
          "header_loop_memory (Some p) line state1 h = header_loop_memory (Some p) l' st' h1"
          using False h1(1) by (simp_all add: Some Inr kv n header_loop.simps [of "Some l"]
              header_loop_memory.simps [of _ "Some l"] header_memory_parse)
        show ?thesis
          using IH request_step_trans [OF h1(2-4)]
          by (fastforce simp: e add_header_to_request_def split: sum.splits)
      qed
    qed
  qed
qed

lemma strdup_Some: "strdup (Some s) = Inr s"
  by (simp add: strdup_def)

lemma live_freed: "cell h a = Some b \<Longrightarrow> Suc (live (h[a := None])) = live h"
  using live_update [of h a] by simp

text \<open>The body, and the release of the working copy, a block \<open>w\<close> that the request does not own.\<close>

definition finish_memory :: "nat \<Rightarrow> nat \<Rightarrow> string \<Rightarrow> heap \<Rightarrow> (nat \<times> heap) c" where
  "finish_memory req w state1 h =
     (let (body, h) = (case request_body state1 of None \<Rightarrow> (None, h)
            | Some s \<Rightarrow> (case malloc (Chars s) h of (a, h) \<Rightarrow> (Some a, h))) in
      bindE (set_request (Some req) (\<lambda>r. r\<lparr>rq_body := body\<rparr>) h) (\<lambda>h.
      bindE (free (Some w) h) (\<lambda>h. Inr (req, h))))"

lemma finish_memory_at:
  assumes r: "request_at h p r F" "req_body r = None" and w: "cell h w = Some (Chars s)" "w \<notin> set F"
  shows "\<exists>h' F'. finish_memory p w st h = Inr (p, h') \<and>
    request_at h' p (r\<lparr>req_body := request_body st\<rparr>) F' \<and> evolves (w # F) F' h h' \<and>
    Suc (live h' + length F) = live h + length F'"
proof -
  obtain a h1 h2 F2 where b: "(case request_body st of None \<Rightarrow> (None, h)
        | Some s \<Rightarrow> (case malloc (Chars s) h of (a, h) \<Rightarrow> (Some a, h))) = (a, h1)"
    "set_request (Some p) (\<lambda>r. r\<lparr>rq_body := a\<rparr>) h1 = Inr h2"
    "request_at h2 p (r\<lparr>req_body := request_body st\<rparr>) F2" "evolves F F2 h h2"
    "live h2 + length F = live h + length F2"
  proof (cases "request_body st")
    case None
    obtain h2 where "set_request (Some p) (\<lambda>r. r\<lparr>rq_body := None\<rparr>) h = Inr h2"
      "request_at h2 p r F" "evolves F F h h2" "live h2 = live h"
      using request_assign(3) [OF r(1) w r(2)] by blast
    moreover have "r\<lparr>req_body := None\<rparr> = r" using r(2) by (cases r) simp
    ultimately show ?thesis using that [of None h h2 F] None by simp
  next
    case (Some t)
    let ?h = "h @ [Some (Chars t)]"
    have n: "cell ?h (length h) = Some (Chars t)" "length h \<notin> set F"
      using request_at_bound [OF r(1)] by auto
    obtain h2 F2 where h2: "set_request (Some p) (\<lambda>r. r\<lparr>rq_body := Some (length h)\<rparr>) ?h = Inr h2"
      "request_at h2 p (r\<lparr>req_body := Some t\<rparr>) F2" "evolves (length h # F) F2 ?h h2" "live h2 = live ?h"
      "length F2 = Suc (length F)"
      using request_assign(2) [OF request_at_append [OF r(1)] n r(2)] by blast
    moreover have "evolves F F2 h h2"
      using evolves_fresh [of "[length h]" F F2 h "[Some (Chars t)]" h2] h2(3) by simp
    ultimately show ?thesis using that [of "Some (length h)" ?h h2 F2] Some by (simp add: malloc_def)
  qed
  have w2: "cell h2 w = Some (Chars s)" "w \<notin> set F2" using evolves_keeps [OF b(4) w] by simp_all
  have "request_at (h2[w := None]) p (r\<lparr>req_body := request_body st\<rparr>) F2"
    using w2(2) by (intro request_at_frame [OF b(3)]) auto
  moreover have "evolves (w # F) F2 h (h2[w := None])"
    using b(4) by (auto simp: evolves_def)
  moreover have "Suc (live (h2[w := None]) + length F) = live h + length F2"
    using live_freed [OF w2(1)] b(5) by simp
  ultimately show ?thesis using b(1,2) free_cell [OF w2(1)] by (auto simp: finish_memory_def)
qed

lemma parse_memory_at:
  "case parse_request s of Inl e \<Rightarrow> parse_memory s h = Inl e
   | Inr r \<Rightarrow> \<exists>h' F. parse_memory s h = Inr (length h, h') \<and> request_at h' (length h) r F \<and>
       evolves [] F h h' \<and> live h' = live h + length F + (if req_url r = None then 1 else 0)"
proof -
  let ?p = "length h" and ?w = "Suc (length h)"
  define n0 where "n0 = \<lparr>rq_client_socket = 0, rq_method = 0, rq_url = None, rq_body = None,
    rq_head = None, rq_tail = None\<rparr>"
  let ?h = "(h @ [Some (Request_node n0)]) @ [Some (Chars s)]"
  obtain m st where m: "strtok_r '' '' s = (m, st)" by force
  show ?thesis
  proof (cases m)
    case None
    then show ?thesis by (simp add: parse_request_def parse_memory_def malloc_def m strdup_def)
  next
    case (Some meth)
    have r0: "request_at ?h ?p new_request [?p]"
      by (auto simp: request_at_def n0_def new_request_def cell_def nth_append intro!: exI [of _ "[]"])
    show ?thesis
    proof (cases "meth \<noteq> ''GET'' \<and> meth \<noteq> ''POST''")
      case True
      have "req_url new_request = None" by (simp add: new_request_def)
      moreover have "evolves [] [?p] h ?h" by (auto simp: evolves_def cell_def nth_append)
      ultimately show ?thesis
        using r0 True by (auto simp: parse_request_def parse_memory_def malloc_def m Some strdup_def n0_def
            [symmetric])
    next
      case False
      define M where "M = (if meth = ''GET'' then GET else POST)"
      define h2 where "h2 = ?h[?p := Some (Request_node (n0\<lparr>rq_method := M\<rparr>))]"
      let ?r1 = "new_request\<lparr>req_method := M\<rparr>"
      have s1: "set_request (Some ?p) (\<lambda>r. r\<lparr>rq_method := M\<rparr>) ?h = Inr h2" "live h2 = live h + 2"
        using set_request_cell [of ?h ?p n0 "\<lambda>r. r\<lparr>rq_method := M\<rparr>"]
        by (simp_all add: h2_def cell_def nth_append)
      have r1: "request_at h2 ?p ?r1 [?p]"
        by (auto simp: h2_def request_at_def n0_def new_request_def cell_def nth_append intro!: exI [of _ "[]"])
      have w1: "cell h2 ?w = Some (Chars s)" "length h2 = length h + 2"
        by (simp_all add: h2_def cell_def nth_append)
      have e1: "evolves [] [?w, ?p] h h2" by (auto simp: h2_def evolves_def cell_def nth_append)
      obtain u st2 where u: "strtok_r '' '' st = (u, st2)" by force
      obtain v st3 where v: "strtok_r [CR, LF] st2 = (v, st3)" by force
      obtain line st4 where l: "strtok_r [CR, LF] st3 = (line, st4)" by force
      have spec: "parse_request s = bindE (strdup u) (\<lambda>url.
          bindE (header_loop line st4 (?r1\<lparr>req_url := Some url\<rparr>)) (\<lambda>(state1, req).
          Inr (req\<lparr>req_body := request_body state1\<rparr>)))"
        unfolding parse_request_def Let_def m Some prod.case strdup_Some bindE.simps if_not_P [OF False] u v l M_def ..
      have impl: "parse_memory s h = bindE (dup u h2) (\<lambda>(url, h).
          bindE (set_request (Some ?p) (\<lambda>r. r\<lparr>rq_url := Some url\<rparr>) h) (\<lambda>h.
          bindE (header_loop_memory (Some ?p) line st4 h) (\<lambda>(state1, h). finish_memory ?p ?w state1 h)))"
        unfolding parse_memory_def finish_memory_def malloc_def Let_def m Some prod.case strdup_Some bindE.simps
          if_not_P [OF False] u v l M_def [symmetric] n0_def [symmetric] length_append list.size add_Suc_right
          add_0_right s1(1) ..
      show ?thesis
      proof (cases u)
        case None
        then show ?thesis by (simp add: spec impl dup_def strdup_def)
      next
        case (Some url)
        let ?a = "length h2" and ?g = "h2 @ [Some (Chars url)]"
        let ?r2 = "?r1\<lparr>req_url := Some url\<rparr>"
        have n: "cell ?g ?a = Some (Chars url)" "?a \<notin> set [?p]" using w1(2) by simp_all
        have "req_url ?r1 = None" by (simp add: new_request_def)
        from request_assign(1) [OF request_at_append [OF r1] n this] obtain h3 F3 where
          h3: "set_request (Some ?p) (\<lambda>r. r\<lparr>rq_url := Some ?a\<rparr>) ?g = Inr h3" "request_at h3 ?p ?r2 F3"
          "evolves (?a # [?p]) F3 ?g h3" "live h3 = live ?g" "length F3 = 2"
          by auto
        have e3: "evolves [?p] F3 h2 h3"
          using evolves_fresh [of "[?a]" "[?p]" F3 h2 "[Some (Chars url)]" h3] h3(3) by simp
        have impl': "parse_memory s h = bindE (header_loop_memory (Some ?p) line st4 h3)
            (\<lambda>(state1, h). finish_memory ?p ?w state1 h)"
          using h3(1) by (simp add: impl dup_def malloc_def Some strdup_def)
        note L = header_loop_at [OF h3(2), of line st4]
        show ?thesis
        proof (cases "header_loop line st4 ?r2")
          case (Inl e)
          then show ?thesis using L by (simp add: spec impl' Some strdup_def)
        next
          case (Inr x)
          obtain st5 r3 where x: "x = (st5, r3)" by force
          obtain h4 F4 where h4: "header_loop_memory (Some ?p) line st4 h3 = Inr (st5, h4)"
            "request_at h4 ?p r3 F4" "evolves F3 F4 h3 h4" "live h4 + length F3 = live h3 + length F4"
            "req_body r3 = None" "req_url r3 = Some url"
            using L Inr x by (auto simp: request_step_def new_request_def)
          have e4: "evolves [?p] F4 h2 h4" by (rule evolves_trans [OF e3 h4(3)])
          have w4: "cell h4 ?w = Some (Chars s)" "?w \<notin> set F4"
            using evolves_keeps [OF e4 w1(1)] by simp_all
          obtain h5 F5 where h5: "finish_memory ?p ?w st5 h4 = Inr (?p, h5)"
            "request_at h5 ?p (r3\<lparr>req_body := request_body st5\<rparr>) F5" "evolves (?w # F4) F5 h4 h5"
            "Suc (live h5 + length F4) = live h4 + length F5"
            using finish_memory_at [OF h4(2,5) w4, of st5] by blast
          have "evolves [?w, ?p] (?w # F4) h2 h4" using e4 by (auto simp: evolves_def)
          then have "evolves [] F5 h h5" by (intro evolves_trans [OF evolves_trans [OF e1] h5(3)])
          moreover have "live h5 = live h + length F5" using h5(4) h4(4) h3(4,5) s1(2) by simp
          ultimately show ?thesis
            using h5(1,2) h4(1,6) by (auto simp: spec impl' Some strdup_def Inr x)
        qed
      qed
    qed
  qed
qed

section \<open>Pages\<close>

text \<open>An operation on the response at \<open>p\<close>: of what it allocates the response owns a part.\<close>

definition response_step :: "nat \<Rightarrow> nat list \<Rightarrow> heap \<Rightarrow> response \<Rightarrow> heap \<Rightarrow> bool" where
  "response_step p F h r' h' \<longleftrightarrow>
     (\<exists>F'. response_at h' p r' F' \<and> evolves F F' h h' \<and> live h + length F' \<le> live h' + length F)"

lemma response_stepI:
  "response_at h' p r' F' \<Longrightarrow> evolves F F' h h' \<Longrightarrow> live h + length F' \<le> live h' + length F \<Longrightarrow>
   response_step p F h r' h'"
  by (auto simp: response_step_def)

lemma response_step_trans:
  assumes "response_step p F h r1 h1"
    and "\<And>F1. response_at h1 p r1 F1 \<Longrightarrow> response_step p F1 h1 r2 h2"
  shows "response_step p F h r2 h2"
proof -
  obtain F1 where F1: "response_at h1 p r1 F1" "evolves F F1 h h1" "live h + length F1 \<le> live h1 + length F"
    using assms(1) by (auto simp: response_step_def)
  obtain F2 where "response_at h2 p r2 F2" "evolves F1 F2 h1 h2" "live h1 + length F2 \<le> live h2 + length F1"
    using assms(2) [OF F1(1)] by (auto simp: response_step_def)
  then show ?thesis using F1 by (intro response_stepI evolves_trans [OF F1(2)]) auto
qed

lemma response_step_malloc: "response_at h p r F \<Longrightarrow> response_step p F h r (h @ [Some b])"
  by (rule response_stepI [OF response_at_append]) (auto simp: evolves_def)

lemma header_step: "response_at h p r F \<Longrightarrow>
   \<exists>h'. response_header (Some p) s t h = Inr h' \<and> response_step p F h (add_header_to_response s t r) h'"
  using response_header_at [of h p r F s t] response_stepI [of _ p _ _ F h] by fastforce

text \<open>A block of its own that is released again.\<close>

lemma step_keeps:
  "response_step p F h r h' \<Longrightarrow> cell h a = Some b \<Longrightarrow> a \<notin> set F \<Longrightarrow>
   cell h' a = Some b \<and> (\<exists>F'. response_at h' p r F' \<and> evolves F F' h h' \<and> a \<notin> set F' \<and>
     live h + length F' \<le> live h' + length F)"
  unfolding response_step_def using evolves_keeps by blast

lemma temporary_block:
  assumes r: "response_at h p r F"
    and s: "response_step p F (h @ [Some b]) r' h'"
  shows "\<exists>h2. free (Some (length h)) h' = Inr h2 \<and> response_step p F h r' h2"
proof -
  have "cell (h @ [Some b]) (length h) = Some b" "length h \<notin> set F"
    using response_at_bound [OF r, of "length h"] by auto
  from step_keeps [OF s this] obtain F' where F': "cell h' (length h) = Some b" "response_at h' p r' F'"
    "evolves F F' (h @ [Some b]) h'" "length h \<notin> set F'" "live h + length F' < live h' + length F"
    by auto
  let ?h = "h'[length h := None]"
  have "response_at ?h p r' F'" using F'(4) by (intro response_at_frame [OF F'(2)]) auto
  moreover have "evolves F F' h ?h"
    using F'(3) evolves_fresh [of "[]" F F' h "[Some b]" h'] by (auto simp: evolves_def)
  ultimately have "response_step p F h r' ?h"
    using live_freed [OF F'(1)] F'(5) by (intro response_stepI) auto
  then show ?thesis using free_cell [OF F'(1)] by blast
qed

lemma length_header_step:
  assumes "response_at h p r F"
  shows "\<exists>a h1. length_header (Some p) n h = Inr (a, h1) \<and>
      response_step p F h (add_header_to_response ''Content-Length'' (show_nat n) r) h1"
    and "\<exists>h2. bindE (length_header (Some p) n h) (\<lambda>(a, h). free (Some a) h) = Inr h2 \<and>
      response_step p F h (add_header_to_response ''Content-Length'' (show_nat n) r) h2"
proof -
  let ?h = "h @ [Some (Chars (show_nat n))]"
  obtain h1 where h1: "response_header (Some p) ''Content-Length'' (show_nat n) ?h = Inr h1"
    "response_step p F ?h (add_header_to_response ''Content-Length'' (show_nat n) r) h1"
    using header_step [OF response_at_append [OF assms]] by blast
  then obtain F1 where F1: "response_at h1 p (add_header_to_response ''Content-Length'' (show_nat n) r) F1"
    "evolves F F1 ?h h1" "live ?h + length F1 \<le> live h1 + length F"
    by (auto simp: response_step_def)
  have "response_step p F h (add_header_to_response ''Content-Length'' (show_nat n) r) h1"
    using F1 evolves_fresh [of "[]" F F1 h "[Some (Chars (show_nat n))]" h1]
    by (intro response_stepI [OF F1(1)]) auto
  with h1(1) show "\<exists>a h1. length_header (Some p) n h = Inr (a, h1) \<and>
      response_step p F h (add_header_to_response ''Content-Length'' (show_nat n) r) h1"
    by (simp add: length_header_def malloc_def)
  show "\<exists>h2. bindE (length_header (Some p) n h) (\<lambda>(a, h). free (Some a) h) = Inr h2 \<and>
      response_step p F h (add_header_to_response ''Content-Length'' (show_nat n) r) h2"
    using temporary_block [OF assms h1(2)] h1(1) by (simp add: length_header_def malloc_def)
qed

lemma response_step_from:
  "evolves F F1 h h1 \<Longrightarrow> live h + length F1 \<le> live h1 + length F \<Longrightarrow> response_step p F1 h1 r2 h2 \<Longrightarrow>
   response_step p F h r2 h2"
  by (fastforce simp: response_step_def intro: evolves_trans)

lemma step_bind:
  assumes "response_step p F h r1 h1"
    and "\<And>G. response_at h1 p r1 G \<Longrightarrow> \<exists>h2. m = Inr h2 \<and> response_step p G h1 r2 h2"
  shows "\<exists>h2. m = Inr h2 \<and> response_step p F h r2 h2"
  using assms response_step_from unfolding response_step_def [of p F h r1 h1] by metis

lemma status_step:
  "response_at h p r F \<Longrightarrow> res_headers r = [] \<Longrightarrow>
   \<exists>h'. set_response (Some p) (\<lambda>r. r\<lparr>rs_status := i, rs_head := None, rs_tail := None\<rparr>) h = Inr h' \<and>
     response_step p F h (r\<lparr>res_status := i, res_headers := []\<rparr>) h'"
  using response_assign(1) [of h p r F i] by (fastforce simp: response_step_def)

text \<open>A new block becomes the body; other blocks may be allocated with it.\<close>

lemma body_step:
  assumes r: "response_at h p r F" "res_body r = None"
  shows "\<exists>h2. set_response (Some p) (\<lambda>r. r\<lparr>rs_body := Some (length h)\<rparr>) (h @ Some (Chars s) # map Some bs) = Inr h2 \<and>
    response_step p F h (r\<lparr>res_body := Some s\<rparr>) h2"
proof -
  let ?h = "h @ Some (Chars s) # map Some bs"
  have "response_at ?h p r F"
    by (rule response_at_frame [OF r(1)]) (auto simp: cell_def nth_append dest: response_at_bound [OF r(1)])
  moreover have "cell ?h (length h) = Some (Chars s)" "length h \<notin> set F"
    using response_at_bound [OF r(1), of "length h"] by (auto simp: cell_def nth_append)
  ultimately obtain h2 F2 where h2: "set_response (Some p) (\<lambda>r. r\<lparr>rs_body := Some (length h)\<rparr>) ?h = Inr h2"
    "response_at h2 p (r\<lparr>res_body := Some s\<rparr>) F2" "evolves (length h # F) F2 ?h h2" "live h2 = live ?h"
    "length F2 = Suc (length F)"
    using response_assign(2) [OF _ r(2)] by blast
  then have "evolves F F2 h h2" using evolves_fresh [of "[length h]" F F2 h] by simp
  then show ?thesis using h2 by (auto intro!: response_stepI)
qed

lemma items_memory_eq:
  "items_memory env path html h = bindE (add_items env path html) (\<lambda>s.
     Inr (length h, s, h @ [Some (Chars s), Some (Chars path)]))"
  by (cases "add_items env path html")
    (simp_all add: items_memory_def malloc_def store_def load_def cell_def nth_append)

lemma index_memory_step:
  assumes r: "response_at h p r F" "res_headers r = []" "res_body r = None"
  shows "case index_handler env path r of Inl e \<Rightarrow> index_memory env path (Some p) h = Inl e
    | Inr r' \<Rightarrow> \<exists>h'. index_memory env path (Some p) h = Inr h' \<and> response_step p F h r' h'"
proof (cases "file_at env ''html/index.html''")
  case None
  then show ?thesis using r(1)
    by (auto simp: index_handler_def index_memory_def intro: response_stepI evolves_refl)
next
  case (Some contents)
  let ?r1 = "r\<lparr>res_status := 200, res_headers := []\<rparr>"
  let ?r2 = "add_header_to_response ''Content-Type'' ''text/html'' ?r1"
  obtain h1 where h1: "set_response (Some p) (\<lambda>r. r\<lparr>rs_status := 200, rs_head := None, rs_tail := None\<rparr>) h = Inr h1"
    "response_step p F h ?r1 h1" using status_step [OF r(1,2)] by blast
  obtain h2 where h2: "response_header (Some p) ''Content-Type'' ''text/html'' h1 = Inr h2"
    "response_step p F h ?r2 h2" using step_bind [OF h1(2) header_step] by blast
  show ?thesis
  proof (cases "bindE (cstr (contents @ [NUL])) (\<lambda>html. bindE (add_items env path html) (\<lambda>s. Inr (html, s)))")
    case (Inl e)
    then show ?thesis
      using h1(1) h2(1) Some
      by (cases "cstr (contents @ [NUL])")
        (auto simp: index_handler_def index_memory_def Let_def malloc_def items_memory_eq
          elim!: bindE.elims)
  next
    case (Inr x)
    then obtain html s where s: "cstr (contents @ [NUL]) = Inr html" "add_items env path html = Inr s" by auto
    let ?r4 = "add_header_to_response ''Content-Length'' (show_nat (length s)) (?r2\<lparr>res_body := Some s\<rparr>)"
    let ?g = "h2 @ [Some (Chars html)]"
    obtain G where G: "response_at h2 p ?r2 G" "evolves F G h h2" "live h + length G \<le> live h2 + length F"
      using h2(2) by (auto simp: response_step_def)
    have g: "response_at ?g p ?r2 G" by (rule response_at_append [OF G(1)])
    have "res_body ?r2 = None" using r(3) by (simp add: add_header_to_response_def)
    from body_step [OF g this, of s "[Chars path]"] obtain h3 where
      h3: "set_response (Some p) (\<lambda>r. r\<lparr>rs_body := Some (length ?g)\<rparr>) (?g @ [Some (Chars s), Some (Chars path)]) = Inr h3"
        "response_step p G ?g (?r2\<lparr>res_body := Some s\<rparr>) h3" by auto
    obtain h5 where h5: "bindE (length_header (Some p) (length s) h3) (\<lambda>(a, h). free (Some a) h) = Inr h5"
      "response_step p G ?g ?r4 h5" using step_bind [OF h3(2) length_header_step(2)] by blast
    then obtain a h4 where h4: "length_header (Some p) (length s) h3 = Inr (a, h4)" "free (Some a) h4 = Inr h5"
      by auto
    from temporary_block [OF G(1) h5(2)] obtain h6 where
      h6: "free (Some (length h2)) h5 = Inr h6" "response_step p G h2 ?r4 h6" by blast
    then have "response_step p F h ?r4 h6" using G response_step_from by blast
    moreover have "index_memory env path (Some p) h = Inr h6"
      using Some h1(1) h2(1) s h3(1) h4 h6(1)
      by (simp add: index_memory_def malloc_def items_memory_eq)
    moreover have "index_handler env path r = Inr ?r4"
      using Some s by (simp add: index_handler_def)
    ultimately show ?thesis by auto
  qed
qed

lemma evolves_Cons: "evolves F F' h h' \<Longrightarrow> evolves (a # F) (a # F') h h'"
  by (auto simp: evolves_def)

lemma style_memory_step:
  assumes r: "response_at h p r F" "res_headers r = []" "res_body r = None"
  shows "case style_handler env r of Inl e \<Rightarrow> style_memory env (Some p) h = Inl e
    | Inr r' \<Rightarrow> \<exists>h'. style_memory env (Some p) h = Inr h' \<and> response_step p F h r' h'"
proof (cases "file_at env ''html/style.css''")
  case None
  then show ?thesis using r(1)
    by (auto simp: style_handler_def style_memory_def intro: response_stepI evolves_refl)
next
  case (Some contents)
  show ?thesis
  proof (cases "cstr (contents @ heap_slack env)")
    case (Inl e)
    then show ?thesis by (simp add: style_handler_def style_memory_def Some)
  next
    case (Inr s)
    let ?a = "length h" and ?g = "h @ [Some (Chars s)]"
    let ?r3 = "add_header_to_response ''Content-Length'' (show_nat (length contents))
      (add_header_to_response ''Content-Type'' ''text/css'' (r\<lparr>res_status := 200, res_headers := []\<rparr>))"
    have g: "response_at ?g p r F" "cell ?g ?a = Some (Chars s)" "?a \<notin> set F"
      using response_at_append [OF r(1)] response_at_bound [OF r(1), of ?a] by auto
    obtain h1 where h1: "set_response (Some p) (\<lambda>r. r\<lparr>rs_status := 200, rs_head := None, rs_tail := None\<rparr>) ?g = Inr h1"
      "response_step p F ?g (r\<lparr>res_status := 200, res_headers := []\<rparr>) h1" using status_step [OF g(1) r(2)] by blast
    obtain h2 where h2: "response_header (Some p) ''Content-Type'' ''text/css'' h1 = Inr h2"
      "response_step p F ?g (add_header_to_response ''Content-Type'' ''text/css''
        (r\<lparr>res_status := 200, res_headers := []\<rparr>)) h2" using step_bind [OF h1(2) header_step] by blast
    obtain h3 where h3: "bindE (length_header (Some p) (length contents) h2) (\<lambda>(a, h). free (Some a) h) = Inr h3"
      "response_step p F ?g ?r3 h3" using step_bind [OF h2(2) length_header_step(2)] by blast
    then obtain b h' where h': "length_header (Some p) (length contents) h2 = Inr (b, h')" "free (Some b) h' = Inr h3"
      by auto
    obtain G where G: "cell h3 ?a = Some (Chars s)" "response_at h3 p ?r3 G" "evolves F G ?g h3" "?a \<notin> set G"
      "live ?g + length G \<le> live h3 + length F"
      using step_keeps [OF h3(2) g(2,3)] by blast
    have "res_body ?r3 = None" using r(3) by (simp add: add_header_to_response_def)
    then obtain h4 G4 where h4: "set_response (Some p) (\<lambda>r. r\<lparr>rs_body := Some ?a\<rparr>) h3 = Inr h4"
      "response_at h4 p (?r3\<lparr>res_body := Some s\<rparr>) G4" "evolves (?a # G) G4 h3 h4" "live h4 = live h3"
      "length G4 = Suc (length G)"
      using response_assign(2) [OF G(2) _ G(1,4)] by blast
    have "evolves F G4 h h4"
      using evolves_trans [OF evolves_Cons [OF G(3)] h4(3)] evolves_fresh [of "[?a]" F G4 h "[Some (Chars s)]" h4]
      by simp
    then have "response_step p F h (?r3\<lparr>res_body := Some s\<rparr>) h4"
      using G(5) h4(4,5) by (intro response_stepI [OF h4(2)]) auto
    then show ?thesis
      using Some Inr h1(1) h2(1) h' h4(1)
      by (simp add: style_handler_def style_memory_def malloc_def)
  qed
qed

lemma get_memory_step:
  assumes q: "request_at h q rq G" and r: "response_at h p r F" "res_headers r = []" "res_body r = None"
  shows "case get_handler env rq r of Inl e \<Rightarrow> get_memory env (Some q) (Some p) h = Inl e
    | Inr r' \<Rightarrow> \<exists>h'. get_memory env (Some q) (Some p) h = Inr h' \<and> response_step p F h r' h'"
proof -
  obtain n where n: "load_request (Some q) h = Inr n" "load_chars (rq_url n) h = strdup (req_url rq)"
    using load_request_at [OF q] by blast
  show ?thesis
  proof (cases "strdup (req_url rq)")
    case (Inl e)
    then show ?thesis by (simp add: get_handler_def get_memory_def n)
  next
    case (Inr url)
    have "response_step p F h r h" using r(1) by (auto intro: response_stepI evolves_refl)
    moreover have "get_handler env rq r = (if url = ''/style.css'' then style_handler env r
        else if url = ''/favicon.ico'' then Inr r else index_handler env url r)"
      "get_memory env (Some q) (Some p) h = (if url = ''/style.css'' then style_memory env (Some p) h
        else if url = ''/favicon.ico'' then Inr h else index_memory env url (Some p) h)"
      by (simp_all add: get_handler_def get_memory_def n Inr)
    ultimately show ?thesis
      using index_memory_step [OF r, of env url] style_memory_step [OF r, of env]
      by (cases "url = ''/style.css''"; cases "url = ''/favicon.ico''") (simp_all split: sum.splits)
  qed
qed

section \<open>The end of a connection\<close>

lemma released_request: "released n S h h' \<Longrightarrow> request_at h q rq G \<Longrightarrow> set G \<inter> S = {} \<Longrightarrow> request_at h' q rq G"
  by (rule request_at_frame) (auto simp: released_def)

lemma released_response: "released n S h h' \<Longrightarrow> response_at h p r F \<Longrightarrow> set F \<inter> S = {} \<Longrightarrow> response_at h' p r F"
  by (rule response_at_frame) (auto simp: released_def)

lemma free_both:
  assumes "request_at h q rq G" "response_at h p r F" "set G \<inter> set F = {}"
  shows "\<exists>h1 h2 n. free_req (Some q) h = Inr h1 \<and> free_res (Some p) h1 = Inr h2 \<and>
      released n (set G \<union> set F) h h2 \<and> n + 2 * length (req_headers rq) \<le> length G + length F"
    and "\<exists>h1 h2 n. free_res (Some p) h = Inr h1 \<and> free_req (Some q) h1 = Inr h2 \<and>
      released n (set G \<union> set F) h h2 \<and> n + 2 * length (req_headers rq) \<le> length G + length F"
proof -
  obtain h1 m where h1: "free_req (Some q) h = Inr h1" "released m (set G) h h1"
    "m + 2 * length (req_headers rq) = length G" using free_req_at [OF assms(1)] by blast
  have "response_at h1 p r F" using released_response [OF h1(2) assms(2)] assms(3) by auto
  then obtain h2 n where h2: "free_res (Some p) h1 = Inr h2" "released n (set F) h1 h2" "n \<le> length F"
    using free_res_at by (metis le_add1)
  show "\<exists>h1 h2 n. free_req (Some q) h = Inr h1 \<and> free_res (Some p) h1 = Inr h2 \<and>
      released n (set G \<union> set F) h h2 \<and> n + 2 * length (req_headers rq) \<le> length G + length F"
    using h1 h2 released_trans [OF h1(2) h2(2)] by (intro exI conjI) auto
next
  obtain h1 m where h1: "free_res (Some p) h = Inr h1" "released m (set F) h h1" "m \<le> length F"
    using free_res_at [OF assms(2)] by (metis le_add1)
  have "request_at h1 q rq G" using released_request [OF h1(2) assms(1)] assms(3) by auto
  then obtain h2 n where h2: "free_req (Some q) h1 = Inr h2" "released n (set G) h1 h2"
    "n + 2 * length (req_headers rq) = length G" using free_req_at by blast
  have "released (m + n) (set G \<union> set F) h h2"
    using released_mono [OF released_trans [OF h1(2) h2(2)]] by auto
  then show "\<exists>h1 h2 n. free_res (Some p) h = Inr h1 \<and> free_req (Some q) h1 = Inr h2 \<and>
      released n (set G \<union> set F) h h2 \<and> n + 2 * length (req_headers rq) \<le> length G + length F"
    using h1 h2 by (intro exI conjI) auto
qed

text \<open>
  From a heap with a request and a response, of which everything is released but \<open>n\<close> blocks at least,
  to one in which the other blocks are as they were.
\<close>

definition closes :: "nat \<Rightarrow> nat list \<Rightarrow> heap \<Rightarrow> heap \<Rightarrow> bool" where
  "closes n F h h' \<longleftrightarrow> length h \<le> length h' \<and> (\<forall>a < length h. a \<notin> set F \<longrightarrow> cell h' a = cell h a) \<and>
     live h + n \<le> live h' + length F"

lemma free_both_closes:
  assumes G: "request_at h q rq G" and F: "set G \<inter> set F = {}"
    and F': "response_at h' p r' F'" "evolves F F' h h'" "live h + length F' + k \<le> live h' + length F"
  shows "\<exists>h1 h2. free_req (Some q) h' = Inr h1 \<and> free_res (Some p) h1 = Inr h2 \<and>
    closes (k + 2 * length (req_headers rq)) (G @ F) h h2"
proof -
  have b: "a < length h" if "a \<in> set G" for a using request_at_bound [OF G that] .
  have "request_at h' q rq G" using F'(2) F b by (intro request_at_frame [OF G]) (auto simp: evolves_def)
  moreover have "set G \<inter> set F' = {}" using F'(2) F b by (fastforce simp: evolves_def)
  ultimately obtain h1 h2 n where h2: "free_req (Some q) h' = Inr h1" "free_res (Some p) h1 = Inr h2"
    "released n (set G \<union> set F') h' h2" "n + 2 * length (req_headers rq) \<le> length G + length F'"
    using free_both(1) [OF _ F'(1)] by blast
  have "closes (k + 2 * length (req_headers rq)) (G @ F) h h2"
    unfolding closes_def
  proof (intro conjI allI impI)
    show "length h \<le> length h2" "live h + (k + 2 * length (req_headers rq)) \<le> live h2 + length (G @ F)"
      using h2(3,4) F'(2,3) by (auto simp: released_def evolves_def)
    show "cell h2 a = cell h a" if "a < length h" "a \<notin> set (G @ F)" for a
    proof -
      have "a \<notin> set F'" using that F'(2) by (auto simp: evolves_def)
      then show ?thesis using that h2(3) F'(2) by (simp add: released_def evolves_def)
    qed
  qed
  then show ?thesis using h2(1,2) by blast
qed

lemma page_memory_at:
  assumes G: "request_at h q rq G" and F: "response_at h p r F" "set G \<inter> set F = {}"
    "res_headers r = []" "res_body r = None"
  shows "case bindE (get_handler env rq r) response_to_string of
      Inl e \<Rightarrow> page_memory env (Some q) (Some p) h = Inl e
    | Inr s \<Rightarrow> \<exists>h'. page_memory env (Some q) (Some p) h =
          Inr ([Send (req_client_socket rq) (bytes_of s), Close (req_client_socket rq)], h') \<and>
        closes (1 + 2 * length (req_headers rq)) (G @ F) h h'"
proof (cases "get_handler env rq r")
  case (Inl e)
  then show ?thesis using get_memory_step [OF G F(1,3,4), of env] by (simp add: page_memory_def)
next
  case (Inr r')
  then obtain h1 where h1: "get_memory env (Some q) (Some p) h = Inr h1" "response_step p F h r' h1"
    using get_memory_step [OF G F(1,3,4), of env] by auto
  then obtain F1 where F1: "response_at h1 p r' F1" "evolves F F1 h h1" "live h + length F1 \<le> live h1 + length F"
    by (auto simp: response_step_def)
  show ?thesis
  proof (cases "response_to_string r'")
    case (Inl e)
    then show ?thesis using Inr h1(1) by (simp add: page_memory_def response_memory_at [OF F1(1)])
  next
    case s: (Inr s)
    let ?h = "h1 @ [Some (Chars s)]"
    have b: "a < length h" if "a \<in> set G" for a using request_at_bound [OF G that] .
    have "request_at ?h q rq G"
      using F1(2) F(2) b by (intro request_at_append request_at_frame [OF G]) (auto simp: evolves_def)
    then obtain n where n: "load_request (Some q) ?h = Inr n" "rq_client_socket n = req_client_socket rq"
      using load_request_at by blast
    have e: "evolves F F1 h ?h" using F1(2) by (auto simp: evolves_def)
    have "response_at ?h p r' F1" by (rule response_at_append [OF F1(1)])
    from free_both_closes [OF G F(2) this e, of 1] F1(3) obtain h2 h3 where
      h3: "free_req (Some q) ?h = Inr h2" "free_res (Some p) h2 = Inr h3"
      "closes (1 + 2 * length (req_headers rq)) (G @ F) h h3" by auto
    then show ?thesis
      using Inr s h1(1) n by (simp add: page_memory_def response_memory_at [OF F1(1)])
  qed
qed

lemma step_malloc: "response_step p F h r h' \<Longrightarrow> response_step p F h r (h' @ [Some b])"
  using response_step_from response_step_malloc unfolding response_step_def [of p F h r h'] by metis

lemma closes_released:
  assumes "closes n F (h[a := None]) h'" "cell h a = Some b"
  shows "closes n (a # F) h h'"
  unfolding closes_def
proof (intro conjI allI impI)
  show "length h \<le> length h'" "live h + n \<le> live h' + length (a # F)"
    using assms(1) live_freed [OF assms(2)] by (auto simp: closes_def)
  show "cell h' c = cell h c" if "c < length h" "c \<notin> set (a # F)" for c
    using assms(1) that by (simp add: closes_def)
qed

text \<open>The last part of a download, from the printed response on.\<close>

lemma release_download:
  assumes G: "request_at h q rq G" and F: "set G \<inter> set F = {}"
    and a: "cell h a = Some b" "a \<notin> set G" "a \<notin> set F"
    and s: "response_at h' p r' F'" "evolves F F' h h'" "live h + length F' \<le> live h' + length F"
      "cell h' a = Some b" "a \<notin> set F'"
  shows "\<exists>h1 h2 h3. free (Some a) (h' @ [Some x]) = Inr h1 \<and> free_req (Some q) h1 = Inr h2 \<and>
    free_res (Some p) h2 = Inr h3 \<and> closes (1 + 2 * length (req_headers rq)) (a # G @ F) h h3"
proof -
  let ?h = "h' @ [Some x]" and ?g = "h[a := None]"
  have c: "cell ?h a = Some b" using s(4) by auto
  have "request_at ?g q rq G" using a(2) by (intro request_at_frame [OF G]) auto
  moreover have "response_at (?h[a := None]) p r' F'"
    using s(5) by (intro response_at_frame [OF response_at_append [OF s(1), of "Some x"]]) auto
  moreover have "evolves F F' ?g (?h[a := None])"
    using s(2) by (auto simp: evolves_def)
  moreover have "live ?g + length F' + 1 \<le> live (?h[a := None]) + length F"
    using live_freed [OF a(1)] live_freed [OF c] s(3) by simp
  ultimately obtain h2 h3 where "free_req (Some q) (?h[a := None]) = Inr h2" "free_res (Some p) h2 = Inr h3"
    "closes (1 + 2 * length (req_headers rq)) (G @ F) ?g h3"
    using free_both_closes [of ?g q rq G F "?h[a := None]" p r' F' 1] F by blast
  then show ?thesis using free_cell [OF c] closes_released [OF _ a(1)] by blast
qed

lemma download_memory_at:
  assumes G: "request_at h q rq G" and F: "response_at h p r F" "set G \<inter> set F = {}" "res_headers r = []"
    and a: "cell h a = Some (Bytes d)" "a \<notin> set G" "a \<notin> set F"
  shows "case send_compressed (req_client_socket rq) before url hp r (Some d) of
      Inl e \<Rightarrow> download_memory (Some q) (Some p) before url hp (Some a) h = Inl e
    | Inr evs \<Rightarrow> \<exists>h'. download_memory (Some q) (Some p) before url hp (Some a) h = Inr (evs, h') \<and>
        closes (1 + 2 * length (req_headers rq)) (a # G @ F) h h'"
proof -
  let ?r1 = "r\<lparr>res_status := 200, res_headers := []\<rparr>"
  let ?r2 = "add_header_to_response ''Content-Type'' ''application/octet-stream'' ?r1"
  obtain h1 where h1: "set_response (Some p) (\<lambda>r. r\<lparr>rs_status := 200, rs_head := None, rs_tail := None\<rparr>) h = Inr h1"
    "response_step p F h ?r1 h1" using status_step [OF F(1,3)] by blast
  obtain h2 where h2: "response_header (Some p) ''Content-Type'' ''application/octet-stream'' h1 = Inr h2"
    "response_step p F h ?r2 h2" using step_bind [OF h1(2) header_step] by blast
  have d: "load_bytes (Some a) h = Inr d" using a(1) by (simp add: loads)
  define T where "T = (\<lambda>name. ''attachment; filename='' @ name @ (if hp = ''hardware'' then ''_hw.hfc'' else ''.hfc''))"
  have spec: "send_compressed (req_client_socket rq) before url hp r (Some d) =
      bindE (base_name before url) (\<lambda>name.
      bindE (buf_append 512 [] (T name)) (\<lambda>disp.
      bindE (rd_front d 4) (\<lambda>w.
      bindE (response_to_string (add_header_to_response ''Content-Length'' (show_nat (unat (of_le32 w)))
        (add_header_to_response ''Content-Disposition'' disp ?r2))) (\<lambda>s.
      bindE (rd_front d (int (unat (of_le32 w)))) (\<lambda>src.
      if length s + unat (of_le32 w) \<le> response_size
      then Inr [Send (req_client_socket rq) (bytes_of s @ src), Close (req_client_socket rq)]
      else Inl Out_of_bounds)))))"
    unfolding send_compressed_def T_def Let_def option.case ..
  have impl: "download_memory (Some q) (Some p) before url hp (Some a) h =
      bindE (base_name before url) (\<lambda>name.
      bindE (buf_append 512 [] (T name)) (\<lambda>disp.
      bindE (response_header (Some p) ''Content-Disposition'' disp (h2 @ [Some (Chars name)])) (\<lambda>h.
      bindE (rd_front d 4) (\<lambda>w.
      bindE (length_header (Some p) (unat (of_le32 w)) h) (\<lambda>(length_num, h).
      bindE (response_memory (Some p) h) (\<lambda>(res_str, s, h).
      bindE (rd_front d (int (unat (of_le32 w)))) (\<lambda>src.
      if length s + unat (of_le32 w) \<le> response_size
      then bindE (load_request (Some q) h) (\<lambda>r.
        bindE (free (Some a) h) (\<lambda>h.
        bindE (free_req (Some q) h) (\<lambda>h.
        bindE (free_res (Some p) h) (\<lambda>h.
        Inr ([Send (rq_client_socket r) (bytes_of s @ src), Close (rq_client_socket r)], h)))))
      else Inl Out_of_bounds)))))))"
    unfolding download_memory_def d h1(1) h2(1) bindE.simps malloc_def Let_def prod.case T_def ..
  note start = spec impl
  show ?thesis
  proof (cases "base_name before url")
    case (Inl e)
    then show ?thesis by (simp add: start)
  next
    case name: (Inr name)
    let ?h = "h2 @ [Some (Chars name)]"
    have h: "response_step p F h ?r2 ?h"
      by (rule step_malloc [OF h2(2)])
    show ?thesis
    proof (cases "buf_append 512 [] (T name)")
      case (Inl e)
      then show ?thesis by (simp add: start name)
    next
      case disp: (Inr disp)
      let ?r3 = "add_header_to_response ''Content-Disposition'' disp ?r2"
      obtain h3 where h3: "response_header (Some p) ''Content-Disposition'' disp ?h = Inr h3"
        "response_step p F h ?r3 h3" using step_bind [OF h header_step] by blast
      show ?thesis
      proof (cases "rd_front d 4")
        case (Inl e)
        then show ?thesis by (simp add: start name disp h3(1))
      next
        case w: (Inr w)
        define size where "size = unat (of_le32 w)"
        let ?r4 = "add_header_to_response ''Content-Length'' (show_nat size) ?r3"
        have "\<exists>h4. bindE (length_header (Some p) size h3) (\<lambda>(a, h). Inr h) = Inr h4 \<and> response_step p F h ?r4 h4"
          by (rule step_bind [OF h3(2)]) (use length_header_step(1) in fastforce)
        then obtain b h4 where h4: "length_header (Some p) size h3 = Inr (b, h4)" "response_step p F h ?r4 h4"
          by auto
        obtain F4 where F4: "cell h4 a = Some (Bytes d)" "response_at h4 p ?r4 F4" "evolves F F4 h h4"
          "a \<notin> set F4" "live h + length F4 \<le> live h4 + length F"
          using step_keeps [OF h4(2) a(1,3)] by blast
        have spec': "send_compressed (req_client_socket rq) before url hp r (Some d) =
            bindE (response_to_string ?r4) (\<lambda>s. bindE (rd_front d (int size)) (\<lambda>src.
            if length s + size \<le> response_size
            then Inr [Send (req_client_socket rq) (bytes_of s @ src), Close (req_client_socket rq)]
            else Inl Out_of_bounds))"
          unfolding spec name disp w bindE.simps size_def ..
        have impl': "download_memory (Some q) (Some p) before url hp (Some a) h =
            bindE (response_to_string ?r4) (\<lambda>s. bindE (rd_front d (int size)) (\<lambda>src.
            if length s + size \<le> response_size
            then bindE (load_request (Some q) (h4 @ [Some (Chars s)])) (\<lambda>r.
              bindE (free (Some a) (h4 @ [Some (Chars s)])) (\<lambda>h.
              bindE (free_req (Some q) h) (\<lambda>h.
              bindE (free_res (Some p) h) (\<lambda>h.
              Inr ([Send (rq_client_socket r) (bytes_of s @ src), Close (rq_client_socket r)], h)))))
            else Inl Out_of_bounds))"
          unfolding impl name disp w h3(1) bindE.simps size_def [symmetric] h4(1) prod.case
            response_memory_at [OF F4(2)] bindE_assoc ..
        show ?thesis
        proof (cases "bindE (response_to_string ?r4) (\<lambda>s. bindE (rd_front d (int size)) (\<lambda>src.
            if length s + size \<le> response_size then Inr (s, src) else Inl Out_of_bounds))")
          case (Inl e)
          then have "send_compressed (req_client_socket rq) before url hp r (Some d) = Inl e"
            "download_memory (Some q) (Some p) before url hp (Some a) h = Inl e"
            unfolding spec' impl'
            by (cases "response_to_string ?r4"; cases "rd_front d (int size)"; simp split: if_splits)+
          then show ?thesis by simp
        next
          case (Inr x)
          then obtain s src where s: "response_to_string ?r4 = Inr s" "rd_front d (int size) = Inr src"
            "length s + size \<le> response_size" by (auto split: if_splits)
          let ?h4 = "h4 @ [Some (Chars s)]"
          have "request_at ?h4 q rq G"
            using F4(3) F(2) request_at_bound [OF G]
            by (intro request_at_append request_at_frame [OF G]) (auto simp: evolves_def)
          then obtain n where n: "load_request (Some q) ?h4 = Inr n" "rq_client_socket n = req_client_socket rq"
            using load_request_at by blast
          obtain h5 h6 h7 where "free (Some a) ?h4 = Inr h5" "free_req (Some q) h5 = Inr h6"
            "free_res (Some p) h6 = Inr h7" "closes (1 + 2 * length (req_headers rq)) (a # G @ F) h h7"
            using release_download [OF G F(2) a F4(2,3,5,1,4), of "Chars s"] by blast
          then show ?thesis unfolding spec' impl' using s n by simp
        qed
      qed
    qed
  qed
qed

lemma server_err_memory_at:
  assumes c: "cell h c = Some (Socket fd)"
  shows "\<exists>h'. server_err_memory (Some c) None None h = Inr (server_err_handler fd, h') \<and> closes 0 [c] h h'"
    and "request_at h q rq G \<Longrightarrow> response_at h p r F \<Longrightarrow> set G \<inter> set F = {} \<Longrightarrow> c \<notin> set G \<union> set F \<Longrightarrow>
      \<exists>h'. server_err_memory (Some c) (Some q) (Some p) h = Inr (server_err_handler fd, h') \<and>
        closes (2 * length (req_headers rq)) (c # G @ F) h h'"
proof -
  have l: "load_socket (Some c) h = Inr fd" using c by (simp add: loads)
  show "\<exists>h'. server_err_memory (Some c) None None h = Inr (server_err_handler fd, h') \<and> closes 0 [c] h h'"
    using live_freed [OF c] by (auto simp: server_err_memory_def l free_cell [OF c] closes_def)
  assume G: "request_at h q rq G" and F: "response_at h p r F" and GF: "set G \<inter> set F = {}"
    and c': "c \<notin> set G \<union> set F"
  let ?h = "h[c := None]"
  have "request_at ?h q rq G" "response_at ?h p r F"
    using c' by (auto intro!: request_at_frame [OF G] response_at_frame [OF F])
  then obtain h1 h2 n where h2: "free_res (Some p) ?h = Inr h1" "free_req (Some q) h1 = Inr h2"
    "released n (set G \<union> set F) ?h h2" "n + 2 * length (req_headers rq) \<le> length G + length F"
    using free_both(2) GF by blast
  have "closes (2 * length (req_headers rq)) (G @ F) ?h h2"
    using h2(3,4) by (auto simp: closes_def released_def)
  then show "\<exists>h'. server_err_memory (Some c) (Some q) (Some p) h = Inr (server_err_handler fd, h') \<and>
      closes (2 * length (req_headers rq)) (c # G @ F) h h'"
    using h2(1,2) closes_released [OF _ c] by (simp add: server_err_memory_def l free_cell [OF c])
qed

text \<open>What stands in the heap when the request is parsed and the response allocated.\<close>

definition connected :: "nat \<Rightarrow> nat \<Rightarrow> nat \<Rightarrow> request \<Rightarrow> nat list \<Rightarrow> heap \<Rightarrow> heap \<Rightarrow> bool" where
  "connected k q p rq G h h' \<longleftrightarrow> request_at h' q rq G \<and> response_at h' p new_response [p] \<and>
     set (p # G) \<subseteq> {length h..<length h'} \<and> p \<notin> set G \<and> length h \<le> length h' \<and>
     (\<forall>a < length h. cell h' a = cell h a) \<and> live h + length G + 1 + k \<le> live h'"

lemma connected_malloc: "connected k q p rq G h h' \<Longrightarrow> connected (Suc k) q p rq G h (h' @ [Some b])"
  by (auto simp: connected_def intro: request_at_append response_at_append)

lemma connected_Suc: "connected (Suc k) q p rq G h h' \<Longrightarrow> connected k q p rq G h h'"
  by (simp add: connected_def)

lemma connected_junk: "connected k q p rq G h h' \<Longrightarrow> connected k q p rq G h (h' @ map Some bs)"
proof (induction bs arbitrary: h')
  case (Cons b bs)
  have "connected k q p rq G h (h' @ [Some b])"
    using connected_malloc [OF Cons.prems, of b] by (rule connected_Suc)
  from Cons.IH [OF this] show ?case by simp
qed simp

text \<open>When the connection is closed the old blocks are as they were, and new ones are left.\<close>

lemma connection_closed:
  assumes "connected k q p rq G h g" "closes n (E @ G @ [p]) g h'"
  shows "(\<forall>a < length h. a \<notin> set E \<longrightarrow> cell h' a = cell h a) \<and> live h + k + n \<le> live h' + length E"
proof -
  have "cell h' a = cell h a" if "a < length h" "a \<notin> set E" for a
  proof -
    have "a \<notin> set (E @ G @ [p])" "a < length g" using assms(1) that by (auto simp: connected_def)
    then show ?thesis using assms that(1) by (simp add: closes_def connected_def)
  qed
  then show ?thesis using assms by (auto simp: closes_def connected_def)
qed

lemma connection_opened:
  assumes c: "cell h c = Some (Socket fd)" and rq: "parse_request s = Inr rq"
  shows "\<exists>h1 h2 q h4 G. store (Some (length h)) (Chars s) (h @ [Some (Chars [])]) = Inr h1 \<and>
    parse_memory s h1 = Inr (q, h2) \<and>
    bindE (free (Some (length h)) h2) (set_request (Some q) (\<lambda>r. r\<lparr>rq_client_socket := fd\<rparr>)) = Inr h4 \<and>
    connected 0 q (length h4) (rq\<lparr>req_client_socket := fd\<rparr>) G h
      (h4 @ [Some (Response_node \<lparr>rs_status = 0, rs_head = None, rs_tail = None, rs_body = None\<rparr>)])"
proof -
  let ?b = "length h" and ?h1 = "h @ [Some (Chars s)]"
  have s1: "store (Some ?b) (Chars s) (h @ [Some (Chars [])]) = Inr ?h1" by (simp add: store_def load_def)
  obtain h2 G where h2: "parse_memory s ?h1 = Inr (length ?h1, h2)" "request_at h2 (length ?h1) rq G"
    "evolves [] G ?h1 h2" "live ?h1 + length G \<le> live h2"
    using parse_memory_at [of s ?h1] rq by auto
  have b: "cell h2 ?b = Some (Chars s)" "?b \<notin> set G"
    using evolves_keeps [OF h2(3), of ?b "Chars s"] by simp_all
  let ?h3 = "h2[?b := None]"
  have r3: "request_at ?h3 (length ?h1) rq G" using b(2) by (intro request_at_frame [OF h2(2)]) auto
  have c3: "cell ?h3 c = Some (Socket fd)" "c \<notin> set G"
    using evolves_keeps [OF h2(3), of c "Socket fd"] c cell_length [OF c] by auto
  obtain h4 where h4: "set_request (Some (length ?h1)) (\<lambda>r. r\<lparr>rq_client_socket := fd\<rparr>) ?h3 = Inr h4"
    "request_at h4 (length ?h1) (rq\<lparr>req_client_socket := fd\<rparr>) G" "evolves G G ?h3 h4" "live h4 = live ?h3"
    using request_socket_at [OF r3] by blast
  let ?x = "Some (Response_node \<lparr>rs_status = 0, rs_head = None, rs_tail = None, rs_body = None\<rparr>)"
  have G: "set G \<subseteq> {length h..<length h2}" "length h < length h2"
    using h2(3) by (auto simp: evolves_def)
  have old: "cell h4 a = cell h a" if "a < length h" for a
  proof -
    have "a \<notin> set G" using that G(1) by auto
    then have "cell h4 a = cell ?h3 a" "cell h2 a = cell ?h1 a"
      using that G(2) h2(3) h4(3) by (simp_all add: evolves_def)
    then show ?thesis using that by simp
  qed
  have l: "length h2 \<le> length h4" using h4(3) by (simp add: evolves_def)
  have "connected 0 (length ?h1) (length h4) (rq\<lparr>req_client_socket := fd\<rparr>) G h (h4 @ [?x])"
    unfolding connected_def
  proof (intro conjI allI impI)
    show "request_at (h4 @ [?x]) (length ?h1) (rq\<lparr>req_client_socket := fd\<rparr>) G"
      by (rule request_at_append [OF h4(2)])
    show "response_at (h4 @ [?x]) (length h4) new_response [length h4]"
      by (auto simp: response_at_def new_response_def intro!: exI [of _ "[]"])
    show "set (length h4 # G) \<subseteq> {length h..<length (h4 @ [?x])}" "length h4 \<notin> set G"
      "length h \<le> length (h4 @ [?x])" using G l by auto
    show "cell (h4 @ [?x]) a = cell h a" if "a < length h" for a using that old G(2) l by auto
    show "live h + length G + 1 + 0 \<le> live (h4 @ [?x])"
      using h2(4) h4(4) live_freed [OF b(1)] by simp
  qed
  then show ?thesis using s1 h2(1) h4(1) free_cell [OF b(1)] by auto
qed

text \<open>The answer, on both heaps and values; a request that is answered releases neither the block of
  the socket nor the copy of the url, the printed response and the texts of its headers.\<close>

definition answered :: "nat \<Rightarrow> request \<Rightarrow> heap \<Rightarrow> heap \<Rightarrow> bool" where
  "answered c rq h h' \<longleftrightarrow> (\<forall>a < length h. a \<noteq> c \<longrightarrow> cell h' a = cell h a) \<and>
     (if req_method rq = GET
      then cell h' c = cell h c \<and> live h + 2 + 2 * length (req_headers rq) \<le> live h'
      else live h + 2 * length (req_headers rq) \<le> live h')"

lemma file_memory_at:
  assumes g: "connected 1 q p rq G h g" and c: "c < length h" and fd: "req_client_socket rq = fd"
    and get: "req_method rq = GET"
  shows "case bindE (path_from_slash t hp) (\<lambda>path.
      bindE (if hp = ''hardware'' then hw_compress env addrs path b
        else bindE (compress env addrs path b) (\<lambda>(data, b). Inr (data, addrs, b)))
        (\<lambda>(data, addrs, b).
      bindE (send_compressed fd before t hp new_response data) (\<lambda>evs. Inr (evs, addrs, b)))) of
      Inl e \<Rightarrow> file_memory env junk addrs (Some q) (Some p) before t hp b g = Inl e
    | Inr (evs, addrs', b') \<Rightarrow> \<exists>h'. file_memory env junk addrs (Some q) (Some p) before t hp b g =
        Inr (evs, addrs', b', h') \<and> answered c rq h h'"
proof -
  let ?run = "\<lambda>path. if hp = ''hardware'' then hw_compress env addrs path b
    else bindE (compress env addrs path b) (\<lambda>(data, b). Inr (data, addrs, b))"
  show ?thesis
  proof (cases "bindE (path_from_slash t hp) ?run")
    case (Inl e)
    show ?thesis
    proof (cases "path_from_slash t hp")
      case (Inr path)
      with \<open>bindE (path_from_slash t hp) ?run = Inl e\<close> have "?run path = Inl e" by simp
      then show ?thesis by (simp add: file_memory_def malloc_def Inr split del: if_split)
    qed (simp add: file_memory_def)
  next
    case (Inr x)
    then obtain path data addrs' b' where x: "path_from_slash t hp = Inr path"
      "?run path = Inr (data, addrs', b')" by (cases x) (auto split del: if_split)
    note run' = file_memory_def malloc_def x
    show ?thesis
    proof (cases data)
      case None
      then show ?thesis
        by (simp add: run' compressed_memory_def send_compressed_def download_memory_def
            load_bytes_def load_def split del: if_split)
    next
      case d: (Some d)
      let ?f = "(g @ [Some (Chars path)]) @ map Some junk"
      let ?f' = "?f @ [Some (Bytes d)]"
      have f: "connected 3 q p rq G h ?f'"
        using connected_malloc [OF connected_junk [OF connected_malloc [OF g]], of "Chars path" junk "Bytes d"]
        by (simp add: numeral_3_eq_3)
      have a: "cell ?f' (length ?f) = Some (Bytes d)" "length ?f \<notin> set G" "length ?f \<notin> set [p]"
        unfolding cell_append using g by (simp_all add: connected_def, auto)
      have at': "request_at ?f' q rq G" "response_at ?f' p new_response [p]" "set G \<inter> set [p] = {}"
        using f by (auto simp: connected_def)
      have m: "compressed_memory junk data (g @ [Some (Chars path)]) = (Some (length ?f), ?f')"
        by (simp add: compressed_memory_def d malloc_def)
      note D = download_memory_at [OF at' _ a, of before t hp]
      show ?thesis
      proof (cases "send_compressed fd before t hp new_response data")
        case (Inl e)
        then show ?thesis using D m d fd
          by (simp add: run' new_response_def split del: if_split)
      next
        case (Inr evs)
        then obtain h' where h': "download_memory (Some q) (Some p) before t hp (Some (length ?f)) ?f' = Inr (evs, h')"
          "closes (1 + 2 * length (req_headers rq)) (length ?f # G @ [p]) ?f' h'"
          using D d fd by (auto simp: new_response_def)
        have "answered c rq h h'"
          using connection_closed [OF f, of "1 + 2 * length (req_headers rq)" "[length ?f]" h'] h'(2) get c g
          by (auto simp: answered_def connected_def)
        then show ?thesis using h'(1) m Inr by (simp add: run' split del: if_split)
      qed
    qed
  qed
qed

lemma answer_memory_at:
  assumes g: "connected 0 q p rq G h g" and c: "cell h c = Some (Socket fd)" and fd: "req_client_socket rq = fd"
  shows "case bindE (strdup (req_url rq)) (\<lambda>req_path.
      let (url, hardware_param) = strtok_r ''?'' req_path; before = before_url env req_path in
      if req_method rq = GET
      then bindE (strdup url) (\<lambda>url.
        bindE (is_txt before url) (\<lambda>txt.
        if txt
        then bindE (path_from_slash url hardware_param) (\<lambda>path.
          bindE (if hardware_param = ''hardware'' then hw_compress env addrs path b
            else bindE (compress env addrs path b) (\<lambda>(data, b). Inr (data, addrs, b)))
            (\<lambda>(data, addrs, b).
          bindE (send_compressed fd before url hardware_param new_response data) (\<lambda>evs.
          Inr (evs, addrs, b))))
        else bindE (get_handler env rq new_response) (\<lambda>res.
          bindE (response_to_string res) (\<lambda>res_str.
          Inr ([Send fd (bytes_of res_str), Close fd], addrs, b)))))
      else Inr (server_err_handler fd, addrs, b)) of
      Inl e \<Rightarrow> answer_memory env junk addrs (Some c) (Some q) (Some p) b g = Inl e
    | Inr (evs, addrs', b') \<Rightarrow> \<exists>h'. answer_memory env junk addrs (Some c) (Some q) (Some p) b g =
        Inr (evs, addrs', b', h') \<and> answered c rq h h'"
proof -
  obtain n where n: "load_request (Some q) g = Inr n" "rq_method n = req_method rq"
    "load_chars (rq_url n) g = strdup (req_url rq)"
    using load_request_at [of g q rq G] g unfolding connected_def by blast
  show ?thesis
  proof (cases "req_url rq")
    case None
    then show ?thesis by (simp add: answer_memory_def n strdup_def)
  next
    case (Some u)
    obtain url hp where url: "strtok_r ''?'' u = (url, hp)" by force
    let ?g = "g @ [Some (Chars u)]" and ?before = "before_url env u"
    have g1: "connected 1 q p rq G h ?g" using connected_malloc [OF g] by simp
    have c1: "cell ?g c = Some (Socket fd)" "c \<notin> set G \<union> {p}"
      using g1 c cell_length [OF c] by (auto simp: connected_def)
    have at: "request_at ?g q rq G" "response_at ?g p new_response [p]" "set G \<inter> set [p] = {}"
      using g1 by (auto simp: connected_def)
    show ?thesis
    proof (cases "req_method rq = GET")
      case False
      obtain h' where h': "server_err_memory (Some c) (Some q) (Some p) ?g = Inr (server_err_handler fd, h')"
        "closes (2 * length (req_headers rq)) (c # G @ [p]) ?g h'"
        using server_err_memory_at(2) [OF c1(1) at] c1(2) by auto
      have "answered c rq h h'"
        using connection_closed [of 1 q p rq G h ?g _ "[c]"] g1 h'(2) False by (auto simp: answered_def)
      then show ?thesis
        using False h'(1) by (simp add: answer_memory_def n Some strdup_Some malloc_def url)
    next
      case True
      have c: "c < length h" using c by (rule cell_length)
      show ?thesis
      proof (cases url)
        case None
        then show ?thesis using True by (simp add: answer_memory_def n Some strdup_def malloc_def url)
      next
        case t: (Some t)
        note run = answer_memory_def n Some t strdup_Some malloc_def url True
        consider (err) e where "is_txt ?before t = Inl e" | (page) "is_txt ?before t = Inr False"
          | (download) "is_txt ?before t = Inr True" by (cases "is_txt ?before t") auto
        then show ?thesis
        proof cases
          case err
          then show ?thesis by (simp add: run)
        next
          case page
          note P = page_memory_at [OF at, of env]
          show ?thesis
          proof (cases "bindE (get_handler env rq new_response) response_to_string")
            case (Inl e)
            then show ?thesis
              using P by (cases "get_handler env rq new_response") (auto simp: run page new_response_def)
          next
            case (Inr s)
            obtain h' where h': "page_memory env (Some q) (Some p) ?g =
                Inr ([Send fd (bytes_of s), Close fd], h')"
              "closes (1 + 2 * length (req_headers rq)) (G @ [p]) ?g h'"
              using P Inr fd by (auto simp: new_response_def)
            have "answered c rq h h'"
              using connection_closed [OF g1, of "1 + 2 * length (req_headers rq)" "[]" h'] h'(2) True c
              by (auto simp: answered_def)
            then show ?thesis using Inr h'(1) by (auto simp: run page)
          qed
        next
          case download
          have "answer_memory env junk addrs (Some c) (Some q) (Some p) b g =
              file_memory env junk addrs (Some q) (Some p) ?before t hp b ?g"
            by (simp add: run download)
          then show ?thesis
            using file_memory_at [OF g1 c fd True, where t = t and hp = hp and env = env and addrs = addrs
                and b = b and before = ?before and junk = junk]
            by (simp add: Some strdup_Some url t True download split del: if_split cong: sum.case_cong)
        qed
      qed
    qed
  qed
qed

lemma handler_memory_at:
  assumes c: "cell h c = Some (Socket fd)"
  shows "case handler env n received addrs fd b of
      Inl e \<Rightarrow> handler_memory env junk n received addrs (Some c) b h = Inl e
    | Inr (evs, addrs', b') \<Rightarrow> \<exists>h'. handler_memory env junk n received addrs (Some c) b h =
          Inr (evs, addrs', b', h') \<and>
        (\<forall>a < length h. a \<noteq> c \<longrightarrow> cell h' a = cell h a) \<and> live h \<le> live h' + 1 \<and>
        (\<forall>s rq. 0 < n \<and> cstr (received @ heap_slack env) = Inr s \<and> parse_request s = Inr rq \<longrightarrow>
           answered c rq h h')"
proof -
  have l: "load_socket (Some c) h = Inr fd" using c by (simp add: loads)
  let ?g = "h @ [Some (Chars [])]"
  have c1: "cell ?g c = Some (Socket fd)" using c cell_length [OF c] by simp
  consider (failed) "n < 0" | (closed) "n = 0" | (received) "0 < n" by linarith
  then show ?thesis
  proof cases
    case failed
    obtain h' where h': "server_err_memory (Some c) None None ?g = Inr (server_err_handler fd, h')"
      "closes 0 [c] ?g h'" using server_err_memory_at(1) [OF c1] by blast
    then have "\<forall>a < length h. a \<noteq> c \<longrightarrow> cell h' a = cell h a" "live h \<le> live h' + 1"
      by (auto simp: closes_def)
    then show ?thesis using failed h'(1) by (simp add: handler_def handler_memory_def l malloc_def)
  next
    case closed
    then show ?thesis by (auto simp: handler_def handler_memory_def l malloc_def)
  next
    case received
    show ?thesis
    proof (cases "bindE (cstr (received @ heap_slack env)) parse_request")
      case (Inl e)
      show ?thesis
      proof (cases "cstr (received @ heap_slack env)")
        case (Inr s)
        with Inl have e: "parse_request s = Inl e" by simp
        have st: "store (Some (length h)) (Chars s) ?g = Inr (h @ [Some (Chars s)])"
          by (simp add: store_def load_def)
        show ?thesis
          using received parse_memory_at [of s "h @ [Some (Chars s)]"]
          by (simp add: handler_def handler_memory_def l malloc_def Inr e st)
      qed (use received in \<open>simp add: handler_def handler_memory_def l malloc_def\<close>)
    next
      case (Inr rq)
      then obtain s where s: "cstr (received @ heap_slack env) = Inr s" "parse_request s = Inr rq" by auto
      let ?rq = "rq\<lparr>req_client_socket := fd\<rparr>"
      obtain h1 h2 q h4 G where h: "store (Some (length h)) (Chars s) ?g = Inr h1" "parse_memory s h1 = Inr (q, h2)"
        "bindE (free (Some (length h)) h2) (set_request (Some q) (\<lambda>r. r\<lparr>rq_client_socket := fd\<rparr>)) = Inr h4"
        "connected 0 q (length h4) ?rq G h
          (h4 @ [Some (Response_node \<lparr>rs_status = 0, rs_head = None, rs_tail = None, rs_body = None\<rparr>)])"
        using connection_opened [OF c s(2)] by blast
      have run: "handler_memory env junk n received addrs (Some c) b h =
          answer_memory env junk addrs (Some c) (Some q) (Some (length h4)) b
            (h4 @ [Some (Response_node \<lparr>rs_status = 0, rs_head = None, rs_tail = None, rs_body = None\<rparr>)])"
        using received h(1-3) s(1) by (auto simp: handler_memory_def l malloc_def)
      have kept: "(\<forall>a < length h. a \<noteq> c \<longrightarrow> cell h' a = cell h a) \<and> live h \<le> live h' + 1 \<and>
          (\<forall>s' rq'. 0 < n \<and> cstr (received @ heap_slack env) = Inr s' \<and> parse_request s' = Inr rq' \<longrightarrow>
             answered c rq' h h')" if "answered c ?rq h h'" for h'
        using that s by (auto simp: answered_def split: if_splits)
      show ?thesis
        using answer_memory_at [OF h(4) c, where env = env and addrs = addrs and b = b and junk = junk] received s kept
        by (auto simp: run handler_def Let_def split: sum.splits)
    qed
  qed
qed

section \<open>Properties\<close>

text \<open>C13: The functions on the C heap do what those on values say: from any heap in which the client's
  socket stands, \<open>handler\<close> answers the same, or fails for the same reason. In particular no block is
  used after its release, none is released twice, no list of headers has a cycle or a wrong end, and no
  block that was there before, except the socket's, is changed or released.\<close>

theorem handler_memory_refines:
  assumes "cell h c = Some (Socket fd)"
  shows "case handler env n received addrs fd b of
      Inl e \<Rightarrow> handler_memory env junk n received addrs (Some c) b h = Inl e
    | Inr (evs, addrs', b') \<Rightarrow> \<exists>h'. handler_memory env junk n received addrs (Some c) b h =
          Inr (evs, addrs', b', h') \<and> (\<forall>a < length h. a \<noteq> c \<longrightarrow> cell h' a = cell h a)"
  using handler_memory_at [OF assms, where env = env and n = n and received = received and addrs = addrs
      and b = b and junk = junk] by (auto split: sum.splits)

definition quiet_env :: handler_env where
  "quiet_env = \<lparr>file_at = (\<lambda>f. None), dir_at = (\<lambda>d. None), heap_slack = [], heap_before = [],
     encoder_dev = (\<lambda>k m. m)\<rparr>"

abbreviation favicon_request :: string where
  "favicon_request \<equiv> ''GET /favicon.ico HTTP/1.1'' @ [LF, NUL]"

lemma favicon_parsed:
  "cstr (favicon_request @ heap_slack quiet_env) = Inr (''GET /favicon.ico HTTP/1.1'' @ [LF])"
  "parse_request (''GET /favicon.ico HTTP/1.1'' @ [LF]) = Inr \<lparr>req_client_socket = 0, req_method = GET,
     req_url = Some ''/favicon.ico'', req_body = None, req_headers = []\<rparr>"
  by code_simp+

lemma favicon_answer:
  "handler quiet_env 26 favicon_request addrs 4 b =
     Inr ([Send 4 (bytes_of (''HTTP/1.1 0 OK'' @ [LF, LF])), Close 4], addrs, b)"
proof -
  have "is_txt (before_url quiet_env ''/favicon.ico'') ''/favicon.ico'' = Inr False"
    "strtok_r ''?'' ''/favicon.ico'' = (Some ''/favicon.ico'', [])"
    by code_simp+
  moreover have "response_to_string new_response = Inr (''HTTP/1.1 0 OK'' @ [LF, LF])"
    by (simp add: response_to_string_def new_response_def buf_append_def response_size_def)
  ultimately show ?thesis
    unfolding handler_def favicon_parsed bindE.simps
    by (simp add: strdup_Some get_handler_def del: append.simps)
qed

theorem handler_memory_refines_witness:
  "\<exists>h'. handler_memory quiet_env [] 26 favicon_request my_init_global_addrs (Some 0) \<lparr>ram = (\<lambda>a. 0), io = []\<rparr>
      [Some (Socket 4)] =
    Inr ([Send 4 (bytes_of (''HTTP/1.1 0 OK'' @ [LF, LF])), Close 4], my_init_global_addrs,
      \<lparr>ram = (\<lambda>a. 0), io = []\<rparr>, h')"
  using handler_memory_refines [of "[Some (Socket 4)]" 0 4, where env = quiet_env and n = 26
      and received = favicon_request and addrs = my_init_global_addrs
      and b = "\<lparr>ram = (\<lambda>a. 0), io = []\<rparr>" and junk = "[]"]
  unfolding favicon_answer by (simp add: cell_def)

text \<open>C25: Every GET request that is answered leaves memory behind that nothing points to: the copy of
  its url, the printed response of 65536 bytes, two strings for each of its headers. The block of the
  socket stays as well.\<close>

theorem answers_leak:
  assumes "cell h c = Some (Socket fd)" and "0 < n" and "cstr (received @ heap_slack env) = Inr s"
    and "parse_request s = Inr rq" and "req_method rq = GET"
    and "handler env n received addrs fd b = Inr (evs, addrs', b')"
  shows "\<exists>h'. handler_memory env junk n received addrs (Some c) b h = Inr (evs, addrs', b', h') \<and>
    cell h' c = Some (Socket fd) \<and> live h + 2 + 2 * length (req_headers rq) \<le> live h'"
  using handler_memory_at [OF assms(1), where env = env and n = n and received = received and addrs = addrs
      and b = b and junk = junk] assms
  by (auto simp: answered_def)

theorem answers_leak_witness:
  "\<exists>evs addrs' b' h'. handler_memory quiet_env [] 26 favicon_request my_init_global_addrs (Some 0)
      \<lparr>ram = (\<lambda>a. 0), io = []\<rparr> [Some (Socket 4)] = Inr (evs, addrs', b', h') \<and> 3 \<le> live h'"
  using answers_leak [OF _ _ favicon_parsed _ favicon_answer, where h = "[Some (Socket 4)]" and c = 0
      and junk = "[]" and addrs = my_init_global_addrs and b = "\<lparr>ram = (\<lambda>a. 0), io = []\<rparr>"]
  by (auto simp: cell_def live_def)

end
