(* ===== verification/SeqConfig.thy ===== *)
theory SeqConfig
  imports Prelude "HOL-Library.Word"
begin

text \<open>
  The constants of the calibration sequencer in \<open>hps_isw_handoff/soc_system_hps_0\<close>, as far as the model
  uses them: parameters of the memory interface (\<open>sequencer_defines.h\<close>), bases (\<open>system.h\<close>),
  registers (\<open>sequencer.h\<close>) and the addresses of the read/write manager's programs
  (\<open>sequencer_auto.h\<close>, without the leading underscores). Counts are natural numbers, addresses and
  register values are words. Where a header tests the configuration, the value is the one for
  \<open>HPS_HW\<close>, \<open>HARD_PHY\<close>, \<open>HHP_HPS\<close> and \<open>DDR3\<close>.
\<close>

unbundle bit_operations_syntax

definition AFI_CLK_FREQ :: nat where "AFI_CLK_FREQ = 401"
definition AFI_RATE_RATIO :: nat where "AFI_RATE_RATIO = 1"
definition ARRIAV :: nat where "ARRIAV = 0"
definition BFM_MODE :: nat where "BFM_MODE = 0"
definition CALIB_LFIFO_OFFSET :: nat where "CALIB_LFIFO_OFFSET = 12"
definition CALIB_VFIFO_OFFSET :: nat where "CALIB_VFIFO_OFFSET = 10"
definition CYCLONEV :: nat where "CYCLONEV = 1"
definition DDRX :: nat where "DDRX = 1"
definition ENABLE_SUPER_QUICK_CALIBRATION :: nat where "ENABLE_SUPER_QUICK_CALIBRATION = 0"
definition HARD_PHY :: nat where "HARD_PHY = 1"
definition HARD_VFIFO :: nat where "HARD_VFIFO = 1"
definition IO_DELAY_PER_DCHAIN_TAP :: nat where "IO_DELAY_PER_DCHAIN_TAP = 25"
definition IO_DELAY_PER_DQS_EN_DCHAIN_TAP :: nat where "IO_DELAY_PER_DQS_EN_DCHAIN_TAP = 25"
definition IO_DELAY_PER_OPA_TAP :: nat where "IO_DELAY_PER_OPA_TAP = 312"
definition IO_DLL_CHAIN_LENGTH :: nat where "IO_DLL_CHAIN_LENGTH = 8"
definition IO_DM_OUT_RESERVE :: nat where "IO_DM_OUT_RESERVE = 0"
definition IO_DQDQS_OUT_PHASE_MAX :: nat where "IO_DQDQS_OUT_PHASE_MAX = 0"
definition IO_DQS_EN_DELAY_MAX :: nat where "IO_DQS_EN_DELAY_MAX = 31"
definition IO_DQS_EN_DELAY_OFFSET :: nat where "IO_DQS_EN_DELAY_OFFSET = 0"
definition IO_DQS_EN_PHASE_MAX :: nat where "IO_DQS_EN_PHASE_MAX = 7"
definition IO_DQS_IN_DELAY_MAX :: nat where "IO_DQS_IN_DELAY_MAX = 31"
definition IO_DQS_IN_RESERVE :: nat where "IO_DQS_IN_RESERVE = 4"
definition IO_DQS_OUT_RESERVE :: nat where "IO_DQS_OUT_RESERVE = 4"
definition IO_DQ_OUT_RESERVE :: nat where "IO_DQ_OUT_RESERVE = 0"
definition IO_IO_IN_DELAY_MAX :: nat where "IO_IO_IN_DELAY_MAX = 31"
definition IO_IO_OUT1_DELAY_MAX :: nat where "IO_IO_OUT1_DELAY_MAX = 31"
definition IO_IO_OUT2_DELAY_MAX :: nat where "IO_IO_OUT2_DELAY_MAX = 0"
definition IO_SHIFT_DQS_EN_WHEN_SHIFT_DQS :: nat where "IO_SHIFT_DQS_EN_WHEN_SHIFT_DQS = 0"
definition LRDIMM :: nat where "LRDIMM = 0"
definition MAX_LATENCY_COUNT_WIDTH :: nat where "MAX_LATENCY_COUNT_WIDTH = 5"
definition NUM_SHADOW_REGS :: nat where "NUM_SHADOW_REGS = 1"
definition QDRII :: nat where "QDRII = 0"
definition RDIMM :: nat where "RDIMM = 0"
definition REG_FILE_INIT_SEQ_SIGNATURE :: "32 word" where "REG_FILE_INIT_SEQ_SIGNATURE = 0x555504b5"
definition RLDRAMII :: nat where "RLDRAMII = 0"
definition RLDRAMX :: nat where "RLDRAMX = 0"
definition RW_MGR_MEM_ADDRESS_MIRRORING :: nat where "RW_MGR_MEM_ADDRESS_MIRRORING = 0"
definition RW_MGR_MEM_CHIP_SELECT_WIDTH :: nat where "RW_MGR_MEM_CHIP_SELECT_WIDTH = 1"
definition RW_MGR_MEM_DATA_MASK_WIDTH :: nat where "RW_MGR_MEM_DATA_MASK_WIDTH = 4"
definition RW_MGR_MEM_DATA_WIDTH :: nat where "RW_MGR_MEM_DATA_WIDTH = 32"
definition RW_MGR_MEM_DQ_PER_READ_DQS :: nat where "RW_MGR_MEM_DQ_PER_READ_DQS = 8"
definition RW_MGR_MEM_DQ_PER_WRITE_DQS :: nat where "RW_MGR_MEM_DQ_PER_WRITE_DQS = 8"
definition RW_MGR_MEM_IF_READ_DQS_WIDTH :: nat where "RW_MGR_MEM_IF_READ_DQS_WIDTH = 4"
definition RW_MGR_MEM_IF_WRITE_DQS_WIDTH :: nat where "RW_MGR_MEM_IF_WRITE_DQS_WIDTH = 4"
definition RW_MGR_MEM_NUMBER_OF_CS_PER_DIMM :: nat where "RW_MGR_MEM_NUMBER_OF_CS_PER_DIMM = 1"
definition RW_MGR_MEM_NUMBER_OF_RANKS :: nat where "RW_MGR_MEM_NUMBER_OF_RANKS = 1"
definition RW_MGR_MEM_ODT_WIDTH :: nat where "RW_MGR_MEM_ODT_WIDTH = 1"
definition RW_MGR_MEM_VIRTUAL_GROUPS_PER_READ_DQS :: nat where "RW_MGR_MEM_VIRTUAL_GROUPS_PER_READ_DQS = 1"
definition RW_MGR_MEM_VIRTUAL_GROUPS_PER_WRITE_DQS :: nat where "RW_MGR_MEM_VIRTUAL_GROUPS_PER_WRITE_DQS = 1"

definition MGR_SELECT_MASK :: "32 word" where "MGR_SELECT_MASK = 0xf8000"

definition RW_MGR_NUM_DM_PER_WRITE_GROUP :: nat where "RW_MGR_NUM_DM_PER_WRITE_GROUP = RW_MGR_MEM_DATA_MASK_WIDTH div RW_MGR_MEM_IF_WRITE_DQS_WIDTH"
definition RW_MGR_NUM_DQS_PER_WRITE_GROUP :: nat where "RW_MGR_NUM_DQS_PER_WRITE_GROUP = RW_MGR_MEM_IF_READ_DQS_WIDTH div RW_MGR_MEM_IF_WRITE_DQS_WIDTH"
definition NUM_RANKS_PER_SHADOW_REG :: nat where "NUM_RANKS_PER_SHADOW_REG = RW_MGR_MEM_NUMBER_OF_RANKS div NUM_SHADOW_REGS"
definition BASE_RW_MGR :: "32 word" where "BASE_RW_MGR = 0x90000"
definition RW_MGR_RUN_SINGLE_GROUP :: "32 word" where "RW_MGR_RUN_SINGLE_GROUP = BASE_RW_MGR"
definition RW_MGR_RUN_ALL_GROUPS :: "32 word" where "RW_MGR_RUN_ALL_GROUPS = BASE_RW_MGR + 0x400"
definition RW_MGR_LOAD_CNTR_0 :: "32 word" where "RW_MGR_LOAD_CNTR_0 = BASE_RW_MGR + 0x800"
definition RW_MGR_LOAD_CNTR_1 :: "32 word" where "RW_MGR_LOAD_CNTR_1 = BASE_RW_MGR + 0x804"
definition RW_MGR_LOAD_CNTR_2 :: "32 word" where "RW_MGR_LOAD_CNTR_2 = BASE_RW_MGR + 0x808"
definition RW_MGR_LOAD_CNTR_3 :: "32 word" where "RW_MGR_LOAD_CNTR_3 = BASE_RW_MGR + 0x80c"
definition RW_MGR_LOAD_JUMP_ADD_0 :: "32 word" where "RW_MGR_LOAD_JUMP_ADD_0 = BASE_RW_MGR + 0xc00"
definition RW_MGR_LOAD_JUMP_ADD_1 :: "32 word" where "RW_MGR_LOAD_JUMP_ADD_1 = BASE_RW_MGR + 0xc04"
definition RW_MGR_LOAD_JUMP_ADD_2 :: "32 word" where "RW_MGR_LOAD_JUMP_ADD_2 = BASE_RW_MGR + 0xc08"
definition RW_MGR_LOAD_JUMP_ADD_3 :: "32 word" where "RW_MGR_LOAD_JUMP_ADD_3 = BASE_RW_MGR + 0xc0c"
definition RW_MGR_RESET_READ_DATAPATH :: "32 word" where "RW_MGR_RESET_READ_DATAPATH = BASE_RW_MGR + 0x1000"
definition RW_MGR_SET_CS_AND_ODT_MASK :: "32 word" where "RW_MGR_SET_CS_AND_ODT_MASK = BASE_RW_MGR + 0x1400"
definition RW_MGR_RANK_ALL :: "32 word" where "RW_MGR_RANK_ALL = 0x0"
definition RW_MGR_ODT_MODE_OFF :: "32 word" where "RW_MGR_ODT_MODE_OFF = 0"
definition RW_MGR_ODT_MODE_READ_WRITE :: "32 word" where "RW_MGR_ODT_MODE_READ_WRITE = 1"
definition NUM_CALIB_REPEAT :: nat where "NUM_CALIB_REPEAT = 1"
definition NUM_READ_TESTS :: nat where "NUM_READ_TESTS = 7"
definition NUM_READ_PB_TESTS :: nat where "NUM_READ_PB_TESTS = 7"
definition CAL_STAGE_NIL :: "32 word" where "CAL_STAGE_NIL = 0"
definition CAL_STAGE_VFIFO :: "32 word" where "CAL_STAGE_VFIFO = 1"
definition CAL_STAGE_WLEVEL :: "32 word" where "CAL_STAGE_WLEVEL = 2"
definition CAL_STAGE_LFIFO :: "32 word" where "CAL_STAGE_LFIFO = 3"
definition CAL_STAGE_WRITES :: "32 word" where "CAL_STAGE_WRITES = 4"
definition CAL_STAGE_VFIFO_AFTER_WRITES :: "32 word" where "CAL_STAGE_VFIFO_AFTER_WRITES = 9"
definition CAL_SUBSTAGE_NIL :: "32 word" where "CAL_SUBSTAGE_NIL = 0"
definition CAL_SUBSTAGE_GUARANTEED_READ :: "32 word" where "CAL_SUBSTAGE_GUARANTEED_READ = 1"
definition CAL_SUBSTAGE_DQS_EN_PHASE :: "32 word" where "CAL_SUBSTAGE_DQS_EN_PHASE = 2"
definition CAL_SUBSTAGE_VFIFO_CENTER :: "32 word" where "CAL_SUBSTAGE_VFIFO_CENTER = 3"
definition CAL_SUBSTAGE_WORKING_DELAY :: "32 word" where "CAL_SUBSTAGE_WORKING_DELAY = 1"
definition CAL_SUBSTAGE_LAST_WORKING_DELAY :: "32 word" where "CAL_SUBSTAGE_LAST_WORKING_DELAY = 2"
definition CAL_SUBSTAGE_WRITES_CENTER :: "32 word" where "CAL_SUBSTAGE_WRITES_CENTER = 1"
definition CAL_SUBSTAGE_READ_LATENCY :: "32 word" where "CAL_SUBSTAGE_READ_LATENCY = 1"

definition READ_VALID_FIFO_SIZE :: nat where "READ_VALID_FIFO_SIZE = 16"

definition VFIFO_SIZE :: nat where "VFIFO_SIZE = READ_VALID_FIFO_SIZE"
definition BASE_PHY_MGR :: "32 word" where "BASE_PHY_MGR = 0x88000"
definition BASE_DATA_MGR :: "32 word" where "BASE_DATA_MGR = 0x98000"

definition SEQUENCER_SCC_MGR_INST_BASE :: "32 word" where "SEQUENCER_SCC_MGR_INST_BASE = 0x58000"

definition BASE_SCC_MGR :: "32 word" where "BASE_SCC_MGR = SEQUENCER_SCC_MGR_INST_BASE"

definition SEQUENCER_REG_FILE_INST_BASE :: "32 word" where "SEQUENCER_REG_FILE_INST_BASE = 0x70000"

definition BASE_REG_FILE :: "32 word" where "BASE_REG_FILE = SEQUENCER_REG_FILE_INST_BASE"
definition BASE_MMR :: "32 word" where "BASE_MMR = 0xc0000"
definition REG_FILE_SIGNATURE :: "32 word" where "REG_FILE_SIGNATURE = BASE_REG_FILE + 0x0"
definition REG_FILE_DEBUG_DATA_ADDR :: "32 word" where "REG_FILE_DEBUG_DATA_ADDR = BASE_REG_FILE + 0x4"
definition REG_FILE_CUR_STAGE :: "32 word" where "REG_FILE_CUR_STAGE = BASE_REG_FILE + 0x8"
definition REG_FILE_FOM :: "32 word" where "REG_FILE_FOM = BASE_REG_FILE + 0xc"
definition REG_FILE_FAILING_STAGE :: "32 word" where "REG_FILE_FAILING_STAGE = BASE_REG_FILE + 0x10"
definition REG_FILE_DEBUG1 :: "32 word" where "REG_FILE_DEBUG1 = BASE_REG_FILE + 0x14"
definition REG_FILE_DEBUG2 :: "32 word" where "REG_FILE_DEBUG2 = BASE_REG_FILE + 0x18"
definition REG_FILE_DTAPS_PER_PTAP :: "32 word" where "REG_FILE_DTAPS_PER_PTAP = BASE_REG_FILE + 0x1c"
definition REG_FILE_TRK_SAMPLE_COUNT :: "32 word" where "REG_FILE_TRK_SAMPLE_COUNT = BASE_REG_FILE + 0x20"
definition REG_FILE_TRK_LONGIDLE :: "32 word" where "REG_FILE_TRK_LONGIDLE = BASE_REG_FILE + 0x24"
definition REG_FILE_DELAYS :: "32 word" where "REG_FILE_DELAYS = BASE_REG_FILE + 0x28"
definition REG_FILE_TRK_RW_MGR_ADDR :: "32 word" where "REG_FILE_TRK_RW_MGR_ADDR = BASE_REG_FILE + 0x2c"
definition REG_FILE_TRK_READ_DQS_WIDTH :: "32 word" where "REG_FILE_TRK_READ_DQS_WIDTH = BASE_REG_FILE + 0x30"
definition REG_FILE_TRK_RFSH :: "32 word" where "REG_FILE_TRK_RFSH = BASE_REG_FILE + 0x34"
definition CTRL_CONFIG_REG :: "32 word" where "CTRL_CONFIG_REG = BASE_MMR      + 0x0"
definition PHY_MGR_PHY_RLAT :: "32 word" where "PHY_MGR_PHY_RLAT = BASE_PHY_MGR + 0x4000"
definition PHY_MGR_RESET_MEM_STBL :: "32 word" where "PHY_MGR_RESET_MEM_STBL = BASE_PHY_MGR + 0x4004"
definition PHY_MGR_MUX_SEL :: "32 word" where "PHY_MGR_MUX_SEL = BASE_PHY_MGR + 0x4008"
definition PHY_MGR_CAL_STATUS :: "32 word" where "PHY_MGR_CAL_STATUS = BASE_PHY_MGR + 0x400c"
definition PHY_MGR_CAL_DEBUG_INFO :: "32 word" where "PHY_MGR_CAL_DEBUG_INFO = BASE_PHY_MGR + 0x4010"
definition PHY_MGR_AFI_WLAT :: "32 word" where "PHY_MGR_AFI_WLAT = BASE_PHY_MGR + 0x4018"
definition PHY_MGR_CAL_RESET :: "32 word" where "PHY_MGR_CAL_RESET = 0"
definition PHY_MGR_CAL_SUCCESS :: "32 word" where "PHY_MGR_CAL_SUCCESS = 1"
definition PHY_MGR_CAL_FAIL :: "32 word" where "PHY_MGR_CAL_FAIL = 2"
definition PHY_MGR_CMD_INC_VFIFO_FR :: "32 word" where "PHY_MGR_CMD_INC_VFIFO_FR = BASE_PHY_MGR + 0x0"
definition PHY_MGR_CMD_INC_VFIFO_HR :: "32 word" where "PHY_MGR_CMD_INC_VFIFO_HR = BASE_PHY_MGR + 0x4"
definition PHY_MGR_CMD_INC_VFIFO_HARD_PHY :: "32 word" where "PHY_MGR_CMD_INC_VFIFO_HARD_PHY = BASE_PHY_MGR + 0x4"
definition PHY_MGR_CMD_FIFO_RESET :: "32 word" where "PHY_MGR_CMD_FIFO_RESET = BASE_PHY_MGR + 0x8"
definition PHY_MGR_CMD_INC_VFIFO_FR_HR :: "32 word" where "PHY_MGR_CMD_INC_VFIFO_FR_HR = BASE_PHY_MGR + 0xc"
definition PHY_MGR_CMD_INC_VFIFO_QR :: "32 word" where "PHY_MGR_CMD_INC_VFIFO_QR = BASE_PHY_MGR + 0x10"
definition DATA_MGR_MEM_T_ADD :: "32 word" where "DATA_MGR_MEM_T_ADD = BASE_DATA_MGR + 0x8"
definition DATA_MGR_MEM_T_WL :: "32 word" where "DATA_MGR_MEM_T_WL = BASE_DATA_MGR + 0x4"
definition MEM_T_WL_ADD :: "32 word" where "MEM_T_WL_ADD = DATA_MGR_MEM_T_WL"
definition DATA_MGR_MEM_T_RL :: "32 word" where "DATA_MGR_MEM_T_RL = BASE_DATA_MGR + 0xc"
definition MEM_T_RL_ADD :: "32 word" where "MEM_T_RL_ADD = DATA_MGR_MEM_T_RL"
definition CALIB_SKIP_DELAY_LOOPS :: "32 word" where "CALIB_SKIP_DELAY_LOOPS = push_bit 0 1"
definition CALIB_SKIP_DELAY_SWEEPS :: "32 word" where "CALIB_SKIP_DELAY_SWEEPS = push_bit 2 1"
definition CALIB_SKIP_VFIFO :: "32 word" where "CALIB_SKIP_VFIFO = push_bit 3 1"
definition CALIB_SKIP_LFIFO :: "32 word" where "CALIB_SKIP_LFIFO = push_bit 4 1"
definition CALIB_SKIP_WLEVEL :: "32 word" where "CALIB_SKIP_WLEVEL = push_bit 5 1"
definition CALIB_SKIP_WRITES :: "32 word" where "CALIB_SKIP_WRITES = push_bit 6 1"
definition CALIB_SKIP_FULL_TEST :: "32 word" where "CALIB_SKIP_FULL_TEST = push_bit 7 1"
definition CALIB_SKIP_ALL :: "32 word" where "CALIB_SKIP_ALL = CALIB_SKIP_VFIFO  OR  CALIB_SKIP_LFIFO  OR  CALIB_SKIP_WLEVEL  OR  CALIB_SKIP_WRITES  OR  CALIB_SKIP_FULL_TEST"
definition SCC_MGR_GROUP_COUNTER :: "32 word" where "SCC_MGR_GROUP_COUNTER = BASE_SCC_MGR + 0x0"
definition SCC_MGR_DQS_IN_DELAY :: "32 word" where "SCC_MGR_DQS_IN_DELAY = BASE_SCC_MGR + 0x100"
definition SCC_MGR_DQS_EN_PHASE :: "32 word" where "SCC_MGR_DQS_EN_PHASE = BASE_SCC_MGR + 0x200"
definition SCC_MGR_DQS_EN_DELAY :: "32 word" where "SCC_MGR_DQS_EN_DELAY = BASE_SCC_MGR + 0x300"
definition SCC_MGR_DQDQS_OUT_PHASE :: "32 word" where "SCC_MGR_DQDQS_OUT_PHASE = BASE_SCC_MGR + 0x400"
definition SCC_MGR_OCT_OUT1_DELAY :: "32 word" where "SCC_MGR_OCT_OUT1_DELAY = BASE_SCC_MGR + 0x500"
definition SCC_MGR_IO_OUT1_DELAY :: "32 word" where "SCC_MGR_IO_OUT1_DELAY = BASE_SCC_MGR + 0x700"
definition SCC_MGR_IO_IN_DELAY :: "32 word" where "SCC_MGR_IO_IN_DELAY = BASE_SCC_MGR + 0x900"
definition SCC_MGR_HHP_GLOBALS :: "32 word" where "SCC_MGR_HHP_GLOBALS = BASE_SCC_MGR + 0xa00"
definition SCC_MGR_HHP_RFILE :: "32 word" where "SCC_MGR_HHP_RFILE = BASE_SCC_MGR + 0xb00"
definition SCC_MGR_HHP_EXTRAS_OFFSET :: "32 word" where "SCC_MGR_HHP_EXTRAS_OFFSET = 0"
definition SCC_MGR_HHP_DQSE_MAP_OFFSET :: "32 word" where "SCC_MGR_HHP_DQSE_MAP_OFFSET = 1"
definition SCC_MGR_DQS_ENA :: "32 word" where "SCC_MGR_DQS_ENA = BASE_SCC_MGR + 0xe00"
definition SCC_MGR_DQS_IO_ENA :: "32 word" where "SCC_MGR_DQS_IO_ENA = BASE_SCC_MGR + 0xe04"
definition SCC_MGR_DQ_ENA :: "32 word" where "SCC_MGR_DQ_ENA = BASE_SCC_MGR + 0xe08"
definition SCC_MGR_DM_ENA :: "32 word" where "SCC_MGR_DM_ENA = BASE_SCC_MGR + 0xe0c"
definition SCC_MGR_UPD :: "32 word" where "SCC_MGR_UPD = BASE_SCC_MGR + 0xe20"
definition SCC_MGR_AFI_CAL_INIT :: "32 word" where "SCC_MGR_AFI_CAL_INIT = BASE_SCC_MGR + 0xd00"
definition PHY_DEBUG_IN_DEBUG_MODE :: "32 word" where "PHY_DEBUG_IN_DEBUG_MODE = 0x1"
definition PHY_DEBUG_ENABLE_CAL_RPT :: "32 word" where "PHY_DEBUG_ENABLE_CAL_RPT = 0x2"
definition PHY_DEBUG_SWEEP_ALL_GROUPS :: "32 word" where "PHY_DEBUG_SWEEP_ALL_GROUPS = 0x8"
definition PHY_DEBUG_DISABLE_GUARANTEED_READ :: "32 word" where "PHY_DEBUG_DISABLE_GUARANTEED_READ = 0x10"

definition TINIT_CNTR0_VAL :: nat where "TINIT_CNTR0_VAL = 99"

definition SEQ_TINIT_CNTR0_VAL :: nat where "SEQ_TINIT_CNTR0_VAL = TINIT_CNTR0_VAL"

definition TINIT_CNTR1_VAL :: nat where "TINIT_CNTR1_VAL = 32"

definition SEQ_TINIT_CNTR1_VAL :: nat where "SEQ_TINIT_CNTR1_VAL = TINIT_CNTR1_VAL"

definition TINIT_CNTR2_VAL :: nat where "TINIT_CNTR2_VAL = 32"

definition SEQ_TINIT_CNTR2_VAL :: nat where "SEQ_TINIT_CNTR2_VAL = TINIT_CNTR2_VAL"

definition TRESET_CNTR0_VAL :: nat where "TRESET_CNTR0_VAL = 99"

definition SEQ_TRESET_CNTR0_VAL :: nat where "SEQ_TRESET_CNTR0_VAL = TRESET_CNTR0_VAL"

definition TRESET_CNTR1_VAL :: nat where "TRESET_CNTR1_VAL = 99"

definition SEQ_TRESET_CNTR1_VAL :: nat where "SEQ_TRESET_CNTR1_VAL = TRESET_CNTR1_VAL"

definition TRESET_CNTR2_VAL :: nat where "TRESET_CNTR2_VAL = 10"

definition SEQ_TRESET_CNTR2_VAL :: nat where "SEQ_TRESET_CNTR2_VAL = TRESET_CNTR2_VAL"
definition RW_MGR_INST_ROM_WRITE :: "32 word" where "RW_MGR_INST_ROM_WRITE = BASE_RW_MGR + 0x1800"
definition RW_MGR_AC_ROM_WRITE :: "32 word" where "RW_MGR_AC_ROM_WRITE = BASE_RW_MGR + 0x1c00"

definition HALF_RATE_MODE :: nat where "HALF_RATE_MODE = 0"
definition QUARTER_RATE_MODE :: nat where "QUARTER_RATE_MODE = 0"
definition STATIC_IN_RTL_SIM :: "32 word" where "STATIC_IN_RTL_SIM = 0"
definition STATIC_SKIP_DELAY_LOOPS :: "32 word" where "STATIC_SKIP_DELAY_LOOPS = 0"
definition STATIC_CALIB_STEPS :: "32 word" where "STATIC_CALIB_STEPS = STATIC_IN_RTL_SIM  OR  CALIB_SKIP_FULL_TEST  OR  STATIC_SKIP_DELAY_LOOPS"

definition RW_MGR_ac_mrs1 :: "32 word" where "RW_MGR_ac_mrs1 = 0x4"
definition RW_MGR_ac_mrs3 :: "32 word" where "RW_MGR_ac_mrs3 = 0x6"
definition RW_MGR_ac_write_bank_0_col_0_nodata_wl_1 :: "32 word" where "RW_MGR_ac_write_bank_0_col_0_nodata_wl_1 = 0x1c"
definition RW_MGR_ac_act_1 :: "32 word" where "RW_MGR_ac_act_1 = 0x11"
definition RW_MGR_ac_write_postdata :: "32 word" where "RW_MGR_ac_write_postdata = 0x1a"
definition RW_MGR_ac_act_0 :: "32 word" where "RW_MGR_ac_act_0 = 0x10"
definition RW_MGR_ac_des :: "32 word" where "RW_MGR_ac_des = 0xd"
definition RW_MGR_ac_init_reset_1_cke_0 :: "32 word" where "RW_MGR_ac_init_reset_1_cke_0 = 0x1"
definition RW_MGR_ac_write_data :: "32 word" where "RW_MGR_ac_write_data = 0x19"
definition RW_MGR_ac_init_reset_0_cke_0 :: "32 word" where "RW_MGR_ac_init_reset_0_cke_0 = 0x0"
definition RW_MGR_ac_read_bank_0_1_norden :: "32 word" where "RW_MGR_ac_read_bank_0_1_norden = 0x22"
definition RW_MGR_ac_pre_all :: "32 word" where "RW_MGR_ac_pre_all = 0x12"
definition RW_MGR_ac_mrs0_user :: "32 word" where "RW_MGR_ac_mrs0_user = 0x2"
definition RW_MGR_ac_mrs0_dll_reset :: "32 word" where "RW_MGR_ac_mrs0_dll_reset = 0x3"
definition RW_MGR_ac_read_bank_0_0 :: "32 word" where "RW_MGR_ac_read_bank_0_0 = 0x1d"
definition RW_MGR_ac_write_bank_0_col_1 :: "32 word" where "RW_MGR_ac_write_bank_0_col_1 = 0x16"
definition RW_MGR_ac_read_bank_0_1 :: "32 word" where "RW_MGR_ac_read_bank_0_1 = 0x1f"
definition RW_MGR_ac_write_bank_1_col_0 :: "32 word" where "RW_MGR_ac_write_bank_1_col_0 = 0x15"
definition RW_MGR_ac_write_bank_1_col_1 :: "32 word" where "RW_MGR_ac_write_bank_1_col_1 = 0x17"
definition RW_MGR_ac_write_bank_0_col_0 :: "32 word" where "RW_MGR_ac_write_bank_0_col_0 = 0x14"
definition RW_MGR_ac_read_bank_1_0 :: "32 word" where "RW_MGR_ac_read_bank_1_0 = 0x1e"
definition RW_MGR_ac_mrs1_mirr :: "32 word" where "RW_MGR_ac_mrs1_mirr = 0xa"
definition RW_MGR_ac_read_bank_1_1 :: "32 word" where "RW_MGR_ac_read_bank_1_1 = 0x20"
definition RW_MGR_ac_des_odt_1 :: "32 word" where "RW_MGR_ac_des_odt_1 = 0xe"
definition RW_MGR_ac_mrs0_dll_reset_mirr :: "32 word" where "RW_MGR_ac_mrs0_dll_reset_mirr = 0x9"
definition RW_MGR_ac_zqcl :: "32 word" where "RW_MGR_ac_zqcl = 0x7"
definition RW_MGR_ac_write_predata :: "32 word" where "RW_MGR_ac_write_predata = 0x18"
definition RW_MGR_ac_mrs0_user_mirr :: "32 word" where "RW_MGR_ac_mrs0_user_mirr = 0x8"
definition RW_MGR_ac_ref :: "32 word" where "RW_MGR_ac_ref = 0x13"
definition RW_MGR_ac_nop :: "32 word" where "RW_MGR_ac_nop = 0xf"
definition RW_MGR_ac_rdimm :: "32 word" where "RW_MGR_ac_rdimm = 0x23"
definition RW_MGR_ac_mrs2_mirr :: "32 word" where "RW_MGR_ac_mrs2_mirr = 0xb"
definition RW_MGR_ac_write_bank_0_col_0_nodata :: "32 word" where "RW_MGR_ac_write_bank_0_col_0_nodata = 0x1b"
definition RW_MGR_ac_read_en :: "32 word" where "RW_MGR_ac_read_en = 0x21"
definition RW_MGR_ac_mrs3_mirr :: "32 word" where "RW_MGR_ac_mrs3_mirr = 0xc"
definition RW_MGR_ac_mrs2 :: "32 word" where "RW_MGR_ac_mrs2 = 0x5"
definition CONTENT_ac_mrs1 :: "32 word" where "CONTENT_ac_mrs1 = 0x10090006"
definition CONTENT_ac_mrs3 :: "32 word" where "CONTENT_ac_mrs3 = 0x100b0000"
definition CONTENT_ac_write_bank_0_col_0_nodata_wl_1 :: "32 word" where "CONTENT_ac_write_bank_0_col_0_nodata_wl_1 = 0x18980000"
definition CONTENT_ac_act_1 :: "32 word" where "CONTENT_ac_act_1 = 0x106b0000"
definition CONTENT_ac_write_postdata :: "32 word" where "CONTENT_ac_write_postdata = 0x38780000"
definition CONTENT_ac_act_0 :: "32 word" where "CONTENT_ac_act_0 = 0x10680000"
definition CONTENT_ac_des :: "32 word" where "CONTENT_ac_des = 0x30780000"
definition CONTENT_ac_init_reset_1_cke_0 :: "32 word" where "CONTENT_ac_init_reset_1_cke_0 = 0x20780000"
definition CONTENT_ac_write_data :: "32 word" where "CONTENT_ac_write_data = 0x3cf80000"
definition CONTENT_ac_init_reset_0_cke_0 :: "32 word" where "CONTENT_ac_init_reset_0_cke_0 = 0x20700000"
definition CONTENT_ac_read_bank_0_1_norden :: "32 word" where "CONTENT_ac_read_bank_0_1_norden = 0x10580008"
definition CONTENT_ac_pre_all :: "32 word" where "CONTENT_ac_pre_all = 0x10280400"
definition CONTENT_ac_mrs0_user :: "32 word" where "CONTENT_ac_mrs0_user = 0x10080471"
definition CONTENT_ac_mrs0_dll_reset :: "32 word" where "CONTENT_ac_mrs0_dll_reset = 0x10080570"
definition CONTENT_ac_read_bank_0_0 :: "32 word" where "CONTENT_ac_read_bank_0_0 = 0x13580000"
definition CONTENT_ac_write_bank_0_col_1 :: "32 word" where "CONTENT_ac_write_bank_0_col_1 = 0x1c980008"
definition CONTENT_ac_read_bank_0_1 :: "32 word" where "CONTENT_ac_read_bank_0_1 = 0x13580008"
definition CONTENT_ac_write_bank_1_col_0 :: "32 word" where "CONTENT_ac_write_bank_1_col_0 = 0x1c9b0000"
definition CONTENT_ac_write_bank_1_col_1 :: "32 word" where "CONTENT_ac_write_bank_1_col_1 = 0x1c9b0008"
definition CONTENT_ac_write_bank_0_col_0 :: "32 word" where "CONTENT_ac_write_bank_0_col_0 = 0x1c980000"
definition CONTENT_ac_read_bank_1_0 :: "32 word" where "CONTENT_ac_read_bank_1_0 = 0x135b0000"
definition CONTENT_ac_mrs1_mirr :: "32 word" where "CONTENT_ac_mrs1_mirr = 0x100a0006"
definition CONTENT_ac_read_bank_1_1 :: "32 word" where "CONTENT_ac_read_bank_1_1 = 0x135b0008"
definition CONTENT_ac_des_odt_1 :: "32 word" where "CONTENT_ac_des_odt_1 = 0x38780000"
definition CONTENT_ac_mrs0_dll_reset_mirr :: "32 word" where "CONTENT_ac_mrs0_dll_reset_mirr = 0x100804e8"
definition CONTENT_ac_zqcl :: "32 word" where "CONTENT_ac_zqcl = 0x10380400"
definition CONTENT_ac_write_predata :: "32 word" where "CONTENT_ac_write_predata = 0x38f80000"
definition CONTENT_ac_mrs0_user_mirr :: "32 word" where "CONTENT_ac_mrs0_user_mirr = 0x10080469"
definition CONTENT_ac_ref :: "32 word" where "CONTENT_ac_ref = 0x10480000"
definition CONTENT_ac_nop :: "32 word" where "CONTENT_ac_nop = 0x30780000"
definition CONTENT_ac_rdimm :: "32 word" where "CONTENT_ac_rdimm = 0x10780000"
definition CONTENT_ac_mrs2_mirr :: "32 word" where "CONTENT_ac_mrs2_mirr = 0x10090218"
definition CONTENT_ac_write_bank_0_col_0_nodata :: "32 word" where "CONTENT_ac_write_bank_0_col_0_nodata = 0x18180000"
definition CONTENT_ac_read_en :: "32 word" where "CONTENT_ac_read_en = 0x33780000"
definition CONTENT_ac_mrs3_mirr :: "32 word" where "CONTENT_ac_mrs3_mirr = 0x100b0000"
definition CONTENT_ac_mrs2 :: "32 word" where "CONTENT_ac_mrs2 = 0x100a0218"
definition RW_MGR_READ_B2B_WAIT2 :: "32 word" where "RW_MGR_READ_B2B_WAIT2 = 0x6b"
definition RW_MGR_LFSR_WR_RD_BANK_0_WAIT :: "32 word" where "RW_MGR_LFSR_WR_RD_BANK_0_WAIT = 0x32"
definition RW_MGR_REFRESH_ALL :: "32 word" where "RW_MGR_REFRESH_ALL = 0x14"
definition RW_MGR_ZQCL :: "32 word" where "RW_MGR_ZQCL = 0x6"
definition RW_MGR_LFSR_WR_RD_BANK_0_NOP :: "32 word" where "RW_MGR_LFSR_WR_RD_BANK_0_NOP = 0x23"
definition RW_MGR_LFSR_WR_RD_BANK_0_DQS :: "32 word" where "RW_MGR_LFSR_WR_RD_BANK_0_DQS = 0x24"
definition RW_MGR_ACTIVATE_0_AND_1 :: "32 word" where "RW_MGR_ACTIVATE_0_AND_1 = 0xd"
definition RW_MGR_MRS2_MIRR :: "32 word" where "RW_MGR_MRS2_MIRR = 0xa"
definition RW_MGR_INIT_RESET_0_CKE_0 :: "32 word" where "RW_MGR_INIT_RESET_0_CKE_0 = 0x6f"
definition RW_MGR_LFSR_WR_RD_DM_BANK_0_WAIT :: "32 word" where "RW_MGR_LFSR_WR_RD_DM_BANK_0_WAIT = 0x46"
definition RW_MGR_ACTIVATE_1 :: "32 word" where "RW_MGR_ACTIVATE_1 = 0xf"
definition RW_MGR_MRS2 :: "32 word" where "RW_MGR_MRS2 = 0x4"
definition RW_MGR_LFSR_WR_RD_DM_BANK_0_WL_1 :: "32 word" where "RW_MGR_LFSR_WR_RD_DM_BANK_0_WL_1 = 0x35"
definition RW_MGR_MRS1 :: "32 word" where "RW_MGR_MRS1 = 0x3"
definition RW_MGR_IDLE_LOOP1 :: "32 word" where "RW_MGR_IDLE_LOOP1 = 0x7b"
definition RW_MGR_GUARANTEED_WRITE_WAIT2 :: "32 word" where "RW_MGR_GUARANTEED_WRITE_WAIT2 = 0x19"
definition RW_MGR_MRS3 :: "32 word" where "RW_MGR_MRS3 = 0x5"
definition RW_MGR_IDLE_LOOP2 :: "32 word" where "RW_MGR_IDLE_LOOP2 = 0x7a"
definition RW_MGR_GUARANTEED_WRITE_WAIT1 :: "32 word" where "RW_MGR_GUARANTEED_WRITE_WAIT1 = 0x1f"
definition RW_MGR_LFSR_WR_RD_BANK_0_DATA :: "32 word" where "RW_MGR_LFSR_WR_RD_BANK_0_DATA = 0x25"
definition RW_MGR_GUARANTEED_WRITE_WAIT3 :: "32 word" where "RW_MGR_GUARANTEED_WRITE_WAIT3 = 0x1d"
definition RW_MGR_RDIMM_CMD :: "32 word" where "RW_MGR_RDIMM_CMD = 0x79"
definition RW_MGR_LFSR_WR_RD_DM_BANK_0_NOP :: "32 word" where "RW_MGR_LFSR_WR_RD_DM_BANK_0_NOP = 0x37"
definition RW_MGR_GUARANTEED_WRITE_WAIT0 :: "32 word" where "RW_MGR_GUARANTEED_WRITE_WAIT0 = 0x1b"
definition RW_MGR_LFSR_WR_RD_DM_BANK_0_DATA :: "32 word" where "RW_MGR_LFSR_WR_RD_DM_BANK_0_DATA = 0x39"
definition RW_MGR_GUARANTEED_READ_CONT :: "32 word" where "RW_MGR_GUARANTEED_READ_CONT = 0x54"
definition RW_MGR_REFRESH_DELAY :: "32 word" where "RW_MGR_REFRESH_DELAY = 0x15"
definition RW_MGR_MRS3_MIRR :: "32 word" where "RW_MGR_MRS3_MIRR = 0xb"
definition RW_MGR_IDLE :: "32 word" where "RW_MGR_IDLE = 0x0"
definition RW_MGR_READ_B2B :: "32 word" where "RW_MGR_READ_B2B = 0x59"
definition RW_MGR_LFSR_WR_RD_DM_BANK_0_DQS :: "32 word" where "RW_MGR_LFSR_WR_RD_DM_BANK_0_DQS = 0x38"
definition RW_MGR_GUARANTEED_WRITE :: "32 word" where "RW_MGR_GUARANTEED_WRITE = 0x18"
definition RW_MGR_PRECHARGE_ALL :: "32 word" where "RW_MGR_PRECHARGE_ALL = 0x12"
definition RW_MGR_SGLE_READ :: "32 word" where "RW_MGR_SGLE_READ = 0x7d"
definition RW_MGR_MRS0_USER_MIRR :: "32 word" where "RW_MGR_MRS0_USER_MIRR = 0xc"
definition RW_MGR_RETURN :: "32 word" where "RW_MGR_RETURN = 0x1"
definition RW_MGR_LFSR_WR_RD_DM_BANK_0 :: "32 word" where "RW_MGR_LFSR_WR_RD_DM_BANK_0 = 0x36"
definition RW_MGR_MRS0_USER :: "32 word" where "RW_MGR_MRS0_USER = 0x7"
definition RW_MGR_GUARANTEED_READ :: "32 word" where "RW_MGR_GUARANTEED_READ = 0x4c"
definition RW_MGR_MRS0_DLL_RESET_MIRR :: "32 word" where "RW_MGR_MRS0_DLL_RESET_MIRR = 0x8"
definition RW_MGR_INIT_RESET_1_CKE_0 :: "32 word" where "RW_MGR_INIT_RESET_1_CKE_0 = 0x74"
definition RW_MGR_ACTIVATE_0_AND_1_WAIT2 :: "32 word" where "RW_MGR_ACTIVATE_0_AND_1_WAIT2 = 0x10"
definition RW_MGR_LFSR_WR_RD_BANK_0_WL_1 :: "32 word" where "RW_MGR_LFSR_WR_RD_BANK_0_WL_1 = 0x21"
definition RW_MGR_MRS0_DLL_RESET :: "32 word" where "RW_MGR_MRS0_DLL_RESET = 0x2"
definition RW_MGR_ACTIVATE_0_AND_1_WAIT1 :: "32 word" where "RW_MGR_ACTIVATE_0_AND_1_WAIT1 = 0xe"
definition RW_MGR_LFSR_WR_RD_BANK_0 :: "32 word" where "RW_MGR_LFSR_WR_RD_BANK_0 = 0x22"
definition RW_MGR_CLEAR_DQS_ENABLE :: "32 word" where "RW_MGR_CLEAR_DQS_ENABLE = 0x49"
definition RW_MGR_MRS1_MIRR :: "32 word" where "RW_MGR_MRS1_MIRR = 0x9"
definition RW_MGR_READ_B2B_WAIT1 :: "32 word" where "RW_MGR_READ_B2B_WAIT1 = 0x61"
definition CONTENT_READ_B2B_WAIT2 :: "32 word" where "CONTENT_READ_B2B_WAIT2 = 0xc680"
definition CONTENT_LFSR_WR_RD_BANK_0_WAIT :: "32 word" where "CONTENT_LFSR_WR_RD_BANK_0_WAIT = 0xa680"
definition CONTENT_REFRESH_ALL :: "32 word" where "CONTENT_REFRESH_ALL = 0x980"
definition CONTENT_ZQCL :: "32 word" where "CONTENT_ZQCL = 0x8380"
definition CONTENT_LFSR_WR_RD_BANK_0_NOP :: "32 word" where "CONTENT_LFSR_WR_RD_BANK_0_NOP = 0xe700"
definition CONTENT_LFSR_WR_RD_BANK_0_DQS :: "32 word" where "CONTENT_LFSR_WR_RD_BANK_0_DQS = 0xc00"
definition CONTENT_ACTIVATE_0_AND_1 :: "32 word" where "CONTENT_ACTIVATE_0_AND_1 = 0x800"
definition CONTENT_MRS2_MIRR :: "32 word" where "CONTENT_MRS2_MIRR = 0x8580"
definition CONTENT_INIT_RESET_0_CKE_0 :: "32 word" where "CONTENT_INIT_RESET_0_CKE_0 = 0x0"
definition CONTENT_LFSR_WR_RD_DM_BANK_0_WAIT :: "32 word" where "CONTENT_LFSR_WR_RD_DM_BANK_0_WAIT = 0xa680"
definition CONTENT_ACTIVATE_1 :: "32 word" where "CONTENT_ACTIVATE_1 = 0x880"
definition CONTENT_MRS2 :: "32 word" where "CONTENT_MRS2 = 0x8280"
definition CONTENT_LFSR_WR_RD_DM_BANK_0_WL_1 :: "32 word" where "CONTENT_LFSR_WR_RD_DM_BANK_0_WL_1 = 0xce00"
definition CONTENT_MRS1 :: "32 word" where "CONTENT_MRS1 = 0x8200"
definition CONTENT_IDLE_LOOP1 :: "32 word" where "CONTENT_IDLE_LOOP1 = 0xa680"
definition CONTENT_GUARANTEED_WRITE_WAIT2 :: "32 word" where "CONTENT_GUARANTEED_WRITE_WAIT2 = 0xcce8"
definition CONTENT_MRS3 :: "32 word" where "CONTENT_MRS3 = 0x8300"
definition CONTENT_IDLE_LOOP2 :: "32 word" where "CONTENT_IDLE_LOOP2 = 0x8680"
definition CONTENT_GUARANTEED_WRITE_WAIT1 :: "32 word" where "CONTENT_GUARANTEED_WRITE_WAIT1 = 0xac88"
definition CONTENT_LFSR_WR_RD_BANK_0_DATA :: "32 word" where "CONTENT_LFSR_WR_RD_BANK_0_DATA = 0x20ce0"
definition CONTENT_GUARANTEED_WRITE_WAIT3 :: "32 word" where "CONTENT_GUARANTEED_WRITE_WAIT3 = 0xec88"
definition CONTENT_RDIMM_CMD :: "32 word" where "CONTENT_RDIMM_CMD = 0x9180"
definition CONTENT_LFSR_WR_RD_DM_BANK_0_NOP :: "32 word" where "CONTENT_LFSR_WR_RD_DM_BANK_0_NOP = 0xe700"
definition CONTENT_GUARANTEED_WRITE_WAIT0 :: "32 word" where "CONTENT_GUARANTEED_WRITE_WAIT0 = 0x8ce8"
definition CONTENT_LFSR_WR_RD_DM_BANK_0_DATA :: "32 word" where "CONTENT_LFSR_WR_RD_DM_BANK_0_DATA = 0x30ce0"
definition CONTENT_GUARANTEED_READ_CONT :: "32 word" where "CONTENT_GUARANTEED_READ_CONT = 0x1168"
definition CONTENT_REFRESH_DELAY :: "32 word" where "CONTENT_REFRESH_DELAY = 0xa680"
definition CONTENT_MRS3_MIRR :: "32 word" where "CONTENT_MRS3_MIRR = 0x8600"
definition CONTENT_IDLE :: "32 word" where "CONTENT_IDLE = 0x80000"
definition CONTENT_READ_B2B :: "32 word" where "CONTENT_READ_B2B = 0x40e88"
definition CONTENT_LFSR_WR_RD_DM_BANK_0_DQS :: "32 word" where "CONTENT_LFSR_WR_RD_DM_BANK_0_DQS = 0xc00"
definition CONTENT_GUARANTEED_WRITE :: "32 word" where "CONTENT_GUARANTEED_WRITE = 0xb68"
definition CONTENT_PRECHARGE_ALL :: "32 word" where "CONTENT_PRECHARGE_ALL = 0x900"
definition CONTENT_SGLE_READ :: "32 word" where "CONTENT_SGLE_READ = 0x40f08"
definition CONTENT_MRS0_USER_MIRR :: "32 word" where "CONTENT_MRS0_USER_MIRR = 0x8400"
definition CONTENT_RETURN :: "32 word" where "CONTENT_RETURN = 0x80680"
definition CONTENT_LFSR_WR_RD_DM_BANK_0 :: "32 word" where "CONTENT_LFSR_WR_RD_DM_BANK_0 = 0xcd80"
definition CONTENT_MRS0_USER :: "32 word" where "CONTENT_MRS0_USER = 0x8100"
definition CONTENT_GUARANTEED_READ :: "32 word" where "CONTENT_GUARANTEED_READ = 0x1168"
definition CONTENT_MRS0_DLL_RESET_MIRR :: "32 word" where "CONTENT_MRS0_DLL_RESET_MIRR = 0x8480"
definition CONTENT_INIT_RESET_1_CKE_0 :: "32 word" where "CONTENT_INIT_RESET_1_CKE_0 = 0x80"
definition CONTENT_ACTIVATE_0_AND_1_WAIT2 :: "32 word" where "CONTENT_ACTIVATE_0_AND_1_WAIT2 = 0xa680"
definition CONTENT_LFSR_WR_RD_BANK_0_WL_1 :: "32 word" where "CONTENT_LFSR_WR_RD_BANK_0_WL_1 = 0xce00"
definition CONTENT_MRS0_DLL_RESET :: "32 word" where "CONTENT_MRS0_DLL_RESET = 0x8180"
definition CONTENT_ACTIVATE_0_AND_1_WAIT1 :: "32 word" where "CONTENT_ACTIVATE_0_AND_1_WAIT1 = 0x8680"
definition CONTENT_LFSR_WR_RD_BANK_0 :: "32 word" where "CONTENT_LFSR_WR_RD_BANK_0 = 0xcd80"
definition CONTENT_CLEAR_DQS_ENABLE :: "32 word" where "CONTENT_CLEAR_DQS_ENABLE = 0x1158"
definition CONTENT_MRS1_MIRR :: "32 word" where "CONTENT_MRS1_MIRR = 0x8500"
definition CONTENT_READ_B2B_WAIT1 :: "32 word" where "CONTENT_READ_B2B_WAIT1 = 0xa680"

lemmas seq_params = 
  AFI_CLK_FREQ_def AFI_RATE_RATIO_def ARRIAV_def BFM_MODE_def CALIB_LFIFO_OFFSET_def
  CALIB_VFIFO_OFFSET_def CYCLONEV_def DDRX_def ENABLE_SUPER_QUICK_CALIBRATION_def HARD_PHY_def
  HARD_VFIFO_def IO_DELAY_PER_DCHAIN_TAP_def IO_DELAY_PER_DQS_EN_DCHAIN_TAP_def
  IO_DELAY_PER_OPA_TAP_def IO_DLL_CHAIN_LENGTH_def IO_DM_OUT_RESERVE_def IO_DQDQS_OUT_PHASE_MAX_def
  IO_DQS_EN_DELAY_MAX_def IO_DQS_EN_DELAY_OFFSET_def IO_DQS_EN_PHASE_MAX_def
  IO_DQS_IN_DELAY_MAX_def IO_DQS_IN_RESERVE_def IO_DQS_OUT_RESERVE_def IO_DQ_OUT_RESERVE_def
  IO_IO_IN_DELAY_MAX_def IO_IO_OUT1_DELAY_MAX_def IO_IO_OUT2_DELAY_MAX_def
  IO_SHIFT_DQS_EN_WHEN_SHIFT_DQS_def LRDIMM_def MAX_LATENCY_COUNT_WIDTH_def NUM_SHADOW_REGS_def
  QDRII_def RDIMM_def REG_FILE_INIT_SEQ_SIGNATURE_def RLDRAMII_def RLDRAMX_def
  RW_MGR_MEM_ADDRESS_MIRRORING_def RW_MGR_MEM_CHIP_SELECT_WIDTH_def RW_MGR_MEM_DATA_MASK_WIDTH_def
  RW_MGR_MEM_DATA_WIDTH_def RW_MGR_MEM_DQ_PER_READ_DQS_def RW_MGR_MEM_DQ_PER_WRITE_DQS_def
  RW_MGR_MEM_IF_READ_DQS_WIDTH_def RW_MGR_MEM_IF_WRITE_DQS_WIDTH_def
  RW_MGR_MEM_NUMBER_OF_CS_PER_DIMM_def RW_MGR_MEM_NUMBER_OF_RANKS_def RW_MGR_MEM_ODT_WIDTH_def
  RW_MGR_MEM_VIRTUAL_GROUPS_PER_READ_DQS_def RW_MGR_MEM_VIRTUAL_GROUPS_PER_WRITE_DQS_def
  READ_VALID_FIFO_SIZE_def TINIT_CNTR0_VAL_def TINIT_CNTR1_VAL_def TINIT_CNTR2_VAL_def
  TRESET_CNTR0_VAL_def TRESET_CNTR1_VAL_def TRESET_CNTR2_VAL_def

lemmas seq_select = 
  MGR_SELECT_MASK_def

lemmas seq_regs = 
  RW_MGR_NUM_DM_PER_WRITE_GROUP_def RW_MGR_NUM_DQS_PER_WRITE_GROUP_def NUM_RANKS_PER_SHADOW_REG_def
  BASE_RW_MGR_def RW_MGR_RUN_SINGLE_GROUP_def RW_MGR_RUN_ALL_GROUPS_def RW_MGR_LOAD_CNTR_0_def
  RW_MGR_LOAD_CNTR_1_def RW_MGR_LOAD_CNTR_2_def RW_MGR_LOAD_CNTR_3_def RW_MGR_LOAD_JUMP_ADD_0_def
  RW_MGR_LOAD_JUMP_ADD_1_def RW_MGR_LOAD_JUMP_ADD_2_def RW_MGR_LOAD_JUMP_ADD_3_def
  RW_MGR_RESET_READ_DATAPATH_def RW_MGR_SET_CS_AND_ODT_MASK_def RW_MGR_RANK_ALL_def
  RW_MGR_ODT_MODE_OFF_def RW_MGR_ODT_MODE_READ_WRITE_def NUM_CALIB_REPEAT_def NUM_READ_TESTS_def
  NUM_READ_PB_TESTS_def CAL_STAGE_NIL_def CAL_STAGE_VFIFO_def CAL_STAGE_WLEVEL_def
  CAL_STAGE_LFIFO_def CAL_STAGE_WRITES_def CAL_STAGE_VFIFO_AFTER_WRITES_def CAL_SUBSTAGE_NIL_def
  CAL_SUBSTAGE_GUARANTEED_READ_def CAL_SUBSTAGE_DQS_EN_PHASE_def CAL_SUBSTAGE_VFIFO_CENTER_def
  CAL_SUBSTAGE_WORKING_DELAY_def CAL_SUBSTAGE_LAST_WORKING_DELAY_def CAL_SUBSTAGE_WRITES_CENTER_def
  CAL_SUBSTAGE_READ_LATENCY_def VFIFO_SIZE_def BASE_PHY_MGR_def BASE_DATA_MGR_def BASE_SCC_MGR_def
  BASE_REG_FILE_def BASE_MMR_def REG_FILE_SIGNATURE_def REG_FILE_DEBUG_DATA_ADDR_def
  REG_FILE_CUR_STAGE_def REG_FILE_FOM_def REG_FILE_FAILING_STAGE_def REG_FILE_DEBUG1_def
  REG_FILE_DEBUG2_def REG_FILE_DTAPS_PER_PTAP_def REG_FILE_TRK_SAMPLE_COUNT_def
  REG_FILE_TRK_LONGIDLE_def REG_FILE_DELAYS_def REG_FILE_TRK_RW_MGR_ADDR_def
  REG_FILE_TRK_READ_DQS_WIDTH_def REG_FILE_TRK_RFSH_def CTRL_CONFIG_REG_def PHY_MGR_PHY_RLAT_def
  PHY_MGR_RESET_MEM_STBL_def PHY_MGR_MUX_SEL_def PHY_MGR_CAL_STATUS_def PHY_MGR_CAL_DEBUG_INFO_def
  PHY_MGR_AFI_WLAT_def PHY_MGR_CAL_RESET_def PHY_MGR_CAL_SUCCESS_def PHY_MGR_CAL_FAIL_def
  PHY_MGR_CMD_INC_VFIFO_FR_def PHY_MGR_CMD_INC_VFIFO_HR_def PHY_MGR_CMD_INC_VFIFO_HARD_PHY_def
  PHY_MGR_CMD_FIFO_RESET_def PHY_MGR_CMD_INC_VFIFO_FR_HR_def PHY_MGR_CMD_INC_VFIFO_QR_def
  DATA_MGR_MEM_T_ADD_def DATA_MGR_MEM_T_WL_def MEM_T_WL_ADD_def DATA_MGR_MEM_T_RL_def
  MEM_T_RL_ADD_def CALIB_SKIP_DELAY_LOOPS_def CALIB_SKIP_DELAY_SWEEPS_def CALIB_SKIP_VFIFO_def
  CALIB_SKIP_LFIFO_def CALIB_SKIP_WLEVEL_def CALIB_SKIP_WRITES_def CALIB_SKIP_FULL_TEST_def
  CALIB_SKIP_ALL_def SCC_MGR_GROUP_COUNTER_def SCC_MGR_DQS_IN_DELAY_def SCC_MGR_DQS_EN_PHASE_def
  SCC_MGR_DQS_EN_DELAY_def SCC_MGR_DQDQS_OUT_PHASE_def SCC_MGR_OCT_OUT1_DELAY_def
  SCC_MGR_IO_OUT1_DELAY_def SCC_MGR_IO_IN_DELAY_def SCC_MGR_HHP_GLOBALS_def SCC_MGR_HHP_RFILE_def
  SCC_MGR_HHP_EXTRAS_OFFSET_def SCC_MGR_HHP_DQSE_MAP_OFFSET_def SCC_MGR_DQS_ENA_def
  SCC_MGR_DQS_IO_ENA_def SCC_MGR_DQ_ENA_def SCC_MGR_DM_ENA_def SCC_MGR_UPD_def
  SCC_MGR_AFI_CAL_INIT_def PHY_DEBUG_IN_DEBUG_MODE_def PHY_DEBUG_ENABLE_CAL_RPT_def
  PHY_DEBUG_SWEEP_ALL_GROUPS_def PHY_DEBUG_DISABLE_GUARANTEED_READ_def SEQ_TINIT_CNTR0_VAL_def
  SEQ_TINIT_CNTR1_VAL_def SEQ_TINIT_CNTR2_VAL_def SEQ_TRESET_CNTR0_VAL_def SEQ_TRESET_CNTR1_VAL_def
  SEQ_TRESET_CNTR2_VAL_def RW_MGR_INST_ROM_WRITE_def RW_MGR_AC_ROM_WRITE_def

lemmas seq_bases = 
  SEQUENCER_SCC_MGR_INST_BASE_def SEQUENCER_REG_FILE_INST_BASE_def

lemmas seq_rates = 
  HALF_RATE_MODE_def QUARTER_RATE_MODE_def STATIC_IN_RTL_SIM_def STATIC_SKIP_DELAY_LOOPS_def
  STATIC_CALIB_STEPS_def

lemmas seq_pcs = 
  RW_MGR_ac_mrs1_def RW_MGR_ac_mrs3_def RW_MGR_ac_write_bank_0_col_0_nodata_wl_1_def
  RW_MGR_ac_act_1_def RW_MGR_ac_write_postdata_def RW_MGR_ac_act_0_def RW_MGR_ac_des_def
  RW_MGR_ac_init_reset_1_cke_0_def RW_MGR_ac_write_data_def RW_MGR_ac_init_reset_0_cke_0_def
  RW_MGR_ac_read_bank_0_1_norden_def RW_MGR_ac_pre_all_def RW_MGR_ac_mrs0_user_def
  RW_MGR_ac_mrs0_dll_reset_def RW_MGR_ac_read_bank_0_0_def RW_MGR_ac_write_bank_0_col_1_def
  RW_MGR_ac_read_bank_0_1_def RW_MGR_ac_write_bank_1_col_0_def RW_MGR_ac_write_bank_1_col_1_def
  RW_MGR_ac_write_bank_0_col_0_def RW_MGR_ac_read_bank_1_0_def RW_MGR_ac_mrs1_mirr_def
  RW_MGR_ac_read_bank_1_1_def RW_MGR_ac_des_odt_1_def RW_MGR_ac_mrs0_dll_reset_mirr_def
  RW_MGR_ac_zqcl_def RW_MGR_ac_write_predata_def RW_MGR_ac_mrs0_user_mirr_def RW_MGR_ac_ref_def
  RW_MGR_ac_nop_def RW_MGR_ac_rdimm_def RW_MGR_ac_mrs2_mirr_def
  RW_MGR_ac_write_bank_0_col_0_nodata_def RW_MGR_ac_read_en_def RW_MGR_ac_mrs3_mirr_def
  RW_MGR_ac_mrs2_def CONTENT_ac_mrs1_def CONTENT_ac_mrs3_def
  CONTENT_ac_write_bank_0_col_0_nodata_wl_1_def CONTENT_ac_act_1_def CONTENT_ac_write_postdata_def
  CONTENT_ac_act_0_def CONTENT_ac_des_def CONTENT_ac_init_reset_1_cke_0_def
  CONTENT_ac_write_data_def CONTENT_ac_init_reset_0_cke_0_def CONTENT_ac_read_bank_0_1_norden_def
  CONTENT_ac_pre_all_def CONTENT_ac_mrs0_user_def CONTENT_ac_mrs0_dll_reset_def
  CONTENT_ac_read_bank_0_0_def CONTENT_ac_write_bank_0_col_1_def CONTENT_ac_read_bank_0_1_def
  CONTENT_ac_write_bank_1_col_0_def CONTENT_ac_write_bank_1_col_1_def
  CONTENT_ac_write_bank_0_col_0_def CONTENT_ac_read_bank_1_0_def CONTENT_ac_mrs1_mirr_def
  CONTENT_ac_read_bank_1_1_def CONTENT_ac_des_odt_1_def CONTENT_ac_mrs0_dll_reset_mirr_def
  CONTENT_ac_zqcl_def CONTENT_ac_write_predata_def CONTENT_ac_mrs0_user_mirr_def CONTENT_ac_ref_def
  CONTENT_ac_nop_def CONTENT_ac_rdimm_def CONTENT_ac_mrs2_mirr_def
  CONTENT_ac_write_bank_0_col_0_nodata_def CONTENT_ac_read_en_def CONTENT_ac_mrs3_mirr_def
  CONTENT_ac_mrs2_def RW_MGR_READ_B2B_WAIT2_def RW_MGR_LFSR_WR_RD_BANK_0_WAIT_def
  RW_MGR_REFRESH_ALL_def RW_MGR_ZQCL_def RW_MGR_LFSR_WR_RD_BANK_0_NOP_def
  RW_MGR_LFSR_WR_RD_BANK_0_DQS_def RW_MGR_ACTIVATE_0_AND_1_def RW_MGR_MRS2_MIRR_def
  RW_MGR_INIT_RESET_0_CKE_0_def RW_MGR_LFSR_WR_RD_DM_BANK_0_WAIT_def RW_MGR_ACTIVATE_1_def
  RW_MGR_MRS2_def RW_MGR_LFSR_WR_RD_DM_BANK_0_WL_1_def RW_MGR_MRS1_def RW_MGR_IDLE_LOOP1_def
  RW_MGR_GUARANTEED_WRITE_WAIT2_def RW_MGR_MRS3_def RW_MGR_IDLE_LOOP2_def
  RW_MGR_GUARANTEED_WRITE_WAIT1_def RW_MGR_LFSR_WR_RD_BANK_0_DATA_def
  RW_MGR_GUARANTEED_WRITE_WAIT3_def RW_MGR_RDIMM_CMD_def RW_MGR_LFSR_WR_RD_DM_BANK_0_NOP_def
  RW_MGR_GUARANTEED_WRITE_WAIT0_def RW_MGR_LFSR_WR_RD_DM_BANK_0_DATA_def
  RW_MGR_GUARANTEED_READ_CONT_def RW_MGR_REFRESH_DELAY_def RW_MGR_MRS3_MIRR_def RW_MGR_IDLE_def
  RW_MGR_READ_B2B_def RW_MGR_LFSR_WR_RD_DM_BANK_0_DQS_def RW_MGR_GUARANTEED_WRITE_def
  RW_MGR_PRECHARGE_ALL_def RW_MGR_SGLE_READ_def RW_MGR_MRS0_USER_MIRR_def RW_MGR_RETURN_def
  RW_MGR_LFSR_WR_RD_DM_BANK_0_def RW_MGR_MRS0_USER_def RW_MGR_GUARANTEED_READ_def
  RW_MGR_MRS0_DLL_RESET_MIRR_def RW_MGR_INIT_RESET_1_CKE_0_def RW_MGR_ACTIVATE_0_AND_1_WAIT2_def
  RW_MGR_LFSR_WR_RD_BANK_0_WL_1_def RW_MGR_MRS0_DLL_RESET_def RW_MGR_ACTIVATE_0_AND_1_WAIT1_def
  RW_MGR_LFSR_WR_RD_BANK_0_def RW_MGR_CLEAR_DQS_ENABLE_def RW_MGR_MRS1_MIRR_def
  RW_MGR_READ_B2B_WAIT1_def CONTENT_READ_B2B_WAIT2_def CONTENT_LFSR_WR_RD_BANK_0_WAIT_def
  CONTENT_REFRESH_ALL_def CONTENT_ZQCL_def CONTENT_LFSR_WR_RD_BANK_0_NOP_def
  CONTENT_LFSR_WR_RD_BANK_0_DQS_def CONTENT_ACTIVATE_0_AND_1_def CONTENT_MRS2_MIRR_def
  CONTENT_INIT_RESET_0_CKE_0_def CONTENT_LFSR_WR_RD_DM_BANK_0_WAIT_def CONTENT_ACTIVATE_1_def
  CONTENT_MRS2_def CONTENT_LFSR_WR_RD_DM_BANK_0_WL_1_def CONTENT_MRS1_def CONTENT_IDLE_LOOP1_def
  CONTENT_GUARANTEED_WRITE_WAIT2_def CONTENT_MRS3_def CONTENT_IDLE_LOOP2_def
  CONTENT_GUARANTEED_WRITE_WAIT1_def CONTENT_LFSR_WR_RD_BANK_0_DATA_def
  CONTENT_GUARANTEED_WRITE_WAIT3_def CONTENT_RDIMM_CMD_def CONTENT_LFSR_WR_RD_DM_BANK_0_NOP_def
  CONTENT_GUARANTEED_WRITE_WAIT0_def CONTENT_LFSR_WR_RD_DM_BANK_0_DATA_def
  CONTENT_GUARANTEED_READ_CONT_def CONTENT_REFRESH_DELAY_def CONTENT_MRS3_MIRR_def CONTENT_IDLE_def
  CONTENT_READ_B2B_def CONTENT_LFSR_WR_RD_DM_BANK_0_DQS_def CONTENT_GUARANTEED_WRITE_def
  CONTENT_PRECHARGE_ALL_def CONTENT_SGLE_READ_def CONTENT_MRS0_USER_MIRR_def CONTENT_RETURN_def
  CONTENT_LFSR_WR_RD_DM_BANK_0_def CONTENT_MRS0_USER_def CONTENT_GUARANTEED_READ_def
  CONTENT_MRS0_DLL_RESET_MIRR_def CONTENT_INIT_RESET_1_CKE_0_def CONTENT_ACTIVATE_0_AND_1_WAIT2_def
  CONTENT_LFSR_WR_RD_BANK_0_WL_1_def CONTENT_MRS0_DLL_RESET_def CONTENT_ACTIVATE_0_AND_1_WAIT1_def
  CONTENT_LFSR_WR_RD_BANK_0_def CONTENT_CLEAR_DQS_ENABLE_def CONTENT_MRS1_MIRR_def
  CONTENT_READ_B2B_WAIT1_def

end
