(* ===== verification/SeqIO.thy ===== *)
theory SeqIO
  imports SeqConfig
begin

text \<open>
  The state of the calibration sequencer (\<open>hps_isw_handoff/soc_system_hps_0/sequencer.c\<close>) and its
  access to the hardware (\<open>sdram_io.h\<close>).

  The sequencer sees the hardware through the accesses of \<open>IOWR_32DIRECT\<close> and
  \<open>IORD_32DIRECT\<close> only. The model keeps their history, and the hardware is an arbitrary function
  \<open>hw\<close> that answers a read from the history before it: every deterministic device is one.
\<close>

section \<open>State\<close>

type_synonym u32 = "32 word"

text \<open>An access by its address on the sequencer's bus and the value written or read.\<close>

datatype access =
    Wr u32 u32
  | Rd u32 u32

record param_t =
  dm_correct_mask :: u32
  read_correct_mask :: u32
  read_correct_mask_vg :: u32
  write_correct_mask :: u32
  write_correct_mask_vg :: u32
  skip_ranks :: "u32 list"
  skip_groups :: u32
  skip_shadow_regs :: "u32 list"

record gbl_t =
  phy_debug_mode_flags :: u32
  curr_read_lat :: u32
  curr_write_lat :: u32
  error_substage :: u32
  error_stage :: u32
  error_group :: u32
  fom_in :: u32
  fom_out :: u32
  rw_wl_nop_cycles :: u32

record seq =
  param :: param_t
  gbl :: gbl_t
  dyn_calib_steps :: "16 word"
  skip_delay_mask :: "16 word"
  accesses :: "access list"
  hw :: "access list \<Rightarrow> u32 \<Rightarrow> u32"

type_synonym cmd = "seq \<Rightarrow> seq"

text \<open>Statements one after the other, and a loop over the values of its counter.\<close>

definition seqs :: "cmd list \<Rightarrow> cmd" where
  "seqs cs = fold (\<lambda>c. c) cs"

definition for_each :: "'a list \<Rightarrow> ('a \<Rightarrow> cmd) \<Rightarrow> cmd" where
  "for_each xs body = fold body xs"

definition upd_gbl :: "(gbl_t \<Rightarrow> gbl_t) \<Rightarrow> cmd" where
  "upd_gbl f s = s\<lparr>gbl := f (gbl s)\<rparr>"

definition upd_param :: "(param_t \<Rightarrow> param_t) \<Rightarrow> cmd" where
  "upd_param f s = s\<lparr>param := f (param s)\<rparr>"

text \<open>The loop over the ranks that share a shadow register.\<close>

definition shadow_ranks :: "nat list" where
  "shadow_ranks = filter (\<lambda>r. r mod NUM_RANKS_PER_SHADOW_REG = 0) [0..<RW_MGR_MEM_NUMBER_OF_RANKS]"

section \<open>Access to the hardware\<close>

definition emits :: "access list \<Rightarrow> cmd" where
  "emits tr s = s\<lparr>accesses := accesses s @ tr\<rparr>"

definition IOWR_32DIRECT :: "u32 \<Rightarrow> u32 \<Rightarrow> u32 \<Rightarrow> cmd" where
  "IOWR_32DIRECT base off data = emits [Wr (base + off) data]"

definition IORD_32DIRECT :: "u32 \<Rightarrow> u32 \<Rightarrow> seq \<Rightarrow> u32 \<times> seq" where
  "IORD_32DIRECT base off s =
     (let v = hw s (accesses s) (base + off) in (v, emits [Rd (base + off) v] s))"

text \<open>
  \<open>__AVL_TO_APB\<close>: the address of an access on the processor's bus. The bases of the managers there
  are those of the handoff's \<open>sdram.h\<close>, which is not part of the repository.
\<close>

record apb_map =
  APB_BASE_PHY_MGR :: u32
  APB_BASE_RW_MGR :: u32
  APB_BASE_DATA_MGR :: u32
  APB_BASE_SCC_MGR :: u32
  APB_BASE_REG_FILE :: u32
  APB_BASE_MMR :: u32

definition AVL_TO_APB :: "apb_map \<Rightarrow> u32 \<Rightarrow> u32" where
  "AVL_TO_APB m adr =
     (if adr AND MGR_SELECT_MASK = BASE_PHY_MGR
      then APB_BASE_PHY_MGR m OR (drop_bit (14 - 6) adr AND push_bit 6 1) OR (adr AND 0x3f)
      else if adr AND MGR_SELECT_MASK = BASE_RW_MGR then APB_BASE_RW_MGR m OR (adr AND 0x1fff)
      else if adr AND MGR_SELECT_MASK = BASE_DATA_MGR then APB_BASE_DATA_MGR m OR (adr AND 0x7ff)
      else if adr AND MGR_SELECT_MASK = BASE_SCC_MGR then APB_BASE_SCC_MGR m OR (adr AND 0xfff)
      else if adr AND MGR_SELECT_MASK = BASE_REG_FILE then APB_BASE_REG_FILE m OR (adr AND 0x7ff)
      else if adr AND MGR_SELECT_MASK = BASE_MMR then APB_BASE_MMR m OR (adr AND 0xfff)
      else -1)"

section \<open>Counters\<close>

lemma unat_inc: "(d :: u32) < e \<Longrightarrow> unat (d + 1) = Suc (unat d)"
proof -
  assume "d < e"
  then have "1 + d \<noteq> 0" using max_word_wrap [of d] by (auto simp: add.commute)
  from unatSuc [OF this] show ?thesis by (simp add: add.commute)
qed

lemma unat_inc_nat: "unat (v :: u32) < n \<Longrightarrow> n < 2 ^ 32 \<Longrightarrow> unat (v + 1) = Suc (unat v)"
  using unat_inc [of v "of_nat n"] by (simp add: word_less_nat_alt unat_of_nat take_bit_nat_eq_self)

lemma unat_dec: "(e :: u32) < d \<Longrightarrow> Suc (unat (d - 1)) = unat d"
  by (cases "d = 0") (auto simp: unat_minus_one unat_gt_0)

section \<open>Traces\<close>

lemma emits_Nil [simp]: "emits [] s = s"
  by (simp add: emits_def)

lemma emits_emits [simp]: "emits u (emits t s) = emits (t @ u) s"
  by (simp add: emits_def)

lemma emits_sel [simp]:
  "param (emits t s) = param s" "gbl (emits t s) = gbl s" "accesses (emits t s) = accesses s @ t"
  "hw (emits t s) = hw s" "skip_delay_mask (emits t s) = skip_delay_mask s"
  "dyn_calib_steps (emits t s) = dyn_calib_steps s"
  by (simp_all add: emits_def)

lemma IOWR_emits: "IOWR_32DIRECT base off data s = emits [Wr (base + off) data] s"
  by (simp add: IOWR_32DIRECT_def)

lemma seqs_Nil [simp]: "seqs [] s = s"
  by (simp add: seqs_def)

lemma seqs_Cons [simp]: "seqs (c # cs) s = seqs cs (c s)"
  by (simp add: seqs_def)

lemma for_each_Nil [simp]: "for_each [] f s = s"
  by (simp add: for_each_def)

lemma for_each_Cons [simp]: "for_each (x # xs) f s = for_each xs f (f x s)"
  by (simp add: for_each_def)

text \<open>A command that only writes, with a trace that does not depend on the state.\<close>

definition writes :: "cmd \<Rightarrow> access list \<Rightarrow> bool" where
  "writes c tr \<longleftrightarrow> (\<forall>s. c s = emits tr s)"

named_theorems writes_rules

lemma writesD: "writes c tr \<Longrightarrow> c s = emits tr s"
  by (simp add: writes_def)

lemma writes_IOWR [writes_rules]: "writes (IOWR_32DIRECT base off data) [Wr (base + off) data]"
  by (simp add: writes_def IOWR_emits)

lemma writes_seqs_Nil [writes_rules]: "writes (seqs []) []"
  by (simp add: writes_def)

lemma writes_seqs_Cons [writes_rules]:
  "writes c t \<Longrightarrow> writes (seqs cs) u \<Longrightarrow> writes (seqs (c # cs)) (t @ u)"
  by (simp add: writes_def)

lemma writes_for_each [writes_rules]:
  "(\<And>x. x \<in> set xs \<Longrightarrow> writes (f x) (t x)) \<Longrightarrow> writes (for_each xs f) (concat (map t xs))"
  by (induction xs) (auto simp: writes_def)

lemma writes_id [writes_rules]: "writes (\<lambda>s. s) []"
  by (simp add: writes_def)

lemma writes_if [writes_rules]:
  "writes c t \<Longrightarrow> writes d u \<Longrightarrow> writes (if b then c else d) (if b then t else u)"
  by (simp add: writes_def)

text \<open>
  A command that changes nothing but the history, and a function of the state that does the same and
  gives a value.
\<close>

definition io :: "cmd \<Rightarrow> bool" where
  "io c \<longleftrightarrow> (\<forall>s. \<exists>tr. c s = emits tr s)"

definition io_val :: "(seq \<Rightarrow> 'a \<times> seq) \<Rightarrow> bool" where
  "io_val f \<longleftrightarrow> (\<forall>s. \<exists>tr. snd (f s) = emits tr s)"

named_theorems io_rules
named_theorems io_val_rules
named_theorems io_at_rules

lemma ioE: "io c \<Longrightarrow> (\<And>tr. c s = emits tr s \<Longrightarrow> P) \<Longrightarrow> P"
  by (auto simp: io_def)

lemma io_valE: "io_val f \<Longrightarrow> f s = (v, s') \<Longrightarrow> (\<And>tr. s' = emits tr s \<Longrightarrow> P) \<Longrightarrow> P"
  unfolding io_val_def by (metis snd_conv)

lemma io_frame:
  "io c \<Longrightarrow> param (c s) = param s" "io c \<Longrightarrow> gbl (c s) = gbl s" "io c \<Longrightarrow> hw (c s) = hw s"
  "io c \<Longrightarrow> skip_delay_mask (c s) = skip_delay_mask s"
  "io c \<Longrightarrow> dyn_calib_steps (c s) = dyn_calib_steps s"
  by (metis emits_sel io_def)+

lemma io_val_frame:
  "io_val f \<Longrightarrow> f s = (v, s') \<Longrightarrow> param s' = param s" "io_val f \<Longrightarrow> f s = (v, s') \<Longrightarrow> gbl s' = gbl s"
  "io_val f \<Longrightarrow> f s = (v, s') \<Longrightarrow> hw s' = hw s"
  "io_val f \<Longrightarrow> f s = (v, s') \<Longrightarrow> skip_delay_mask s' = skip_delay_mask s"
  "io_val f \<Longrightarrow> f s = (v, s') \<Longrightarrow> dyn_calib_steps s' = dyn_calib_steps s"
  by (metis emits_sel io_val_def snd_conv)+

lemma io_val_frame_snd:
  "io_val f \<Longrightarrow> param (snd (f s)) = param s" "io_val f \<Longrightarrow> gbl (snd (f s)) = gbl s"
  "io_val f \<Longrightarrow> hw (snd (f s)) = hw s"
  "io_val f \<Longrightarrow> skip_delay_mask (snd (f s)) = skip_delay_mask s"
  "io_val f \<Longrightarrow> dyn_calib_steps (snd (f s)) = dyn_calib_steps s"
  by (metis emits_sel io_val_def)+

lemma writes_io: "writes c tr \<Longrightarrow> io c"
  by (auto simp: writes_def io_def)

lemma io_emits [io_rules]: "io (emits tr)"
  by (auto simp: io_def)

lemma io_id [io_rules]: "io (\<lambda>s. s)"
  unfolding io_def by (metis emits_Nil)

lemma io_IOWR [io_rules]: "io (IOWR_32DIRECT base off data)"
  by (simp add: IOWR_32DIRECT_def io_emits)

lemma io_val_IORD [io_val_rules]: "io_val (IORD_32DIRECT base off)"
  by (auto simp: io_val_def IORD_32DIRECT_def Let_def)

lemma io_comp: "io c \<Longrightarrow> io d \<Longrightarrow> io (\<lambda>s. d (c s))"
  unfolding io_def by (metis emits_emits)

lemma io_seqs_Nil [io_rules]: "io (seqs [])"
  by (simp add: io_def) (metis emits_Nil)

lemma io_seqs_Cons [io_rules]: "io c \<Longrightarrow> io (seqs cs) \<Longrightarrow> io (seqs (c # cs))"
  using io_comp [of c "seqs cs"] by (simp add: io_def)

lemma io_for_each [io_rules]: "(\<And>x. x \<in> set xs \<Longrightarrow> io (f x)) \<Longrightarrow> io (for_each xs f)"
proof (induction xs)
  case Nil
  then show ?case using io_id by (simp add: io_def)
next
  case (Cons x xs)
  then show ?case using io_comp [of "f x" "for_each xs f"] by (simp add: io_def)
qed

lemma io_if [io_rules]: "(b \<Longrightarrow> io c) \<Longrightarrow> (\<not> b \<Longrightarrow> io d) \<Longrightarrow> io (if b then c else d)"
  by simp

text \<open>The same where the state is an argument: \<open>io_at\<close> relates one state to a later one.\<close>

definition io_at :: "seq \<Rightarrow> seq \<Rightarrow> bool" where
  "io_at s s' \<longleftrightarrow> (\<exists>tr. s' = emits tr s)"

lemma io_at_refl [simp, intro]: "io_at s s"
  unfolding io_at_def by (metis emits_Nil)

lemma io_at_trans [trans]: "io_at s t \<Longrightarrow> io_at t u \<Longrightarrow> io_at s u"
  by (auto simp: io_at_def)

lemma io_at_emits [simp, intro]: "io_at s (emits tr s)"
  by (auto simp: io_at_def)

lemma io_at_cmd: "io c \<Longrightarrow> io_at s t \<Longrightarrow> io_at s (c t)"
  by (auto simp: io_def io_at_def) (metis emits_emits)

lemma io_at_val: "io_val f \<Longrightarrow> io_at s t \<Longrightarrow> f t = (v, u) \<Longrightarrow> io_at s u"
  by (auto simp: io_val_def io_at_def) (metis emits_emits snd_conv)

lemma ioI: "(\<And>s. io_at s (c s)) \<Longrightarrow> io c"
  by (auto simp: io_def io_at_def)

lemma io_valI: "(\<And>s v s'. f s = (v, s') \<Longrightarrow> io_at s s') \<Longrightarrow> io_val f"
  unfolding io_val_def io_at_def by (metis prod.collapse)

lemma ioD: "io c \<Longrightarrow> io_at s (c s)"
  by (auto simp: io_def io_at_def)

lemma io_valD: "io_val f \<Longrightarrow> f s = (v, s') \<Longrightarrow> io_at s s'"
  unfolding io_val_def io_at_def by (metis snd_conv)

lemma io_at_frame:
  "io_at s s' \<Longrightarrow> param s' = param s" "io_at s s' \<Longrightarrow> gbl s' = gbl s" "io_at s s' \<Longrightarrow> hw s' = hw s"
  "io_at s s' \<Longrightarrow> skip_delay_mask s' = skip_delay_mask s"
  "io_at s s' \<Longrightarrow> dyn_calib_steps s' = dyn_calib_steps s"
  by (auto simp: io_at_def)

lemma io_val_atI: "(\<And>s. io_at s (snd (f s))) \<Longrightarrow> io_val f"
  by (auto simp: io_val_def io_at_def)

lemma io_at_snd: "io_val f \<Longrightarrow> io_at s t \<Longrightarrow> io_at s (snd (f t))"
  by (auto simp: io_val_def io_at_def) (metis emits_emits)

text \<open>
  The rules by which a relation between a state and a later one goes through the constructs of the
  model: results, conditions, and the two forms of sequence. They hold for every relation; the goals
  about later states are left to the rules of the commands.
\<close>

locale later =
  fixes R :: "seq \<Rightarrow> seq \<Rightarrow> bool"
begin

lemma snd_Pair: "R s t \<Longrightarrow> R s (snd (v, t))"
  by simp

lemma snd_if: "(b \<Longrightarrow> R s (snd p)) \<Longrightarrow> (\<not> b \<Longrightarrow> R s (snd q)) \<Longrightarrow> R s (snd (if b then p else q))"
  by simp

lemma cond: "(b \<Longrightarrow> R s t) \<Longrightarrow> (\<not> b \<Longrightarrow> R s u) \<Longrightarrow> R s (if b then t else u)"
  by simp

lemma snd_let: "R s a \<Longrightarrow> (\<And>u. R s u \<Longrightarrow> R s (snd (f u))) \<Longrightarrow> R s (snd (let u = a in f u))"
  by simp

lemma state_let: "R s a \<Longrightarrow> (\<And>u. R s u \<Longrightarrow> R s (f u)) \<Longrightarrow> R s (let u = a in f u)"
  by simp

lemma snd_let_pure:
  "(\<And>x. R s (snd (f (x :: u32)))) \<Longrightarrow> R s (snd (let x = a in f x))"
  "(\<And>x. R s (snd (g (x :: nat)))) \<Longrightarrow> R s (snd (let x = b in g x))"
  "(\<And>x. R s (snd (k (x :: bool)))) \<Longrightarrow> R s (snd (let x = c in k x))"
  "(\<And>x. R s (snd (h (x :: int)))) \<Longrightarrow> R s (snd (let x = d in h x))"
  by simp_all

lemma let_pure:
  "(\<And>x. R s (f (x :: u32))) \<Longrightarrow> R s (let x = a in f x)"
  "(\<And>x. R s (g (x :: nat))) \<Longrightarrow> R s (let x = b in g x)"
  by simp_all

lemma snd_case:
  "R s (snd p) \<Longrightarrow> (\<And>v u. R s u \<Longrightarrow> R s (snd (f v u))) \<Longrightarrow> R s (snd (case p of (v, u) \<Rightarrow> f v u))"
  by (cases p) simp

lemma state_case:
  "R s (snd p) \<Longrightarrow> (\<And>v u. R s u \<Longrightarrow> R s (f v u)) \<Longrightarrow> R s (case p of (v, u) \<Rightarrow> f v u)"
  by (cases p) simp

lemma snd_let_case:
  "R s (snd p) \<Longrightarrow> (\<And>v u. R s u \<Longrightarrow> R s (snd (f v u))) \<Longrightarrow> R s (snd (let (v, u) = p in f v u))"
  by (cases p) simp

lemma let_case:
  "R s (snd p) \<Longrightarrow> (\<And>v u. R s u \<Longrightarrow> R s (f v u)) \<Longrightarrow> R s (let (v, u) = p in f v u)"
  by (cases p) simp

lemma snd_let_res:
  "R s (snd q) \<Longrightarrow> (\<And>a b u. R s u \<Longrightarrow> R s (snd (f a b u))) \<Longrightarrow>
   R s (snd (let ((a, b), u) = q in f a b u))"
  by (auto split: prod.splits)

lemma snd_let_pair:
  "(\<And>x y. R s (snd (f x (y :: u32)))) \<Longrightarrow> R s (snd (let (x, y) = q in f x y))"
  "(\<And>x y. R s (snd (g x (y :: nat)))) \<Longrightarrow> R s (snd (let (x, y) = r in g x y))"
  "(\<And>x y. R s (snd (h x (y :: int)))) \<Longrightarrow> R s (snd (let (x, y) = t in h x y))"
  by (auto split: prod.splits)

lemma snd_case_fun:
  "(\<And>x y. R s (snd (f x (y :: u32) u))) \<Longrightarrow> R s (snd ((case q of (x, y) \<Rightarrow> f x y) u))"
  by (cases q) simp

lemma case_fun:
  "(\<And>x y. R s (f x (y :: u32) u)) \<Longrightarrow> R s ((case q of (x, y) \<Rightarrow> f x y) u)"
  by (cases q) simp

lemma snd_option:
  "(x = None \<Longrightarrow> R s (snd a)) \<Longrightarrow> (\<And>v. R s (snd (b v))) \<Longrightarrow>
   R s (snd (case x of None \<Rightarrow> a | Some v \<Rightarrow> b v))"
  by (cases x) auto

lemma snd_result:
  "(\<And>x y. R s (snd (f x y))) \<Longrightarrow> R s (snd (case r of (x, y :: u32) \<Rightarrow> f x y))"
  "(\<And>x y z. R s (snd (k x y z))) \<Longrightarrow> R s (snd (case q of (x, y, z :: u32) \<Rightarrow> k x y z))"
  by (auto split: prod.splits)

lemma snd_fold:
  assumes "\<And>x v t. R s t \<Longrightarrow> R s (snd (f x (v, t)))"
  shows "R s (snd p) \<Longrightarrow> R s (snd (fold f xs p))"
proof (induction xs arbitrary: p)
  case (Cons x xs)
  show ?case using Cons.IH [of "f x p"] Cons.prems assms [of "snd p" x "fst p"] by simp
qed simp

lemma snd_fold_res:
  "(\<And>x q. R s (snd q) \<Longrightarrow> R s (snd (f x q))) \<Longrightarrow> R s (snd p) \<Longrightarrow> R s (snd (fold f xs p))"
  by (rule snd_fold) auto

lemma snd_let_fun: "R s (snd (f a)) \<Longrightarrow> R s (snd (let x = (a :: seq \<Rightarrow> 'b \<times> seq) in f x))"
  by simp

lemma snd_let_fun2: "R s (snd (f a)) \<Longrightarrow> R s (snd (let x = (a :: u32 \<Rightarrow> u32 \<Rightarrow> seq \<Rightarrow> 'b \<times> seq) in f x))"
  by simp

lemma snd_let_lists: "(\<And>x. R s (snd (f (x :: 'b list \<times> 'c list)))) \<Longrightarrow> R s (snd (let x = a in f x))"
  by simp

lemmas structure_rules =
  snd_let_fun snd_let_fun2 snd_let_lists
  snd_Pair snd_if cond snd_let state_let snd_let_pure let_pure snd_case state_case snd_let_case
  let_case snd_let_res snd_let_pair snd_case_fun case_fun snd_option snd_result

end

interpretation io: later io_at .

lemmas io_at_structure [io_at_rules] = io.structure_rules

lemmas io_at_snd_fold = io.snd_fold

lemmas io_at_basic [io_at_rules] =
  io_at_refl io_emits [THEN io_at_cmd] io_IOWR [THEN io_at_cmd] io_seqs_Cons [THEN io_at_cmd]
  io_for_each [THEN io_at_cmd] io_val_IORD [THEN io_at_snd]

lemma shadow_ranks_eq [simp]: "shadow_ranks = [0]"
  by (simp add: shadow_ranks_def NUM_RANKS_PER_SHADOW_REG_def seq_params upt_rec)

section \<open>What a register was written last\<close>

definition last_write :: "u32 \<Rightarrow> access list \<Rightarrow> u32 option" where
  "last_write a tr = fold (\<lambda>x r. case x of Wr b v \<Rightarrow> if b = a then Some v else r | Rd b v \<Rightarrow> r) tr None"

lemma last_write_fold:
  "fold (\<lambda>x r. case x of Wr b v \<Rightarrow> if b = a then Some v else r | Rd b v \<Rightarrow> r) tr z =
   (case last_write a tr of Some v \<Rightarrow> Some v | None \<Rightarrow> z)"
  unfolding last_write_def
proof (induction tr rule: rev_induct)
  case (snoc x tr)
  then show ?case by (cases x) auto
qed simp

lemma last_write_append:
  "last_write a (xs @ ys) = (case last_write a ys of Some v \<Rightarrow> Some v | None \<Rightarrow> last_write a xs)"
proof -
  have "last_write a (xs @ ys) =
      fold (\<lambda>x r. case x of Wr b v \<Rightarrow> if b = a then Some v else r | Rd b v \<Rightarrow> r) ys (last_write a xs)"
    by (simp add: last_write_def)
  then show ?thesis by (simp add: last_write_fold split: option.splits)
qed

lemma last_write_simps [simp]:
  "last_write a [] = None"
  "last_write a (tr @ [Wr b v]) = (if b = a then Some v else last_write a tr)"
  "last_write a (tr @ [Rd b v]) = last_write a tr"
  "last_write a [Wr b v] = (if b = a then Some v else None)"
  "last_write a [Rd b v] = None"
  by (simp_all add: last_write_def)

lemma last_write_Cons:
  "last_write a (Wr b v # tr) =
     (case last_write a tr of Some w \<Rightarrow> Some w | None \<Rightarrow> if b = a then Some v else None)"
  "last_write a (Rd b v # tr) = last_write a tr"
  using last_write_append [of a "[Wr b v]" tr] last_write_append [of a "[Rd b v]" tr]
  by (auto split: option.splits)

end
