(* ===== verification/SccManager.thy ===== *)
theory SccManager
  imports SeqIO
begin

text \<open>
  The scan chain manager of \<open>sequencer.c\<close>: the registers that hold the delays and phases of the
  pins, the commands that load them, and the operations on a group of pins. In this configuration
  (\<open>HHP_HPS\<close>) there is one rank, a group has eight data pins and one mask pin, and there is no second
  output delay: its writes expand to nothing, its reads to 0.
\<close>

section \<open>Registers\<close>

definition WRITE_SCC_DQS_IN_DELAY :: "u32 \<Rightarrow> u32 \<Rightarrow> cmd" where
  "WRITE_SCC_DQS_IN_DELAY grp delay = IOWR_32DIRECT SCC_MGR_DQS_IN_DELAY (push_bit 2 grp) delay"

definition WRITE_SCC_DQS_EN_DELAY :: "u32 \<Rightarrow> u32 \<Rightarrow> cmd" where
  "WRITE_SCC_DQS_EN_DELAY grp delay =
     IOWR_32DIRECT SCC_MGR_DQS_EN_DELAY (push_bit 2 grp) (delay + of_nat IO_DQS_EN_DELAY_OFFSET)"

definition WRITE_SCC_DQS_EN_PHASE :: "u32 \<Rightarrow> u32 \<Rightarrow> cmd" where
  "WRITE_SCC_DQS_EN_PHASE grp phase = IOWR_32DIRECT SCC_MGR_DQS_EN_PHASE (push_bit 2 grp) phase"

definition WRITE_SCC_DQDQS_OUT_PHASE :: "u32 \<Rightarrow> u32 \<Rightarrow> cmd" where
  "WRITE_SCC_DQDQS_OUT_PHASE grp phase = IOWR_32DIRECT SCC_MGR_DQDQS_OUT_PHASE (push_bit 2 grp) phase"

definition WRITE_SCC_OCT_OUT1_DELAY :: "u32 \<Rightarrow> u32 \<Rightarrow> cmd" where
  "WRITE_SCC_OCT_OUT1_DELAY grp delay = IOWR_32DIRECT SCC_MGR_OCT_OUT1_DELAY (push_bit 2 grp) delay"

definition WRITE_SCC_OCT_OUT2_DELAY :: "u32 \<Rightarrow> u32 \<Rightarrow> cmd" where
  "WRITE_SCC_OCT_OUT2_DELAY grp delay = (\<lambda>s. s)"

definition WRITE_SCC_DQS_BYPASS :: "u32 \<Rightarrow> u32 \<Rightarrow> cmd" where
  "WRITE_SCC_DQS_BYPASS grp bypass = (\<lambda>s. s)"

definition WRITE_SCC_DQ_OUT1_DELAY :: "u32 \<Rightarrow> u32 \<Rightarrow> cmd" where
  "WRITE_SCC_DQ_OUT1_DELAY pin delay = IOWR_32DIRECT SCC_MGR_IO_OUT1_DELAY (push_bit 2 pin) delay"

definition WRITE_SCC_DQ_OUT2_DELAY :: "u32 \<Rightarrow> u32 \<Rightarrow> cmd" where
  "WRITE_SCC_DQ_OUT2_DELAY pin delay = (\<lambda>s. s)"

definition WRITE_SCC_DQ_IN_DELAY :: "u32 \<Rightarrow> u32 \<Rightarrow> cmd" where
  "WRITE_SCC_DQ_IN_DELAY pin delay = IOWR_32DIRECT SCC_MGR_IO_IN_DELAY (push_bit 2 pin) delay"

definition WRITE_SCC_DQ_BYPASS :: "u32 \<Rightarrow> u32 \<Rightarrow> cmd" where
  "WRITE_SCC_DQ_BYPASS pin bypass = (\<lambda>s. s)"

definition WRITE_SCC_RFIFO_MODE :: "u32 \<Rightarrow> u32 \<Rightarrow> cmd" where
  "WRITE_SCC_RFIFO_MODE pin m = (\<lambda>s. s)"

definition WRITE_SCC_HHP_EXTRAS :: "u32 \<Rightarrow> cmd" where
  "WRITE_SCC_HHP_EXTRAS v = IOWR_32DIRECT SCC_MGR_HHP_GLOBALS SCC_MGR_HHP_EXTRAS_OFFSET v"

definition WRITE_SCC_HHP_DQSE_MAP :: "u32 \<Rightarrow> cmd" where
  "WRITE_SCC_HHP_DQSE_MAP v = IOWR_32DIRECT SCC_MGR_HHP_GLOBALS SCC_MGR_HHP_DQSE_MAP_OFFSET v"

definition WRITE_SCC_DQS_IO_OUT1_DELAY :: "u32 \<Rightarrow> cmd" where
  "WRITE_SCC_DQS_IO_OUT1_DELAY delay =
     IOWR_32DIRECT SCC_MGR_IO_OUT1_DELAY (push_bit 2 (of_nat RW_MGR_MEM_DQ_PER_WRITE_DQS)) delay"

definition WRITE_SCC_DQS_IO_OUT2_DELAY :: "u32 \<Rightarrow> cmd" where
  "WRITE_SCC_DQS_IO_OUT2_DELAY delay = (\<lambda>s. s)"

definition WRITE_SCC_DQS_IO_IN_DELAY :: "u32 \<Rightarrow> cmd" where
  "WRITE_SCC_DQS_IO_IN_DELAY delay =
     IOWR_32DIRECT SCC_MGR_IO_IN_DELAY (push_bit 2 (of_nat RW_MGR_MEM_DQ_PER_WRITE_DQS)) delay"

definition WRITE_SCC_DM_IO_OUT1_DELAY :: "u32 \<Rightarrow> u32 \<Rightarrow> cmd" where
  "WRITE_SCC_DM_IO_OUT1_DELAY pin delay =
     IOWR_32DIRECT SCC_MGR_IO_OUT1_DELAY (push_bit 2 (of_nat RW_MGR_MEM_DQ_PER_WRITE_DQS + 1 + pin)) delay"

definition WRITE_SCC_DM_IO_OUT2_DELAY :: "u32 \<Rightarrow> u32 \<Rightarrow> cmd" where
  "WRITE_SCC_DM_IO_OUT2_DELAY pin delay = (\<lambda>s. s)"

definition WRITE_SCC_DM_IO_IN_DELAY :: "u32 \<Rightarrow> u32 \<Rightarrow> cmd" where
  "WRITE_SCC_DM_IO_IN_DELAY pin delay =
     IOWR_32DIRECT SCC_MGR_IO_IN_DELAY (push_bit 2 (of_nat RW_MGR_MEM_DQ_PER_WRITE_DQS + 1 + pin)) delay"

definition WRITE_SCC_DM_BYPASS :: "u32 \<Rightarrow> u32 \<Rightarrow> cmd" where
  "WRITE_SCC_DM_BYPASS pin bypass = (\<lambda>s. s)"

definition READ_SCC_DQS_IN_DELAY :: "u32 \<Rightarrow> seq \<Rightarrow> u32 \<times> seq" where
  "READ_SCC_DQS_IN_DELAY grp = IORD_32DIRECT SCC_MGR_DQS_IN_DELAY (push_bit 2 grp)"

definition READ_SCC_DQS_EN_DELAY :: "u32 \<Rightarrow> seq \<Rightarrow> u32 \<times> seq" where
  "READ_SCC_DQS_EN_DELAY grp s =
     (let (v, s) = IORD_32DIRECT SCC_MGR_DQS_EN_DELAY (push_bit 2 grp) s in
      (v - of_nat IO_DQS_EN_DELAY_OFFSET, s))"

definition READ_SCC_OCT_OUT2_DELAY :: "u32 \<Rightarrow> seq \<Rightarrow> u32 \<times> seq" where
  "READ_SCC_OCT_OUT2_DELAY grp s = (0, s)"

definition READ_SCC_DQ_OUT1_DELAY :: "u32 \<Rightarrow> seq \<Rightarrow> u32 \<times> seq" where
  "READ_SCC_DQ_OUT1_DELAY pin = IORD_32DIRECT SCC_MGR_IO_OUT1_DELAY (push_bit 2 pin)"

definition READ_SCC_DQ_OUT2_DELAY :: "u32 \<Rightarrow> seq \<Rightarrow> u32 \<times> seq" where
  "READ_SCC_DQ_OUT2_DELAY pin s = (0, s)"

definition READ_SCC_DQ_IN_DELAY :: "u32 \<Rightarrow> seq \<Rightarrow> u32 \<times> seq" where
  "READ_SCC_DQ_IN_DELAY pin = IORD_32DIRECT SCC_MGR_IO_IN_DELAY (push_bit 2 pin)"

definition READ_SCC_DQS_IO_OUT1_DELAY :: "seq \<Rightarrow> u32 \<times> seq" where
  "READ_SCC_DQS_IO_OUT1_DELAY =
     IORD_32DIRECT SCC_MGR_IO_OUT1_DELAY (push_bit 2 (of_nat RW_MGR_MEM_DQ_PER_WRITE_DQS))"

definition READ_SCC_DQS_IO_OUT2_DELAY :: "seq \<Rightarrow> u32 \<times> seq" where
  "READ_SCC_DQS_IO_OUT2_DELAY s = (0, s)"

definition READ_SCC_DM_IO_OUT2_DELAY :: "u32 \<Rightarrow> seq \<Rightarrow> u32 \<times> seq" where
  "READ_SCC_DM_IO_OUT2_DELAY pin s = (0, s)"

section \<open>One pin\<close>

definition select_curr_shadow_reg_using_rank :: "u32 \<Rightarrow> cmd" where
  "select_curr_shadow_reg_using_rank rank = (\<lambda>s. s)"

definition select_shadow_regs_for_update :: "u32 \<Rightarrow> u32 \<Rightarrow> u32 \<Rightarrow> cmd" where
  "select_shadow_regs_for_update rank grp update_scan_chains = (\<lambda>s. s)"

definition scc_mgr_initialize :: cmd where
  "scc_mgr_initialize =
     for_each [0..<16] (\<lambda>i. IOWR_32DIRECT SCC_MGR_HHP_RFILE (push_bit 2 (of_nat i)) 0)"

definition scc_mgr_set_dqs_bus_in_delay :: "u32 \<Rightarrow> u32 \<Rightarrow> cmd" where
  "scc_mgr_set_dqs_bus_in_delay read_group delay = WRITE_SCC_DQS_IN_DELAY read_group delay"

definition scc_mgr_set_dqs_io_in_delay :: "u32 \<Rightarrow> u32 \<Rightarrow> cmd" where
  "scc_mgr_set_dqs_io_in_delay write_group delay = WRITE_SCC_DQS_IO_IN_DELAY delay"

definition scc_mgr_set_dqs_en_phase :: "u32 \<Rightarrow> u32 \<Rightarrow> cmd" where
  "scc_mgr_set_dqs_en_phase read_group phase = WRITE_SCC_DQS_EN_PHASE read_group phase"

definition scc_mgr_set_dqs_en_phase_all_ranks :: "u32 \<Rightarrow> u32 \<Rightarrow> cmd" where
  "scc_mgr_set_dqs_en_phase_all_ranks read_group phase =
     for_each shadow_ranks (\<lambda>r.
       let update_scan_chains = (if r = 0 then 1 else 0) in
       seqs [
         select_shadow_regs_for_update (of_nat r) read_group update_scan_chains,
         scc_mgr_set_dqs_en_phase read_group phase,
         if update_scan_chains \<noteq> 0
         then seqs [
           IOWR_32DIRECT SCC_MGR_DQS_ENA 0 read_group,
           IOWR_32DIRECT SCC_MGR_UPD 0 0]
         else (\<lambda>s. s)])"

definition scc_mgr_set_dqdqs_output_phase :: "u32 \<Rightarrow> u32 \<Rightarrow> cmd" where
  "scc_mgr_set_dqdqs_output_phase write_group phase = WRITE_SCC_DQDQS_OUT_PHASE write_group phase"

definition scc_mgr_set_dqdqs_output_phase_all_ranks :: "u32 \<Rightarrow> u32 \<Rightarrow> cmd" where
  "scc_mgr_set_dqdqs_output_phase_all_ranks write_group phase =
     for_each shadow_ranks (\<lambda>r.
       let update_scan_chains = (if r = 0 then 1 else 0) in
       seqs [
         select_shadow_regs_for_update (of_nat r) write_group update_scan_chains,
         scc_mgr_set_dqdqs_output_phase write_group phase,
         if update_scan_chains \<noteq> 0
         then seqs [
           IOWR_32DIRECT SCC_MGR_DQS_ENA 0 write_group,
           IOWR_32DIRECT SCC_MGR_UPD 0 0]
         else (\<lambda>s. s)])"

definition scc_mgr_set_dqs_en_delay :: "u32 \<Rightarrow> u32 \<Rightarrow> cmd" where
  "scc_mgr_set_dqs_en_delay read_group delay = WRITE_SCC_DQS_EN_DELAY read_group delay"

definition scc_mgr_set_dqs_en_delay_all_ranks :: "u32 \<Rightarrow> u32 \<Rightarrow> cmd" where
  "scc_mgr_set_dqs_en_delay_all_ranks read_group delay =
     for_each shadow_ranks (\<lambda>r. seqs [
       select_shadow_regs_for_update (of_nat r) read_group 0,
       scc_mgr_set_dqs_en_delay read_group delay,
       IOWR_32DIRECT SCC_MGR_DQS_ENA 0 read_group,
       IOWR_32DIRECT SCC_MGR_UPD 0 0])"

text \<open>The read groups that belong to a write group.\<close>

definition first_read_group :: "u32 \<Rightarrow> u32" where
  "first_read_group write_group =
     write_group * of_nat RW_MGR_MEM_IF_READ_DQS_WIDTH div of_nat RW_MGR_MEM_IF_WRITE_DQS_WIDTH"

definition read_groups :: "u32 \<Rightarrow> u32 list" where
  "read_groups write_group =
     map of_nat [unat (first_read_group write_group)..<unat (first_read_group (write_group + 1))]"

definition scc_mgr_set_oct_out1_delay :: "u32 \<Rightarrow> u32 \<Rightarrow> cmd" where
  "scc_mgr_set_oct_out1_delay write_group delay =
     for_each (read_groups write_group) (\<lambda>read_group. WRITE_SCC_OCT_OUT1_DELAY read_group delay)"

definition scc_mgr_set_oct_out2_delay :: "u32 \<Rightarrow> u32 \<Rightarrow> cmd" where
  "scc_mgr_set_oct_out2_delay write_group delay =
     for_each (read_groups write_group) (\<lambda>read_group. WRITE_SCC_OCT_OUT2_DELAY read_group delay)"

definition scc_mgr_set_dqs_bypass :: "u32 \<Rightarrow> u32 \<Rightarrow> cmd" where
  "scc_mgr_set_dqs_bypass write_group bypass = WRITE_SCC_DQS_BYPASS write_group bypass"

definition scc_mgr_set_dq_out1_delay :: "u32 \<Rightarrow> u32 \<Rightarrow> u32 \<Rightarrow> cmd" where
  "scc_mgr_set_dq_out1_delay write_group dq_in_group delay = WRITE_SCC_DQ_OUT1_DELAY dq_in_group delay"

definition scc_mgr_set_dq_out2_delay :: "u32 \<Rightarrow> u32 \<Rightarrow> u32 \<Rightarrow> cmd" where
  "scc_mgr_set_dq_out2_delay write_group dq_in_group delay = WRITE_SCC_DQ_OUT2_DELAY dq_in_group delay"

definition scc_mgr_set_dq_in_delay :: "u32 \<Rightarrow> u32 \<Rightarrow> u32 \<Rightarrow> cmd" where
  "scc_mgr_set_dq_in_delay write_group dq_in_group delay = WRITE_SCC_DQ_IN_DELAY dq_in_group delay"

definition scc_mgr_set_dq_bypass :: "u32 \<Rightarrow> u32 \<Rightarrow> u32 \<Rightarrow> cmd" where
  "scc_mgr_set_dq_bypass write_group dq_in_group bypass = WRITE_SCC_DQ_BYPASS dq_in_group bypass"

definition scc_mgr_set_rfifo_mode :: "u32 \<Rightarrow> u32 \<Rightarrow> u32 \<Rightarrow> cmd" where
  "scc_mgr_set_rfifo_mode write_group dq_in_group m = WRITE_SCC_RFIFO_MODE dq_in_group m"

definition scc_mgr_set_hhp_extras :: cmd where
  "scc_mgr_set_hhp_extras =
     (let v = push_bit 8 0 OR push_bit 7 0 OR push_bit 5 1 OR push_bit 2 1 OR push_bit 1 1 OR push_bit 0 1
      in WRITE_SCC_HHP_EXTRAS v)"

definition scc_mgr_set_hhp_dqse_map :: cmd where
  "scc_mgr_set_hhp_dqse_map = WRITE_SCC_HHP_DQSE_MAP 0"

definition scc_mgr_set_dqs_out1_delay :: "u32 \<Rightarrow> u32 \<Rightarrow> cmd" where
  "scc_mgr_set_dqs_out1_delay write_group delay = WRITE_SCC_DQS_IO_OUT1_DELAY delay"

definition scc_mgr_set_dqs_out2_delay :: "u32 \<Rightarrow> u32 \<Rightarrow> cmd" where
  "scc_mgr_set_dqs_out2_delay write_group delay = WRITE_SCC_DQS_IO_OUT2_DELAY delay"

definition scc_mgr_set_dm_out1_delay :: "u32 \<Rightarrow> u32 \<Rightarrow> u32 \<Rightarrow> cmd" where
  "scc_mgr_set_dm_out1_delay write_group dm delay = WRITE_SCC_DM_IO_OUT1_DELAY dm delay"

definition scc_mgr_set_dm_out2_delay :: "u32 \<Rightarrow> u32 \<Rightarrow> u32 \<Rightarrow> cmd" where
  "scc_mgr_set_dm_out2_delay write_group dm delay = WRITE_SCC_DM_IO_OUT2_DELAY dm delay"

definition scc_mgr_set_dm_in_delay :: "u32 \<Rightarrow> u32 \<Rightarrow> u32 \<Rightarrow> cmd" where
  "scc_mgr_set_dm_in_delay write_group dm delay = WRITE_SCC_DM_IO_IN_DELAY dm delay"

definition scc_mgr_set_dm_bypass :: "u32 \<Rightarrow> u32 \<Rightarrow> u32 \<Rightarrow> cmd" where
  "scc_mgr_set_dm_bypass write_group dm bypass = WRITE_SCC_DM_BYPASS dm bypass"

section \<open>Groups\<close>

definition scc_mgr_zero_all :: cmd where
  "scc_mgr_zero_all =
     for_each shadow_ranks (\<lambda>r. seqs [
       select_shadow_regs_for_update (of_nat r) 0 1,
       for_each [0..<RW_MGR_MEM_IF_READ_DQS_WIDTH] (\<lambda>i. seqs [
         scc_mgr_set_dqs_bus_in_delay (of_nat i) (of_nat IO_DQS_IN_RESERVE),
         scc_mgr_set_dqs_en_phase (of_nat i) 0,
         scc_mgr_set_dqs_en_delay (of_nat i) 0]),
       for_each [0..<RW_MGR_MEM_IF_WRITE_DQS_WIDTH] (\<lambda>i. seqs [
         scc_mgr_set_dqdqs_output_phase (of_nat i) 0,
         scc_mgr_set_oct_out1_delay (of_nat i) (of_nat IO_DQS_OUT_RESERVE)]),
       IOWR_32DIRECT SCC_MGR_DQS_ENA 0 0xff,
       IOWR_32DIRECT SCC_MGR_UPD 0 0])"

definition scc_set_bypass_mode :: "u32 \<Rightarrow> u32 \<Rightarrow> cmd" where
  "scc_set_bypass_mode write_group m =
     seqs [
       if write_group = 0 then scc_mgr_set_hhp_extras else (\<lambda>s. s),
       IOWR_32DIRECT SCC_MGR_DQ_ENA 0 0xff,
       IOWR_32DIRECT SCC_MGR_DM_ENA 0 0xff,
       IOWR_32DIRECT SCC_MGR_DQS_IO_ENA 0 0,
       IOWR_32DIRECT SCC_MGR_DQS_ENA 0 write_group,
       IOWR_32DIRECT SCC_MGR_UPD 0 0]"

definition scc_mgr_load_dqs_for_write_group :: "u32 \<Rightarrow> cmd" where
  "scc_mgr_load_dqs_for_write_group write_group =
     for_each (read_groups write_group) (\<lambda>read_group. IOWR_32DIRECT SCC_MGR_DQS_ENA 0 read_group)"

definition scc_mgr_zero_group :: "u32 \<Rightarrow> u32 \<Rightarrow> int \<Rightarrow> cmd" where
  "scc_mgr_zero_group write_group test_begin out_only =
     for_each shadow_ranks (\<lambda>r. seqs [
       select_shadow_regs_for_update (of_nat r) write_group 1,
       for_each [0..<RW_MGR_MEM_DQ_PER_WRITE_DQS] (\<lambda>i. seqs [
         scc_mgr_set_dq_out1_delay write_group (of_nat i) 0,
         scc_mgr_set_dq_out2_delay write_group (of_nat i) (of_nat IO_DQ_OUT_RESERVE),
         if out_only = 0 then scc_mgr_set_dq_in_delay write_group (of_nat i) 0 else (\<lambda>s. s)]),
       IOWR_32DIRECT SCC_MGR_DQ_ENA 0 0xff,
       for_each [0..<RW_MGR_NUM_DM_PER_WRITE_GROUP] (\<lambda>i. seqs [
         if out_only = 0 then scc_mgr_set_dm_in_delay write_group (of_nat i) 0 else (\<lambda>s. s),
         scc_mgr_set_dm_out1_delay write_group (of_nat i) 0,
         scc_mgr_set_dm_out2_delay write_group (of_nat i) (of_nat IO_DM_OUT_RESERVE)]),
       IOWR_32DIRECT SCC_MGR_DM_ENA 0 0xff,
       if out_only = 0 then scc_mgr_set_dqs_io_in_delay write_group 0 else (\<lambda>s. s),
       scc_mgr_set_dqs_out1_delay write_group (of_nat IO_DQS_OUT_RESERVE),
       scc_mgr_set_oct_out1_delay write_group (of_nat IO_DQS_OUT_RESERVE),
       scc_mgr_load_dqs_for_write_group write_group,
       IOWR_32DIRECT SCC_MGR_DQS_IO_ENA 0 0,
       IOWR_32DIRECT SCC_MGR_UPD 0 0])"

definition scc_mgr_load_dqs :: "u32 \<Rightarrow> cmd" where
  "scc_mgr_load_dqs dqs = IOWR_32DIRECT SCC_MGR_DQS_ENA 0 dqs"

definition scc_mgr_load_dqs_io :: cmd where
  "scc_mgr_load_dqs_io = IOWR_32DIRECT SCC_MGR_DQS_IO_ENA 0 0"

definition scc_mgr_load_dq :: "u32 \<Rightarrow> cmd" where
  "scc_mgr_load_dq dq_in_group = IOWR_32DIRECT SCC_MGR_DQ_ENA 0 dq_in_group"

definition scc_mgr_load_dm :: "u32 \<Rightarrow> cmd" where
  "scc_mgr_load_dm dm = IOWR_32DIRECT SCC_MGR_DM_ENA 0 dm"

definition scc_mgr_apply_group_dq_in_delay :: "u32 \<Rightarrow> u32 \<Rightarrow> u32 \<Rightarrow> cmd" where
  "scc_mgr_apply_group_dq_in_delay write_group group_bgn delay =
     for_each [0..<RW_MGR_MEM_DQ_PER_READ_DQS] (\<lambda>i. let p = group_bgn + of_nat i in seqs [
       scc_mgr_set_dq_in_delay write_group p delay,
       scc_mgr_load_dq p])"

definition scc_mgr_apply_group_dq_out1_delay :: "u32 \<Rightarrow> u32 \<Rightarrow> u32 \<Rightarrow> cmd" where
  "scc_mgr_apply_group_dq_out1_delay write_group group_bgn delay1 =
     for_each [0..<RW_MGR_MEM_DQ_PER_WRITE_DQS] (\<lambda>i. seqs [
       scc_mgr_set_dq_out1_delay write_group (of_nat i) delay1,
       scc_mgr_load_dq (of_nat i)])"

definition scc_mgr_apply_group_dq_out2_delay :: "u32 \<Rightarrow> u32 \<Rightarrow> u32 \<Rightarrow> cmd" where
  "scc_mgr_apply_group_dq_out2_delay write_group group_bgn delay2 =
     for_each [0..<RW_MGR_MEM_DQ_PER_WRITE_DQS] (\<lambda>i. seqs [
       scc_mgr_set_dq_out2_delay write_group (of_nat i) delay2,
       scc_mgr_load_dq (of_nat i)])"

definition scc_mgr_apply_group_dm_out1_delay :: "u32 \<Rightarrow> u32 \<Rightarrow> cmd" where
  "scc_mgr_apply_group_dm_out1_delay write_group delay1 =
     for_each [0..<RW_MGR_NUM_DM_PER_WRITE_GROUP] (\<lambda>i. seqs [
       scc_mgr_set_dm_out1_delay write_group (of_nat i) delay1,
       scc_mgr_load_dm (of_nat i)])"

definition scc_mgr_apply_group_dqs_io_and_oct_out1 :: "u32 \<Rightarrow> u32 \<Rightarrow> cmd" where
  "scc_mgr_apply_group_dqs_io_and_oct_out1 write_group delay =
     seqs [
       scc_mgr_set_dqs_out1_delay write_group delay,
       scc_mgr_load_dqs_io,
       scc_mgr_set_oct_out1_delay write_group delay,
       scc_mgr_load_dqs_for_write_group write_group]"

definition scc_mgr_apply_group_dqs_io_and_oct_out2 :: "u32 \<Rightarrow> u32 \<Rightarrow> cmd" where
  "scc_mgr_apply_group_dqs_io_and_oct_out2 write_group delay =
     seqs [
       scc_mgr_set_dqs_out2_delay write_group delay,
       scc_mgr_load_dqs_io,
       scc_mgr_set_oct_out2_delay write_group delay,
       scc_mgr_load_dqs_for_write_group write_group]"

section \<open>Gradual changes\<close>

definition rw_mgr_mem_dll_lock_wait :: cmd where
  "rw_mgr_mem_dll_lock_wait = (\<lambda>s. s)"

text \<open>The two loops: down to \<open>delay\<close>, then up to it; \<open>apply_to\<close> applies one value.\<close>

definition gradual_step :: "(u32 \<Rightarrow> cmd) \<Rightarrow> u32 \<Rightarrow> cmd" where
  "gradual_step apply_to d =
     seqs [
       apply_to d,
       IOWR_32DIRECT SCC_MGR_UPD 0 0,
       if QDRII \<noteq> 0 then rw_mgr_mem_dll_lock_wait else (\<lambda>s. s)]"

function gradual_down :: "(u32 \<Rightarrow> cmd) \<Rightarrow> u32 \<Rightarrow> u32 \<Rightarrow> seq \<Rightarrow> u32 \<times> seq" where
  "gradual_down apply_to delay d s =
     (if delay < d then let d = d - 1 in gradual_down apply_to delay d (gradual_step apply_to d s)
      else (d, s))"
  by pat_completeness auto
termination
  by (relation "measure (\<lambda>(a, delay, d, s). unat d)") (auto simp: word_less_nat_alt unat_sub_if')

declare gradual_down.simps [simp del]

function gradual_up :: "(u32 \<Rightarrow> cmd) \<Rightarrow> u32 \<Rightarrow> u32 \<Rightarrow> seq \<Rightarrow> u32 \<times> seq" where
  "gradual_up apply_to delay d s =
     (if d < delay then let d = d + 1 in gradual_up apply_to delay d (gradual_step apply_to d s)
      else (d, s))"
  by pat_completeness auto
termination
  by (relation "measure (\<lambda>(a, delay, d, s). unat delay - unat d)")
    (auto simp: word_less_nat_alt unat_inc)

declare gradual_up.simps [simp del]

definition scc_mgr_set_group_dqs_io_and_oct_out1_gradual :: "u32 \<Rightarrow> u32 \<Rightarrow> cmd" where
  "scc_mgr_set_group_dqs_io_and_oct_out1_gradual write_group delay s =
     (let (d, s) = READ_SCC_DQS_IO_OUT1_DELAY s;
          (d, s) = gradual_down (scc_mgr_apply_group_dqs_io_and_oct_out1 write_group) delay d s;
          (d, s) = gradual_up (scc_mgr_apply_group_dqs_io_and_oct_out1 write_group) delay d s
      in s)"

definition scc_mgr_set_group_dqs_io_and_oct_out2_gradual :: "u32 \<Rightarrow> u32 \<Rightarrow> cmd" where
  "scc_mgr_set_group_dqs_io_and_oct_out2_gradual write_group delay s =
     (let (d, s) = READ_SCC_DQS_IO_OUT2_DELAY s;
          (d, s) = gradual_down (scc_mgr_apply_group_dqs_io_and_oct_out2 write_group) delay d s;
          (d, s) = gradual_up (scc_mgr_apply_group_dqs_io_and_oct_out2 write_group) delay d s
      in s)"

section \<open>All outputs of a group\<close>

definition scc_mgr_apply_group_all_out_delay :: "u32 \<Rightarrow> u32 \<Rightarrow> u32 \<Rightarrow> cmd" where
  "scc_mgr_apply_group_all_out_delay write_group group_bgn delay =
     seqs [
       scc_mgr_apply_group_dq_out1_delay write_group group_bgn delay,
       scc_mgr_apply_group_dm_out1_delay write_group delay,
       scc_mgr_apply_group_dqs_io_and_oct_out1 write_group delay]"

definition scc_mgr_apply_group_all_out_delay_all_ranks :: "u32 \<Rightarrow> u32 \<Rightarrow> u32 \<Rightarrow> cmd" where
  "scc_mgr_apply_group_all_out_delay_all_ranks write_group group_bgn delay =
     for_each shadow_ranks (\<lambda>r. seqs [
       select_shadow_regs_for_update (of_nat r) write_group 1,
       scc_mgr_apply_group_all_out_delay write_group group_bgn delay,
       IOWR_32DIRECT SCC_MGR_UPD 0 0])"

text \<open>\<open>new_delay\<close> and the part of it beyond the range of the second output delay.\<close>

definition clip_out2 :: "u32 \<Rightarrow> u32" where
  "clip_out2 new_delay =
     (if new_delay > of_nat IO_IO_OUT2_DELAY_MAX then of_nat IO_IO_OUT2_DELAY_MAX else new_delay)"

definition scc_mgr_apply_group_all_out_delay_add :: "u32 \<Rightarrow> u32 \<Rightarrow> u32 \<Rightarrow> cmd" where
  "scc_mgr_apply_group_all_out_delay_add write_group group_bgn delay =
     seqs [
       for_each [0..<RW_MGR_MEM_DQ_PER_WRITE_DQS] (\<lambda>i s.
         let (v, s) = READ_SCC_DQ_OUT2_DELAY (of_nat i) s; new_delay = clip_out2 (v + delay) in
         seqs [
           scc_mgr_set_dq_out2_delay write_group (of_nat i) new_delay,
           scc_mgr_load_dq (of_nat i)] s),
       for_each [0..<RW_MGR_NUM_DM_PER_WRITE_GROUP] (\<lambda>i s.
         let (v, s) = READ_SCC_DM_IO_OUT2_DELAY (of_nat i) s; new_delay = clip_out2 (v + delay) in
         seqs [
           scc_mgr_set_dm_out2_delay write_group (of_nat i) new_delay,
           scc_mgr_load_dm (of_nat i)] s),
       (\<lambda>s. let (v, s) = READ_SCC_DQS_IO_OUT2_DELAY s; new_delay = v + delay in
         seqs [
           if new_delay > of_nat IO_IO_OUT2_DELAY_MAX
           then scc_mgr_set_dqs_out1_delay write_group (new_delay - of_nat IO_IO_OUT2_DELAY_MAX)
           else (\<lambda>s. s),
           scc_mgr_set_dqs_out2_delay write_group (clip_out2 new_delay),
           scc_mgr_load_dqs_io] s),
       (\<lambda>s. let (v, s) = READ_SCC_OCT_OUT2_DELAY write_group s; new_delay = v + delay in
         seqs [
           if new_delay > of_nat IO_IO_OUT2_DELAY_MAX
           then scc_mgr_set_oct_out1_delay write_group (new_delay - of_nat IO_IO_OUT2_DELAY_MAX)
           else (\<lambda>s. s),
           scc_mgr_set_oct_out2_delay write_group (clip_out2 new_delay),
           scc_mgr_load_dqs_for_write_group write_group] s)]"

definition scc_mgr_apply_group_all_out_delay_add_all_ranks :: "u32 \<Rightarrow> u32 \<Rightarrow> u32 \<Rightarrow> cmd" where
  "scc_mgr_apply_group_all_out_delay_add_all_ranks write_group group_bgn delay =
     for_each shadow_ranks (\<lambda>r. seqs [
       select_shadow_regs_for_update (of_nat r) write_group 1,
       scc_mgr_apply_group_all_out_delay_add write_group group_bgn delay,
       IOWR_32DIRECT SCC_MGR_UPD 0 0])"

definition scc_mgr_spread_out2_delay_all_ranks :: "u32 \<Rightarrow> u32 \<Rightarrow> cmd" where
  "scc_mgr_spread_out2_delay_all_ranks write_group test_bgn = (\<lambda>s. s)"

section \<open>What the commands leave alone\<close>

lemma io_scc_pins [io_rules]:
  "io (select_shadow_regs_for_update a b c)" "io (select_curr_shadow_reg_using_rank a)"
  "io (scc_mgr_set_dqs_bus_in_delay a b)" "io (scc_mgr_set_dqs_io_in_delay a b)"
  "io (scc_mgr_set_dqs_en_phase a b)" "io (scc_mgr_set_dqdqs_output_phase a b)"
  "io (scc_mgr_set_dqs_en_delay a b)" "io (scc_mgr_set_oct_out1_delay a b)"
  "io (scc_mgr_set_oct_out2_delay a b)" "io (scc_mgr_set_dq_out1_delay a b c)"
  "io (scc_mgr_set_dq_out2_delay a b c)" "io (scc_mgr_set_dq_in_delay a b c)"
  "io scc_mgr_set_hhp_extras" "io scc_mgr_set_hhp_dqse_map" "io (scc_mgr_set_dqs_out1_delay a b)"
  "io (scc_mgr_set_dqs_out2_delay a b)" "io (scc_mgr_set_dm_out1_delay a b c)"
  "io (scc_mgr_set_dm_out2_delay a b c)" "io (scc_mgr_set_dm_in_delay a b c)"
  unfolding select_shadow_regs_for_update_def select_curr_shadow_reg_using_rank_def
    scc_mgr_set_dqs_bus_in_delay_def WRITE_SCC_DQS_IN_DELAY_def scc_mgr_set_dqs_io_in_delay_def
    WRITE_SCC_DQS_IO_IN_DELAY_def scc_mgr_set_dqs_en_phase_def WRITE_SCC_DQS_EN_PHASE_def
    scc_mgr_set_dqdqs_output_phase_def WRITE_SCC_DQDQS_OUT_PHASE_def scc_mgr_set_dqs_en_delay_def
    WRITE_SCC_DQS_EN_DELAY_def scc_mgr_set_oct_out1_delay_def WRITE_SCC_OCT_OUT1_DELAY_def
    scc_mgr_set_oct_out2_delay_def WRITE_SCC_OCT_OUT2_DELAY_def scc_mgr_set_dq_out1_delay_def
    WRITE_SCC_DQ_OUT1_DELAY_def scc_mgr_set_dq_out2_delay_def WRITE_SCC_DQ_OUT2_DELAY_def
    scc_mgr_set_dq_in_delay_def WRITE_SCC_DQ_IN_DELAY_def scc_mgr_set_hhp_extras_def
    WRITE_SCC_HHP_EXTRAS_def scc_mgr_set_hhp_dqse_map_def WRITE_SCC_HHP_DQSE_MAP_def
    scc_mgr_set_dqs_out1_delay_def WRITE_SCC_DQS_IO_OUT1_DELAY_def scc_mgr_set_dqs_out2_delay_def
    WRITE_SCC_DQS_IO_OUT2_DELAY_def scc_mgr_set_dm_out1_delay_def WRITE_SCC_DM_IO_OUT1_DELAY_def
    scc_mgr_set_dm_out2_delay_def WRITE_SCC_DM_IO_OUT2_DELAY_def scc_mgr_set_dm_in_delay_def
    WRITE_SCC_DM_IO_IN_DELAY_def Let_def
  by (intro io_rules)+

lemma io_scc_loads [io_rules]:
  "io (scc_mgr_load_dqs_for_write_group a)" "io (scc_mgr_load_dqs a)" "io scc_mgr_load_dqs_io"
  "io (scc_mgr_load_dq a)" "io (scc_mgr_load_dm a)" "io scc_mgr_initialize"
  "io (scc_set_bypass_mode a b)"
  unfolding scc_mgr_load_dqs_for_write_group_def scc_mgr_load_dqs_def scc_mgr_load_dqs_io_def
    scc_mgr_load_dq_def scc_mgr_load_dm_def scc_mgr_initialize_def scc_set_bypass_mode_def
  by (intro io_rules)+

lemma io_scc_groups [io_rules]:
  "io (scc_mgr_set_dqs_en_phase_all_ranks a b)" "io (scc_mgr_set_dqdqs_output_phase_all_ranks a b)"
  "io (scc_mgr_set_dqs_en_delay_all_ranks a b)" "io scc_mgr_zero_all" "io (scc_mgr_zero_group a b k)"
  "io (scc_mgr_apply_group_dq_in_delay a b c)" "io (scc_mgr_apply_group_dq_out1_delay a b c)"
  "io (scc_mgr_apply_group_dq_out2_delay a b c)" "io (scc_mgr_apply_group_dm_out1_delay a b)"
  "io (scc_mgr_apply_group_dqs_io_and_oct_out1 a b)" "io (scc_mgr_apply_group_dqs_io_and_oct_out2 a b)"
  "io (scc_mgr_spread_out2_delay_all_ranks a b)"
  unfolding scc_mgr_set_dqs_en_phase_all_ranks_def scc_mgr_set_dqdqs_output_phase_all_ranks_def
    scc_mgr_set_dqs_en_delay_all_ranks_def scc_mgr_zero_all_def scc_mgr_zero_group_def
    scc_mgr_apply_group_dq_in_delay_def scc_mgr_apply_group_dq_out1_delay_def
    scc_mgr_apply_group_dq_out2_delay_def scc_mgr_apply_group_dm_out1_delay_def
    scc_mgr_apply_group_dqs_io_and_oct_out1_def scc_mgr_apply_group_dqs_io_and_oct_out2_def
    scc_mgr_spread_out2_delay_all_ranks_def Let_def
  by (intro io_rules)+

lemma io_scc_all [io_rules]:
  "io (scc_mgr_apply_group_all_out_delay a b c)" "io (scc_mgr_apply_group_all_out_delay_all_ranks a b c)"
  unfolding scc_mgr_apply_group_all_out_delay_def scc_mgr_apply_group_all_out_delay_all_ranks_def
  by (intro io_rules)+

lemma io_val_scc [io_val_rules]:
  "io_val (READ_SCC_DQS_IN_DELAY a)" "io_val (READ_SCC_DQS_EN_DELAY a)" "io_val (READ_SCC_DQ_OUT1_DELAY a)"
  "io_val (READ_SCC_DQ_IN_DELAY a)" "io_val READ_SCC_DQS_IO_OUT1_DELAY"
  using io_val_IORD unfolding READ_SCC_DQS_IN_DELAY_def READ_SCC_DQ_OUT1_DELAY_def
    READ_SCC_DQ_IN_DELAY_def READ_SCC_DQS_IO_OUT1_DELAY_def READ_SCC_DQS_EN_DELAY_def io_val_def
  by (auto simp: Let_def split: prod.splits) (metis snd_conv)

lemmas io_at_scc [io_at_rules] =
  io_scc_pins [THEN io_at_cmd] io_scc_loads [THEN io_at_cmd] io_scc_groups [THEN io_at_cmd]
  io_scc_all [THEN io_at_cmd] io_val_scc [THEN io_at_snd]

end
