(* ===== verification/RwManager.thy ===== *)
theory RwManager
  imports SccManager
begin

text \<open>
  The read/write manager as \<open>sequencer.c\<close> drives it: the ranks and their termination, delays made
  of idle loops, and the initialisation of the memory.
\<close>

section \<open>Chip select and termination\<close>

text \<open>The termination masks for reads and writes of a rank.\<close>

definition odt_masks :: "u32 \<Rightarrow> u32 \<Rightarrow> u32 \<times> u32" where
  "odt_masks rank odt_mode =
     (if odt_mode = RW_MGR_ODT_MODE_READ_WRITE then
        if LRDIMM \<noteq> 0 then
          if RW_MGR_MEM_CHIP_SELECT_WIDTH div RW_MGR_MEM_NUMBER_OF_CS_PER_DIMM = 1 then
            if RW_MGR_MEM_ODT_WIDTH = 1 then (0x0, 0x1)
            else if RW_MGR_MEM_ODT_WIDTH = 2 then (0x0, 0x3)
            else (0, 0)
          else if RW_MGR_MEM_CHIP_SELECT_WIDTH div RW_MGR_MEM_NUMBER_OF_CS_PER_DIMM = 2 then
            if RW_MGR_MEM_ODT_WIDTH = 2 then (if rank < 2 then 0x2 else 0x1, 0x3)
            else if RW_MGR_MEM_ODT_WIDTH = 4 then (if rank < 2 then 0xC else 0x3, 0xF)
            else (0, 0)
          else (0, 0)
        else if RW_MGR_MEM_NUMBER_OF_RANKS = 1 then (0x0, 0x1)
        else if RW_MGR_MEM_NUMBER_OF_RANKS = 2 then
          if RW_MGR_MEM_NUMBER_OF_CS_PER_DIMM = 1 \<or>
             RDIMM \<noteq> 0 \<and> RW_MGR_MEM_NUMBER_OF_CS_PER_DIMM = 2 \<and> RW_MGR_MEM_CHIP_SELECT_WIDTH = 4
          then (0x3 AND NOT (push_bit (unat rank) 1), 0x3)
          else (0x0, 0x3 AND push_bit (unat rank) 1)
        else if rank = 0 then (0x4, 0x5)
        else if rank = 1 then (0x8, 0xA)
        else if rank = 2 then (0x1, 0x5)
        else if rank = 3 then (0x2, 0xA)
        else (0, 0)
      else (0x0, 0x0))"

definition cs_and_odt_mask :: "u32 \<Rightarrow> u32 \<Rightarrow> u32" where
  "cs_and_odt_mask rank odt_mode =
     (let (odt_mask_0, odt_mask_1) = odt_masks rank odt_mode in
      (if RDIMM \<noteq> 0 \<and> RW_MGR_MEM_NUMBER_OF_CS_PER_DIMM = 2 \<and> RW_MGR_MEM_CHIP_SELECT_WIDTH = 4 \<and>
          RW_MGR_MEM_NUMBER_OF_RANKS = 2
       then 0xFF AND NOT (push_bit (2 * unat rank) 1)
       else 0xFF AND NOT (push_bit (unat rank) 1))
      OR push_bit 8 (0xFF AND odt_mask_0)
      OR push_bit 16 (0xFF AND odt_mask_1))"

definition set_rank_and_odt_mask :: "u32 \<Rightarrow> u32 \<Rightarrow> cmd" where
  "set_rank_and_odt_mask rank odt_mode =
     IOWR_32DIRECT RW_MGR_SET_CS_AND_ODT_MASK 0 (cs_and_odt_mask rank odt_mode)"

text \<open>\<open>skip_ranks\<close> is an array of \<open>MAX_RANKS\<close> flags, and the loops over the ranks stay in it.\<close>

definition skip_rank :: "nat \<Rightarrow> seq \<Rightarrow> bool" where
  "skip_rank r s = (skip_ranks (param s) ! r \<noteq> 0)"

definition for_ranks :: "nat list \<Rightarrow> (nat \<Rightarrow> cmd) \<Rightarrow> cmd" where
  "for_ranks rs body = for_each rs (\<lambda>r s. if skip_rank r s then s else body r s)"

section \<open>Delays\<close>

definition SKIP_DELAY_LOOP_VALUE_OR_ZERO :: "u32 \<Rightarrow> seq \<Rightarrow> u32" where
  "SKIP_DELAY_LOOP_VALUE_OR_ZERO non_skip_value s = non_skip_value AND ucast (skip_delay_mask s)"

definition load_delay :: "u32 \<Rightarrow> u32 \<Rightarrow> cmd" where
  "load_delay reg v s = IOWR_32DIRECT reg 0 (SKIP_DELAY_LOOP_VALUE_OR_ZERO v s) s"

definition set_jump_as_return :: cmd where
  "set_jump_as_return = seqs [
     IOWR_32DIRECT RW_MGR_LOAD_CNTR_0 0 0xFF,
     IOWR_32DIRECT RW_MGR_LOAD_JUMP_ADD_0 0 RW_MGR_RETURN]"

text \<open>The counters of the nested loops, and how often the outermost one runs once more.\<close>

definition delay_counters :: "u32 \<Rightarrow> 8 word \<times> 8 word \<times> 16 word" where
  "delay_counters afi_clocks =
     (if afi_clocks = 0 then (0, 0, 0)
      else if afi_clocks \<le> 0x100 then (ucast (afi_clocks - 1), 0, 0)
      else if afi_clocks \<le> 0x10000 then (0xff, ucast (drop_bit 8 (afi_clocks - 1)), 0)
      else (0xff, 0xff, ucast (drop_bit 16 (afi_clocks - 1))))"

text \<open>\<open>do ... while (c_loop-- != 0)\<close>\<close>

fun idle_loops :: "nat \<Rightarrow> cmd" where
  "idle_loops c_loop s =
     (let s = IOWR_32DIRECT RW_MGR_RUN_SINGLE_GROUP 0 RW_MGR_IDLE_LOOP2 s in
      case c_loop of 0 \<Rightarrow> s | Suc c \<Rightarrow> idle_loops c s)"

declare idle_loops.simps [simp del]

definition to_afi_clocks :: "u32 \<Rightarrow> u32" where
  "to_afi_clocks clocks = (clocks + of_nat AFI_RATE_RATIO - 1) div of_nat AFI_RATE_RATIO"

definition delay_for_n_mem_clocks :: "u32 \<Rightarrow> cmd" where
  "delay_for_n_mem_clocks clocks =
     (let afi_clocks = to_afi_clocks clocks;
          (inner, outer, c_loop) = delay_counters afi_clocks in
      if afi_clocks \<le> 0x100 then seqs [
        load_delay RW_MGR_LOAD_CNTR_1 (ucast inner),
        IOWR_32DIRECT RW_MGR_LOAD_JUMP_ADD_1 0 RW_MGR_IDLE_LOOP1,
        IOWR_32DIRECT RW_MGR_RUN_SINGLE_GROUP 0 RW_MGR_IDLE_LOOP1]
      else seqs [
        load_delay RW_MGR_LOAD_CNTR_0 (ucast inner),
        load_delay RW_MGR_LOAD_CNTR_1 (ucast outer),
        IOWR_32DIRECT RW_MGR_LOAD_JUMP_ADD_0 0 RW_MGR_IDLE_LOOP2,
        IOWR_32DIRECT RW_MGR_LOAD_JUMP_ADD_1 0 RW_MGR_IDLE_LOOP2,
        if afi_clocks \<le> 0x10000
        then IOWR_32DIRECT RW_MGR_RUN_SINGLE_GROUP 0 RW_MGR_IDLE_LOOP2
        else idle_loops (unat c_loop)])"

definition delay_for_n_ns :: "u32 \<Rightarrow> cmd" where
  "delay_for_n_ns nanoseconds =
     delay_for_n_mem_clocks
       (1000 * nanoseconds div (1000000 div of_nat AFI_CLK_FREQ) * of_nat AFI_RATE_RATIO)"

definition recover_mem_device_after_ck_dqs_violation :: cmd where
  "recover_mem_device_after_ck_dqs_violation = (\<lambda>s. s)"

section \<open>Initialisation and handoff of the memory\<close>

definition rw_mgr_rdimm_initialize :: cmd where
  "rw_mgr_rdimm_initialize = (\<lambda>s. s)"

text \<open>The mode registers, with the commands for mirrored address pins on the odd ranks.\<close>

definition run_program :: "u32 \<Rightarrow> cmd" where
  "run_program pc = IOWR_32DIRECT RW_MGR_RUN_SINGLE_GROUP 0 pc"

definition mirrored :: "nat \<Rightarrow> bool" where
  "mirrored r = bit RW_MGR_MEM_ADDRESS_MIRRORING r"

definition initialize_rank :: "nat \<Rightarrow> cmd" where
  "initialize_rank r = seqs [
     set_rank_and_odt_mask (of_nat r) RW_MGR_ODT_MODE_OFF,
     if mirrored r then seqs [
       set_jump_as_return, run_program RW_MGR_MRS2_MIRR, delay_for_n_mem_clocks 4,
       set_jump_as_return, run_program RW_MGR_MRS3_MIRR, delay_for_n_mem_clocks 4,
       set_jump_as_return, run_program RW_MGR_MRS1_MIRR, delay_for_n_mem_clocks 4,
       set_jump_as_return, run_program RW_MGR_MRS0_DLL_RESET_MIRR]
     else seqs [
       set_jump_as_return, run_program RW_MGR_MRS2, delay_for_n_mem_clocks 4,
       set_jump_as_return, run_program RW_MGR_MRS3, delay_for_n_mem_clocks 4,
       set_jump_as_return, run_program RW_MGR_MRS1,
       set_jump_as_return, run_program RW_MGR_MRS0_DLL_RESET],
     set_jump_as_return,
     run_program RW_MGR_ZQCL,
     delay_for_n_mem_clocks 512]"

definition rw_mgr_mem_initialize :: cmd where
  "rw_mgr_mem_initialize = seqs [
     IOWR_32DIRECT RW_MGR_SET_CS_AND_ODT_MASK 0 RW_MGR_RANK_ALL,
     load_delay RW_MGR_LOAD_CNTR_0 (of_nat SEQ_TINIT_CNTR0_VAL),
     load_delay RW_MGR_LOAD_CNTR_1 (of_nat SEQ_TINIT_CNTR1_VAL),
     load_delay RW_MGR_LOAD_CNTR_2 (of_nat SEQ_TINIT_CNTR2_VAL),
     IOWR_32DIRECT RW_MGR_LOAD_JUMP_ADD_0 0 RW_MGR_INIT_RESET_0_CKE_0,
     IOWR_32DIRECT RW_MGR_LOAD_JUMP_ADD_1 0 RW_MGR_INIT_RESET_0_CKE_0,
     IOWR_32DIRECT RW_MGR_LOAD_JUMP_ADD_2 0 RW_MGR_INIT_RESET_0_CKE_0,
     run_program RW_MGR_INIT_RESET_0_CKE_0,
     IOWR_32DIRECT PHY_MGR_RESET_MEM_STBL 0 1,
     load_delay RW_MGR_LOAD_CNTR_0 (of_nat SEQ_TRESET_CNTR0_VAL),
     load_delay RW_MGR_LOAD_CNTR_1 (of_nat SEQ_TRESET_CNTR1_VAL),
     load_delay RW_MGR_LOAD_CNTR_2 (of_nat SEQ_TRESET_CNTR2_VAL),
     IOWR_32DIRECT RW_MGR_LOAD_JUMP_ADD_0 0 RW_MGR_INIT_RESET_1_CKE_0,
     IOWR_32DIRECT RW_MGR_LOAD_JUMP_ADD_1 0 RW_MGR_INIT_RESET_1_CKE_0,
     IOWR_32DIRECT RW_MGR_LOAD_JUMP_ADD_2 0 RW_MGR_INIT_RESET_1_CKE_0,
     run_program RW_MGR_INIT_RESET_1_CKE_0,
     delay_for_n_mem_clocks 250,
     rw_mgr_rdimm_initialize,
     for_ranks [0..<RW_MGR_MEM_NUMBER_OF_RANKS] initialize_rank]"

definition handoff_rank :: "nat \<Rightarrow> cmd" where
  "handoff_rank r = seqs [
     set_rank_and_odt_mask (of_nat r) RW_MGR_ODT_MODE_OFF,
     run_program RW_MGR_PRECHARGE_ALL,
     if mirrored r then seqs [
       set_jump_as_return, run_program RW_MGR_MRS2_MIRR, delay_for_n_mem_clocks 4,
       set_jump_as_return, run_program RW_MGR_MRS3_MIRR, delay_for_n_mem_clocks 4,
       set_jump_as_return, run_program RW_MGR_MRS1_MIRR, delay_for_n_mem_clocks 4,
       set_jump_as_return, run_program RW_MGR_MRS0_USER_MIRR]
     else seqs [
       set_jump_as_return, run_program RW_MGR_MRS2, delay_for_n_mem_clocks 4,
       set_jump_as_return, run_program RW_MGR_MRS3, delay_for_n_mem_clocks 4,
       set_jump_as_return, run_program RW_MGR_MRS1, delay_for_n_mem_clocks 4,
       set_jump_as_return, run_program RW_MGR_MRS0_USER]]"

definition rw_mgr_mem_handoff :: cmd where
  "rw_mgr_mem_handoff = for_ranks [0..<RW_MGR_MEM_NUMBER_OF_RANKS] handoff_rank"

definition mem_precharge_and_activate :: cmd where
  "mem_precharge_and_activate =
     for_ranks [0..<RW_MGR_MEM_NUMBER_OF_RANKS] (\<lambda>r. seqs [
       set_rank_and_odt_mask (of_nat r) RW_MGR_ODT_MODE_OFF,
       run_program RW_MGR_PRECHARGE_ALL,
       IOWR_32DIRECT RW_MGR_LOAD_CNTR_0 0 0x0F,
       IOWR_32DIRECT RW_MGR_LOAD_JUMP_ADD_0 0 RW_MGR_ACTIVATE_0_AND_1_WAIT1,
       IOWR_32DIRECT RW_MGR_LOAD_CNTR_1 0 0x0F,
       IOWR_32DIRECT RW_MGR_LOAD_JUMP_ADD_1 0 RW_MGR_ACTIVATE_0_AND_1_WAIT2,
       run_program RW_MGR_ACTIVATE_0_AND_1])"

section \<open>What the commands leave alone\<close>

lemma io_for_ranks [io_rules]: "(\<And>r. io (f r)) \<Longrightarrow> io (for_ranks rs f)"
  unfolding for_ranks_def by (intro io_for_each ioI) (auto dest: ioD)

lemma io_load_delay [io_rules]: "io (load_delay reg v)"
  by (rule ioI) (simp add: load_delay_def ioD io_rules)

lemma io_idle_loops [io_rules]: "io (idle_loops n)"
proof (induction n)
  case 0
  show ?case by (rule ioI) (simp add: idle_loops.simps ioD io_rules)
next
  case (Suc n)
  show ?case
    by (rule ioI, subst idle_loops.simps) (simp add: Let_def io_at_cmd [OF Suc] ioD io_rules)
qed

lemma io_delay [io_rules]:
  "io (delay_for_n_mem_clocks n)" "io (delay_for_n_ns n)"
  unfolding delay_for_n_ns_def delay_for_n_mem_clocks_def Let_def
  by (auto split: prod.splits intro!: io_rules)

lemma io_rw_mgr [io_rules]:
  "io (set_rank_and_odt_mask r m)" "io set_jump_as_return" "io (run_program pc)"
  "io recover_mem_device_after_ck_dqs_violation" "io rw_mgr_rdimm_initialize"
  unfolding set_rank_and_odt_mask_def set_jump_as_return_def run_program_def
    recover_mem_device_after_ck_dqs_violation_def rw_mgr_rdimm_initialize_def
  by (intro io_rules)+

lemma io_rw_mgr_ranks [io_rules]:
  "io rw_mgr_mem_initialize" "io rw_mgr_mem_handoff" "io mem_precharge_and_activate"
  unfolding rw_mgr_mem_initialize_def rw_mgr_mem_handoff_def mem_precharge_and_activate_def
    initialize_rank_def handoff_rank_def
  by (intro io_rules)+

lemmas io_at_rw_mgr [io_at_rules] =
  io_for_ranks [THEN io_at_cmd] io_load_delay [THEN io_at_cmd] io_delay [THEN io_at_cmd]
  io_rw_mgr [THEN io_at_cmd] io_rw_mgr_ranks [THEN io_at_cmd]

end
