(* ===== verification/SeqRom.thy ===== *)
theory SeqRom
  imports RwManager
begin

text \<open>
  The read/write manager's two memories: the program words (\<open>sequencer_auto_inst_init.c\<close>), the
  address and command words (\<open>sequencer_auto_ac_init.c\<close>), and \<open>hc_initialize_rom_data\<close>, which loads
  them.
\<close>

definition inst_rom_init :: "u32 list" where
  "inst_rom_init = [
    0x80000, 0x80680, 0x8180, 0x8200, 0x8280, 0x8300, 0x8380, 0x8100, 0x8480, 0x8500, 0x8580,
    0x8600, 0x8400, 0x800, 0x8680, 0x880, 0xa680, 0x80680, 0x900, 0x80680, 0x980, 0xa680, 0x8680,
    0x80680, 0xb68, 0xcce8, 0xae8, 0x8ce8, 0xb88, 0xec88, 0xa08, 0xac88, 0x80680, 0xce00, 0xcd80,
    0xe700, 0xc00, 0x20ce0, 0x20ce0, 0x20ce0, 0x20ce0, 0xd00, 0x680, 0x680, 0x680, 0x680, 0x60e80,
    0x61080, 0x61080, 0x61080, 0xa680, 0x8680, 0x80680, 0xce00, 0xcd80, 0xe700, 0xc00, 0x30ce0,
    0x30ce0, 0x30ce0, 0x30ce0, 0xd00, 0x680, 0x680, 0x680, 0x680, 0x70e80, 0x71080, 0x71080,
    0x71080, 0xa680, 0x8680, 0x80680, 0x1158, 0x6d8, 0x80680, 0x1168, 0x7e8, 0x7e8, 0x87e8,
    0x40fe8, 0x410e8, 0x410e8, 0x410e8, 0x1168, 0x7e8, 0x7e8, 0xa7e8, 0x80680, 0x40e88, 0x41088,
    0x41088, 0x41088, 0x40f68, 0x410e8, 0x410e8, 0x410e8, 0xa680, 0x40fe8, 0x410e8, 0x410e8,
    0x410e8, 0x41008, 0x41088, 0x41088, 0x41088, 0x1100, 0xc680, 0x8680, 0xe680, 0x80680, 0x0,
    0x8000, 0xa000, 0xc000, 0x80000, 0x80, 0x8080, 0xa080, 0xc080, 0x80080, 0x9180, 0x8680, 0xa680,
    0x80680, 0x40f08, 0x80680]"

definition ac_rom_init :: "u32 list" where
  "ac_rom_init = [
    0x20700000, 0x20780000, 0x10080471, 0x10080570, 0x10090006, 0x100a0218, 0x100b0000, 0x10380400,
    0x10080469, 0x100804e8, 0x100a0006, 0x10090218, 0x100b0000, 0x30780000, 0x38780000, 0x30780000,
    0x10680000, 0x106b0000, 0x10280400, 0x10480000, 0x1c980000, 0x1c9b0000, 0x1c980008, 0x1c9b0008,
    0x38f80000, 0x3cf80000, 0x38780000, 0x18180000, 0x18980000, 0x13580000, 0x135b0000, 0x13580008,
    0x135b0008, 0x33780000, 0x10580008, 0x10780000]"

definition inst_rom_init_size :: nat where "inst_rom_init_size = 127"

definition ac_rom_init_size :: nat where "ac_rom_init_size = 36"

definition hc_initialize_rom_data :: cmd where
  "hc_initialize_rom_data = seqs [
     for_each [0..<inst_rom_init_size] (\<lambda>i.
       IOWR_32DIRECT RW_MGR_INST_ROM_WRITE (push_bit 2 (of_nat i)) (inst_rom_init ! i)),
     for_each [0..<ac_rom_init_size] (\<lambda>i.
       IOWR_32DIRECT RW_MGR_AC_ROM_WRITE (push_bit 2 (of_nat i)) (ac_rom_init ! i))]"

end
