(* ===== verification/SeqSetup.thy ===== *)
theory SeqSetup
  imports SeqRom
begin

text \<open>
  The sequencer's own registers: the stage it works on, the first error, the register file, and the
  registers that the PHY and the tracking manager start with.
\<close>

section \<open>Stage and error\<close>

definition set_failing_group_stage :: "u32 \<Rightarrow> u32 \<Rightarrow> u32 \<Rightarrow> cmd" where
  "set_failing_group_stage grp stage substage s =
     (if error_stage (gbl s) = CAL_STAGE_NIL
      then upd_gbl (\<lambda>g. g\<lparr>error_substage := substage, error_stage := stage, error_group := grp\<rparr>) s
      else s)"

definition reg_file_set_group :: "u32 \<Rightarrow> cmd" where
  "reg_file_set_group set_group s =
     (let (cur_stage_group, s) = IORD_32DIRECT REG_FILE_CUR_STAGE 0 s;
          cur_stage_group = cur_stage_group AND 0x0000FFFF;
          cur_stage_group = cur_stage_group OR push_bit 16 set_group
      in IOWR_32DIRECT REG_FILE_CUR_STAGE 0 cur_stage_group s)"

definition reg_file_set_stage :: "u32 \<Rightarrow> cmd" where
  "reg_file_set_stage set_stage s =
     (let (cur_stage_group, s) = IORD_32DIRECT REG_FILE_CUR_STAGE 0 s;
          cur_stage_group = cur_stage_group AND 0xFFFF0000;
          cur_stage_group = cur_stage_group OR (set_stage AND 0x000000FF)
      in IOWR_32DIRECT REG_FILE_CUR_STAGE 0 cur_stage_group s)"

definition reg_file_set_sub_stage :: "u32 \<Rightarrow> cmd" where
  "reg_file_set_sub_stage set_sub_stage s =
     (let (cur_stage_group, s) = IORD_32DIRECT REG_FILE_CUR_STAGE 0 s;
          cur_stage_group = cur_stage_group AND 0xFFFF00FF;
          cur_stage_group = cur_stage_group OR (push_bit 8 set_sub_stage AND 0x0000FF00)
      in IOWR_32DIRECT REG_FILE_CUR_STAGE 0 cur_stage_group s)"

definition is_write_group_enabled_for_dm :: "u32 \<Rightarrow> bool" where
  "is_write_group_enabled_for_dm write_group = True"

section \<open>Start\<close>

definition initialize :: cmd where
  "initialize = seqs [
     IOWR_32DIRECT PHY_MGR_MUX_SEL 0 0x3,
     IOWR_32DIRECT PHY_MGR_RESET_MEM_STBL 0 0,
     IOWR_32DIRECT PHY_MGR_CAL_STATUS 0 0,
     IOWR_32DIRECT PHY_MGR_CAL_DEBUG_INFO 0 0,
     (\<lambda>s. if ucast (dyn_calib_steps s) AND CALIB_SKIP_ALL \<noteq> CALIB_SKIP_ALL
      then upd_param (\<lambda>p. p\<lparr>
        read_correct_mask_vg :=
          push_bit (RW_MGR_MEM_DQ_PER_READ_DQS div RW_MGR_MEM_VIRTUAL_GROUPS_PER_READ_DQS) 1 - 1,
        write_correct_mask_vg :=
          push_bit (RW_MGR_MEM_DQ_PER_READ_DQS div RW_MGR_MEM_VIRTUAL_GROUPS_PER_READ_DQS) 1 - 1,
        read_correct_mask := push_bit RW_MGR_MEM_DQ_PER_READ_DQS 1 - 1,
        write_correct_mask := push_bit RW_MGR_MEM_DQ_PER_WRITE_DQS 1 - 1,
        dm_correct_mask := push_bit (RW_MGR_MEM_DATA_WIDTH div RW_MGR_MEM_DATA_MASK_WIDTH) 1 - 1\<rparr>) s
      else s)]"

definition initialize_reg_file :: cmd where
  "initialize_reg_file = seqs [
     IOWR_32DIRECT REG_FILE_SIGNATURE 0 REG_FILE_INIT_SEQ_SIGNATURE,
     IOWR_32DIRECT REG_FILE_DEBUG_DATA_ADDR 0 0,
     IOWR_32DIRECT REG_FILE_CUR_STAGE 0 0,
     IOWR_32DIRECT REG_FILE_FOM 0 0,
     IOWR_32DIRECT REG_FILE_FAILING_STAGE 0 0,
     IOWR_32DIRECT REG_FILE_DEBUG1 0 0,
     IOWR_32DIRECT REG_FILE_DEBUG2 0 0]"

text \<open>
  The fields of the PHY control registers are set by macros of the handoff's \<open>sdram.h\<close>, which is not
  part of the repository: they are the fields of a parameter.
\<close>

record phyctrl =
  PHYCTRL_0_ACDELAYEN_SET :: "u32 \<Rightarrow> u32"
  PHYCTRL_0_DQDELAYEN_SET :: "u32 \<Rightarrow> u32"
  PHYCTRL_0_DQSDELAYEN_SET :: "u32 \<Rightarrow> u32"
  PHYCTRL_0_DQSLOGICDELAYEN_SET :: "u32 \<Rightarrow> u32"
  PHYCTRL_0_RESETDELAYEN_SET :: "u32 \<Rightarrow> u32"
  PHYCTRL_0_LPDDRDIS_SET :: "u32 \<Rightarrow> u32"
  PHYCTRL_0_ADDLATSEL_SET :: "u32 \<Rightarrow> u32"
  PHYCTRL_0_SAMPLECOUNT_19_0_SET :: "u32 \<Rightarrow> u32"
  PHYCTRL_1_SAMPLECOUNT_31_20_SET :: "u32 \<Rightarrow> u32"
  PHYCTRL_1_LONGIDLESAMPLECOUNT_19_0_SET :: "u32 \<Rightarrow> u32"
  PHYCTRL_2_LONGIDLESAMPLECOUNT_31_20_SET :: "u32 \<Rightarrow> u32"
  PHYCTRL_0_SAMPLECOUNT_19_0_WIDTH :: nat
  PHYCTRL_1_LONGIDLESAMPLECOUNT_19_0_WIDTH :: nat
  PHYCTRL_0_OFFSET :: u32
  PHYCTRL_1_OFFSET :: u32
  PHYCTRL_2_OFFSET :: u32

definition initialize_hps_phy :: "phyctrl \<Rightarrow> cmd" where
  "initialize_hps_phy m =
     (let trk_sample_count = 7500;
          trk_long_idle_sample_count = push_bit 16 10 OR 100 in seqs [
        IOWR_32DIRECT BASE_MMR (PHYCTRL_0_OFFSET m)
          (PHYCTRL_0_ACDELAYEN_SET m 2 OR PHYCTRL_0_DQDELAYEN_SET m 1 OR PHYCTRL_0_DQSDELAYEN_SET m 1 OR
           PHYCTRL_0_DQSLOGICDELAYEN_SET m 1 OR PHYCTRL_0_RESETDELAYEN_SET m 0 OR
           PHYCTRL_0_LPDDRDIS_SET m 1 OR PHYCTRL_0_ADDLATSEL_SET m 0 OR
           PHYCTRL_0_SAMPLECOUNT_19_0_SET m trk_sample_count),
        IOWR_32DIRECT BASE_MMR (PHYCTRL_1_OFFSET m)
          (PHYCTRL_1_SAMPLECOUNT_31_20_SET m
             (drop_bit (PHYCTRL_0_SAMPLECOUNT_19_0_WIDTH m) trk_sample_count) OR
           PHYCTRL_1_LONGIDLESAMPLECOUNT_19_0_SET m trk_long_idle_sample_count),
        IOWR_32DIRECT BASE_MMR (PHYCTRL_2_OFFSET m)
          (PHYCTRL_2_LONGIDLESAMPLECOUNT_31_20_SET m
             (drop_bit (PHYCTRL_1_LONGIDLESAMPLECOUNT_19_0_WIDTH m) trk_long_idle_sample_count))])"

text \<open>
  \<open>while (tmp_delay < IO_DELAY_PER_OPA_TAP)\<close>: how many delay taps cover a phase tap, for taps of
  \<open>step\<close> picoseconds. Both uses have \<open>step = 25\<close>; for 0 the C loop would not end.
\<close>

function count_dtaps :: "nat \<Rightarrow> nat \<Rightarrow> nat \<Rightarrow> nat" where
  "count_dtaps step tmp_delay dtaps_per_ptap =
     (if tmp_delay < IO_DELAY_PER_OPA_TAP \<and> 0 < step
      then count_dtaps step (tmp_delay + step) (dtaps_per_ptap + 1)
      else dtaps_per_ptap)"
  by pat_completeness auto
termination
  by (relation "measure (\<lambda>(step, tmp_delay, d). IO_DELAY_PER_OPA_TAP - tmp_delay)") auto

declare count_dtaps.simps [simp del]

definition dtaps_of_ptap :: "nat \<Rightarrow> u32" where
  "dtaps_of_ptap step = of_nat (count_dtaps step 0 0) - 1"

text \<open>Bytes and halves are put together by shifts and exclusive ors.\<close>

definition concatenated :: "(nat \<times> u32) list \<Rightarrow> u32" where
  "concatenated parts = fold (\<lambda>(w, v) acc. push_bit w acc XOR v) parts 0"

definition initialize_tracking :: cmd where
  "initialize_tracking =
     (let dtaps_per_ptap = dtaps_of_ptap IO_DELAY_PER_DCHAIN_TAP;
          concatenated_longidle = concatenated [(0, 10), (16, 100)];
          concatenated_delays = concatenated [(0, 243), (8, 14), (8, 10), (8, 4)];
          concatenated_rw_addr = concatenated
            [(0, RW_MGR_IDLE), (8, RW_MGR_ACTIVATE_1), (8, RW_MGR_SGLE_READ), (8, RW_MGR_PRECHARGE_ALL)];
          concatenated_refresh = concatenated [(0, RW_MGR_REFRESH_ALL), (24, 1000)]
      in seqs [
        IOWR_32DIRECT REG_FILE_DTAPS_PER_PTAP 0 dtaps_per_ptap,
        IOWR_32DIRECT REG_FILE_TRK_SAMPLE_COUNT 0 7500,
        IOWR_32DIRECT REG_FILE_TRK_LONGIDLE 0 concatenated_longidle,
        IOWR_32DIRECT REG_FILE_DELAYS 0 concatenated_delays,
        IOWR_32DIRECT REG_FILE_TRK_RW_MGR_ADDR 0 concatenated_rw_addr,
        IOWR_32DIRECT REG_FILE_TRK_READ_DQS_WIDTH 0 (of_nat RW_MGR_MEM_IF_READ_DQS_WIDTH),
        IOWR_32DIRECT REG_FILE_TRK_RFSH 0 concatenated_refresh])"

section \<open>What the commands leave alone\<close>

lemma io_reg_file [io_rules]:
  "io (reg_file_set_group g)" "io (reg_file_set_stage g)" "io (reg_file_set_sub_stage g)"
  unfolding reg_file_set_group_def reg_file_set_stage_def reg_file_set_sub_stage_def
  by (rule ioI, simp add: IORD_32DIRECT_def IOWR_32DIRECT_def Let_def)+

lemma io_setup [io_rules]:
  "io initialize_reg_file" "io (initialize_hps_phy m)" "io initialize_tracking"
  unfolding initialize_reg_file_def initialize_hps_phy_def initialize_tracking_def Let_def
  by (intro io_rules)+

lemmas io_at_setup [io_at_rules] = io_reg_file [THEN io_at_cmd] io_setup [THEN io_at_cmd]

end
