(* ===== verification/SeqTests.thy ===== *)
theory SeqTests
  imports SeqSetup
begin

text \<open>
  The tests that calibration is made of: read and write bursts whose comparison the read/write
  manager leaves in a register, one bit per pin, 0 for a match. A test gives its verdict, the pins
  that passed (\<open>bit_chk\<close>), and the state after it.
\<close>

type_synonym test_result = "(bool \<times> u32) \<times> seq"

definition rank_range :: "nat \<Rightarrow> bool \<Rightarrow> nat list" where
  "rank_range rank_bgn all_ranks =
     [rank_bgn..<(if all_ranks then RW_MGR_MEM_NUMBER_OF_RANKS else rank_bgn + NUM_RANKS_PER_SHADOW_REG)]"

text \<open>
  \<open>for (vg = n - 1; ; vg--)\<close>: each virtual group's pins are shifted in below those of the groups
  above it.
\<close>

definition collect_vgs :: "nat \<Rightarrow> nat \<Rightarrow> u32 \<Rightarrow> (nat \<Rightarrow> cmd) \<Rightarrow> seq \<Rightarrow> u32 \<times> seq" where
  "collect_vgs n width correct_mask_vg issue s =
     fold (\<lambda>vg (tmp_bit_chk, s).
         let s = issue vg s;
             tmp_bit_chk = push_bit width tmp_bit_chk;
             (v, s) = IORD_32DIRECT BASE_RW_MGR 0 s
         in (tmp_bit_chk OR (correct_mask_vg AND NOT v), s))
       (rev [0..<n]) (0, s)"

text \<open>The loop over the ranks: \<open>*bit_chk &= tmp_bit_chk\<close> for the ranks that are not skipped.\<close>

definition collect_ranks :: "nat list \<Rightarrow> (nat \<Rightarrow> seq \<Rightarrow> u32 \<times> seq) \<Rightarrow> u32 \<Rightarrow> seq \<Rightarrow> u32 \<times> seq" where
  "collect_ranks rs body bit_chk s =
     fold (\<lambda>r (bit_chk, s).
         if skip_rank r s then (bit_chk, s)
         else let (tmp_bit_chk, s) = body r s in (bit_chk AND tmp_bit_chk, s))
       rs (bit_chk, s)"

section \<open>Guaranteed reads\<close>

definition rw_mgr_mem_calibrate_read_test_patterns :: "nat \<Rightarrow> u32 \<Rightarrow> u32 \<Rightarrow> bool \<Rightarrow> seq \<Rightarrow> test_result" where
  "rw_mgr_mem_calibrate_read_test_patterns rank_bgn grp num_tries all_ranks s =
     (let correct_mask_vg = read_correct_mask_vg (param s);
          (bit_chk, s) = collect_ranks (rank_range rank_bgn all_ranks) (\<lambda>r s.
            let s = seqs [
                  set_rank_and_odt_mask (of_nat r) RW_MGR_ODT_MODE_READ_WRITE,
                  IOWR_32DIRECT RW_MGR_LOAD_CNTR_0 0 0x20,
                  IOWR_32DIRECT RW_MGR_LOAD_JUMP_ADD_0 0 RW_MGR_GUARANTEED_READ,
                  IOWR_32DIRECT RW_MGR_LOAD_CNTR_1 0 0x20,
                  IOWR_32DIRECT RW_MGR_LOAD_JUMP_ADD_1 0 RW_MGR_GUARANTEED_READ_CONT] s
            in collect_vgs RW_MGR_MEM_VIRTUAL_GROUPS_PER_READ_DQS
                 (RW_MGR_MEM_DQ_PER_READ_DQS div RW_MGR_MEM_VIRTUAL_GROUPS_PER_READ_DQS) correct_mask_vg
                 (\<lambda>vg. seqs [
                    IOWR_32DIRECT PHY_MGR_CMD_FIFO_RESET 0 0,
                    IOWR_32DIRECT RW_MGR_RESET_READ_DATAPATH 0 0,
                    IOWR_32DIRECT RW_MGR_RUN_SINGLE_GROUP
                      (push_bit 2 (grp * of_nat RW_MGR_MEM_VIRTUAL_GROUPS_PER_READ_DQS + of_nat vg))
                      RW_MGR_GUARANTEED_READ]) s)
            (read_correct_mask (param s)) s;
          s = IOWR_32DIRECT RW_MGR_RUN_SINGLE_GROUP (push_bit 2 grp) RW_MGR_CLEAR_DQS_ENABLE s;
          s = set_rank_and_odt_mask 0 RW_MGR_ODT_MODE_OFF s
      in ((bit_chk = read_correct_mask (param s), bit_chk), s))"

text \<open>When the first attempt fails, every phase of the DQS enable is tried.\<close>

fun try_phases :: "u32 \<Rightarrow> u32 \<Rightarrow> nat list \<Rightarrow> u32 \<Rightarrow> seq \<Rightarrow> test_result" where
  "try_phases grp num_tries [] bit_chk s = ((False, bit_chk), s)"
| "try_phases grp num_tries (p # ps) bit_chk s =
     (let s = scc_mgr_set_dqs_en_phase_all_ranks grp (of_nat p) s;
          ((ok, bit_chk), s) = rw_mgr_mem_calibrate_read_test_patterns 0 grp num_tries True s
      in if ok then ((True, bit_chk), s) else try_phases grp num_tries ps bit_chk s)"

definition rw_mgr_mem_calibrate_read_test_patterns_all_ranks :: "u32 \<Rightarrow> u32 \<Rightarrow> seq \<Rightarrow> test_result" where
  "rw_mgr_mem_calibrate_read_test_patterns_all_ranks grp num_tries s =
     (let ((ok, bit_chk), s) = rw_mgr_mem_calibrate_read_test_patterns 0 grp num_tries True s
      in if ok then ((True, bit_chk), s)
         else try_phases grp num_tries [0..<IO_DQS_EN_PHASE_MAX + 1] bit_chk s)"

definition rw_mgr_mem_calibrate_read_load_patterns :: "nat \<Rightarrow> bool \<Rightarrow> cmd" where
  "rw_mgr_mem_calibrate_read_load_patterns rank_bgn all_ranks = seqs [
     for_ranks (rank_range rank_bgn all_ranks) (\<lambda>r. seqs [
       set_rank_and_odt_mask (of_nat r) RW_MGR_ODT_MODE_READ_WRITE,
       IOWR_32DIRECT RW_MGR_LOAD_CNTR_0 0 0x20,
       IOWR_32DIRECT RW_MGR_LOAD_JUMP_ADD_0 0 RW_MGR_GUARANTEED_WRITE_WAIT0,
       IOWR_32DIRECT RW_MGR_LOAD_CNTR_1 0 0x20,
       IOWR_32DIRECT RW_MGR_LOAD_JUMP_ADD_1 0 RW_MGR_GUARANTEED_WRITE_WAIT1,
       IOWR_32DIRECT RW_MGR_LOAD_CNTR_2 0 0x04,
       IOWR_32DIRECT RW_MGR_LOAD_JUMP_ADD_2 0 RW_MGR_GUARANTEED_WRITE_WAIT2,
       IOWR_32DIRECT RW_MGR_LOAD_CNTR_3 0 0x04,
       IOWR_32DIRECT RW_MGR_LOAD_JUMP_ADD_3 0 RW_MGR_GUARANTEED_WRITE_WAIT3,
       IOWR_32DIRECT RW_MGR_RUN_SINGLE_GROUP 0 RW_MGR_GUARANTEED_WRITE]),
     set_rank_and_odt_mask 0 RW_MGR_ODT_MODE_OFF]"

definition rw_mgr_mem_calibrate_read_load_patterns_all_ranks :: cmd where
  "rw_mgr_mem_calibrate_read_load_patterns_all_ranks = rw_mgr_mem_calibrate_read_load_patterns 0 True"

section \<open>Read tests\<close>

definition quick_read_mode :: bool where
  "quick_read_mode \<longleftrightarrow>
     STATIC_CALIB_STEPS AND CALIB_SKIP_DELAY_SWEEPS \<noteq> 0 \<and> ENABLE_SUPER_QUICK_CALIBRATION \<noteq> 0 \<or> BFM_MODE \<noteq> 0"

text \<open>\<open>all_correct\<close> (\<open>PASS_ALL_BITS\<close>) asks for all pins, its absence (\<open>PASS_ONE_BIT\<close>) for one.\<close>

definition verdict :: "bool \<Rightarrow> u32 \<Rightarrow> u32 \<Rightarrow> bool" where
  "verdict all_correct correct_mask bit_chk =
     (if all_correct then bit_chk = correct_mask else bit_chk \<noteq> 0x00)"

definition rw_mgr_mem_calibrate_read_test :: "nat \<Rightarrow> u32 \<Rightarrow> u32 \<Rightarrow> bool \<Rightarrow> bool \<Rightarrow> bool \<Rightarrow> seq \<Rightarrow> test_result" where
  "rw_mgr_mem_calibrate_read_test rank_bgn grp num_tries all_correct all_groups all_ranks s =
     (let correct_mask_vg = read_correct_mask_vg (param s);
          (bit_chk, s) = collect_ranks (rank_range rank_bgn all_ranks) (\<lambda>r s.
            let s = seqs [
                  set_rank_and_odt_mask (of_nat r) RW_MGR_ODT_MODE_READ_WRITE,
                  IOWR_32DIRECT RW_MGR_LOAD_CNTR_1 0 0x10,
                  IOWR_32DIRECT RW_MGR_LOAD_JUMP_ADD_1 0 RW_MGR_READ_B2B_WAIT1,
                  IOWR_32DIRECT RW_MGR_LOAD_CNTR_2 0 0x10,
                  IOWR_32DIRECT RW_MGR_LOAD_JUMP_ADD_2 0 RW_MGR_READ_B2B_WAIT2,
                  IOWR_32DIRECT RW_MGR_LOAD_CNTR_0 0
                    (if quick_read_mode then 0x1 else if all_groups then 0x06 else 0x32),
                  IOWR_32DIRECT RW_MGR_LOAD_JUMP_ADD_0 0 RW_MGR_READ_B2B,
                  IOWR_32DIRECT RW_MGR_LOAD_CNTR_3 0
                    (if all_groups
                     then of_nat (RW_MGR_MEM_IF_READ_DQS_WIDTH * RW_MGR_MEM_VIRTUAL_GROUPS_PER_READ_DQS) - 1
                     else 0x0),
                  IOWR_32DIRECT RW_MGR_LOAD_JUMP_ADD_3 0 RW_MGR_READ_B2B] s
            in collect_vgs RW_MGR_MEM_VIRTUAL_GROUPS_PER_READ_DQS
                 (RW_MGR_MEM_DQ_PER_READ_DQS div RW_MGR_MEM_VIRTUAL_GROUPS_PER_READ_DQS) correct_mask_vg
                 (\<lambda>vg. seqs [
                    IOWR_32DIRECT PHY_MGR_CMD_FIFO_RESET 0 0,
                    IOWR_32DIRECT RW_MGR_RESET_READ_DATAPATH 0 0,
                    IOWR_32DIRECT (if all_groups then RW_MGR_RUN_ALL_GROUPS else RW_MGR_RUN_SINGLE_GROUP)
                      (push_bit 2 (grp * of_nat RW_MGR_MEM_VIRTUAL_GROUPS_PER_READ_DQS + of_nat vg))
                      RW_MGR_READ_B2B]) s)
            (read_correct_mask (param s)) s;
          s = IOWR_32DIRECT RW_MGR_RUN_SINGLE_GROUP (push_bit 2 grp) RW_MGR_CLEAR_DQS_ENABLE s;
          s = set_rank_and_odt_mask 0 RW_MGR_ODT_MODE_OFF s
      in ((verdict all_correct (read_correct_mask (param s)) bit_chk, bit_chk), s))"

text \<open>The test is repeated until it has failed once or passed \<open>num_tries\<close> times (at least once).\<close>

fun repeat_read_test :: "nat \<Rightarrow> u32 \<Rightarrow> bool \<Rightarrow> bool \<Rightarrow> u32 \<Rightarrow> seq \<Rightarrow> test_result" where
  "repeat_read_test 0 grp all_correct all_groups bit_chk s = ((True, bit_chk), s)"
| "repeat_read_test (Suc n) grp all_correct all_groups bit_chk s =
     (let ((one_test_success, bit_chk), s) =
            rw_mgr_mem_calibrate_read_test 0 grp 1 all_correct all_groups True s
      in if one_test_success then repeat_read_test n grp all_correct all_groups bit_chk s
         else ((False, bit_chk), s))"

definition rw_mgr_mem_calibrate_read_test_all_ranks :: "u32 \<Rightarrow> nat \<Rightarrow> bool \<Rightarrow> bool \<Rightarrow> seq \<Rightarrow> test_result" where
  "rw_mgr_mem_calibrate_read_test_all_ranks grp num_tries all_correct all_groups s =
     (let num_tries = (if num_tries \<le> 0 then 1 else num_tries)
      in repeat_read_test num_tries grp all_correct all_groups 0 s)"

section \<open>Write tests\<close>

definition quick_write_mode :: bool where
  "quick_write_mode \<longleftrightarrow>
     STATIC_CALIB_STEPS AND CALIB_SKIP_WRITES \<noteq> 0 \<and> ENABLE_SUPER_QUICK_CALIBRATION \<noteq> 0 \<or> BFM_MODE \<noteq> 0"

definition write_instruction :: "u32 \<Rightarrow> bool \<Rightarrow> u32" where
  "write_instruction nop_cycles test_dm =
     (if nop_cycles = -1
      then if test_dm then RW_MGR_LFSR_WR_RD_DM_BANK_0_WL_1 else RW_MGR_LFSR_WR_RD_BANK_0_WL_1
      else if test_dm then RW_MGR_LFSR_WR_RD_DM_BANK_0 else RW_MGR_LFSR_WR_RD_BANK_0)"

definition write_nops :: "u32 \<Rightarrow> bool \<Rightarrow> cmd" where
  "write_nops nop_cycles test_dm =
     (if nop_cycles = -1 then seqs [
        IOWR_32DIRECT RW_MGR_LOAD_CNTR_2 0 0xFF,
        IOWR_32DIRECT RW_MGR_LOAD_JUMP_ADD_2 0
          (if test_dm then RW_MGR_LFSR_WR_RD_DM_BANK_0_DATA else RW_MGR_LFSR_WR_RD_BANK_0_DATA),
        IOWR_32DIRECT RW_MGR_LOAD_JUMP_ADD_3 0
          (if test_dm then RW_MGR_LFSR_WR_RD_DM_BANK_0_NOP else RW_MGR_LFSR_WR_RD_BANK_0_NOP)]
      else if nop_cycles = 0 then seqs [
        IOWR_32DIRECT RW_MGR_LOAD_CNTR_2 0 0xFF,
        IOWR_32DIRECT RW_MGR_LOAD_JUMP_ADD_2 0
          (if test_dm then RW_MGR_LFSR_WR_RD_DM_BANK_0_DQS else RW_MGR_LFSR_WR_RD_BANK_0_DQS)]
      else seqs [
        IOWR_32DIRECT RW_MGR_LOAD_CNTR_2 0 0x0,
        IOWR_32DIRECT RW_MGR_LOAD_JUMP_ADD_2 0 0x0,
        IOWR_32DIRECT RW_MGR_LOAD_CNTR_3 0 (nop_cycles - 1),
        IOWR_32DIRECT RW_MGR_LOAD_JUMP_ADD_3 0
          (if test_dm then RW_MGR_LFSR_WR_RD_DM_BANK_0_NOP else RW_MGR_LFSR_WR_RD_BANK_0_NOP)])"

definition rw_mgr_mem_calibrate_write_test_issue :: "u32 \<Rightarrow> bool \<Rightarrow> cmd" where
  "rw_mgr_mem_calibrate_write_test_issue grp test_dm s =
     (let nops = rw_wl_nop_cycles (gbl s); mcc_instruction = write_instruction nops test_dm
      in seqs [
        write_nops nops test_dm,
        IOWR_32DIRECT RW_MGR_RESET_READ_DATAPATH 0 0,
        IOWR_32DIRECT RW_MGR_LOAD_CNTR_0 0 (if quick_write_mode then 0x08 else 0x40),
        IOWR_32DIRECT RW_MGR_LOAD_JUMP_ADD_0 0 mcc_instruction,
        IOWR_32DIRECT RW_MGR_LOAD_CNTR_1 0 0x30,
        IOWR_32DIRECT RW_MGR_LOAD_JUMP_ADD_1 0
          (if test_dm then RW_MGR_LFSR_WR_RD_DM_BANK_0_WAIT else RW_MGR_LFSR_WR_RD_BANK_0_WAIT),
        IOWR_32DIRECT RW_MGR_RUN_SINGLE_GROUP (push_bit 2 grp) mcc_instruction] s)"

definition rw_mgr_mem_calibrate_write_test :: "nat \<Rightarrow> u32 \<Rightarrow> bool \<Rightarrow> bool \<Rightarrow> bool \<Rightarrow> seq \<Rightarrow> test_result" where
  "rw_mgr_mem_calibrate_write_test rank_bgn write_group use_dm all_correct all_ranks s =
     (let correct_mask_vg = write_correct_mask_vg (param s);
          (bit_chk, s) = collect_ranks (rank_range rank_bgn all_ranks) (\<lambda>r s.
            let s = set_rank_and_odt_mask (of_nat r) RW_MGR_ODT_MODE_READ_WRITE s
            in collect_vgs RW_MGR_MEM_VIRTUAL_GROUPS_PER_WRITE_DQS
                 (RW_MGR_MEM_DQ_PER_WRITE_DQS div RW_MGR_MEM_VIRTUAL_GROUPS_PER_WRITE_DQS) correct_mask_vg
                 (\<lambda>vg. seqs [
                    IOWR_32DIRECT PHY_MGR_CMD_FIFO_RESET 0 0,
                    rw_mgr_mem_calibrate_write_test_issue
                      (write_group * of_nat RW_MGR_MEM_VIRTUAL_GROUPS_PER_WRITE_DQS + of_nat vg) use_dm]) s)
            (write_correct_mask (param s)) s;
          s = set_rank_and_odt_mask 0 RW_MGR_ODT_MODE_OFF s
      in ((verdict all_correct (write_correct_mask (param s)) bit_chk, bit_chk), s))"

definition rw_mgr_mem_calibrate_write_test_all_ranks :: "u32 \<Rightarrow> bool \<Rightarrow> bool \<Rightarrow> seq \<Rightarrow> test_result" where
  "rw_mgr_mem_calibrate_write_test_all_ranks write_group use_dm all_correct =
     rw_mgr_mem_calibrate_write_test 0 write_group use_dm all_correct True"

definition rw_mgr_mem_calibrate_eye_diag_aid :: cmd where
  "rw_mgr_mem_calibrate_eye_diag_aid = (\<lambda>s. s)"

text \<open>The last group's verdict is the verdict of the full test.\<close>

fun full_test_groups :: "nat list \<Rightarrow> u32 \<Rightarrow> bool \<Rightarrow> bool \<times> u32 \<Rightarrow> seq \<Rightarrow> test_result" where
  "full_test_groups [] run_groups test_dm res s = (res, s)"
| "full_test_groups (g # gs) run_groups test_dm res s =
     (let (res, s) =
        (if run_groups AND (push_bit RW_MGR_NUM_DQS_PER_WRITE_GROUP 1 - 1) \<noteq> 0
         then rw_mgr_mem_calibrate_write_test_all_ranks (of_nat g) test_dm True s
         else (res, s))
      in full_test_groups gs (drop_bit RW_MGR_NUM_DQS_PER_WRITE_GROUP run_groups) test_dm res s)"

definition rw_mgr_mem_calibrate_full_test :: "bool \<Rightarrow> u32 \<Rightarrow> seq \<Rightarrow> test_result" where
  "rw_mgr_mem_calibrate_full_test test_dm bit_chk s =
     full_test_groups [0..<RW_MGR_MEM_IF_READ_DQS_WIDTH] (NOT (skip_groups (param s))) test_dm
       (False, bit_chk) s"

section \<open>The valid FIFO\<close>

definition rw_mgr_incr_vfifo :: "u32 \<Rightarrow> u32 \<Rightarrow> seq \<Rightarrow> u32 \<times> seq" where
  "rw_mgr_incr_vfifo grp v s =
     (v + 1,
      if HARD_PHY \<noteq> 0 then IOWR_32DIRECT PHY_MGR_CMD_INC_VFIFO_HARD_PHY 0 grp s
      else if QUARTER_RATE_MODE \<noteq> 0 \<and> HARD_VFIFO = 0 then
        if v AND 3 = 3 then IOWR_32DIRECT PHY_MGR_CMD_INC_VFIFO_QR 0 grp s
        else if v AND 2 = 2 then IOWR_32DIRECT PHY_MGR_CMD_INC_VFIFO_FR_HR 0 grp s
        else if v AND 1 = 1 then IOWR_32DIRECT PHY_MGR_CMD_INC_VFIFO_HR 0 grp s
        else IOWR_32DIRECT PHY_MGR_CMD_INC_VFIFO_FR 0 grp s
      else if HARD_VFIFO \<noteq> 0 then IOWR_32DIRECT PHY_MGR_CMD_INC_VFIFO_FR 0 grp s
      else if HALF_RATE_MODE = 0 \<or> v AND 1 = 1 then IOWR_32DIRECT PHY_MGR_CMD_INC_VFIFO_HR 0 grp s
      else IOWR_32DIRECT PHY_MGR_CMD_INC_VFIFO_FR 0 grp s)"

definition rw_mgr_incr_vfifo_all :: "u32 \<Rightarrow> u32 \<Rightarrow> seq \<Rightarrow> u32 \<times> seq" where
  "rw_mgr_incr_vfifo_all = rw_mgr_incr_vfifo"

definition rw_mgr_decr_vfifo :: "u32 \<Rightarrow> u32 \<Rightarrow> seq \<Rightarrow> u32 \<times> seq" where
  "rw_mgr_decr_vfifo grp v s =
     fold (\<lambda>i (v, s). rw_mgr_incr_vfifo grp v s) [0..<VFIFO_SIZE - 1] (v, s)"

section \<open>What the tests leave alone\<close>

lemma io_val_collect_vgs:
  assumes "\<And>vg. io (issue vg)"
  shows "io_val (collect_vgs n width m issue)"
  unfolding collect_vgs_def
  by (rule io_val_atI, rule io_at_snd_fold, unfold prod.case;
      (intro io_at_rules assms [THEN io_at_cmd])?; (assumption | simp))

lemma io_val_collect_ranks:
  assumes "\<And>r. io_val (body r)"
  shows "io_val (collect_ranks rs body b)"
  unfolding collect_ranks_def
  by (rule io_val_atI, rule io_at_snd_fold, unfold prod.case;
      (intro io_at_rules assms [THEN io_at_snd])?; (assumption | simp))

lemmas io_at_collect [io_at_rules] =
  io_val_collect_vgs [THEN io_at_snd] io_val_collect_ranks [THEN io_at_snd]

lemma io_write_test_issue [io_rules]: "io (rw_mgr_mem_calibrate_write_test_issue g dm)"
  unfolding rw_mgr_mem_calibrate_write_test_issue_def write_nops_def Let_def
  by (rule ioI) (intro io_at_rules io_rules; assumption?)

lemma io_load_patterns [io_rules]:
  "io (rw_mgr_mem_calibrate_read_load_patterns b a)" "io rw_mgr_mem_calibrate_read_load_patterns_all_ranks"
  unfolding rw_mgr_mem_calibrate_read_load_patterns_all_ranks_def
    rw_mgr_mem_calibrate_read_load_patterns_def
  by (intro io_rules)+

lemma io_val_tests [io_val_rules]:
  "io_val (rw_mgr_mem_calibrate_read_test_patterns b g n a)"
  "io_val (rw_mgr_mem_calibrate_read_test b g n c ag a)"
  "io_val (rw_mgr_mem_calibrate_write_test b g dm c a)"
  "io_val (rw_mgr_mem_calibrate_write_test_all_ranks g dm c)"
  unfolding rw_mgr_mem_calibrate_read_test_patterns_def rw_mgr_mem_calibrate_read_test_def
    rw_mgr_mem_calibrate_write_test_def rw_mgr_mem_calibrate_write_test_all_ranks_def
  by (rule io_val_atI; (intro io_at_rules io_rules io_val_atI; assumption))+

lemmas io_at_tests [io_at_rules] =
  io_val_tests [THEN io_at_snd] io_load_patterns [THEN io_at_cmd] io_write_test_issue [THEN io_at_cmd]

lemma io_val_try_phases: "io_at s t \<Longrightarrow> io_at s (snd (try_phases g n ps b t))"
proof (induction ps arbitrary: b t)
  case (Cons p ps)
  show ?case unfolding try_phases.simps
    by (intro io_at_rules Cons.IH; (rule Cons.prems | assumption))
qed simp

lemma io_val_repeat: "io_at s t \<Longrightarrow> io_at s (snd (repeat_read_test n g c ag b t))"
proof (induction n arbitrary: b t)
  case (Suc n)
  show ?case unfolding repeat_read_test.simps
    by (intro io_at_rules Suc.IH; (rule Suc.prems | assumption))
qed simp

lemma io_val_full_test_groups: "io_at s t \<Longrightarrow> io_at s (snd (full_test_groups gs r dm b t))"
proof (induction gs arbitrary: r b t)
  case (Cons g gs)
  show ?case unfolding full_test_groups.simps
    by (intro io_at_rules Cons.IH; (rule Cons.prems | assumption))
qed simp

lemma io_val_all_ranks [io_val_rules]:
  "io_val (rw_mgr_mem_calibrate_read_test_patterns_all_ranks g n)"
  "io_val (rw_mgr_mem_calibrate_read_test_all_ranks g m c ag)"
  "io_val (rw_mgr_mem_calibrate_full_test dm b)"
  unfolding rw_mgr_mem_calibrate_read_test_patterns_all_ranks_def
    rw_mgr_mem_calibrate_read_test_all_ranks_def rw_mgr_mem_calibrate_full_test_def
  by (rule io_val_atI;
      (intro io_at_rules io_val_try_phases io_val_repeat io_val_full_test_groups; assumption?))+

lemma io_val_vfifo [io_val_rules]:
  "io_val (rw_mgr_incr_vfifo g v)" "io_val (rw_mgr_incr_vfifo_all g v)" "io_val (rw_mgr_decr_vfifo g v)"
proof -
  show incr: "io_val (rw_mgr_incr_vfifo g v)" for v
    unfolding rw_mgr_incr_vfifo_def by (rule io_val_atI) (intro io_at_rules)
  then show "io_val (rw_mgr_incr_vfifo_all g v)" by (simp add: rw_mgr_incr_vfifo_all_def)
  show "io_val (rw_mgr_decr_vfifo g v)"
    unfolding rw_mgr_decr_vfifo_def
    by (rule io_val_atI, rule io_at_snd_fold) (auto intro: io_at_snd [OF incr])
qed

lemmas io_at_vfifo [io_at_rules] = io_val_all_ranks [THEN io_at_snd] io_val_vfifo [THEN io_at_snd]

end
