(* ===== verification/SeqLatency.thy ===== *)
theory SeqLatency
  imports SeqTests
begin

section \<open>Read latency\<close>

text \<open>
  The loop lowers the latency while the test passes; \<open>curr_read_lat\<close> is an unsigned word, so a loop
  that is entered with latency 0 goes on at its largest value.
\<close>

function lfifo_loop :: "bool \<Rightarrow> seq \<Rightarrow> bool \<times> seq" where
  "lfifo_loop found_one s =
     (let s = IOWR_32DIRECT PHY_MGR_PHY_RLAT 0 (curr_read_lat (gbl s)) s;
          (res, s) = rw_mgr_mem_calibrate_read_test_all_ranks 0 NUM_READ_TESTS True True s
      in if \<not> fst res then (found_one, s)
         else let s = upd_gbl (\<lambda>g. g\<lparr>curr_read_lat := curr_read_lat g - 1\<rparr>) s
              in if curr_read_lat (gbl s) > 0 then lfifo_loop True s else (True, s))"
  by pat_completeness auto
termination
proof (relation "measure (\<lambda>(f, s). unat (curr_read_lat (gbl s) - 1))", goal_cases)
  case 1
  show ?case by simp
next
  case (2 found_one s s1 x res s2 s3)
  then have t: "rw_mgr_mem_calibrate_read_test_all_ranks 0 NUM_READ_TESTS True True s1 = (res, s2)"
    by simp
  have "gbl s2 = gbl s1"
    using io_val_all_ranks(2) t by (rule io_val_frame)
  with 2 have "gbl s3 = gbl s\<lparr>curr_read_lat := curr_read_lat (gbl s) - 1\<rparr>"
    by (simp add: upd_gbl_def IOWR_emits)
  then show ?case using 2(6) measure_unat [of "curr_read_lat (gbl s) - 1"] by (simp add: word_gt_0)
qed

declare lfifo_loop.simps [simp del]

definition rw_mgr_mem_calibrate_lfifo :: "seq \<Rightarrow> bool \<times> seq" where
  "rw_mgr_mem_calibrate_lfifo s =
     (let s = reg_file_set_stage CAL_STAGE_LFIFO s;
          s = reg_file_set_sub_stage CAL_SUBSTAGE_READ_LATENCY s;
          s = rw_mgr_mem_calibrate_read_load_patterns_all_ranks s;
          (found_one, s) = lfifo_loop False s;
          s = IOWR_32DIRECT PHY_MGR_CMD_FIFO_RESET 0 0 s
      in if found_one
         then let s = upd_gbl (\<lambda>g. g\<lparr>curr_read_lat := curr_read_lat g + 2\<rparr>) s
              in (True, IOWR_32DIRECT PHY_MGR_PHY_RLAT 0 (curr_read_lat (gbl s)) s)
         else (False, set_failing_group_stage 0xff CAL_STAGE_LFIFO CAL_SUBSTAGE_READ_LATENCY s))"

end
