(* ===== verification/VfifoPhase.thy ===== *)
theory VfifoPhase
  imports SeqLatency
begin

text \<open>
  The DQS enable window of a read group (\<open>rw_mgr_mem_calibrate_vfifo_find_dqs_en_phase\<close>): its left
  edge, its right edge, the delay taps of a phase tap, and its middle. The position of the DQS enable
  is a cycle \<open>v\<close> of the valid FIFO, a phase tap \<open>p\<close> and a delay tap \<open>d\<close>; \<open>work_bgn\<close>, \<open>work_end\<close> and
  \<open>work_mid\<close> are positions in picoseconds. The count \<open>max_working_cnt\<close> only feeds a report that this
  configuration leaves out.
\<close>

text \<open>A test of one pin or more, as every step of the search does.\<close>

definition reads_ok :: "u32 \<Rightarrow> nat \<Rightarrow> seq \<Rightarrow> bool \<times> seq" where
  "reads_ok grp num_tries s =
     (let (res, s) = rw_mgr_mem_calibrate_read_test_all_ranks grp num_tries False False s in (fst res, s))"

lemma rw_mgr_incr_vfifo_fst [simp]: "fst (rw_mgr_incr_vfifo grp v s) = v + 1"
  by (simp add: rw_mgr_incr_vfifo_def)

section \<open>The left edge\<close>

text \<open>The cycle of the second failing read.\<close>

function find_failing_vfifo :: "u32 \<Rightarrow> u32 \<Rightarrow> u32 \<Rightarrow> seq \<Rightarrow> u32 \<times> seq" where
  "find_failing_vfifo grp fail_cnt v s =
     (if v < of_nat VFIFO_SIZE then
        let (test_status, s) = reads_ok grp 5 s;
            fail_cnt = (if test_status then fail_cnt else fail_cnt + 1)
        in if \<not> test_status \<and> fail_cnt = 2 then (v, s)
           else let r = rw_mgr_incr_vfifo grp v s in find_failing_vfifo grp fail_cnt (fst r) (snd r)
      else (v, s))"
  by pat_completeness auto
termination
  by (relation "measure (\<lambda>(grp, fail_cnt, v, s). VFIFO_SIZE - unat v)")
    (auto simp: word_less_nat_alt VFIFO_SIZE_def READ_VALID_FIFO_SIZE_def unat_inc_nat [where n = 16])

declare find_failing_vfifo.simps [simp del]

fun begin_ptaps :: "u32 \<Rightarrow> nat list \<Rightarrow> u32 \<Rightarrow> seq \<Rightarrow> (nat option \<times> u32) \<times> seq" where
  "begin_ptaps grp [] work_bgn s = ((None, work_bgn), s)"
| "begin_ptaps grp (p # ps) work_bgn s =
     (if p = 0 then begin_ptaps grp ps (work_bgn + of_nat IO_DELAY_PER_OPA_TAP) s
      else let s = scc_mgr_set_dqs_en_phase_all_ranks grp (of_nat p) s;
               (test_status, s) = reads_ok grp 5 s
           in if test_status then ((Some p, work_bgn), s)
              else begin_ptaps grp ps (work_bgn + of_nat IO_DELAY_PER_OPA_TAP) s)"

fun begin_vfifos :: "u32 \<Rightarrow> nat list \<Rightarrow> u32 \<Rightarrow> u32 \<Rightarrow> seq \<Rightarrow> ((nat \<times> nat) option \<times> u32 \<times> u32) \<times> seq" where
  "begin_vfifos grp [] v work_bgn s = ((None, v, work_bgn), s)"
| "begin_vfifos grp (i # is) v work_bgn s =
     (let (r, s) = begin_ptaps grp [0..<IO_DQS_EN_PHASE_MAX + 1] work_bgn s
      in case fst r of
           Some p \<Rightarrow> ((Some (i, p), v, snd r), s)
         | None \<Rightarrow> let (v, s) = rw_mgr_incr_vfifo grp v s in begin_vfifos grp is v (snd r) s)"

text \<open>The first position that reads: the delay tap, the loop's count of cycles, and the phase tap.\<close>

fun begin_dtaps :: "u32 \<Rightarrow> nat list \<Rightarrow> u32 \<Rightarrow> u32 \<Rightarrow> seq \<Rightarrow> ((nat \<times> nat \<times> nat) option \<times> u32 \<times> u32) \<times> seq" where
  "begin_dtaps grp [] tmp_delay v s = ((None, v, tmp_delay), s)"
| "begin_dtaps grp (d # ds) tmp_delay v s =
     (let s = scc_mgr_set_dqs_en_delay_all_ranks grp (of_nat d) s;
          (r, s) = begin_vfifos grp [0..<VFIFO_SIZE] v tmp_delay s
      in case r of
           (Some (i, p), v, work_bgn) \<Rightarrow> ((Some (d, i, p), v, work_bgn), s)
         | (None, v, work_bgn) \<Rightarrow>
             begin_dtaps grp ds (tmp_delay + of_nat IO_DELAY_PER_DQS_EN_DCHAIN_TAP) v s)"

text \<open>One phase tap back, the edge is looked for in steps of a delay tap.\<close>

definition prev_ptap :: "u32 \<Rightarrow> nat \<Rightarrow> u32 \<Rightarrow> seq \<Rightarrow> (nat \<times> u32) \<times> seq" where
  "prev_ptap grp p v s =
     (if p = 0 then let (v, s) = rw_mgr_decr_vfifo grp v s in ((IO_DQS_EN_PHASE_MAX, v), s)
      else ((p - 1, v), s))"

fun narrow_dtaps :: "u32 \<Rightarrow> nat list \<Rightarrow> u32 \<Rightarrow> u32 \<Rightarrow> seq \<Rightarrow> u32 \<times> seq" where
  "narrow_dtaps grp [] tmp_delay work_bgn s = (work_bgn, s)"
| "narrow_dtaps grp (d # ds) tmp_delay work_bgn s =
     (if tmp_delay < work_bgn then
        let s = scc_mgr_set_dqs_en_delay_all_ranks grp (of_nat d) s;
            (test_status, s) = reads_ok grp 5 s
        in if test_status then (tmp_delay, s)
           else narrow_dtaps grp ds (tmp_delay + of_nat IO_DELAY_PER_DQS_EN_DCHAIN_TAP) work_bgn s
      else (work_bgn, s))"

definition narrow_begin :: "u32 \<Rightarrow> nat \<Rightarrow> u32 \<Rightarrow> u32 \<Rightarrow> seq \<Rightarrow> (nat \<times> u32 \<times> u32) \<times> seq" where
  "narrow_begin grp p v work_bgn s =
     (let (pv, s) = prev_ptap grp p v s;
          p = (if fst pv = 0 then 1 else fst pv);
          tmp_delay = (if fst pv = 0 then work_bgn else work_bgn - of_nat IO_DELAY_PER_OPA_TAP);
          s = scc_mgr_set_dqs_en_phase_all_ranks grp (of_nat p) s;
          (work_bgn, s) = narrow_dtaps grp [0..<IO_DQS_EN_DELAY_MAX + 1] tmp_delay work_bgn s
      in ((p, snd pv, work_bgn), s))"

section \<open>The right edge\<close>

definition next_ptap :: "u32 \<Rightarrow> nat \<Rightarrow> u32 \<Rightarrow> seq \<Rightarrow> (nat \<times> u32) \<times> seq" where
  "next_ptap grp p v s =
     (let p = p + 1
      in if p > IO_DQS_EN_PHASE_MAX then let (v, s) = rw_mgr_incr_vfifo grp v s in ((0, v), s)
         else ((p, v), s))"

text \<open>\<open>j\<close> counts the phase taps: a failure at the first one moves the left edge instead.\<close>

fun end_ptaps :: "u32 \<Rightarrow> nat list \<Rightarrow> nat \<Rightarrow> u32 \<Rightarrow> u32 \<Rightarrow> seq \<Rightarrow> (nat option \<times> nat \<times> u32 \<times> u32) \<times> seq" where
  "end_ptaps grp [] j work_bgn work_end s = ((None, j, work_bgn, work_end), s)"
| "end_ptaps grp (p # ps) j work_bgn work_end s =
     (let j = j + 1; work_next = work_end + of_nat IO_DELAY_PER_OPA_TAP
      in if p = 0 then end_ptaps grp ps j work_bgn work_next s
         else let s = scc_mgr_set_dqs_en_phase_all_ranks grp (of_nat p) s;
                  (test_status, s) = reads_ok grp 5 s
              in if \<not> test_status \<and> j = 1 then end_ptaps grp ps j work_end work_next s
                 else if \<not> test_status then ((Some p, j, work_bgn, work_end), s)
                 else end_ptaps grp ps j work_bgn work_next s)"

fun end_vfifos ::
  "u32 \<Rightarrow> nat \<Rightarrow> nat \<Rightarrow> nat \<Rightarrow> u32 \<Rightarrow> u32 \<Rightarrow> u32 \<Rightarrow> seq \<Rightarrow> (nat option \<times> u32 \<times> u32 \<times> u32) \<times> seq" where
  "end_vfifos grp 0 p j v work_bgn work_end s = ((None, v, work_bgn, work_end), s)"
| "end_vfifos grp (Suc n) p j v work_bgn work_end s =
     (let (r, s) = end_ptaps grp [p..<IO_DQS_EN_PHASE_MAX + 1] j work_bgn work_end s
      in case r of
           (Some p, j, work_bgn, work_end) \<Rightarrow> ((Some p, v, work_bgn, work_end), s)
         | (None, j, work_bgn, work_end) \<Rightarrow>
             let (v, s) = rw_mgr_incr_vfifo grp v s in end_vfifos grp n 0 j v work_bgn work_end s)"

text \<open>The last phase tap that reads, after the begin was found at delay tap 0 of cycle \<open>i\<close>.\<close>

definition find_end_ptap ::
  "u32 \<Rightarrow> nat \<Rightarrow> nat \<Rightarrow> u32 \<Rightarrow> u32 \<Rightarrow> u32 \<Rightarrow> seq \<Rightarrow> (nat \<times> u32 \<times> u32 \<times> u32) option \<times> seq" where
  "find_end_ptap grp i p v work_bgn work_end s =
     (let (pv, s) = next_ptap grp p v s;
          s = scc_mgr_set_dqs_en_delay_all_ranks grp 0 s;
          (pv, s) = next_ptap grp (fst pv) (snd pv) s;
          work_end = work_end + of_nat IO_DELAY_PER_OPA_TAP;
          (r, s) = end_vfifos grp (VFIFO_SIZE + 1 - i) (fst pv) 0 (snd pv) work_bgn work_end s
      in case r of
           (None, v, work_bgn, work_end) \<Rightarrow> (None, s)
         | (Some p, v, work_bgn, work_end) \<Rightarrow>
             let work_end = (if p = 1 then work_end - of_nat IO_DELAY_PER_OPA_TAP else work_end);
                 p = (if p = 1 then 0 else p);
                 (pv, s) = prev_ptap grp p v s;
                 work_end = work_end - of_nat IO_DELAY_PER_OPA_TAP;
                 s = scc_mgr_set_dqs_en_phase_all_ranks grp (of_nat (fst pv)) s
             in (Some (fst pv, snd pv, work_bgn, work_end), s))"

text \<open>From there on in delay taps; the result is the first delay tap that fails.\<close>

fun end_dtaps :: "u32 \<Rightarrow> nat list \<Rightarrow> nat \<Rightarrow> u32 \<Rightarrow> seq \<Rightarrow> (nat \<times> u32) \<times> seq" where
  "end_dtaps grp [] d work_end s = ((d, work_end), s)"
| "end_dtaps grp (e # es) d work_end s =
     (let s = scc_mgr_set_dqs_en_delay_all_ranks grp (of_nat d) s;
          (test_status, s) = reads_ok grp 5 s
      in if \<not> test_status then ((d, work_end), s)
         else end_dtaps grp es (d + 1) (work_end + of_nat IO_DELAY_PER_DQS_EN_DCHAIN_TAP) s)"

section \<open>Delay taps of a phase tap\<close>

text \<open>The first delay tap from \<open>d\<close> on that reads (or that fails): \<open>None\<close> when the chain ends before.\<close>

fun seek_dtap :: "u32 \<Rightarrow> bool \<Rightarrow> nat list \<Rightarrow> seq \<Rightarrow> nat option \<times> seq" where
  "seek_dtap grp wanted [] s = (None, s)"
| "seek_dtap grp wanted (d # ds) s =
     (let s = scc_mgr_set_dqs_en_delay_all_ranks grp (of_nat d) s;
          (test_status, s) = reads_ok grp 1 s
      in if test_status = wanted then (Some d, s) else seek_dtap grp wanted ds s)"

definition measure_dtaps :: "u32 \<Rightarrow> nat \<Rightarrow> nat \<Rightarrow> u32 \<Rightarrow> u32 \<Rightarrow> cmd" where
  "measure_dtaps grp p d v dtaps_per_ptap s =
     (let (pv, s) = (if p = 0 \<or> p = 1 then prev_ptap grp 0 v s else prev_ptap grp p v s);
          s = scc_mgr_set_dqs_en_phase_all_ranks grp (of_nat (fst pv)) s;
          initial_failing_dtap = d;
          (passing, s) = seek_dtap grp True [d..<IO_DQS_EN_DELAY_MAX + 1] s;
          (failing, s) = (case passing of
              Some d \<Rightarrow> seek_dtap grp False [d + 1..<IO_DQS_EN_DELAY_MAX + 1] s
            | None \<Rightarrow> (None, s));
          dtaps_per_ptap = (case failing of
              Some d \<Rightarrow> of_nat d - of_nat initial_failing_dtap
            | None \<Rightarrow> dtaps_per_ptap)
      in IOWR_32DIRECT REG_FILE_DTAPS_PER_PTAP 0 dtaps_per_ptap s)"

section \<open>The middle\<close>

text \<open>\<open>while (work_mid > tmp_delay) work_mid -= tmp_delay\<close>; the only use has a positive delay.\<close>

function reduce_mid :: "u32 \<Rightarrow> u32 \<Rightarrow> u32" where
  "reduce_mid tmp_delay work_mid =
     (if work_mid > tmp_delay \<and> tmp_delay > 0 then reduce_mid tmp_delay (work_mid - tmp_delay) else work_mid)"
  by pat_completeness auto
termination
  by (relation "measure (\<lambda>(t, w). unat w)") (auto simp: word_less_nat_alt unat_sub_if')

declare reduce_mid.simps [simp del]

text \<open>How many taps of \<open>step\<close> picoseconds, at most \<open>n\<close>, reach \<open>work_mid\<close> from \<open>tmp_delay\<close>.\<close>

fun count_taps :: "u32 \<Rightarrow> nat \<Rightarrow> u32 \<Rightarrow> u32 \<Rightarrow> nat \<times> u32" where
  "count_taps step 0 tmp_delay work_mid = (0, tmp_delay)"
| "count_taps step (Suc n) tmp_delay work_mid =
     (if tmp_delay < work_mid
      then let (k, t) = count_taps step n (tmp_delay + step) work_mid in (k + 1, t)
      else (0, tmp_delay))"

definition mid_taps :: "u32 \<Rightarrow> u32 \<times> u32" where
  "mid_taps work_mid =
     (let cycle = of_nat (IO_DQS_EN_PHASE_MAX + 1) * of_nat IO_DELAY_PER_OPA_TAP;
          work_mid = reduce_mid cycle work_mid;
          (p, tmp_delay) = count_taps (of_nat IO_DELAY_PER_OPA_TAP) (IO_DQS_EN_PHASE_MAX + 1) 0 work_mid;
          tmp_delay = tmp_delay - of_nat IO_DELAY_PER_OPA_TAP;
          (d, tmp_delay) =
            count_taps (of_nat IO_DELAY_PER_DQS_EN_DCHAIN_TAP) (IO_DQS_EN_DELAY_MAX + 1) tmp_delay work_mid
      in if p = 1 then (1, 0) else (of_nat p - 1, of_nat d))"

text \<open>The cycle in which the middle reads.\<close>

fun center_vfifo :: "u32 \<Rightarrow> nat \<Rightarrow> u32 \<Rightarrow> seq \<Rightarrow> bool \<times> seq" where
  "center_vfifo grp 0 v s = (False, s)"
| "center_vfifo grp (Suc n) v s =
     (let (test_status, s) = reads_ok grp 1 s
      in if test_status then (True, s)
         else let (v, s) = rw_mgr_incr_vfifo grp v s in center_vfifo grp n v s)"

section \<open>The search\<close>

text \<open>From the right edge on: \<open>d\<close> and \<open>p\<close> are the taps from which its delay taps are counted.\<close>

definition find_right_edge :: "u32 \<Rightarrow> nat \<Rightarrow> nat \<Rightarrow> u32 \<Rightarrow> u32 \<Rightarrow> u32 \<Rightarrow> seq \<Rightarrow> bool \<times> seq" where
  "find_right_edge grp p d v work_bgn work_end s =
     (let (r, s) = end_dtaps grp [d..<IO_DQS_EN_DELAY_MAX + 1] d work_end s;
          d = fst r;
          work_end = (if d \<noteq> 0 then snd r - of_nat IO_DELAY_PER_DQS_EN_DCHAIN_TAP else snd r)
      in if work_end \<ge> work_bgn then
           let s = measure_dtaps grp p d v (dtaps_of_ptap IO_DELAY_PER_DQS_EN_DCHAIN_TAP) s;
               (p, d) = mid_taps ((work_bgn + work_end) div 2);
               s = scc_mgr_set_dqs_en_phase_all_ranks grp p s;
               s = scc_mgr_set_dqs_en_delay_all_ranks grp d s
           in center_vfifo grp VFIFO_SIZE v s
         else (False, s))"

definition rw_mgr_mem_calibrate_vfifo_find_dqs_en_phase :: "u32 \<Rightarrow> seq \<Rightarrow> bool \<times> seq" where
  "rw_mgr_mem_calibrate_vfifo_find_dqs_en_phase grp s =
     (let s = reg_file_set_sub_stage CAL_SUBSTAGE_VFIFO_CENTER s;
          s = scc_mgr_set_dqs_en_delay_all_ranks grp 0 s;
          s = scc_mgr_set_dqs_en_phase_all_ranks grp 1 s;
          dtaps_per_ptap = dtaps_of_ptap IO_DELAY_PER_DQS_EN_DCHAIN_TAP;
          (v, s) = find_failing_vfifo grp 0 0 s
      in if v \<ge> of_nat VFIFO_SIZE then (False, s)
         else
           let (r, s) = begin_dtaps grp [0..<unat dtaps_per_ptap + 1] 0 v s
           in case r of
                (None, v, work_bgn) \<Rightarrow> (False, s)
              | (Some (d, i, p), v, work_bgn) \<Rightarrow>
                  if d = 0 then
                    let work_end = work_bgn;
                        (pvw, s) = narrow_begin grp p v work_bgn s;
                        (r, s) = find_end_ptap grp i (fst pvw) (fst (snd pvw)) (snd (snd pvw)) work_end s
                    in case r of
                         None \<Rightarrow> (False, s)
                       | Some (p, v, work_bgn, work_end) \<Rightarrow> find_right_edge grp p 0 v work_bgn work_end s
                  else find_right_edge grp p d v work_bgn work_bgn s)"

definition rw_mgr_mem_calibrate_vfifo_find_dqs_en_phase_sweep_dq_in_delay ::
  "u32 \<Rightarrow> u32 \<Rightarrow> u32 \<Rightarrow> seq \<Rightarrow> bool \<times> seq" where
  "rw_mgr_mem_calibrate_vfifo_find_dqs_en_phase_sweep_dq_in_delay write_group read_group test_bgn s =
     (let delay_step = of_nat (IO_IO_IN_DELAY_MAX div (RW_MGR_MEM_DQ_PER_READ_DQS - 1));
          s = for_each shadow_ranks (\<lambda>r. seqs [
                select_shadow_regs_for_update (of_nat r) write_group 1,
                for_each [0..<RW_MGR_MEM_DQ_PER_READ_DQS] (\<lambda>i. let p = test_bgn + of_nat i in seqs [
                  scc_mgr_set_dq_in_delay write_group p (of_nat i * delay_step),
                  scc_mgr_load_dq p]),
                IOWR_32DIRECT SCC_MGR_UPD 0 0]) s;
          (found, s) = rw_mgr_mem_calibrate_vfifo_find_dqs_en_phase read_group s;
          s = for_each shadow_ranks (\<lambda>r. seqs [
                select_shadow_regs_for_update (of_nat r) write_group 1,
                for_each [0..<RW_MGR_MEM_DQ_PER_READ_DQS] (\<lambda>i. let p = test_bgn + of_nat i in seqs [
                  scc_mgr_set_dq_in_delay write_group p 0,
                  scc_mgr_load_dq p]),
                IOWR_32DIRECT SCC_MGR_UPD 0 0]) s
      in (found, s))"

end
