(* ===== verification/Centering.thy ===== *)
theory Centering
  imports VfifoPhase "HOL-Library.Signed_Division"
begin

text \<open>
  Centering of the strobe in the window of its data pins when reading
  (\<open>rw_mgr_mem_calibrate_vfifo_center\<close>), and what the centering for writes shares with it.

  A pin's window has a left edge, found by delaying the pin, and a right edge, found by delaying the
  strobe: \<open>alt_32\<close> values, here integers; \<open>none\<close>, one more than the largest delay, stands for an edge
  not found. Registers are read as words and taken as signed where the code casts them.
\<close>

section \<open>Edges of the pins\<close>

type_synonym edges = "int list \<times> int list"

definition no_edges :: "int \<Rightarrow> nat \<Rightarrow> edges" where
  "no_edges none n = (replicate n none, replicate n none)"

text \<open>After a test at delay \<open>d\<close> of the pins: the pins that pass and those that do not, bit by bit.\<close>

definition mark_left :: "int \<Rightarrow> int \<Rightarrow> u32 \<Rightarrow> edges \<Rightarrow> edges" where
  "mark_left none d bit_chk e =
     (let (l, r) = e; is = [0..<length l] in
      (map (\<lambda>i. if bit bit_chk i then d else l ! i) is,
       map (\<lambda>i. if \<not> bit bit_chk i \<and> l ! i = none then - (d + 1) else r ! i) is))"

text \<open>
  A left edge that was not found voids the right edge; the result's second part has a bit for each
  pin that satisfies \<open>found\<close>, the first pin lowest.
\<close>

definition void_right :: "int \<Rightarrow> edges \<Rightarrow> edges" where
  "void_right none e =
     (let (l, r) = e in
      (l, map (\<lambda>i. if l ! i = none \<and> r ! i \<noteq> none then none else r ! i) [0..<length l]))"

definition sticky_of :: "(nat \<Rightarrow> bool) \<Rightarrow> nat \<Rightarrow> u32" where
  "sticky_of found n =
     fold (\<lambda>i sticky. push_bit 1 sticky OR (if found i then 1 else 0)) (rev [0..<n]) 0"

text \<open>After a test at delay \<open>d\<close> of the strobe.\<close>

definition mark_right :: "int \<Rightarrow> int \<Rightarrow> u32 \<Rightarrow> edges \<Rightarrow> edges" where
  "mark_right none d bit_chk e =
     (let (l, r) = e; is = [0..<length l] in
      (map (\<lambda>i. if bit bit_chk i then l ! i
                else if d \<noteq> 0 then if r ! i = none then - (d + 1) else l ! i
                else if r ! i = none \<and> l ! i \<noteq> none then l ! i
                else if r ! i = none then - (d + 1) else l ! i) is,
       map (\<lambda>i. if bit bit_chk i then d
                else if d \<noteq> 0 then r ! i
                else if r ! i = none \<and> l ! i \<noteq> none then - 1 else r ! i) is))"

text \<open>The first pin without both edges.\<close>

definition first_without_edge :: "int \<Rightarrow> edges \<Rightarrow> nat option" where
  "first_without_edge none e =
     (let (l, r) = e in find (\<lambda>i. l ! i = none \<or> r ! i = none) [0..<length l])"

text \<open>The smallest middle, doubled, and the first pin that has it.\<close>

definition min_window :: "edges \<Rightarrow> int \<times> nat" where
  "min_window e =
     (let (l, r) = e in
      fold (\<lambda>i (mid_min, min_index).
          let mid = l ! i - r ! i in if mid < mid_min then (mid, i) else (mid_min, min_index))
        [1..<length l] (l ! 0 - r ! 0, 0))"

definition half_up :: "int \<Rightarrow> int" where
  "half_up mid_min = (if mid_min > 0 then mid_min + 1 else mid_min) sdiv 2"

definition pin_shift :: "edges \<Rightarrow> nat \<Rightarrow> nat \<Rightarrow> int \<Rightarrow> int" where
  "pin_shift e i min_index correction =
     (let (l, r) = e in (l ! i - r ! i - (l ! min_index - r ! min_index)) sdiv 2 + correction)"

text \<open>
  The shift kept within the delay chain of \<open>limit\<close> taps: \<open>READ\<close> reads the pin's delay, and
  \<open>READ_high\<close> is what the code reads when the shift is too large. Every comparison reads again.
\<close>

definition clip_shift ::
  "(seq \<Rightarrow> u32 \<times> seq) \<Rightarrow> (seq \<Rightarrow> u32 \<times> seq) \<Rightarrow> int \<Rightarrow> int \<Rightarrow> seq \<Rightarrow> int \<times> seq" where
  "clip_shift READ READ_high limit shift_dq s =
     (let (v1, s) = READ s
      in if shift_dq + sint v1 > limit
         then let (v2, s) = READ_high s in (sint (word_of_int limit - v2), s)
         else let (v2, s) = READ s
              in if shift_dq + sint v2 < 0 then let (v3, s) = READ s in (- sint v3, s)
                 else (shift_dq, s))"

section \<open>Centering the reads\<close>

definition read_none :: int where
  "read_none = int IO_IO_IN_DELAY_MAX + 1"

text \<open>One test of the group: whether no pin passes, and the pins that do.\<close>

definition center_test :: "nat \<Rightarrow> u32 \<Rightarrow> u32 \<Rightarrow> bool \<Rightarrow> seq \<Rightarrow> (bool \<times> u32) \<times> seq" where
  "center_test rank_bgn write_group read_group use_read_test s =
     (if use_read_test
      then let (r, s) =
             rw_mgr_mem_calibrate_read_test rank_bgn read_group (of_nat NUM_READ_PB_TESTS) False False False s
           in ((\<not> fst r, snd r), s)
      else let (r, s) = rw_mgr_mem_calibrate_write_test rank_bgn write_group False False False s;
               bit_chk = drop_bit
                 (unat (of_nat RW_MGR_MEM_DQ_PER_READ_DQS * (read_group - first_read_group write_group)))
                 (snd r)
           in ((bit_chk = 0, bit_chk), s))"

fun search_left_edges ::
  "(seq \<Rightarrow> (bool \<times> u32) \<times> seq) \<Rightarrow> u32 \<Rightarrow> u32 \<Rightarrow> nat list \<Rightarrow> u32 \<Rightarrow> edges \<Rightarrow> seq \<Rightarrow> edges \<times> seq" where
  "search_left_edges test write_group test_bgn [] sticky_bit_chk e s = (e, s)"
| "search_left_edges test write_group test_bgn (d # ds) sticky_bit_chk e s =
     (let s = scc_mgr_apply_group_dq_in_delay write_group test_bgn (of_nat d) s;
          s = IOWR_32DIRECT SCC_MGR_UPD 0 0 s;
          (r, s) = test s;
          sticky_bit_chk = sticky_bit_chk OR snd r
      in if fst r \<and> sticky_bit_chk = read_correct_mask (param s) then (e, s)
         else search_left_edges test write_group test_bgn ds sticky_bit_chk
                (mark_left read_none (int d) (snd r) e) s)"

definition shift_dqs_in :: "u32 \<Rightarrow> u32 \<Rightarrow> u32 \<Rightarrow> u32 \<Rightarrow> cmd" where
  "shift_dqs_in read_group start_dqs start_dqs_en d = seqs [
     scc_mgr_set_dqs_bus_in_delay read_group (d + start_dqs),
     if IO_SHIFT_DQS_EN_WHEN_SHIFT_DQS \<noteq> 0
     then let delay = d + start_dqs_en in
       scc_mgr_set_dqs_en_delay read_group
         (if delay > of_nat IO_DQS_EN_DELAY_MAX then of_nat IO_DQS_EN_DELAY_MAX else delay)
     else (\<lambda>s. s),
     scc_mgr_load_dqs read_group,
     IOWR_32DIRECT SCC_MGR_UPD 0 0]"

fun search_right_edges ::
  "(seq \<Rightarrow> (bool \<times> u32) \<times> seq) \<Rightarrow> u32 \<Rightarrow> u32 \<Rightarrow> u32 \<Rightarrow> nat list \<Rightarrow> u32 \<Rightarrow> edges \<Rightarrow> seq \<Rightarrow> edges \<times> seq" where
  "search_right_edges test read_group start_dqs start_dqs_en [] sticky_bit_chk e s = (e, s)"
| "search_right_edges test read_group start_dqs start_dqs_en (d # ds) sticky_bit_chk e s =
     (let s = shift_dqs_in read_group start_dqs start_dqs_en (of_nat d) s;
          (r, s) = test s;
          sticky_bit_chk = sticky_bit_chk OR snd r
      in if fst r \<and> sticky_bit_chk = read_correct_mask (param s) then (e, s)
         else search_right_edges test read_group start_dqs start_dqs_en ds sticky_bit_chk
                (mark_right read_none (int d) (snd r) e) s)"

text \<open>The new delay of the strobe, and how far it moves.\<close>

definition new_read_strobe :: "int \<Rightarrow> int \<Rightarrow> int \<Rightarrow> int \<times> int" where
  "new_read_strobe start_dqs start_dqs_en mid_min =
     (let new_dqs = start_dqs - mid_min;
          new_dqs = (if new_dqs > int IO_DQS_IN_DELAY_MAX then int IO_DQS_IN_DELAY_MAX
                     else if new_dqs < 0 then 0 else new_dqs);
          mid_min = start_dqs - new_dqs;
          mid_min =
            (if IO_SHIFT_DQS_EN_WHEN_SHIFT_DQS \<noteq> 0 then
               if start_dqs_en - mid_min > int IO_DQS_EN_DELAY_MAX
               then mid_min + (start_dqs_en - mid_min - int IO_DQS_EN_DELAY_MAX)
               else if start_dqs_en - mid_min < 0 then mid_min + (start_dqs_en - mid_min)
               else mid_min
             else mid_min)
      in (start_dqs - mid_min, mid_min))"

text \<open>One pin's new delay, and the margins of the pins so far.\<close>

definition center_read_pin ::
  "u32 \<Rightarrow> u32 \<Rightarrow> edges \<Rightarrow> nat \<Rightarrow> int \<Rightarrow> int \<Rightarrow> nat \<Rightarrow> (int \<times> int) \<times> seq \<Rightarrow> (int \<times> int) \<times> seq" where
  "center_read_pin write_group test_bgn e min_index orig_mid_min mid_min i ms =
     (let ((dq_margin, dqs_margin), s) = ms;
          p = test_bgn + of_nat i;
          (shift_dq, s) = clip_shift (READ_SCC_DQ_IN_DELAY p) (READ_SCC_DQ_IN_DELAY (of_nat i))
            (int IO_IO_IN_DELAY_MAX) (pin_shift e i min_index (orig_mid_min - mid_min)) s;
          (v, s) = READ_SCC_DQ_IN_DELAY p s;
          s = scc_mgr_set_dq_in_delay write_group p (v + word_of_int shift_dq) s;
          s = scc_mgr_load_dq p s;
          dq = fst e ! i - shift_dq + (- mid_min);
          dqs = snd e ! i + shift_dq - (- mid_min)
      in ((if dq < dq_margin then dq else dq_margin, if dqs < dqs_margin then dqs else dqs_margin), s))"

definition rw_mgr_mem_calibrate_vfifo_center ::
  "nat \<Rightarrow> u32 \<Rightarrow> u32 \<Rightarrow> u32 \<Rightarrow> bool \<Rightarrow> bool \<Rightarrow> seq \<Rightarrow> bool \<times> seq" where
  "rw_mgr_mem_calibrate_vfifo_center rank_bgn write_group read_group test_bgn use_read_test update_fom s =
     (let (start_dqs, s) = READ_SCC_DQS_IN_DELAY read_group s;
          (start_dqs_en, s) =
            (if IO_SHIFT_DQS_EN_WHEN_SHIFT_DQS \<noteq> 0 then READ_SCC_DQS_EN_DELAY read_group s else (0, s));
          s = select_curr_shadow_reg_using_rank (of_nat rank_bgn) s;
          test = center_test rank_bgn write_group read_group use_read_test;
          (e, s) = search_left_edges test write_group test_bgn [0..<IO_IO_IN_DELAY_MAX + 1] 0
            (no_edges read_none RW_MGR_MEM_DQ_PER_READ_DQS) s;
          s = scc_mgr_apply_group_dq_in_delay write_group test_bgn 0 s;
          e = void_right read_none e;
          sticky_bit_chk = sticky_of (\<lambda>i. fst e ! i \<noteq> read_none \<and> snd e ! i \<noteq> read_none)
            RW_MGR_MEM_DQ_PER_READ_DQS;
          (e, s) = search_right_edges test read_group start_dqs start_dqs_en
            [0..<unat (of_nat IO_DQS_IN_DELAY_MAX - start_dqs) + 1] sticky_bit_chk e s
      in case first_without_edge read_none e of
           Some i \<Rightarrow>
             let s = scc_mgr_set_dqs_bus_in_delay read_group start_dqs s;
                 s = (if IO_SHIFT_DQS_EN_WHEN_SHIFT_DQS \<noteq> 0
                      then scc_mgr_set_dqs_en_delay read_group start_dqs_en s else s);
                 s = scc_mgr_load_dqs read_group s;
                 s = IOWR_32DIRECT SCC_MGR_UPD 0 0 s;
                 s = set_failing_group_stage (read_group * of_nat RW_MGR_MEM_DQ_PER_READ_DQS + of_nat i)
                   (if use_read_test then CAL_STAGE_VFIFO else CAL_STAGE_VFIFO_AFTER_WRITES)
                   CAL_SUBSTAGE_VFIFO_CENTER s
             in (False, s)
         | None \<Rightarrow>
             let (mid_min, min_index) = min_window e;
                 orig_mid_min = half_up mid_min;
                 (new_dqs, mid_min) = new_read_strobe (sint start_dqs) (sint start_dqs_en) orig_mid_min;
                 (ms, s) = fold (center_read_pin write_group test_bgn e min_index orig_mid_min mid_min)
                   [0..<RW_MGR_MEM_DQ_PER_READ_DQS] ((read_none, read_none), s);
                 s = (if IO_SHIFT_DQS_EN_WHEN_SHIFT_DQS \<noteq> 0
                      then scc_mgr_load_dqs read_group
                        (scc_mgr_set_dqs_en_delay read_group (start_dqs_en - word_of_int mid_min) s)
                      else s);
                 s = scc_mgr_set_dqs_bus_in_delay read_group (word_of_int new_dqs) s;
                 s = scc_mgr_load_dqs read_group s;
                 s = (if update_fom
                      then upd_gbl (\<lambda>g. g\<lparr>fom_in := fom_in g +
                          word_of_int ((fst ms + snd ms) sdiv
                            int (RW_MGR_MEM_IF_READ_DQS_WIDTH div RW_MGR_MEM_IF_WRITE_DQS_WIDTH))\<rparr>) s
                      else s);
                 s = IOWR_32DIRECT SCC_MGR_UPD 0 0 s
             in (fst ms \<ge> 0 \<and> snd ms \<ge> 0, s))"

end
