(* ===== verification/WritesCenter.thy ===== *)
theory WritesCenter
  imports Centering
begin

text \<open>
  Centering of the strobe in the window of the data pins when writing, and of the mask pin
  (\<open>rw_mgr_mem_calibrate_writes_center\<close>).

  The mask pin's window is looked for on one line of positions: \<open>- d\<close> is the mask pin delayed by \<open>d\<close>
  taps, \<open>d\<close> is the strobe delayed by \<open>d\<close> more taps. Position 0 is tested twice.
\<close>

section \<open>Data pins\<close>

definition write_none :: int where
  "write_none = int IO_IO_OUT1_DELAY_MAX + 1"

definition write_test_one :: "nat \<Rightarrow> u32 \<Rightarrow> seq \<Rightarrow> (bool \<times> u32) \<times> seq" where
  "write_test_one rank_bgn write_group s =
     (let (r, s) = rw_mgr_mem_calibrate_write_test rank_bgn write_group False False False s
      in ((\<not> fst r, snd r), s))"

fun write_left_edges ::
  "nat \<Rightarrow> u32 \<Rightarrow> u32 \<Rightarrow> nat list \<Rightarrow> u32 \<Rightarrow> edges \<Rightarrow> seq \<Rightarrow> edges \<times> seq" where
  "write_left_edges rank_bgn write_group test_bgn [] sticky_bit_chk e s = (e, s)"
| "write_left_edges rank_bgn write_group test_bgn (d # ds) sticky_bit_chk e s =
     (let s = scc_mgr_apply_group_dq_out1_delay write_group test_bgn (of_nat d) s;
          s = IOWR_32DIRECT SCC_MGR_UPD 0 0 s;
          (r, s) = write_test_one rank_bgn write_group s;
          sticky_bit_chk = sticky_bit_chk OR snd r
      in if fst r \<and> sticky_bit_chk = write_correct_mask (param s) then (e, s)
         else write_left_edges rank_bgn write_group test_bgn ds sticky_bit_chk
                (mark_left write_none (int d) (snd r) e) s)"

text \<open>When the search ends at delay 0, the right edges that are still missing are at -1.\<close>

definition right_at_start :: "int \<Rightarrow> edges \<Rightarrow> edges" where
  "right_at_start none e =
     (let (l, r) = e in
      (l, map (\<lambda>i. if r ! i = none \<and> l ! i \<noteq> none then - 1 else r ! i) [0..<length l]))"

fun write_right_edges ::
  "nat \<Rightarrow> u32 \<Rightarrow> u32 \<Rightarrow> int list \<Rightarrow> u32 \<Rightarrow> edges \<Rightarrow> seq \<Rightarrow> edges \<times> seq" where
  "write_right_edges rank_bgn write_group start_dqs [] sticky_bit_chk e s = (e, s)"
| "write_right_edges rank_bgn write_group start_dqs (d # ds) sticky_bit_chk e s =
     (let s = scc_mgr_apply_group_dqs_io_and_oct_out1 write_group (word_of_int d + start_dqs) s;
          s = IOWR_32DIRECT SCC_MGR_UPD 0 0 s;
          s = (if QDRII \<noteq> 0 then rw_mgr_mem_dll_lock_wait s else s);
          (r, s) = write_test_one rank_bgn write_group s;
          s = (if fst r then recover_mem_device_after_ck_dqs_violation s else s);
          sticky_bit_chk = sticky_bit_chk OR snd r
      in if fst r \<and> sticky_bit_chk = write_correct_mask (param s)
         then (if d = 0 then right_at_start write_none e else e, s)
         else write_right_edges rank_bgn write_group start_dqs ds sticky_bit_chk
                (mark_right write_none d (snd r) e) s)"

definition center_write_pin ::
  "u32 \<Rightarrow> edges \<Rightarrow> nat \<Rightarrow> int \<Rightarrow> int \<Rightarrow> nat \<Rightarrow> (int \<times> int) \<times> seq \<Rightarrow> (int \<times> int) \<times> seq" where
  "center_write_pin write_group e min_index orig_mid_min mid_min i ms =
     (let ((dq_margin, dqs_margin), s) = ms;
          (shift_dq, s) = clip_shift (READ_SCC_DQ_OUT1_DELAY (of_nat i)) (READ_SCC_DQ_OUT1_DELAY (of_nat i))
            (int IO_IO_OUT1_DELAY_MAX) (pin_shift e i min_index (orig_mid_min - mid_min)) s;
          (v, s) = READ_SCC_DQ_OUT1_DELAY (of_nat i) s;
          s = scc_mgr_set_dq_out1_delay write_group (of_nat i) (v + word_of_int shift_dq) s;
          s = scc_mgr_load_dq (of_nat i) s;
          dq = fst e ! i - shift_dq + (- mid_min);
          dqs = snd e ! i + shift_dq - (- mid_min)
      in ((if dq < dq_margin then dq else dq_margin, if dqs < dqs_margin then dqs else dqs_margin), s))"

section \<open>Mask pin\<close>

text \<open>The current run of passing positions, and the best one so far with its length.\<close>

record window =
  bgn_curr :: int
  end_curr :: int
  bgn_best :: int
  end_best :: int
  win_best :: int

definition no_window :: window where
  "no_window =
     \<lparr>bgn_curr = write_none, end_curr = write_none, bgn_best = write_none, end_best = write_none, win_best = 0\<rparr>"

definition window_pass :: "int \<Rightarrow> window \<Rightarrow> window" where
  "window_pass x w =
     (let bgn = (if bgn_curr w = write_none then x else bgn_curr w);
          w = w\<lparr>end_curr := x, bgn_curr := bgn\<rparr>
      in if x - bgn + 1 > win_best w
         then w\<lparr>win_best := x - bgn + 1, bgn_best := bgn, end_best := x\<rparr> else w)"

definition window_fail :: "window \<Rightarrow> window" where
  "window_fail w = w\<lparr>bgn_curr := write_none, end_curr := write_none\<rparr>"

definition write_test_all :: "nat \<Rightarrow> u32 \<Rightarrow> seq \<Rightarrow> bool \<times> seq" where
  "write_test_all rank_bgn write_group s =
     (let (r, s) = rw_mgr_mem_calibrate_write_test rank_bgn write_group True True False s in (fst r, s))"

text \<open>The mask pin's delays, from the largest one down.\<close>

fun mask_window_left :: "nat \<Rightarrow> u32 \<Rightarrow> int list \<Rightarrow> window \<Rightarrow> seq \<Rightarrow> window \<times> seq" where
  "mask_window_left rank_bgn write_group [] w s = (w, s)"
| "mask_window_left rank_bgn write_group (d # ds) w s =
     (let s = scc_mgr_apply_group_dm_out1_delay write_group (word_of_int d) s;
          s = IOWR_32DIRECT SCC_MGR_UPD 0 0 s;
          (ok, s) = write_test_all rank_bgn write_group s
      in mask_window_left rank_bgn write_group ds (if ok then window_pass (- d) w else window_fail w) s)"

text \<open>The strobe's delays; a failure ends the search when no longer window can follow.\<close>

fun mask_window_right :: "nat \<Rightarrow> u32 \<Rightarrow> int \<Rightarrow> int list \<Rightarrow> window \<Rightarrow> seq \<Rightarrow> window \<times> seq" where
  "mask_window_right rank_bgn write_group new_dqs [] w s = (w, s)"
| "mask_window_right rank_bgn write_group new_dqs (d # ds) w s =
     (let s = scc_mgr_apply_group_dqs_io_and_oct_out1 write_group (word_of_int (d + new_dqs)) s;
          s = IOWR_32DIRECT SCC_MGR_UPD 0 0 s;
          (ok, s) = write_test_all rank_bgn write_group s
      in if ok then mask_window_right rank_bgn write_group new_dqs ds (window_pass d w) s
         else let s = recover_mem_device_after_ck_dqs_violation s; w = window_fail w
              in if win_best w - 1 > int IO_IO_OUT1_DELAY_MAX - new_dqs - d then (w, s)
                 else mask_window_right rank_bgn write_group new_dqs ds w s)"

definition center_mask :: "nat \<Rightarrow> u32 \<Rightarrow> int \<Rightarrow> seq \<Rightarrow> int \<times> seq" where
  "center_mask rank_bgn write_group new_dqs s =
     (let (w, s) = mask_window_left rank_bgn write_group (rev [0..int IO_IO_OUT1_DELAY_MAX]) no_window s;
          s = scc_mgr_apply_group_dm_out1_delay write_group 0 s;
          w = (if end_curr w \<noteq> 0 then window_fail w else w);
          (w, s) = mask_window_right rank_bgn write_group new_dqs
            [0..int IO_IO_OUT1_DELAY_MAX - new_dqs] w s;
          left_edge = -1 * bgn_best w;
          right_edge = end_best w;
          s = scc_mgr_apply_group_dqs_io_and_oct_out1 write_group (word_of_int new_dqs) s;
          mid = (left_edge - right_edge) sdiv 2;
          mid = (if mid < 0 then 0 else mid);
          dm_margin = (if win_best w = 0 then -1 else left_edge - mid);
          s = scc_mgr_apply_group_dm_out1_delay write_group (word_of_int mid) s;
          s = IOWR_32DIRECT SCC_MGR_UPD 0 0 s
      in (dm_margin, s))"

section \<open>The whole\<close>

definition rw_mgr_mem_calibrate_writes_center :: "nat \<Rightarrow> u32 \<Rightarrow> u32 \<Rightarrow> seq \<Rightarrow> bool \<times> seq" where
  "rw_mgr_mem_calibrate_writes_center rank_bgn write_group test_bgn s =
     (let (start_dqs, s) = READ_SCC_DQS_IO_OUT1_DELAY s;
          s = select_curr_shadow_reg_using_rank (of_nat rank_bgn) s;
          (e, s) = write_left_edges rank_bgn write_group test_bgn [0..<IO_IO_OUT1_DELAY_MAX + 1] 0
            (no_edges write_none RW_MGR_MEM_DQ_PER_WRITE_DQS) s;
          s = scc_mgr_apply_group_dq_out1_delay write_group test_bgn 0 s;
          e = void_right write_none e;
          sticky_bit_chk = sticky_of (\<lambda>i. fst e ! i \<noteq> write_none) RW_MGR_MEM_DQ_PER_WRITE_DQS;
          (e, s) = write_right_edges rank_bgn write_group start_dqs
            [0..int IO_IO_OUT1_DELAY_MAX - sint start_dqs] sticky_bit_chk e s
      in case first_without_edge write_none e of
           Some i \<Rightarrow>
             (False, set_failing_group_stage (test_bgn + of_nat i) CAL_STAGE_WRITES CAL_SUBSTAGE_WRITES_CENTER s)
         | None \<Rightarrow>
             let (mid_min, min_index) = min_window e;
                 orig_mid_min = half_up mid_min;
                 new_dqs = sint start_dqs;
                 (ms, s) = fold (center_write_pin write_group e min_index orig_mid_min 0)
                   [0..<RW_MGR_MEM_DQ_PER_WRITE_DQS] ((write_none, write_none), s);
                 s = (if QDRII \<noteq> 0
                      then scc_mgr_set_group_dqs_io_and_oct_out1_gradual write_group start_dqs s
                      else IOWR_32DIRECT SCC_MGR_UPD 0 0
                        (scc_mgr_apply_group_dqs_io_and_oct_out1 write_group start_dqs s));
                 (dm_margin, s) = center_mask rank_bgn write_group new_dqs s;
                 s = upd_gbl (\<lambda>g. g\<lparr>fom_out := fom_out g + word_of_int (fst ms + snd ms)\<rparr>) s;
                 s = IOWR_32DIRECT SCC_MGR_UPD 0 0 s
             in (fst ms \<ge> 0 \<and> snd ms \<ge> 0 \<and> dm_margin \<ge> 0, s))"

definition rw_mgr_mem_calibrate_writes :: "nat \<Rightarrow> u32 \<Rightarrow> u32 \<Rightarrow> seq \<Rightarrow> bool \<times> seq" where
  "rw_mgr_mem_calibrate_writes rank_bgn g test_bgn s =
     (let s = reg_file_set_stage CAL_STAGE_WRITES s;
          s = reg_file_set_sub_stage CAL_SUBSTAGE_WRITES_CENTER s;
          s = reg_file_set_group g s;
          (ok, s) = rw_mgr_mem_calibrate_writes_center rank_bgn g test_bgn s
      in if ok then (True, s)
         else (False, set_failing_group_stage g CAL_STAGE_WRITES CAL_SUBSTAGE_WRITES_CENTER s))"

end
