(* ===== verification/Wlevel.thy ===== *)
theory Wlevel
  imports WritesCenter
begin

text \<open>
  Write leveling (\<open>rw_mgr_mem_calibrate_wlevel\<close>): the window of the output phase of a group, its left
  edge, its right edge, and its middle. \<open>num_additional_fr_cycles\<close> is 0 in this configuration, and
  there is one phase (\<open>IO_DQDQS_OUT_PHASE_MAX = 0\<close>), so most of the window is made of delay taps.
\<close>

definition num_additional_fr_cycles :: nat where
  "num_additional_fr_cycles = 0"

definition max_out_phase :: nat where
  "max_out_phase = IO_DQDQS_OUT_PHASE_MAX + num_additional_fr_cycles * IO_DLL_CHAIN_LENGTH"

definition writes_ok :: "u32 \<Rightarrow> seq \<Rightarrow> bool \<times> seq" where
  "writes_ok g s =
     (let (r, s) = rw_mgr_mem_calibrate_write_test_all_ranks g False False s in (fst r, s))"

section \<open>The left edge\<close>

fun level_phases :: "u32 \<Rightarrow> nat list \<Rightarrow> u32 \<Rightarrow> seq \<Rightarrow> (nat option \<times> u32) \<times> seq" where
  "level_phases g [] work_bgn s = ((None, work_bgn), s)"
| "level_phases g (p # ps) work_bgn s =
     (let s = scc_mgr_set_dqdqs_output_phase_all_ranks g (of_nat p) s;
          (ok, s) = writes_ok g s
      in if ok then ((Some p, work_bgn), s)
         else level_phases g ps (work_bgn + of_nat IO_DELAY_PER_OPA_TAP) s)"

text \<open>\<open>for (d = 0; d <= dtaps_per_ptap; d++)\<close>: \<open>dtaps_per_ptap\<close> is a word read from a register.\<close>

function level_begin :: "u32 \<Rightarrow> u32 \<Rightarrow> u32 \<Rightarrow> nat \<Rightarrow> u32 \<Rightarrow> seq \<Rightarrow> (nat \<times> nat \<times> u32) option \<times> seq" where
  "level_begin g test_bgn dtaps_per_ptap d tmp_delay s =
     (if d \<le> unat dtaps_per_ptap then
        let s = scc_mgr_apply_group_all_out_delay_all_ranks g test_bgn (of_nat d) s;
            (r, s) = level_phases g [0..<max_out_phase + 1] tmp_delay s
        in case fst r of
             Some p \<Rightarrow> (Some (p, d, snd r), s)
           | None \<Rightarrow> level_begin g test_bgn dtaps_per_ptap (d + 1)
               (tmp_delay + of_nat IO_DELAY_PER_DCHAIN_TAP) s
      else (None, s))"
  by pat_completeness auto
termination
  by (relation "measure (\<lambda>(g, b, n, d, t, s). Suc (unat n) - d)") auto

declare level_begin.simps [simp del]

text \<open>One phase back, in delay taps.\<close>

fun level_narrow :: "u32 \<Rightarrow> u32 \<Rightarrow> nat list \<Rightarrow> u32 \<Rightarrow> u32 \<Rightarrow> seq \<Rightarrow> u32 \<times> seq" where
  "level_narrow g test_bgn [] tmp_delay work_bgn s = (work_bgn, s)"
| "level_narrow g test_bgn (d # ds) tmp_delay work_bgn s =
     (if tmp_delay < work_bgn then
        let s = scc_mgr_apply_group_all_out_delay_all_ranks g test_bgn (of_nat d) s;
            (ok, s) = writes_ok g s
        in if ok then (tmp_delay, s)
           else level_narrow g test_bgn ds (tmp_delay + of_nat IO_DELAY_PER_DCHAIN_TAP) work_bgn s
      else (work_bgn, s))"

section \<open>The right edge\<close>

text \<open>The phase at which the test fails, or one more than the last.\<close>

fun level_end_phases :: "u32 \<Rightarrow> nat list \<Rightarrow> nat \<Rightarrow> u32 \<Rightarrow> seq \<Rightarrow> (nat \<times> u32) \<times> seq" where
  "level_end_phases g [] p work_end s = ((p, work_end), s)"
| "level_end_phases g (q # qs) p work_end s =
     (let s = scc_mgr_set_dqdqs_output_phase_all_ranks g (of_nat p) s;
          (ok, s) = writes_ok g s
      in if \<not> ok then ((p, work_end), s)
         else level_end_phases g qs (p + 1) (work_end + of_nat IO_DELAY_PER_OPA_TAP) s)"

definition level_ptap :: "u32 \<Rightarrow> u32 \<Rightarrow> nat \<Rightarrow> u32 \<Rightarrow> seq \<Rightarrow> (u32 \<times> u32) \<times> seq" where
  "level_ptap g test_bgn p work_bgn s =
     (let work_end = work_bgn + of_nat IO_DELAY_PER_OPA_TAP;
          (work_bgn, s) =
            (if p > 0 then
               let s = scc_mgr_set_dqdqs_output_phase_all_ranks g (of_nat p - 1) s;
                   (work_bgn, s) = level_narrow g test_bgn [0..<IO_IO_OUT1_DELAY_MAX + 1]
                     (work_bgn - of_nat IO_DELAY_PER_OPA_TAP) work_bgn s;
                   s = scc_mgr_apply_group_all_out_delay_all_ranks g test_bgn 0 s
               in (work_bgn, s)
             else (work_bgn, s));
          (r, s) = level_end_phases g [p + 1..<max_out_phase + 1] (p + 1) work_end s;
          s = scc_mgr_set_dqdqs_output_phase_all_ranks g (of_nat (fst r - 1)) s
      in ((work_bgn, snd r - of_nat IO_DELAY_PER_OPA_TAP), s))"

fun level_end_dtaps :: "u32 \<Rightarrow> u32 \<Rightarrow> nat list \<Rightarrow> u32 \<Rightarrow> seq \<Rightarrow> u32 \<times> seq" where
  "level_end_dtaps g test_bgn [] work_end s = (work_end, s)"
| "level_end_dtaps g test_bgn (d # ds) work_end s =
     (let s = scc_mgr_apply_group_all_out_delay_all_ranks g test_bgn (of_nat d) s;
          (ok, s) = writes_ok g s
      in if \<not> ok then (work_end, s)
         else level_end_dtaps g test_bgn ds (work_end + of_nat IO_DELAY_PER_DCHAIN_TAP) s)"

section \<open>The middle\<close>

text \<open>\<open>while (p > IO_DQDQS_OUT_PHASE_MAX) { tmp_delay -= IO_DELAY_PER_OPA_TAP; p--; }\<close>\<close>

definition drop_phases :: "nat \<Rightarrow> u32 \<Rightarrow> nat \<times> u32" where
  "drop_phases p tmp_delay =
     (if p > IO_DQDQS_OUT_PHASE_MAX
      then (IO_DQDQS_OUT_PHASE_MAX,
            tmp_delay - of_nat (p - IO_DQDQS_OUT_PHASE_MAX) * of_nat IO_DELAY_PER_OPA_TAP)
      else (p, tmp_delay))"

text \<open>One tap less when the middle is passed.\<close>

definition step_back :: "u32 \<Rightarrow> u32 \<Rightarrow> nat \<times> u32 \<Rightarrow> nat \<times> u32" where
  "step_back step work_mid kt =
     (if snd kt > work_mid then (fst kt - 1, snd kt - step) else kt)"

definition level_mid :: "u32 \<Rightarrow> nat \<times> nat" where
  "level_mid work_mid =
     (let (p, tmp_delay) = step_back (of_nat IO_DELAY_PER_OPA_TAP) work_mid
            (count_taps (of_nat IO_DELAY_PER_OPA_TAP) (max_out_phase + 1) 0 work_mid);
          (p, tmp_delay) = drop_phases p tmp_delay;
          (d, tmp_delay) = step_back (of_nat IO_DELAY_PER_DCHAIN_TAP) work_mid
            (count_taps (of_nat IO_DELAY_PER_DCHAIN_TAP) (IO_IO_OUT1_DELAY_MAX + 1) tmp_delay work_mid)
      in (p, d))"

section \<open>The whole\<close>

definition rw_mgr_mem_calibrate_wlevel :: "u32 \<Rightarrow> u32 \<Rightarrow> seq \<Rightarrow> bool \<times> seq" where
  "rw_mgr_mem_calibrate_wlevel g test_bgn s =
     (let s = reg_file_set_stage CAL_STAGE_WLEVEL s;
          s = reg_file_set_sub_stage CAL_SUBSTAGE_WORKING_DELAY s;
          (dtaps_per_ptap, s) = IORD_32DIRECT REG_FILE_DTAPS_PER_PTAP 0 s;
          s = reg_file_set_group g s;
          s = scc_mgr_spread_out2_delay_all_ranks g test_bgn s;
          (r, s) = level_begin g test_bgn dtaps_per_ptap 0 0 s
      in case r of
           None \<Rightarrow> (False, set_failing_group_stage g CAL_STAGE_WLEVEL CAL_SUBSTAGE_WORKING_DELAY s)
         | Some (p, d, work_bgn) \<Rightarrow>
             let s = reg_file_set_sub_stage CAL_SUBSTAGE_LAST_WORKING_DELAY s;
                 (w, s) = (if d = 0 then level_ptap g test_bgn p work_bgn s else ((work_bgn, work_bgn), s));
                 work_bgn = fst w;
                 (work_end, s) = level_end_dtaps g test_bgn [d..<IO_IO_OUT1_DELAY_MAX + 1] (snd w) s;
                 s = scc_mgr_zero_group g test_bgn 1 s;
                 work_end = work_end - of_nat IO_DELAY_PER_DCHAIN_TAP
             in if work_end \<ge> work_bgn then
                  let (p, d) = level_mid ((work_bgn + work_end) div 2);
                      s = scc_mgr_set_dqdqs_output_phase_all_ranks g (of_nat p) s;
                      s = scc_mgr_apply_group_all_out_delay_add_all_ranks g test_bgn (of_nat d) s
                  in (True, s)
                else (False, set_failing_group_stage g CAL_STAGE_WLEVEL CAL_SUBSTAGE_LAST_WORKING_DELAY s))"

end
