(* ===== verification/Calibrate.thy ===== *)
theory Calibrate
  imports Wlevel
begin

text \<open>
  The calibration as a whole: a read group's valid FIFO, the latencies, the stages of a group, the run
  with its report, and the entry point \<open>sdram_calibration\<close>.
\<close>

section \<open>A read group\<close>

text \<open>The ranks at which a shadow register begins, with its number, and \<open>skip_shadow_regs\<close>.\<close>

definition shadow_regs :: "(nat \<times> nat) list" where
  "shadow_regs = zip shadow_ranks [0..<NUM_SHADOW_REGS]"

definition skip_shadow_reg :: "nat \<Rightarrow> seq \<Rightarrow> bool" where
  "skip_shadow_reg sr s = (skip_shadow_regs (param s) ! sr \<noteq> 0)"

definition set_dqs_in :: "u32 \<Rightarrow> u32 \<Rightarrow> nat \<Rightarrow> cmd" where
  "set_dqs_in read_group dtaps rank_bgn = seqs [
     select_shadow_regs_for_update (of_nat rank_bgn) read_group 1,
     WRITE_SCC_DQS_IN_DELAY read_group dtaps,
     scc_mgr_load_dqs read_group,
     IOWR_32DIRECT SCC_MGR_UPD 0 0]"

text \<open>After the DQS enable was found: the centering for every shadow register.\<close>

fun center_shadow_regs ::
  "u32 \<Rightarrow> u32 \<Rightarrow> u32 \<Rightarrow> u32 \<Rightarrow> (nat \<times> nat) list \<Rightarrow> bool \<Rightarrow> seq \<Rightarrow> bool \<times> seq" where
  "center_shadow_regs write_group read_group test_bgn orig_start_dqs [] ok s = (ok, s)"
| "center_shadow_regs write_group read_group test_bgn orig_start_dqs (rsr # rs) ok s =
     (if skip_shadow_reg (snd rsr) s
      then center_shadow_regs write_group read_group test_bgn orig_start_dqs rs ok s
      else let s = set_dqs_in read_group orig_start_dqs (fst rsr) s;
               (c, s) = rw_mgr_mem_calibrate_vfifo_center (fst rsr) write_group read_group test_bgn True False s
           in center_shadow_regs write_group read_group test_bgn orig_start_dqs rs (ok \<and> c) s)"

text \<open>The loop over the strobe's input delays; a failure leaves its substage.\<close>

fun vfifo_dqs_in ::
  "u32 \<Rightarrow> u32 \<Rightarrow> u32 \<Rightarrow> u32 \<Rightarrow> nat list \<Rightarrow> u32 \<Rightarrow> seq \<Rightarrow> (bool \<times> u32) \<times> seq" where
  "vfifo_dqs_in write_group read_group test_bgn orig_start_dqs [] failed_substage s =
     ((False, failed_substage), s)"
| "vfifo_dqs_in write_group read_group test_bgn orig_start_dqs (t # ts) failed_substage s =
     (let s = for_each shadow_regs (\<lambda>rsr s.
            if skip_shadow_reg (snd rsr) s then s else set_dqs_in read_group (of_nat t) (fst rsr) s) s;
          (found, s) = rw_mgr_mem_calibrate_vfifo_find_dqs_en_phase_sweep_dq_in_delay
            write_group read_group test_bgn s
      in if found
         then let (ok, s) = center_shadow_regs write_group read_group test_bgn orig_start_dqs shadow_regs True s
              in if ok then ((True, failed_substage), s)
                 else vfifo_dqs_in write_group read_group test_bgn orig_start_dqs ts CAL_SUBSTAGE_VFIFO_CENTER s
         else vfifo_dqs_in write_group read_group test_bgn orig_start_dqs ts CAL_SUBSTAGE_DQS_EN_PHASE s)"

text \<open>One output phase: the guaranteed read, then the input delays of the strobe.\<close>

definition guaranteed_read :: "u32 \<Rightarrow> seq \<Rightarrow> bool \<times> seq" where
  "guaranteed_read read_group s =
     (if phy_debug_mode_flags (gbl s) AND PHY_DEBUG_DISABLE_GUARANTEED_READ = 0
      then let (r, s) = rw_mgr_mem_calibrate_read_test_patterns_all_ranks read_group 1 s in (fst r, s)
      else (True, s))"

fun vfifo_phases ::
  "u32 \<Rightarrow> u32 \<Rightarrow> u32 \<Rightarrow> nat \<Rightarrow> nat list \<Rightarrow> u32 \<Rightarrow> seq \<Rightarrow> (bool \<times> u32) \<times> seq" where
  "vfifo_phases write_group read_group test_bgn d [] failed_substage s = ((False, failed_substage), s)"
| "vfifo_phases write_group read_group test_bgn d (p # ps) failed_substage s =
     (let s = (if DDRX \<noteq> 0 then scc_mgr_set_dqdqs_output_phase_all_ranks read_group (of_nat p) s else s);
          s = (if (DDRX \<noteq> 0 \<or> RLDRAMX \<noteq> 0) \<and> (d \<noteq> 0 \<or> p \<noteq> 0)
               then recover_mem_device_after_ck_dqs_violation s else s);
          s = rw_mgr_mem_calibrate_read_load_patterns_all_ranks s;
          (ok, s) = guaranteed_read read_group s
      in if \<not> ok then ((False, failed_substage), s)
         else let (orig_start_dqs, s) = READ_SCC_DQS_IN_DELAY read_group s;
                  (r, s) = vfifo_dqs_in write_group read_group test_bgn orig_start_dqs
                    [unat orig_start_dqs..<IO_DQS_IN_DELAY_MAX + 1] failed_substage s
              in if fst r then (r, s)
                 else vfifo_phases write_group read_group test_bgn d ps (snd r) s)"

text \<open>The loop over every other delay tap; \<open>d\<close> is where it ends.\<close>

fun vfifo_dtaps ::
  "u32 \<Rightarrow> u32 \<Rightarrow> u32 \<Rightarrow> u32 \<Rightarrow> nat list \<Rightarrow> u32 \<Rightarrow> seq \<Rightarrow> (nat option \<times> u32) \<times> seq" where
  "vfifo_dtaps write_group read_group test_bgn write_test_bgn [] failed_substage s =
     ((None, failed_substage), s)"
| "vfifo_dtaps write_group read_group test_bgn write_test_bgn (d # ds) failed_substage s =
     (let s = (if (DDRX \<noteq> 0 \<or> RLDRAMX \<noteq> 0) \<and> d > 0
               then scc_mgr_apply_group_all_out_delay_add_all_ranks write_group write_test_bgn (of_nat d) s
               else s);
          (r, s) = vfifo_phases write_group read_group test_bgn d [0..<IO_DQDQS_OUT_PHASE_MAX + 1]
            failed_substage s
      in if fst r then ((Some (d + 2), snd r), s)
         else vfifo_dtaps write_group read_group test_bgn write_test_bgn ds (snd r) s)"

definition rw_mgr_mem_calibrate_vfifo :: "u32 \<Rightarrow> u32 \<Rightarrow> seq \<Rightarrow> bool \<times> seq" where
  "rw_mgr_mem_calibrate_vfifo read_group test_bgn s =
     (let s = reg_file_set_stage CAL_STAGE_VFIFO s;
          write_group = (if DDRX \<noteq> 0 then read_group
            else read_group div of_nat (RW_MGR_MEM_IF_READ_DQS_WIDTH div RW_MGR_MEM_IF_WRITE_DQS_WIDTH));
          write_test_bgn = (if DDRX \<noteq> 0 then test_bgn
            else read_group * of_nat RW_MGR_MEM_DQ_PER_READ_DQS);
          dtaps_per_ptap = (if QDRII = 0 then dtaps_of_ptap IO_DELAY_PER_DQS_EN_DCHAIN_TAP else 0);
          s = reg_file_set_group read_group s;
          s = reg_file_set_sub_stage CAL_SUBSTAGE_GUARANTEED_READ s;
          (r, s) = vfifo_dtaps write_group read_group test_bgn write_test_bgn
            (filter even [0..<unat dtaps_per_ptap + 1]) CAL_SUBSTAGE_GUARANTEED_READ s
      in case fst r of
           None \<Rightarrow> (False, set_failing_group_stage write_group CAL_STAGE_VFIFO (snd r) s)
         | Some d \<Rightarrow>
             (True, if (DDRX \<noteq> 0 \<or> RLDRAMII \<noteq> 0) \<and> d > 2
                    then scc_mgr_zero_group write_group write_test_bgn 1 s else s))"

fun vfifo_end_shadow_regs :: "u32 \<Rightarrow> u32 \<Rightarrow> u32 \<Rightarrow> (nat \<times> nat) list \<Rightarrow> bool \<Rightarrow> seq \<Rightarrow> bool \<times> seq" where
  "vfifo_end_shadow_regs write_group read_group test_bgn [] ok s = (ok, s)"
| "vfifo_end_shadow_regs write_group read_group test_bgn (rsr # rs) ok s =
     (if skip_shadow_reg (snd rsr) s then vfifo_end_shadow_regs write_group read_group test_bgn rs ok s
      else let s = select_shadow_regs_for_update (of_nat (fst rsr)) read_group 1 s;
               (c, s) = rw_mgr_mem_calibrate_vfifo_center (fst rsr) write_group read_group test_bgn False True s
           in vfifo_end_shadow_regs write_group read_group test_bgn rs (ok \<and> c) s)"

definition rw_mgr_mem_calibrate_vfifo_end :: "u32 \<Rightarrow> u32 \<Rightarrow> seq \<Rightarrow> bool \<times> seq" where
  "rw_mgr_mem_calibrate_vfifo_end read_group test_bgn s =
     (let s = reg_file_set_stage CAL_STAGE_VFIFO_AFTER_WRITES s;
          s = reg_file_set_sub_stage CAL_SUBSTAGE_VFIFO_CENTER s;
          write_group = (if DDRX \<noteq> 0 then read_group
            else read_group div of_nat (RW_MGR_MEM_IF_READ_DQS_WIDTH div RW_MGR_MEM_IF_WRITE_DQS_WIDTH));
          s = reg_file_set_group read_group s;
          (ok, s) = vfifo_end_shadow_regs write_group read_group test_bgn shadow_regs True s
      in if ok then (True, s)
         else (False, set_failing_group_stage write_group CAL_STAGE_VFIFO_AFTER_WRITES
                 CAL_SUBSTAGE_VFIFO_CENTER s))"

section \<open>Latencies\<close>

definition nop_cycles_of :: "u32 \<Rightarrow> u32" where
  "nop_cycles_of wlat =
     (if QUARTER_RATE_MODE \<noteq> 0 then (wlat + 6) div 4 - 1
      else if HALF_RATE_MODE \<noteq> 0 then
        if wlat mod 2 \<noteq> 0 then (wlat - 1) div 2 - 1 else wlat div 2 - 1
      else wlat - 2)"

definition max_latency :: u32 where
  "max_latency =
     (if QUARTER_RATE_MODE \<noteq> 0 then push_bit MAX_LATENCY_COUNT_WIDTH 1 div 4 - 1
      else if HALF_RATE_MODE \<noteq> 0 then push_bit MAX_LATENCY_COUNT_WIDTH 1 div 2 - 1
      else push_bit MAX_LATENCY_COUNT_WIDTH 1 div 1 - 1)"

definition write_latency_of :: "u32 \<Rightarrow> u32" where
  "write_latency_of wlat =
     (if QUARTER_RATE_MODE \<noteq> 0 then (wlat + 5) div 4 + 1
      else if HALF_RATE_MODE \<noteq> 0 then (wlat - 1) div 2 + 1
      else wlat + 1)"

definition read_latency_of :: "u32 \<Rightarrow> u32" where
  "read_latency_of rlat =
     (let l = (if QUARTER_RATE_MODE \<noteq> 0 then (rlat + 1) div 4 + 8
               else if HALF_RATE_MODE \<noteq> 0 then (rlat + 1) div 2 + 8
               else rlat + 16)
      in if l > max_latency then max_latency else l)"

definition mem_config :: cmd where
  "mem_config s =
     (let (w, s) = IORD_32DIRECT MEM_T_WL_ADD 0 s;
          (a, s) = IORD_32DIRECT DATA_MGR_MEM_T_ADD 0 s;
          wlat = w + a + 1;
          (rlat, s) = IORD_32DIRECT MEM_T_RL_ADD 0 s;
          s = upd_gbl (\<lambda>g. g\<lparr>rw_wl_nop_cycles := nop_cycles_of wlat, curr_read_lat := read_latency_of rlat\<rparr>) s;
          s = IOWR_32DIRECT PHY_MGR_PHY_RLAT 0 (read_latency_of rlat) s;
          s = upd_gbl (\<lambda>g. g\<lparr>curr_write_lat := write_latency_of wlat\<rparr>) s;
          s = IOWR_32DIRECT PHY_MGR_AFI_WLAT 0 (write_latency_of wlat - 2) s
      in mem_precharge_and_activate s)"

text \<open>Without calibration: fixed phases and delays, and fixed depths of the two FIFOs.\<close>

definition mem_skip_calibrate :: cmd where
  "mem_skip_calibrate = seqs [
     for_each shadow_ranks (\<lambda>r. seqs [
       select_shadow_regs_for_update (of_nat r) 0 1,
       for_each [0..<RW_MGR_MEM_IF_READ_DQS_WIDTH] (\<lambda>i. seqs [
         scc_mgr_set_dqs_en_phase (of_nat i) 0,
         scc_mgr_set_dqdqs_output_phase (of_nat i) (of_nat (125 * IO_DLL_CHAIN_LENGTH div 100 - 2))]),
       IOWR_32DIRECT SCC_MGR_DQS_ENA 0 0xff,
       IOWR_32DIRECT SCC_MGR_DQS_IO_ENA 0 0xff,
       for_each [0..<RW_MGR_MEM_IF_WRITE_DQS_WIDTH] (\<lambda>i. seqs [
         IOWR_32DIRECT SCC_MGR_GROUP_COUNTER 0 (of_nat i),
         IOWR_32DIRECT SCC_MGR_DQ_ENA 0 0xff,
         IOWR_32DIRECT SCC_MGR_DM_ENA 0 0xff]),
       IOWR_32DIRECT SCC_MGR_UPD 0 0]),
     for_each [0..<RW_MGR_MEM_IF_READ_DQS_WIDTH] (\<lambda>i. seqs [
       scc_mgr_set_dqs_bus_in_delay (of_nat i) 10,
       scc_mgr_load_dqs (of_nat i)]),
     IOWR_32DIRECT SCC_MGR_UPD 0 0,
     for_each [0..<CALIB_VFIFO_OFFSET] (\<lambda>j.
       if HARD_PHY \<noteq> 0 then IOWR_32DIRECT PHY_MGR_CMD_INC_VFIFO_HARD_PHY 0 0xff
       else IOWR_32DIRECT PHY_MGR_CMD_INC_VFIFO_FR 0 0xff),
     IOWR_32DIRECT PHY_MGR_CMD_FIFO_RESET 0 0,
     upd_gbl (\<lambda>g. g\<lparr>curr_read_lat := of_nat CALIB_LFIFO_OFFSET\<rparr>),
     (\<lambda>s. IOWR_32DIRECT PHY_MGR_PHY_RLAT 0 (curr_read_lat (gbl s)) s)]"

section \<open>The stages of a group\<close>

text \<open>The read groups of a write group, until one of them fails.\<close>

fun for_read_groups ::
  "(u32 \<Rightarrow> u32 \<Rightarrow> seq \<Rightarrow> bool \<times> seq) \<Rightarrow> u32 list \<Rightarrow> u32 \<Rightarrow> seq \<Rightarrow> bool \<times> seq" where
  "for_read_groups calibrate [] read_test_bgn s = (True, s)"
| "for_read_groups calibrate (rg # rgs) read_test_bgn s =
     (let (ok, s) = calibrate rg read_test_bgn s
      in if ok then for_read_groups calibrate rgs (read_test_bgn + of_nat RW_MGR_MEM_DQ_PER_READ_DQS) s
         else (False, s))"

definition sweep_all_groups :: "seq \<Rightarrow> bool" where
  "sweep_all_groups s \<longleftrightarrow> phy_debug_mode_flags (gbl s) AND PHY_DEBUG_SWEEP_ALL_GROUPS \<noteq> 0"

fun writes_shadow_regs :: "u32 \<Rightarrow> u32 \<Rightarrow> (nat \<times> nat) list \<Rightarrow> bool \<Rightarrow> seq \<Rightarrow> bool \<times> seq" where
  "writes_shadow_regs write_group write_test_bgn [] ok s = (ok, s)"
| "writes_shadow_regs write_group write_test_bgn (rsr # rs) ok s =
     (if STATIC_CALIB_STEPS AND CALIB_SKIP_WRITES = 0 \<and> STATIC_CALIB_STEPS AND CALIB_SKIP_DELAY_SWEEPS = 0
         \<and> \<not> skip_shadow_reg (snd rsr) s
      then let s = select_shadow_regs_for_update (of_nat (fst rsr)) write_group 1 s;
               (c, s) = rw_mgr_mem_calibrate_writes (fst rsr) write_group write_test_bgn s
           in if \<not> c \<and> \<not> sweep_all_groups s then (False, s)
              else writes_shadow_regs write_group write_test_bgn rs (ok \<and> c) s
      else writes_shadow_regs write_group write_test_bgn rs ok s)"

text \<open>Each stage runs when the stages before it have passed.\<close>

definition and_then :: "(seq \<Rightarrow> bool \<times> seq) \<Rightarrow> (seq \<Rightarrow> bool \<times> seq) \<Rightarrow> seq \<Rightarrow> bool \<times> seq" where
  "and_then f g s = (let (ok, s) = f s in if ok then g s else (False, s))"

definition calibrate_write_group :: "u32 \<Rightarrow> u32 \<Rightarrow> seq \<Rightarrow> bool \<times> seq" where
  "calibrate_write_group write_group write_test_bgn s =
     (let s = IOWR_32DIRECT SCC_MGR_GROUP_COUNTER 0 write_group s;
          s = scc_mgr_zero_group write_group write_test_bgn 0 s;
          vfifo = (\<lambda>rg tb s. if STATIC_CALIB_STEPS AND CALIB_SKIP_VFIFO = 0
                     then rw_mgr_mem_calibrate_vfifo rg tb s else (True, s));
          wlevel = (\<lambda>s. if (DDRX \<noteq> 0 \<or> RLDRAMII \<noteq> 0) \<and> \<not> (ARRIAV \<noteq> 0 \<or> CYCLONEV \<noteq> 0)
                       \<and> STATIC_CALIB_STEPS AND CALIB_SKIP_WLEVEL = 0
                     then rw_mgr_mem_calibrate_wlevel write_group write_test_bgn s else (True, s));
          vfifo_end = (\<lambda>rg tb s. if STATIC_CALIB_STEPS AND CALIB_SKIP_WRITES = 0
                     then rw_mgr_mem_calibrate_vfifo_end rg tb s else (True, s))
      in and_then (for_read_groups vfifo (read_groups write_group) 0)
           (and_then wlevel
             (and_then (writes_shadow_regs write_group write_test_bgn shadow_regs True)
               (for_read_groups vfifo_end (read_groups write_group) 0))) s)"

text \<open>
  The groups that \<open>skip_groups\<close> leaves. A group that fails ends the calibration (\<open>None\<close>), unless the
  debug flag asks for a sweep of all groups: then the failing groups are counted.
\<close>

fun calibrate_groups :: "nat list \<Rightarrow> u32 \<Rightarrow> u32 \<Rightarrow> seq \<Rightarrow> u32 option \<times> seq" where
  "calibrate_groups [] run_groups failing_groups s = (Some failing_groups, s)"
| "calibrate_groups (g # gs) run_groups failing_groups s =
     (let current_run = run_groups AND (push_bit RW_MGR_NUM_DQS_PER_WRITE_GROUP 1 - 1);
          run_groups = drop_bit RW_MGR_NUM_DQS_PER_WRITE_GROUP run_groups
      in if current_run = 0 then calibrate_groups gs run_groups failing_groups s
         else let (ok, s) = calibrate_write_group (of_nat g) (of_nat (g * RW_MGR_MEM_DQ_PER_WRITE_DQS)) s
              in if ok then calibrate_groups gs run_groups failing_groups s
                 else if sweep_all_groups s then calibrate_groups gs run_groups (failing_groups + 1) s
                 else (None, s))"

text \<open>One repetition: all groups, then the latency FIFO.\<close>

definition calibrate_once :: "u32 \<Rightarrow> seq \<Rightarrow> (bool \<times> u32) \<times> seq" where
  "calibrate_once failing_groups s =
     (let s = scc_mgr_zero_all s;
          (r, s) = calibrate_groups [0..<RW_MGR_MEM_IF_WRITE_DQS_WIDTH] (NOT (skip_groups (param s)))
            failing_groups s
      in case r of
           None \<Rightarrow> ((False, failing_groups), s)
         | Some failing_groups \<Rightarrow>
             if failing_groups \<noteq> 0 then ((False, failing_groups), s)
             else if STATIC_CALIB_STEPS AND CALIB_SKIP_LFIFO = 0 \<and> skip_groups (param s) = 0
             then let (ok, s) = rw_mgr_mem_calibrate_lfifo s in ((ok, failing_groups), s)
             else ((True, failing_groups), s))"

fun calibrate_repeat :: "nat \<Rightarrow> u32 \<Rightarrow> seq \<Rightarrow> bool \<times> seq" where
  "calibrate_repeat 0 failing_groups s = (True, s)"
| "calibrate_repeat (Suc n) failing_groups s =
     (let (r, s) = calibrate_once failing_groups s
      in if fst r then calibrate_repeat n (snd r) s else (False, s))"

definition mem_calibrate :: "seq \<Rightarrow> bool \<times> seq" where
  "mem_calibrate s =
     (let s = upd_gbl (\<lambda>g. g\<lparr>error_substage := CAL_SUBSTAGE_NIL, error_stage := CAL_STAGE_NIL,
            error_group := 0xff, fom_in := 0, fom_out := 0\<rparr>) s;
          s = mem_config s;
          s = (if ARRIAV \<noteq> 0 \<or> CYCLONEV \<noteq> 0
               then for_each [0..<RW_MGR_MEM_IF_READ_DQS_WIDTH] (\<lambda>i. seqs [
                 IOWR_32DIRECT SCC_MGR_GROUP_COUNTER 0 (of_nat i),
                 scc_set_bypass_mode (of_nat i) (if HARD_PHY \<noteq> 0 then 0x1 else 0x0)]) s
               else s);
          (ok, s) =
            (if ucast (dyn_calib_steps s) AND CALIB_SKIP_ALL = CALIB_SKIP_ALL
             then (True, mem_skip_calibrate s)
             else calibrate_repeat NUM_CALIB_REPEAT 0 s)
      in if ok then (True, IOWR_32DIRECT SCC_MGR_UPD 0 0 s) else (False, s))"

section \<open>The run and its report\<close>

definition half_fom :: "u32 \<Rightarrow> u32" where
  "half_fom fom = (if fom div 2 > 0xff then 0xff else fom div 2)"

definition report_pass :: cmd where
  "report_pass s =
     (let s = upd_gbl (\<lambda>g. g\<lparr>fom_in := half_fom (fom_in g), fom_out := half_fom (fom_out g)\<rparr>) s;
          debug_info = fom_in (gbl s) OR push_bit 8 (fom_out (gbl s))
      in seqs [
        IOWR_32DIRECT REG_FILE_FOM 0 debug_info,
        IOWR_32DIRECT PHY_MGR_CAL_DEBUG_INFO 0 debug_info,
        IOWR_32DIRECT PHY_MGR_CAL_STATUS 0 PHY_MGR_CAL_SUCCESS] s)"

definition report_fail :: cmd where
  "report_fail s =
     (let debug_info = error_stage (gbl s) OR push_bit 8 (error_substage (gbl s))
            OR push_bit 16 (error_group (gbl s))
      in seqs [
        IOWR_32DIRECT REG_FILE_FAILING_STAGE 0 debug_info,
        IOWR_32DIRECT PHY_MGR_CAL_DEBUG_INFO 0 debug_info,
        IOWR_32DIRECT PHY_MGR_CAL_STATUS 0 PHY_MGR_CAL_FAIL,
        IOWR_32DIRECT REG_FILE_FAILING_STAGE 0 debug_info] s)"

definition run_mem_calibrate :: "seq \<Rightarrow> bool \<times> seq" where
  "run_mem_calibrate s =
     (let s = IOWR_32DIRECT PHY_MGR_CAL_STATUS 0 PHY_MGR_CAL_RESET s;
          (ctrlcfg, s) = IORD_32DIRECT CTRL_CONFIG_REG 0 s;
          s = IOWR_32DIRECT CTRL_CONFIG_REG 0 (ctrlcfg AND 0xFFBFFFFF) s;
          s = initialize s;
          s = rw_mgr_mem_initialize s;
          (pass, s) = mem_calibrate s;
          s = mem_precharge_and_activate s;
          s = IOWR_32DIRECT PHY_MGR_CMD_FIFO_RESET 0 0 s;
          s = (if phy_debug_mode_flags (gbl s) AND PHY_DEBUG_IN_DEBUG_MODE = 0
               then IOWR_32DIRECT PHY_MGR_MUX_SEL 0 0x2 (rw_mgr_mem_handoff s) else s);
          s = IOWR_32DIRECT CTRL_CONFIG_REG 0 ctrlcfg s
      in (pass, if pass then report_pass s else report_fail s))"

definition user_init_cal_req :: cmd where
  "user_init_cal_req s =
     (let (scc_afi_reg, s) = IORD_32DIRECT SCC_MGR_AFI_CAL_INIT 0 s
      in if scc_afi_reg = 1 \<or> scc_afi_reg = 16
         then seqs [
           initialize,
           rw_mgr_mem_initialize,
           rw_mgr_mem_handoff,
           IOWR_32DIRECT PHY_MGR_MUX_SEL 0 0,
           IOWR_32DIRECT PHY_MGR_CAL_STATUS 0 PHY_MGR_CAL_SUCCESS] s
         else if scc_afi_reg = 2 \<or> scc_afi_reg = 32 then snd (run_mem_calibrate s)
         else s)"

text \<open>
  The entry point. The two structures live on its stack: the fields that it does not set have any
  value, as in the state it is applied to.
\<close>

definition sdram_calibration :: "phyctrl \<Rightarrow> seq \<Rightarrow> bool \<times> seq" where
  "sdram_calibration m s =
     (let s = upd_gbl (\<lambda>g. g\<lparr>phy_debug_mode_flags := 0 OR PHY_DEBUG_ENABLE_CAL_RPT\<rparr>) s;
          s = initialize_reg_file s;
          s = initialize_hps_phy m s;
          s = scc_mgr_initialize s;
          s = initialize_tracking s;
          s = upd_param (\<lambda>p. p\<lparr>skip_ranks := replicate RW_MGR_MEM_NUMBER_OF_RANKS 0,
                skip_shadow_regs := replicate NUM_SHADOW_REGS 0, skip_groups := 0\<rparr>) s;
          s = hc_initialize_rom_data s;
          s = reg_file_set_stage CAL_STAGE_NIL s;
          s = reg_file_set_group 0 s;
          s = s\<lparr>dyn_calib_steps := ucast STATIC_CALIB_STEPS\<rparr>;
          s = s\<lparr>skip_delay_mask :=
                (if ucast (dyn_calib_steps s) AND CALIB_SKIP_DELAY_LOOPS = 0 then 0xff else 0x0)\<rparr>
      in run_mem_calibrate s)"

end
