(* ===== verification/SearchFrames.thy ===== *)
theory SearchFrames
  imports Calibrate
begin

text \<open>
  The searches change nothing but the history of accesses: every function of the DQS enable search,
  of the edge searches and of write leveling relates its state to the next by \<open>io_at\<close>.
\<close>

lemma io_val_reads_ok [io_val_rules]: "io_val (reads_ok g n)"
  unfolding reads_ok_def by (rule io_val_atI; (intro io_at_rules; assumption?))

lemmas io_at_reads_ok [io_at_rules] = io_val_reads_ok [THEN io_at_snd]

section \<open>DQS enable search\<close>

lemma io_find_failing_vfifo [io_at_rules]: "io_at s t \<Longrightarrow> io_at s (snd (find_failing_vfifo g k v t))"
proof (induction g k v t rule: find_failing_vfifo.induct)
  case (1 g k v t)
  obtain ok t1 where t1: "reads_ok g 5 t = (ok, t1)" by fastforce
  obtain v' t2 where t2: "rw_mgr_incr_vfifo g v t1 = (v', t2)" by fastforce
  have "io_at s t1" using io_at_snd [OF io_val_reads_ok 1(2)] by (metis snd_conv t1)
  moreover from this have "io_at s t2"
    using io_at_snd [OF io_val_vfifo(1)] by (metis snd_conv t2)
  ultimately show ?case
    using 1 t1 t2 by (subst find_failing_vfifo.simps) (simp add: Let_def)
qed

lemma io_begin_ptaps [io_at_rules]: "io_at s t \<Longrightarrow> io_at s (snd (begin_ptaps g ps w t))"
proof (induction ps arbitrary: w t)
  case (Cons p ps)
  show ?case unfolding begin_ptaps.simps
    by (intro io_at_rules Cons.IH; (rule Cons.prems | assumption))
qed simp

lemma io_begin_vfifos [io_at_rules]: "io_at s t \<Longrightarrow> io_at s (snd (begin_vfifos g is v w t))"
proof (induction "is" arbitrary: v w t)
  case (Cons i "is")
  show ?case unfolding begin_vfifos.simps
    by (intro io_at_rules Cons.IH; (rule Cons.prems | assumption))
qed simp

lemma io_at_snd_split [io_at_rules]:
  "(\<And>i p v w. r = (Some (i, p), v, w) \<Longrightarrow> io_at s (snd (f i p v w))) \<Longrightarrow>
   (\<And>v w. r = (None, v, w) \<Longrightarrow> io_at s (snd (g v w))) \<Longrightarrow>
   io_at s (snd (case r of (Some (i, p), v, w) \<Rightarrow> f i p v w | (None, v, w) \<Rightarrow> g v w))"
  by (auto split: prod.splits option.splits)

lemma io_begin_dtaps [io_at_rules]: "io_at s t \<Longrightarrow> io_at s (snd (begin_dtaps g ds w v t))"
proof (induction ds arbitrary: v w t)
  case (Cons d ds)
  show ?case unfolding begin_dtaps.simps
    by (intro io_at_rules Cons.IH; (rule Cons.prems | assumption))
qed simp

lemma io_prev_ptap [io_at_rules]: "io_at s t \<Longrightarrow> io_at s (snd (prev_ptap g p v t))"
  unfolding prev_ptap_def by (intro io_at_rules; assumption)

lemma io_narrow_dtaps [io_at_rules]: "io_at s t \<Longrightarrow> io_at s (snd (narrow_dtaps g ds w b t))"
proof (induction ds arbitrary: w b t)
  case (Cons d ds)
  show ?case unfolding narrow_dtaps.simps
    by (intro io_at_rules Cons.IH; (rule Cons.prems | assumption))
qed simp

lemma io_narrow_begin [io_at_rules]: "io_at s t \<Longrightarrow> io_at s (snd (narrow_begin g p v w t))"
  unfolding narrow_begin_def by (intro io_at_rules; assumption)

lemma io_next_ptap [io_at_rules]: "io_at s t \<Longrightarrow> io_at s (snd (next_ptap g p v t))"
  unfolding next_ptap_def by (intro io_at_rules; assumption)

lemma io_end_ptaps [io_at_rules]: "io_at s t \<Longrightarrow> io_at s (snd (end_ptaps g ps j b w t))"
proof (induction ps arbitrary: j b w t)
  case (Cons p ps)
  show ?case unfolding end_ptaps.simps
    by (intro io_at_rules Cons.IH; (rule Cons.prems | assumption))
qed simp

lemma io_at_snd_split4 [io_at_rules]:
  "(\<And>p v b w. r = (Some p, v, b, w) \<Longrightarrow> io_at s (snd (f p v b w))) \<Longrightarrow>
   (\<And>v b w. r = (None, v, b, w) \<Longrightarrow> io_at s (snd (g v b w))) \<Longrightarrow>
   io_at s (snd (case r of (Some p, v, b, w) \<Rightarrow> f p v b w | (None, v, b, w) \<Rightarrow> g v b w))"
  by (auto split: prod.splits option.splits)

lemma io_end_vfifos [io_at_rules]: "io_at s t \<Longrightarrow> io_at s (snd (end_vfifos g n p j v b w t))"
proof (induction n arbitrary: p j v b w t)
  case (Suc n)
  show ?case unfolding end_vfifos.simps
    by (intro io_at_rules Suc.IH; (rule Suc.prems | assumption))
qed simp

lemma io_find_end_ptap [io_at_rules]: "io_at s t \<Longrightarrow> io_at s (snd (find_end_ptap g i p v b w t))"
  unfolding find_end_ptap_def by (intro io_at_rules; assumption)

lemma io_end_dtaps [io_at_rules]: "io_at s t \<Longrightarrow> io_at s (snd (end_dtaps g es d w t))"
proof (induction es arbitrary: d w t)
  case (Cons e es)
  show ?case unfolding end_dtaps.simps
    by (intro io_at_rules Cons.IH; (rule Cons.prems | assumption))
qed simp

lemma io_seek_dtap [io_at_rules]: "io_at s t \<Longrightarrow> io_at s (snd (seek_dtap g b ds t))"
proof (induction ds arbitrary: t)
  case (Cons d ds)
  show ?case unfolding seek_dtap.simps
    by (intro io_at_rules Cons.IH; (rule Cons.prems | assumption))
qed simp

lemma io_measure_dtaps [io_at_rules]: "io_at s t \<Longrightarrow> io_at s (measure_dtaps g p d v n t)"
  unfolding measure_dtaps_def by (intro io_at_rules; assumption)

lemma io_center_vfifo [io_at_rules]: "io_at s t \<Longrightarrow> io_at s (snd (center_vfifo g n v t))"
proof (induction n arbitrary: v t)
  case (Suc n)
  show ?case unfolding center_vfifo.simps
    by (intro io_at_rules Suc.IH; (rule Suc.prems | assumption))
qed simp

lemma io_at_snd_split_begin [io_at_rules]:
  "(\<And>d i p v w. io_at s (snd (f d i p v w))) \<Longrightarrow> (\<And>v w. io_at s (snd (g v w))) \<Longrightarrow>
   io_at s (snd (case r of (None, v, w) \<Rightarrow> g v w | (Some (d, i, p), v, w) \<Rightarrow> f d i p v w))"
  by (auto split: prod.splits option.splits)

lemma io_at_snd_split_end [io_at_rules]:
  "(\<And>p v b w. io_at s (snd (f p v b w))) \<Longrightarrow> io_at s (snd a) \<Longrightarrow>
   io_at s (snd (case r of None \<Rightarrow> a | Some (p, v, b, w :: u32) \<Rightarrow> f p v b w))"
  by (auto split: prod.splits option.splits)

lemma io_find_right_edge [io_at_rules]: "io_at s t \<Longrightarrow> io_at s (snd (find_right_edge g p d v b w t))"
  unfolding find_right_edge_def by (intro io_at_rules; assumption)

lemma io_find_dqs_en_phase [io_at_rules]:
  "io_at s t \<Longrightarrow> io_at s (snd (rw_mgr_mem_calibrate_vfifo_find_dqs_en_phase g t))"
  unfolding rw_mgr_mem_calibrate_vfifo_find_dqs_en_phase_def by (intro io_at_rules; assumption)

lemma io_sweep [io_at_rules]:
  "io_at s t \<Longrightarrow>
   io_at s (snd (rw_mgr_mem_calibrate_vfifo_find_dqs_en_phase_sweep_dq_in_delay w r b t))"
  unfolding rw_mgr_mem_calibrate_vfifo_find_dqs_en_phase_sweep_dq_in_delay_def
  by (intro io_at_rules io_rules; (assumption | (unfold Let_def, intro io_rules)))

section \<open>Edge searches\<close>

lemma io_center_test [io_at_rules]: "io_at s t \<Longrightarrow> io_at s (snd (center_test n w r u t))"
  unfolding center_test_def by (intro io_at_rules; assumption)

lemma io_search_left_edges:
  assumes "\<And>s t. io_at s t \<Longrightarrow> io_at s (snd (test t))"
  shows "io_at s t \<Longrightarrow> io_at s (snd (search_left_edges test w b ds k e t))"
proof (induction ds arbitrary: k e t)
  case (Cons d ds)
  show ?case unfolding search_left_edges.simps
    by (intro io_at_rules Cons.IH assms; (rule Cons.prems | assumption))
qed simp

lemma io_shift_dqs_in [io_rules]: "io (shift_dqs_in r x y d)"
  unfolding shift_dqs_in_def Let_def by (intro io_rules)

lemma io_search_right_edges:
  assumes "\<And>s t. io_at s t \<Longrightarrow> io_at s (snd (test t))"
  shows "io_at s t \<Longrightarrow> io_at s (snd (search_right_edges test r x y ds k e t))"
proof (induction ds arbitrary: k e t)
  case (Cons d ds)
  show ?case unfolding search_right_edges.simps
    by (intro io_at_rules Cons.IH assms io_shift_dqs_in [THEN io_at_cmd]; (rule Cons.prems | assumption))
qed simp

lemma io_clip_shift:
  "io_val R \<Longrightarrow> io_val Q \<Longrightarrow> io_at s t \<Longrightarrow> io_at s (snd (clip_shift R Q n k t))"
  unfolding clip_shift_def by (intro io_at_rules; (rule io_at_snd)?; assumption)

lemma io_write_test_one [io_at_rules]: "io_at s t \<Longrightarrow> io_at s (snd (write_test_one n w t))"
  unfolding write_test_one_def by (intro io_at_rules; assumption)

lemma io_write_test_all [io_at_rules]: "io_at s t \<Longrightarrow> io_at s (snd (write_test_all n w t))"
  unfolding write_test_all_def by (intro io_at_rules; assumption)

lemma io_write_left_edges [io_at_rules]: "io_at s t \<Longrightarrow> io_at s (snd (write_left_edges n w b ds k e t))"
proof (induction ds arbitrary: k e t)
  case (Cons d ds)
  show ?case unfolding write_left_edges.simps
    by (intro io_at_rules Cons.IH; (rule Cons.prems | assumption))
qed simp

lemma io_dll_lock_wait [io_rules]: "io rw_mgr_mem_dll_lock_wait"
  unfolding rw_mgr_mem_dll_lock_wait_def by (rule io_id)

lemmas io_at_dll [io_at_rules] = io_dll_lock_wait [THEN io_at_cmd]

lemma io_write_right_edges [io_at_rules]: "io_at s t \<Longrightarrow> io_at s (snd (write_right_edges n w x ds k e t))"
proof (induction ds arbitrary: k e t)
  case (Cons d ds)
  show ?case unfolding write_right_edges.simps
    by (intro io_at_rules Cons.IH; (rule Cons.prems | assumption))
qed simp

lemma io_mask_window_left [io_at_rules]: "io_at s t \<Longrightarrow> io_at s (snd (mask_window_left n w ds x t))"
proof (induction ds arbitrary: x t)
  case (Cons d ds)
  show ?case unfolding mask_window_left.simps
    by (intro io_at_rules Cons.IH; (rule Cons.prems | assumption))
qed simp

lemma io_at_snd_let_window [io_at_rules]:
  "(\<And>x. io_at s (snd (g (x :: window)))) \<Longrightarrow> io_at s (snd (let x = b in g x))"
  by simp

lemma io_mask_window_right [io_at_rules]:
  "io_at s t \<Longrightarrow> io_at s (snd (mask_window_right n w k ds x t))"
proof (induction ds arbitrary: x t)
  case (Cons d ds)
  show ?case unfolding mask_window_right.simps
    by (intro io_at_rules Cons.IH; (rule Cons.prems | assumption))
qed simp

lemma io_center_mask [io_at_rules]: "io_at s t \<Longrightarrow> io_at s (snd (center_mask n w k t))"
  unfolding center_mask_def by (intro io_at_rules; assumption)

lemma io_center_read_pin:
  "io_at s (snd ms) \<Longrightarrow> io_at s (snd (center_read_pin w b e k x y i ms))"
  unfolding center_read_pin_def
  by (intro io_at_rules io_clip_shift io_val_rules; assumption)

lemma io_center_write_pin:
  "io_at s (snd ms) \<Longrightarrow> io_at s (snd (center_write_pin w e k x y i ms))"
  unfolding center_write_pin_def
  by (intro io_at_rules io_clip_shift io_val_rules; assumption)

lemma io_gradual_step:
  "(\<And>d. io (f d)) \<Longrightarrow> io_at s t \<Longrightarrow> io_at s (gradual_step f d t)"
  unfolding gradual_step_def by (intro io_at_rules io_rules; assumption)

lemma io_gradual_down [io_at_rules]:
  "(\<And>d. io (f d)) \<Longrightarrow> io_at s t \<Longrightarrow> io_at s (snd (gradual_down f n d t))"
proof (induction f n d t rule: gradual_down.induct)
  case (1 f n d t)
  then show ?case by (subst gradual_down.simps) (auto simp: Let_def io_gradual_step)
qed

lemma io_gradual_up [io_at_rules]:
  "(\<And>d. io (f d)) \<Longrightarrow> io_at s t \<Longrightarrow> io_at s (snd (gradual_up f n d t))"
proof (induction f n d t rule: gradual_up.induct)
  case (1 f n d t)
  then show ?case by (subst gradual_up.simps) (auto simp: Let_def io_gradual_step)
qed

lemma io_gradual_dqs [io_at_rules]:
  "io_at s t \<Longrightarrow> io_at s (scc_mgr_set_group_dqs_io_and_oct_out1_gradual w d t)"
  unfolding scc_mgr_set_group_dqs_io_and_oct_out1_gradual_def
  by (intro io_at_rules io_rules; assumption)

end
