(* ===== verification/CalibrateFrames.thy ===== *)
theory CalibrateFrames
  imports SearchFrames
begin

text \<open>
  What a calibration does to the state, for any relation that accesses, recorded errors and updates of
  the figures keep: the lemmas are proved once, for the relation as a locale parameter, and read off
  for the parameters, the first error, and the history.
\<close>

lemma io_read_rules:
  "io_at s t \<Longrightarrow> io_at s (snd (IORD_32DIRECT b k t))"
  by (rule io_at_snd [OF io_val_IORD])

lemma io_add_group [io_rules]: "io (scc_mgr_apply_group_all_out_delay_add w b d)"
  unfolding scc_mgr_apply_group_all_out_delay_add_def READ_SCC_DQ_OUT2_DELAY_def
    READ_SCC_DM_IO_OUT2_DELAY_def READ_SCC_DQS_IO_OUT2_DELAY_def READ_SCC_OCT_OUT2_DELAY_def
    Let_def prod.case
  by (intro io_rules)

lemma io_add_all_ranks: "io (scc_mgr_apply_group_all_out_delay_add_all_ranks w b d)"
  unfolding scc_mgr_apply_group_all_out_delay_add_all_ranks_def by (intro io_rules)

lemma stages_not_nil [simp]:
  "CAL_STAGE_VFIFO \<noteq> CAL_STAGE_NIL" "CAL_STAGE_WLEVEL \<noteq> CAL_STAGE_NIL"
  "CAL_STAGE_LFIFO \<noteq> CAL_STAGE_NIL" "CAL_STAGE_WRITES \<noteq> CAL_STAGE_NIL"
  "CAL_STAGE_VFIFO_AFTER_WRITES \<noteq> CAL_STAGE_NIL"
  by (simp_all add: seq_regs)

locale calibration_relation = later R for R :: "seq \<Rightarrow> seq \<Rightarrow> bool" +
  assumes rel_trans: "R s t \<Longrightarrow> R t u \<Longrightarrow> R s u"
    and rel_io: "io_at s t \<Longrightarrow> R s t"
    and rel_fail: "stage \<noteq> CAL_STAGE_NIL \<Longrightarrow> R s (set_failing_group_stage grp stage substage s)"
    and rel_gbl: "(\<And>g. error_stage (f g) = error_stage g \<and> error_substage (f g) = error_substage g \<and>
        error_group (f g) = error_group g \<and> phy_debug_mode_flags (f g) = phy_debug_mode_flags g) \<Longrightarrow>
      R s (upd_gbl f s)"
begin

lemma after_io: "(\<And>t. io_at t (c t)) \<Longrightarrow> R s t \<Longrightarrow> R s (c t)"
  using rel_trans rel_io by blast

lemma after_io_snd: "(\<And>t. io_at t (snd (f t))) \<Longrightarrow> R s t \<Longrightarrow> R s (snd (f t))"
  using rel_trans rel_io by blast

lemma after_cmd: "io c \<Longrightarrow> R s t \<Longrightarrow> R s (c t)"
  by (rule after_io) (auto dest: ioD)

lemma after_val: "io_val f \<Longrightarrow> R s t \<Longrightarrow> R s (snd (f t))"
  by (rule after_io_snd) (auto intro: io_at_snd)

lemma after_fail:
  "stage \<noteq> CAL_STAGE_NIL \<Longrightarrow> R s t \<Longrightarrow> R s (set_failing_group_stage grp stage substage t)"
  using rel_trans rel_fail by blast

lemma after_gbl:
  "(\<And>g. error_stage (f g) = error_stage g \<and> error_substage (f g) = error_substage g \<and>
     error_group (f g) = error_group g \<and> phy_debug_mode_flags (f g) = phy_debug_mode_flags g) \<Longrightarrow>
   R s t \<Longrightarrow> R s (upd_gbl f t)"
  using rel_trans rel_gbl by blast

lemma after_figures:
  "R s t \<Longrightarrow> R s (upd_gbl (\<lambda>g. g\<lparr>fom_in := k g\<rparr>) t)"
  "R s t \<Longrightarrow> R s (upd_gbl (\<lambda>g. g\<lparr>fom_out := k g\<rparr>) t)"
  "R s t \<Longrightarrow> R s (upd_gbl (\<lambda>g. g\<lparr>curr_read_lat := k g\<rparr>) t)"
  "R s t \<Longrightarrow> R s (upd_gbl (\<lambda>g. g\<lparr>curr_write_lat := k g\<rparr>) t)"
  "R s t \<Longrightarrow> R s (upd_gbl (\<lambda>g. g\<lparr>rw_wl_nop_cycles := k g, curr_read_lat := k' g\<rparr>) t)"
  by (auto intro!: after_gbl)

lemmas after_commands =
  after_figures
  io_IOWR [THEN after_cmd] io_seqs_Cons [THEN after_cmd] io_seqs_Nil [THEN after_cmd]
  io_for_each [THEN after_cmd] io_val_IORD [THEN after_val]
  io_scc_pins [THEN after_cmd] io_scc_loads [THEN after_cmd] io_scc_groups [THEN after_cmd]
  io_scc_all [THEN after_cmd] io_val_scc [THEN after_val]
  io_for_ranks [THEN after_cmd] io_load_delay [THEN after_cmd] io_delay [THEN after_cmd]
  io_rw_mgr [THEN after_cmd] io_rw_mgr_ranks [THEN after_cmd] io_reg_file [THEN after_cmd]
  io_setup [THEN after_cmd] io_val_tests [THEN after_val] io_load_patterns [THEN after_cmd]
  io_val_all_ranks [THEN after_val] io_val_vfifo [THEN after_val]

lemmas rules = structure_rules after_commands

lemma rel_refl: "R s s"
  by (rule rel_io) simp

lemma lfifo_loop: "R s t \<Longrightarrow> R s (snd (lfifo_loop f t))"
proof (induction f t rule: lfifo_loop.induct)
  case (1 f t)
  define t1 where "t1 = IOWR_32DIRECT PHY_MGR_PHY_RLAT 0 (curr_read_lat (gbl t)) t"
  define r where "r = rw_mgr_mem_calibrate_read_test_all_ranks 0 NUM_READ_TESTS True True t1"
  define t3 where "t3 = upd_gbl (\<lambda>g. g\<lparr>curr_read_lat := curr_read_lat g - 1\<rparr>) (snd r)"
  have "R s t1" unfolding t1_def by (intro rules 1(2))
  then have r2: "R s (snd r)" unfolding r_def by (intro rules)
  then have t3: "R s t3" unfolding t3_def by (intro rules)
  have IH: "fst (fst r) \<Longrightarrow> 0 < curr_read_lat (gbl t3) \<Longrightarrow> R s (snd (lfifo_loop True t3))"
    using 1(1) [of t1 r "fst r" "snd r" t3] t3 by (simp add: t1_def r_def t3_def)
  show ?case
    by (subst lfifo_loop.simps)
      (simp add: Let_def t1_def [symmetric] r_def [symmetric] t3_def [symmetric] IH r2 t3 split_beta)
qed

lemma lfifo: "R s t \<Longrightarrow> R s (snd (rw_mgr_mem_calibrate_lfifo t))"
  unfolding rw_mgr_mem_calibrate_lfifo_def
  by (intro rules lfifo_loop after_fail; (assumption | simp))

lemma center_test: "R s t \<Longrightarrow> R s (snd (center_test n w r u t))"
  by (rule after_io_snd) (rule io_center_test, rule io_at_refl)

lemma after_left_edges: "R s t \<Longrightarrow> R s (snd (search_left_edges (center_test n w r u) w' b ds k e t))"
  by (rule after_io_snd) (rule io_search_left_edges [OF io_center_test], assumption, rule io_at_refl)

lemma after_right_edges:
  "R s t \<Longrightarrow> R s (snd (search_right_edges (center_test n w r u) r' x y ds k e t))"
  by (rule after_io_snd) (rule io_search_right_edges [OF io_center_test], assumption, rule io_at_refl)

lemma center_read_pin: "R s (snd ms) \<Longrightarrow> R s (snd (center_read_pin w b e k x y i ms))"
  using io_center_read_pin [of "snd ms" ms] rel_trans rel_io by blast

lemma center_write_pin: "R s (snd ms) \<Longrightarrow> R s (snd (center_write_pin w e k x y i ms))"
  using io_center_write_pin [of "snd ms" ms] rel_trans rel_io by blast

lemma vfifo_center: "R s t \<Longrightarrow> R s (snd (rw_mgr_mem_calibrate_vfifo_center n w r b u k t))"
  unfolding rw_mgr_mem_calibrate_vfifo_center_def
  by (intro rules after_fail after_left_edges after_right_edges snd_fold_res center_read_pin;
      (assumption | simp))

lemma after_write_edges:
  "R s t \<Longrightarrow> R s (snd (write_left_edges n w b ds k e t))"
  "R s t \<Longrightarrow> R s (snd (write_right_edges n w x ds' k e t))"
  "R s t \<Longrightarrow> R s (snd (center_mask n w d t))"
  "R s t \<Longrightarrow> R s (scc_mgr_set_group_dqs_io_and_oct_out1_gradual w y t)"
  by (rule after_io_snd [OF io_write_left_edges [OF io_at_refl]]
        after_io_snd [OF io_write_right_edges [OF io_at_refl]]
        after_io_snd [OF io_center_mask [OF io_at_refl]] after_io [OF io_gradual_dqs [OF io_at_refl]];
      assumption)+

lemma writes_center: "R s t \<Longrightarrow> R s (snd (rw_mgr_mem_calibrate_writes_center n w b t))"
  unfolding rw_mgr_mem_calibrate_writes_center_def
  by (intro rules after_fail after_write_edges snd_fold_res center_write_pin; (assumption | simp))

lemma writes: "R s t \<Longrightarrow> R s (snd (rw_mgr_mem_calibrate_writes n w b t))"
  unfolding rw_mgr_mem_calibrate_writes_def
  by (intro rules after_fail writes_center; (assumption | simp))

lemma set_dqs_in_io: "io (set_dqs_in r d n)"
  unfolding set_dqs_in_def WRITE_SCC_DQS_IN_DELAY_def by (intro io_rules)

lemma center_shadow_regs: "R s t \<Longrightarrow> R s (snd (center_shadow_regs w r b x rs ok t))"
proof (induction rs arbitrary: ok t)
  case (Cons rsr rs)
  show ?case unfolding center_shadow_regs.simps
    by (intro rules Cons.IH vfifo_center set_dqs_in_io [THEN after_cmd]; (rule Cons.prems | assumption))
qed simp

lemma dqs_in_for_each:
  "R s t \<Longrightarrow> R s (for_each xs (\<lambda>rsr s. if skip_shadow_reg (snd rsr) s then s
     else set_dqs_in r d (fst rsr) s) t)"
  by (rule after_cmd [OF io_for_each], rule ioI) (auto intro: ioD set_dqs_in_io)

lemma sweep:
  "R s t \<Longrightarrow> R s (snd (rw_mgr_mem_calibrate_vfifo_find_dqs_en_phase_sweep_dq_in_delay w r b t))"
  by (rule after_io_snd [OF io_sweep [OF io_at_refl]])

lemma vfifo_dqs_in: "R s t \<Longrightarrow> R s (snd (vfifo_dqs_in w r b x ts k t))"
proof (induction ts arbitrary: k t)
  case (Cons d ts)
  show ?case unfolding vfifo_dqs_in.simps
    by (intro rules Cons.IH center_shadow_regs dqs_in_for_each sweep; (rule Cons.prems | assumption))
qed simp

lemma guaranteed_read: "R s t \<Longrightarrow> R s (snd (guaranteed_read r t))"
  unfolding guaranteed_read_def by (intro rules; assumption)

lemma add_all_ranks: "R s t \<Longrightarrow> R s (scc_mgr_apply_group_all_out_delay_add_all_ranks w b d t)"
  by (rule after_cmd [OF io_add_all_ranks])

lemma vfifo_phases: "R s t \<Longrightarrow> R s (snd (vfifo_phases w r b d ps k t))"
proof (induction ps arbitrary: k t)
  case (Cons p ps)
  show ?case unfolding vfifo_phases.simps
    by (intro rules Cons.IH vfifo_dqs_in guaranteed_read; (rule Cons.prems | assumption))
qed simp

lemma vfifo_dtaps: "R s t \<Longrightarrow> R s (snd (vfifo_dtaps w r b wb ds k t))"
proof (induction ds arbitrary: k t)
  case (Cons d ds)
  show ?case unfolding vfifo_dtaps.simps
    by (intro rules Cons.IH vfifo_phases add_all_ranks; (rule Cons.prems | assumption))
qed simp

lemma vfifo: "R s t \<Longrightarrow> R s (snd (rw_mgr_mem_calibrate_vfifo r b t))"
  unfolding rw_mgr_mem_calibrate_vfifo_def
  by (intro rules vfifo_dtaps after_fail; (assumption | simp))

lemma vfifo_end_shadow_regs: "R s t \<Longrightarrow> R s (snd (vfifo_end_shadow_regs w r b rs ok t))"
proof (induction rs arbitrary: ok t)
  case (Cons rsr rs)
  show ?case unfolding vfifo_end_shadow_regs.simps
    by (intro rules Cons.IH vfifo_center; (rule Cons.prems | assumption))
qed simp

lemma vfifo_end: "R s t \<Longrightarrow> R s (snd (rw_mgr_mem_calibrate_vfifo_end r b t))"
  unfolding rw_mgr_mem_calibrate_vfifo_end_def
  by (intro rules vfifo_end_shadow_regs after_fail; (assumption | simp))

lemma level_phases: "R s t \<Longrightarrow> R s (snd (level_phases g ps w t))"
proof (induction ps arbitrary: w t)
  case (Cons p ps)
  show ?case unfolding level_phases.simps writes_ok_def
    by (intro rules Cons.IH; (rule Cons.prems | assumption))
qed simp

lemma writes_ok: "R s t \<Longrightarrow> R s (snd (writes_ok g t))"
  unfolding writes_ok_def by (intro rules; assumption)

lemma level_begin: "R s t \<Longrightarrow> R s (snd (level_begin g b n d k t))"
proof (induction "Suc (unat n) - d" arbitrary: d k t)
  case 0
  then show ?case by (subst level_begin.simps) simp
next
  case (Suc m)
  have IH: "R s u \<Longrightarrow> R s (snd (level_begin g b n (d + 1) k u))" for k u
    by (rule Suc.hyps(1)) (use Suc.hyps(2) in auto)
  show ?case
    by (subst level_begin.simps) (intro rules IH level_phases; (rule Suc.prems | assumption))
qed

lemma level_narrow: "R s t \<Longrightarrow> R s (snd (level_narrow g b ds k w t))"
proof (induction ds arbitrary: k w t)
  case (Cons d ds)
  show ?case unfolding level_narrow.simps
    by (intro rules Cons.IH writes_ok; (rule Cons.prems | assumption))
qed simp

lemma level_end_phases: "R s t \<Longrightarrow> R s (snd (level_end_phases g qs p w t))"
proof (induction qs arbitrary: p w t)
  case (Cons q qs)
  show ?case unfolding level_end_phases.simps
    by (intro rules Cons.IH writes_ok; (rule Cons.prems | assumption))
qed simp

lemma level_ptap: "R s t \<Longrightarrow> R s (snd (level_ptap g b p w t))"
  unfolding level_ptap_def by (intro rules level_narrow level_end_phases; assumption)

lemma level_end_dtaps: "R s t \<Longrightarrow> R s (snd (level_end_dtaps g b ds w t))"
proof (induction ds arbitrary: w t)
  case (Cons d ds)
  show ?case unfolding level_end_dtaps.simps
    by (intro rules Cons.IH writes_ok; (rule Cons.prems | assumption))
qed simp

lemma wlevel: "R s t \<Longrightarrow> R s (snd (rw_mgr_mem_calibrate_wlevel g b t))"
  unfolding rw_mgr_mem_calibrate_wlevel_def
  by (intro rules level_begin level_ptap level_end_dtaps add_all_ranks after_fail;
      (assumption | simp))

lemma for_read_groups:
  assumes "\<And>r b t. R s t \<Longrightarrow> R s (snd (f r b t))"
  shows "R s t \<Longrightarrow> R s (snd (for_read_groups f rgs b t))"
proof (induction rgs arbitrary: b t)
  case (Cons r rgs)
  show ?case unfolding for_read_groups.simps
    by (intro rules Cons.IH assms; (rule Cons.prems | assumption))
qed simp

lemma writes_shadow_regs: "R s t \<Longrightarrow> R s (snd (writes_shadow_regs w b rs ok t))"
proof (induction rs arbitrary: ok t)
  case (Cons rsr rs)
  show ?case unfolding writes_shadow_regs.simps
    by (intro rules Cons.IH writes; (rule Cons.prems | assumption))
qed simp

lemma and_then:
  "(\<And>t. R s t \<Longrightarrow> R s (snd (f t))) \<Longrightarrow> (\<And>t. R s t \<Longrightarrow> R s (snd (g t))) \<Longrightarrow> R s t \<Longrightarrow>
   R s (snd (and_then f g t))"
  unfolding and_then_def by (intro rules) auto

lemma calibrate_write_group: "R s t \<Longrightarrow> R s (snd (calibrate_write_group w b t))"
  unfolding calibrate_write_group_def
  by (intro rules and_then for_read_groups vfifo wlevel writes_shadow_regs vfifo_end; assumption)

lemma calibrate_groups: "R s t \<Longrightarrow> R s (snd (calibrate_groups gs k n t))"
proof (induction gs arbitrary: k n t)
  case (Cons g gs)
  show ?case unfolding calibrate_groups.simps
    by (intro rules Cons.IH calibrate_write_group; (rule Cons.prems | assumption))
qed simp

lemma calibrate_once: "R s t \<Longrightarrow> R s (snd (calibrate_once n t))"
  unfolding calibrate_once_def by (intro rules calibrate_groups lfifo; assumption)

lemma calibrate_repeat: "R s t \<Longrightarrow> R s (snd (calibrate_repeat m n t))"
proof (induction m arbitrary: n t)
  case (Suc m)
  show ?case unfolding calibrate_repeat.simps
    by (intro rules calibrate_once Suc.IH; (rule Suc.prems | assumption))
qed simp

lemma mem_config: "R s t \<Longrightarrow> R s (mem_config t)"
  unfolding mem_config_def by (intro rules; assumption)

lemma after_seqs:
  "(\<And>u. R s u \<Longrightarrow> R s (c u)) \<Longrightarrow> (\<And>u. R s u \<Longrightarrow> R s (seqs cs u)) \<Longrightarrow> R s t \<Longrightarrow> R s (seqs (c # cs) t)"
  by simp

lemma after_latency: "R s u \<Longrightarrow> R s (IOWR_32DIRECT b k (curr_read_lat (gbl u)) u)"
  by (rule after_cmd [OF io_IOWR])

lemma mem_skip_calibrate: "R s t \<Longrightarrow> R s (mem_skip_calibrate t)"
  unfolding mem_skip_calibrate_def
  by (intro after_seqs after_latency after_figures io_IOWR [THEN after_cmd]
      io_for_each [THEN after_cmd] io_rules; assumption?) simp

text \<open>The run forgets the last error first: the relation is then one to the state without it.\<close>

lemma mem_calibrate:
  assumes "R s (upd_gbl (\<lambda>g. g\<lparr>error_substage := CAL_SUBSTAGE_NIL, error_stage := CAL_STAGE_NIL,
    error_group := 0xff, fom_in := 0, fom_out := 0\<rparr>) t)"
  shows "R s (snd (mem_calibrate t))"
  unfolding mem_calibrate_def
  by (rule snd_let, rule assms)
    (intro rules mem_config mem_skip_calibrate calibrate_repeat io_rules; assumption)

end

section \<open>Instances\<close>

text \<open>The history only grows.\<close>

definition grows :: "seq \<Rightarrow> seq \<Rightarrow> bool" where
  "grows s t \<longleftrightarrow> (\<exists>tr. accesses t = accesses s @ tr)"

interpretation growing: calibration_relation grows
proof
  show "grows s u" if "grows s t" "grows t u" for s t u
    using that by (auto simp: grows_def)
  show "grows s t" if "io_at s t" for s t
    using that by (auto simp: grows_def io_at_def)
qed (auto simp: grows_def set_failing_group_stage_def upd_gbl_def)

text \<open>What was set up before the calibration stays.\<close>

definition same_settings :: "seq \<Rightarrow> seq \<Rightarrow> bool" where
  "same_settings s t \<longleftrightarrow>
     param t = param s \<and> hw t = hw s \<and> skip_delay_mask t = skip_delay_mask s \<and>
     dyn_calib_steps t = dyn_calib_steps s \<and> phy_debug_mode_flags (gbl t) = phy_debug_mode_flags (gbl s)"

interpretation settings: calibration_relation same_settings
proof
  show "same_settings s t" if "io_at s t" for s t
    using that by (simp add: same_settings_def io_at_frame)
qed (auto simp: same_settings_def set_failing_group_stage_def upd_gbl_def)

text \<open>The first error stays.\<close>

definition first_error :: "seq \<Rightarrow> seq \<Rightarrow> bool" where
  "first_error s t \<longleftrightarrow> error_stage (gbl s) \<noteq> CAL_STAGE_NIL \<longrightarrow>
     error_stage (gbl t) = error_stage (gbl s) \<and> error_substage (gbl t) = error_substage (gbl s) \<and>
     error_group (gbl t) = error_group (gbl s)"

interpretation first: calibration_relation first_error
proof
  show "first_error s t" if "io_at s t" for s t
    using that by (simp add: first_error_def io_at_frame)
qed (auto simp: first_error_def set_failing_group_stage_def upd_gbl_def)

end
