(* ===== verification/CalibrateProofs.thy ===== *)
theory CalibrateProofs
  imports CalibrateFrames
begin

text \<open>
  The run as a whole: what stays, that every failure is recorded, and what the registers say at the
  end.
\<close>

section \<open>Every failure is recorded\<close>

text \<open>A step that fails leaves an error; the relation of a state to a later one keeps it.\<close>

definition recorded :: "seq \<Rightarrow> bool" where
  "recorded s \<longleftrightarrow> error_stage (gbl s) \<noteq> CAL_STAGE_NIL"

definition records :: "(seq \<Rightarrow> bool \<times> seq) \<Rightarrow> bool" where
  "records f \<longleftrightarrow> (\<forall>s. \<not> fst (f s) \<longrightarrow> recorded (snd (f s)))"

lemma recorded_fail [simp]:
  "stage \<noteq> CAL_STAGE_NIL \<Longrightarrow> recorded (set_failing_group_stage grp stage substage s)"
  by (simp add: recorded_def set_failing_group_stage_def upd_gbl_def)

lemma recorded_later: "first_error s t \<Longrightarrow> recorded s \<Longrightarrow> recorded t"
  by (simp add: first_error_def recorded_def)

lemma records_lfifo: "records rw_mgr_mem_calibrate_lfifo"
  by (simp add: records_def rw_mgr_mem_calibrate_lfifo_def Let_def split: prod.splits)

lemma records_vfifo: "records (rw_mgr_mem_calibrate_vfifo r b)"
  by (auto simp: records_def rw_mgr_mem_calibrate_vfifo_def Let_def split: prod.splits option.splits)

lemma records_vfifo_end: "records (rw_mgr_mem_calibrate_vfifo_end r b)"
  by (auto simp: records_def rw_mgr_mem_calibrate_vfifo_end_def Let_def split: prod.splits)

lemma records_wlevel: "records (rw_mgr_mem_calibrate_wlevel g b)"
  by (auto simp: records_def rw_mgr_mem_calibrate_wlevel_def Let_def split: prod.splits option.splits)

lemma records_writes: "records (rw_mgr_mem_calibrate_writes n g b)"
  by (auto simp: records_def rw_mgr_mem_calibrate_writes_def Let_def split: prod.splits)

lemma recordsD: "records f \<Longrightarrow> f s = (False, t) \<Longrightarrow> recorded t"
  by (metis fst_conv records_def snd_conv)

lemma recordsI: "(\<And>s t. f s = (False, t) \<Longrightarrow> recorded t) \<Longrightarrow> records f"
  unfolding records_def by (metis (full_types) prod.collapse)

lemma records_and_then:
  assumes "records f" "records g"
  shows "records (and_then f g)"
  by (rule recordsI)
    (auto simp: and_then_def dest: recordsD [OF assms(1)] recordsD [OF assms(2)] split: prod.splits if_splits)

lemma records_True: "records (\<lambda>s. (True, s))"
  by (simp add: records_def)

lemma records_if: "records f \<Longrightarrow> records (\<lambda>s. if c then f s else (True, s))"
  by (simp add: records_def)

lemma records_after: "records f \<Longrightarrow> records (\<lambda>s. f (c s))"
  by (simp add: records_def)

lemma records_for_read_groups:
  assumes "\<And>r b. records (f r b)"
  shows "records (for_read_groups f rgs b)"
proof (induction rgs arbitrary: b)
  case Nil
  show ?case by (simp add: records_def)
next
  case (Cons r rgs)
  show ?case
    using assms [of r b] Cons by (auto simp: records_def split: prod.splits) (metis fst_conv snd_conv)
qed

lemma records_writes_shadow_regs:
  "(\<not> ok \<longrightarrow> recorded s) \<Longrightarrow> \<not> fst (writes_shadow_regs w b rs ok s) \<Longrightarrow>
   recorded (snd (writes_shadow_regs w b rs ok s))"
proof (induction rs arbitrary: ok s)
  case (Cons rsr rs)
  define t where "t = select_shadow_regs_for_update (of_nat (fst rsr)) w 1 s"
  obtain c u where cu: "rw_mgr_mem_calibrate_writes (fst rsr) w b t = (c, u)" by fastforce
  have t: "t = s" by (simp add: t_def select_shadow_regs_for_update_def)
  have c: "\<not> c \<Longrightarrow> recorded u" using records_writes [of "fst rsr" w b] cu by (metis records_def prod.sel)
  have "first_error s u"
    using first.writes [OF first.rel_refl, of s "fst rsr" w b] cu t by (metis snd_conv)
  with Cons.prems(1) c have "\<not> (ok \<and> c) \<longrightarrow> recorded u" using recorded_later by blast
  with Cons show ?case
    by (auto simp: Let_def t_def [symmetric] cu c split: if_splits)
qed simp

lemma records_shadow: "records (writes_shadow_regs w b rs True)"
  using records_writes_shadow_regs by (auto simp: records_def)

lemma records_write_group: "records (calibrate_write_group w b)"
proof (rule recordsI)
  fix s t
  assume "calibrate_write_group w b s = (False, t)"
  then show "recorded t"
    unfolding calibrate_write_group_def Let_def
    by (rule recordsD [rotated])
      (intro records_and_then records_for_read_groups records_if records_shadow
        records_vfifo records_wlevel records_vfifo_end)
qed

lemma recorded_groups:
  "calibrate_groups gs k n s = (None, t) \<Longrightarrow> recorded t"
  "calibrate_groups gs k n s = (Some m, t) \<Longrightarrow> (n \<noteq> 0 \<longrightarrow> recorded s) \<Longrightarrow> m \<noteq> 0 \<Longrightarrow> recorded t"
proof (induction gs arbitrary: k n s)
  case (Cons g gs)
  {
    case 1
    then show ?case
      using recordsD [OF records_write_group] Cons.IH(1)
      by (auto simp: Let_def split: if_splits prod.splits)
  next
    case 2
    obtain ok u where r: "calibrate_write_group (of_nat g) (of_nat (g * RW_MGR_MEM_DQ_PER_WRITE_DQS)) s = (ok, u)"
      by fastforce
    have u: "recorded s \<Longrightarrow> recorded u" "\<not> ok \<Longrightarrow> recorded u"
      using recorded_later [OF first.calibrate_write_group [OF first.rel_refl]] r
        recordsD [OF records_write_group] by (metis snd_conv)+
    show ?case
      using 2 Cons.IH(2) u by (auto simp: Let_def r simp del: of_nat_mult split: if_splits)
  }
qed auto

lemma records_once:
  assumes "n \<noteq> 0 \<longrightarrow> recorded s"
  shows "calibrate_once n s = ((False, m), t) \<Longrightarrow> recorded t"
    and "calibrate_once n s = ((True, m), t) \<Longrightarrow> m = 0"
proof -
  define u where "u = scc_mgr_zero_all s"
  have "gbl u = gbl s" unfolding u_def by (rule io_frame(2)) (rule io_scc_groups)
  then have u: "n \<noteq> 0 \<longrightarrow> recorded u" using assms by (simp add: recorded_def)
  obtain r v where rv: "calibrate_groups [0..<RW_MGR_MEM_IF_WRITE_DQS_WIDTH] (NOT (skip_groups (param u))) n u = (r, v)"
    by fastforce
  have v: "r = None \<Longrightarrow> recorded v" "\<And>m. r = Some m \<Longrightarrow> m \<noteq> 0 \<Longrightarrow> recorded v"
    using rv recorded_groups u by metis+
  show "calibrate_once n s = ((False, m), t) \<Longrightarrow> recorded t"
    using v recordsD [OF records_lfifo]
    by (auto simp: calibrate_once_def Let_def u_def [symmetric] rv split: option.splits if_splits prod.splits)
  show "calibrate_once n s = ((True, m), t) \<Longrightarrow> m = 0"
    by (auto simp: calibrate_once_def Let_def u_def [symmetric] rv split: option.splits if_splits prod.splits)
qed

lemma records_repeat: "calibrate_repeat k 0 s = (False, t) \<Longrightarrow> recorded t"
proof (induction k arbitrary: s)
  case (Suc k)
  obtain ok m u where r: "calibrate_once 0 s = ((ok, m), u)" by (metis prod.collapse)
  show ?case
    using Suc.prems Suc.IH [of u] records_once [of 0 s m u]
    by (cases ok) (auto simp: r)
qed simp

lemma records_mem_calibrate: "records mem_calibrate"
  by (rule recordsI)
    (auto simp: mem_calibrate_def Let_def split: if_splits prod.splits dest: records_repeat)

text \<open>C14: Every stage of the calibration that fails leaves an error behind, as does the calibration as a
  whole; and once an error is recorded no later stage of the group changes its stage, substage or
  group: what is reported is the first failure.
\<close>

theorem stage_failures_recorded:
  "records (rw_mgr_mem_calibrate_vfifo r b) \<and> records (rw_mgr_mem_calibrate_wlevel w b) \<and>
   records (rw_mgr_mem_calibrate_writes n w b) \<and> records (rw_mgr_mem_calibrate_vfifo_end r b) \<and>
   records rw_mgr_mem_calibrate_lfifo \<and> records (calibrate_write_group w b) \<and> records mem_calibrate \<and>
   first_error s (snd (calibrate_write_group w b s)) \<and> first_error s (snd (rw_mgr_mem_calibrate_lfifo s))"
  using first.calibrate_write_group [OF first.rel_refl] first.lfifo [OF first.rel_refl]
  by (simp add: records_vfifo records_wlevel records_writes records_vfifo_end records_lfifo
      records_write_group records_mem_calibrate)

end
