(* ===== verification/CalibrateReport.thy ===== *)
theory CalibrateReport
  imports CalibrateProofs
begin

text \<open>
  What the processor finds in the registers after \<open>sdram_calibration\<close>, and what the run does with
  the memory it cannot read.
\<close>

section \<open>The history of a run\<close>

lemma grows_upd [simp]: "grows s (upd_gbl f s)" "grows s (upd_param k s)" "grows s (emits tr s)"
  by (simp_all add: grows_def upd_gbl_def upd_param_def)

lemma growing_mem_calibrate: "grows s t \<Longrightarrow> grows s (snd (mem_calibrate t))"
  by (rule growing.mem_calibrate) (auto intro: growing.rel_trans)

lemma growing_initialize: "grows s (initialize s)"
  by (auto simp: initialize_def IOWR_emits grows_def upd_param_def)

lemma initialize_sel [simp]: "gbl (initialize s) = gbl s" "hw (initialize s) = hw s"
  by (simp_all add: initialize_def IOWR_emits upd_param_def)

lemma settings_mem_calibrate: "same_settings s (snd (mem_calibrate s))"
  by (rule settings.mem_calibrate) (simp add: same_settings_def upd_gbl_def)

text \<open>The stages of the run before the report, and what it leaves in the two registers it writes.\<close>

definition run_until_report :: "seq \<Rightarrow> u32 \<times> bool \<times> seq" where
  "run_until_report s =
     (let s = IOWR_32DIRECT PHY_MGR_CAL_STATUS 0 PHY_MGR_CAL_RESET s;
          (ctrlcfg, s) = IORD_32DIRECT CTRL_CONFIG_REG 0 s;
          s = IOWR_32DIRECT CTRL_CONFIG_REG 0 (ctrlcfg AND 0xFFBFFFFF) s;
          (pass, s) = mem_calibrate (rw_mgr_mem_initialize (initialize s));
          s = IOWR_32DIRECT PHY_MGR_CMD_FIFO_RESET 0 0 (mem_precharge_and_activate s);
          s = (if phy_debug_mode_flags (gbl s) AND PHY_DEBUG_IN_DEBUG_MODE = 0
               then IOWR_32DIRECT PHY_MGR_MUX_SEL 0 0x2 (rw_mgr_mem_handoff s) else s)
      in (ctrlcfg, pass, s))"

lemma run_until_report:
  "run_mem_calibrate s =
     (let (ctrlcfg, pass, t) = run_until_report s; t = IOWR_32DIRECT CTRL_CONFIG_REG 0 ctrlcfg t
      in (pass, if pass then report_pass t else report_fail t))"
  by (simp add: run_mem_calibrate_def run_until_report_def Let_def split: prod.splits)

lemma run_before_report:
  assumes r: "run_until_report s = (c, pass, t)"
  defines "xs \<equiv> accesses s @ [Wr PHY_MGR_CAL_STATUS PHY_MGR_CAL_RESET]"
  shows "c = hw s xs CTRL_CONFIG_REG"
    and "\<exists>ys. accesses t = xs @ [Rd CTRL_CONFIG_REG c, Wr CTRL_CONFIG_REG (c AND 0xFFBFFFFF)] @ ys"
    and "\<not> pass \<Longrightarrow> recorded t"
    and "hw t = hw s"
    and "phy_debug_mode_flags (gbl s) AND PHY_DEBUG_IN_DEBUG_MODE = 0 \<Longrightarrow>
      last_write PHY_MGR_MUX_SEL (accesses t) = Some 2"
    and "\<exists>tr u. mem_calibrate (rw_mgr_mem_initialize (initialize (emits tr s))) = (pass, u) \<and> gbl t = gbl u"
proof -
  define s1 where "s1 = emits [Wr PHY_MGR_CAL_STATUS PHY_MGR_CAL_RESET, Rd CTRL_CONFIG_REG c,
    Wr CTRL_CONFIG_REG (c AND 0xFFBFFFFF)] s"
  define s2 where "s2 = rw_mgr_mem_initialize (initialize s1)"
  obtain p s3 where m: "mem_calibrate s2 = (p, s3)" by fastforce
  define s4 where "s4 = IOWR_32DIRECT PHY_MGR_CMD_FIFO_RESET 0 0 (mem_precharge_and_activate s3)"
  have c: "c = hw s xs CTRL_CONFIG_REG"
    using r by (auto simp: run_until_report_def IORD_32DIRECT_def IOWR_emits Let_def xs_def split: prod.splits)
  have t: "t = (if phy_debug_mode_flags (gbl s4) AND PHY_DEBUG_IN_DEBUG_MODE = 0
      then IOWR_32DIRECT PHY_MGR_MUX_SEL 0 0x2 (rw_mgr_mem_handoff s4) else s4)" and p: "pass = p"
    using r m c by (auto simp: run_until_report_def IORD_32DIRECT_def IOWR_emits Let_def xs_def
        s1_def s2_def s4_def split: prod.splits)
  have g: "grows s1 s2" "grows s2 s3" "grows s3 s4" "grows s4 t"
    using growing_initialize [of s1] growing_mem_calibrate [of s2 s2] m unfolding s2_def s4_def t
    by (auto intro: growing.after_commands growing.rel_refl)
  have f: "phy_debug_mode_flags (gbl s4) = phy_debug_mode_flags (gbl s)" "hw s4 = hw s"
    "gbl s2 = gbl s"
    using settings_mem_calibrate [of s2] m
    by (simp_all add: s4_def s2_def s1_def IOWR_emits io_frame io_rules same_settings_def)
  show "c = hw s xs CTRL_CONFIG_REG" by (rule c)
  have "grows s1 t" using g growing.rel_trans by blast
  then show "\<exists>ys. accesses t = xs @ [Rd CTRL_CONFIG_REG c, Wr CTRL_CONFIG_REG (c AND 0xFFBFFFFF)] @ ys"
    by (auto simp: grows_def s1_def xs_def)
  have t_gbl: "gbl t = gbl s3" by (simp add: t s4_def IOWR_emits io_frame io_rules)
  show "\<exists>tr u. mem_calibrate (rw_mgr_mem_initialize (initialize (emits tr s))) = (pass, u) \<and> gbl t = gbl u"
    using m p t_gbl unfolding s2_def s1_def by blast
  show "recorded t" if "\<not> pass"
    using recordsD [OF records_mem_calibrate] m p that t_gbl by (auto simp: recorded_def)
  show "hw t = hw s" using f by (simp add: t IOWR_emits io_frame io_rules)
  show "last_write PHY_MGR_MUX_SEL (accesses t) = Some 2"
    if "phy_debug_mode_flags (gbl s) AND PHY_DEBUG_IN_DEBUG_MODE = 0"
    using that f by (simp add: t IOWR_emits)
qed

section \<open>The report\<close>

lemma report_pass_emits:
  "report_pass s =
     (let t = upd_gbl (\<lambda>g. g\<lparr>fom_in := half_fom (fom_in g), fom_out := half_fom (fom_out g)\<rparr>) s;
          i = fom_in (gbl t) OR push_bit 8 (fom_out (gbl t))
      in emits [Wr REG_FILE_FOM i, Wr PHY_MGR_CAL_DEBUG_INFO i, Wr PHY_MGR_CAL_STATUS PHY_MGR_CAL_SUCCESS] t)"
  by (simp add: report_pass_def IOWR_emits Let_def)

lemma report_fail_emits:
  "report_fail s =
     (let i = error_stage (gbl s) OR push_bit 8 (error_substage (gbl s)) OR push_bit 16 (error_group (gbl s))
      in emits [Wr REG_FILE_FAILING_STAGE i, Wr PHY_MGR_CAL_DEBUG_INFO i,
           Wr PHY_MGR_CAL_STATUS PHY_MGR_CAL_FAIL, Wr REG_FILE_FAILING_STAGE i] s)"
  by (simp add: report_fail_def IOWR_emits Let_def)

text \<open>Every failure leaves an error, and the registers hold it; a pass leaves the figures of merit.\<close>

definition reported :: "bool \<Rightarrow> seq \<Rightarrow> bool" where
  "reported pass t \<longleftrightarrow>
     (let tr = accesses t; g = gbl t
      in if pass
         then last_write PHY_MGR_CAL_STATUS tr = Some PHY_MGR_CAL_SUCCESS \<and>
           last_write REG_FILE_FOM tr = Some (fom_in g OR push_bit 8 (fom_out g)) \<and>
           fom_in g \<le> 0xff \<and> fom_out g \<le> 0xff
         else last_write PHY_MGR_CAL_STATUS tr = Some PHY_MGR_CAL_FAIL \<and>
           last_write REG_FILE_FAILING_STAGE tr =
             Some (error_stage g OR push_bit 8 (error_substage g) OR push_bit 16 (error_group g)) \<and>
           error_stage g \<noteq> CAL_STAGE_NIL)"

lemma half_fom_le: "half_fom x \<le> 0xff"
  by (auto simp: half_fom_def not_less)

lemma run_reports:
  assumes "run_mem_calibrate s = (pass, u)"
    and flag: "phy_debug_mode_flags (gbl s) AND PHY_DEBUG_IN_DEBUG_MODE = 0"
  shows "reported pass u"
    and "last_write PHY_MGR_MUX_SEL (accesses u) = Some 2"
    and "\<exists>xs ys c. c = hw s xs CTRL_CONFIG_REG \<and>
      accesses u = xs @ [Rd CTRL_CONFIG_REG c, Wr CTRL_CONFIG_REG (c AND 0xFFBFFFFF)] @ ys \<and>
      last_write CTRL_CONFIG_REG (accesses u) = Some c"
proof -
  obtain c p t where r: "run_until_report s = (c, p, t)" by (metis prod.collapse)
  then have p: "p = pass" and u: "u = (if pass then report_pass (IOWR_32DIRECT CTRL_CONFIG_REG 0 c t)
      else report_fail (IOWR_32DIRECT CTRL_CONFIG_REG 0 c t))"
    using assms(1) by (auto simp: run_until_report Let_def)
  note b = run_before_report [OF r]
  show "reported pass u"
    using b(3) p by (auto simp: reported_def u report_pass_emits report_fail_emits Let_def
        last_write_append last_write_Cons IOWR_emits seq_regs seq_bases upd_gbl_def half_fom_le recorded_def)
  show "last_write PHY_MGR_MUX_SEL (accesses u) = Some 2"
    using b(5) [OF flag] by (auto simp: u report_pass_emits report_fail_emits Let_def
        last_write_append last_write_Cons IOWR_emits seq_regs seq_bases upd_gbl_def)
  have "last_write CTRL_CONFIG_REG (accesses u) = Some c"
    by (auto simp: u report_pass_emits report_fail_emits Let_def
        last_write_append last_write_Cons IOWR_emits seq_regs seq_bases upd_gbl_def)
  moreover obtain zs where "accesses u = accesses t @ zs"
    by (cases pass) (auto simp: u report_pass_emits report_fail_emits Let_def IOWR_emits upd_gbl_def)
  moreover from b(2) obtain ys where "accesses t = (accesses s @ [Wr PHY_MGR_CAL_STATUS PHY_MGR_CAL_RESET]) @
      [Rd CTRL_CONFIG_REG c, Wr CTRL_CONFIG_REG (c AND 0xFFBFFFFF)] @ ys" by blast
  ultimately show "\<exists>xs ys c. c = hw s xs CTRL_CONFIG_REG \<and>
      accesses u = xs @ [Rd CTRL_CONFIG_REG c, Wr CTRL_CONFIG_REG (c AND 0xFFBFFFFF)] @ ys \<and>
      last_write CTRL_CONFIG_REG (accesses u) = Some c"
    using b(1) by (intro exI [of _ "accesses s @ [Wr PHY_MGR_CAL_STATUS PHY_MGR_CAL_RESET]"]
        exI [of _ "ys @ zs"] exI [of _ c]) simp
qed

lemma run_hw: "run_mem_calibrate s = (pass, u) \<Longrightarrow> hw u = hw s"
  using run_before_report(4) [of s]
  by (auto simp: run_until_report Let_def report_pass_emits report_fail_emits IOWR_emits upd_gbl_def
      split: prod.splits if_splits)

lemma mux_clear: "(0 OR PHY_DEBUG_ENABLE_CAL_RPT) AND PHY_DEBUG_IN_DEBUG_MODE = 0"
  by (simp add: PHY_DEBUG_ENABLE_CAL_RPT_def PHY_DEBUG_IN_DEBUG_MODE_def)

text \<open>The state that \<open>sdram_calibration\<close> hands to the run.\<close>

definition calibration_start :: "phyctrl \<Rightarrow> seq \<Rightarrow> seq" where
  "calibration_start m s =
     (let s = upd_gbl (\<lambda>g. g\<lparr>phy_debug_mode_flags := 0 OR PHY_DEBUG_ENABLE_CAL_RPT\<rparr>) s;
          s = initialize_tracking (scc_mgr_initialize (initialize_hps_phy m (initialize_reg_file s)));
          s = upd_param (\<lambda>p. p\<lparr>skip_ranks := replicate RW_MGR_MEM_NUMBER_OF_RANKS 0,
                skip_shadow_regs := replicate NUM_SHADOW_REGS 0, skip_groups := 0\<rparr>) s;
          s = reg_file_set_group 0 (reg_file_set_stage CAL_STAGE_NIL (hc_initialize_rom_data s))
      in s\<lparr>dyn_calib_steps := ucast STATIC_CALIB_STEPS,
           skip_delay_mask := (if ucast (ucast STATIC_CALIB_STEPS :: 16 word) AND CALIB_SKIP_DELAY_LOOPS = 0
             then 0xff else 0x0)\<rparr>)"

lemma calibration_start: "sdram_calibration m s = run_mem_calibrate (calibration_start m s)"
  by (simp add: sdram_calibration_def calibration_start_def Let_def)

lemma io_hc_initialize_rom_data [io_rules]: "io hc_initialize_rom_data"
  unfolding hc_initialize_rom_data_def by (intro io_rules)

lemma calibration_start_gbl:
  "phy_debug_mode_flags (gbl (calibration_start m s)) = 0 OR PHY_DEBUG_ENABLE_CAL_RPT"
  by (simp add: calibration_start_def Let_def io_frame io_rules upd_param_def) (simp add: upd_gbl_def)

text \<open>C2: After \<open>sdram_calibration\<close>, whatever the hardware answered: the status register holds success
  or failure as the function's result says; the controller's configuration register, of which the
  run clears a bit, was given back the value it was read with; the PHY belongs to the user again; a
  pass leaves the figures of merit within their bytes, and a failure is never without a stage, which
  the failing-stage register holds with its substage and group.
\<close>

theorem calibration_reports:
  "let (pass, t) = sdram_calibration m s
   in reported pass t \<and>
      last_write PHY_MGR_MUX_SEL (accesses t) = Some 2 \<and>
      (\<exists>xs ys c. c = hw t xs CTRL_CONFIG_REG \<and>
         accesses t = xs @ [Rd CTRL_CONFIG_REG c, Wr CTRL_CONFIG_REG (c AND 0xFFBFFFFF)] @ ys \<and>
         last_write CTRL_CONFIG_REG (accesses t) = Some c)"
proof -
  define s0 where "s0 = calibration_start m s"
  obtain p t where r: "run_mem_calibrate s0 = (p, t)" by fastforce
  have flag: "phy_debug_mode_flags (gbl s0) AND PHY_DEBUG_IN_DEBUG_MODE = 0"
    by (simp only: s0_def calibration_start_gbl mux_clear)
  show ?thesis
    using run_reports [OF r flag] run_hw [OF r]
    by (simp add: calibration_start s0_def [symmetric] r)
qed

end
