(* ===== verification/TestProofs.thy ===== *)
theory TestProofs
  imports CalibrateFrames
begin

text \<open>
  What a test of the sequencer means: the run of the read/write manager's program that it starts, the
  one value it reads, and the verdict it draws from it.
\<close>

section \<open>The settings of a calibration\<close>

text \<open>
  The masks that \<open>initialize\<close> computes, one bit per data pin of a group, and ranks and groups none of
  which is skipped.
\<close>

definition ready :: "seq \<Rightarrow> bool" where
  "ready s \<longleftrightarrow> read_correct_mask (param s) = 0xff \<and> read_correct_mask_vg (param s) = 0xff \<and>
     write_correct_mask (param s) = 0xff \<and> write_correct_mask_vg (param s) = 0xff \<and>
     skip_ranks (param s) = [0] \<and> skip_shadow_regs (param s) = [0] \<and> skip_groups (param s) = 0"

lemma ready_later: "same_settings s t \<Longrightarrow> ready s \<Longrightarrow> ready t"
  by (simp add: ready_def same_settings_def)

lemma ready_io: "io c \<Longrightarrow> ready (c s) = ready s"
  by (simp add: ready_def io_frame)

lemma ready_emits [simp]: "ready (emits tr s) = ready s"
  by (simp add: ready_def)

lemma initialize_ready:
  assumes "ucast (dyn_calib_steps s) AND CALIB_SKIP_ALL \<noteq> CALIB_SKIP_ALL"
    and "skip_ranks (param s) = [0]" "skip_shadow_regs (param s) = [0]" "skip_groups (param s) = 0"
  shows "ready (initialize s)"
  using assms by (simp add: initialize_def ready_def IOWR_emits upd_param_def seq_params)

section \<open>Verdicts\<close>

lemma rank_range_eq: "rank_range 0 a = [0]"
  by (simp add: rank_range_def seq_params NUM_RANKS_PER_SHADOW_REG_def upt_rec)

lemma mask_8: "(0xff :: u32) = mask 8"
  by (simp add: mask_eq_exp_minus_1)

lemma mask_not: "(0xff :: u32) AND (0xff AND NOT v) = NOT v AND 0xff"
  by (simp add: mask_8) (auto simp: bit_eq_iff bit_simps)

lemma mask_all: "NOT (v :: u32) AND 0xff = 0xff \<longleftrightarrow> v AND 0xff = 0"
  by (simp add: mask_8) (auto simp: bit_eq_iff bit_simps)

lemma mask_none: "NOT (v :: u32) AND 0xff = 0 \<longleftrightarrow> v AND 0xff = 0xff"
  by (simp add: mask_8) (auto simp: bit_eq_iff bit_simps)

text \<open>One rank and one virtual group: the test issues its commands, reads once, and ends.\<close>

definition answer :: "seq \<Rightarrow> u32" where
  "answer s = hw s (accesses s) BASE_RW_MGR"

lemma one_test:
  assumes "ready s"
  shows "collect_ranks (rank_range 0 a)
      (\<lambda>r s. collect_vgs RW_MGR_MEM_VIRTUAL_GROUPS_PER_READ_DQS k 0xff issue (start r s)) 0xff s =
    (let t = issue 0 (start 0 s) in (NOT (answer t) AND 0xff, emits [Rd BASE_RW_MGR (answer t)] t))"
  using assms by (simp add: collect_ranks_def rank_range_eq skip_rank_def ready_def collect_vgs_def
      seq_params IORD_32DIRECT_def Let_def answer_def) (simp only: ac_simps)

section \<open>The accesses of a test\<close>

text \<open>What a read test writes before its burst, the burst that it starts, and what it writes at its end.\<close>

definition read_setup :: "bool \<Rightarrow> access list" where
  "read_setup all_groups = [
     Wr RW_MGR_SET_CS_AND_ODT_MASK (cs_and_odt_mask 0 RW_MGR_ODT_MODE_READ_WRITE),
     Wr RW_MGR_LOAD_CNTR_1 0x10, Wr RW_MGR_LOAD_JUMP_ADD_1 RW_MGR_READ_B2B_WAIT1,
     Wr RW_MGR_LOAD_CNTR_2 0x10, Wr RW_MGR_LOAD_JUMP_ADD_2 RW_MGR_READ_B2B_WAIT2,
     Wr RW_MGR_LOAD_CNTR_0 (if all_groups then 0x06 else 0x32), Wr RW_MGR_LOAD_JUMP_ADD_0 RW_MGR_READ_B2B,
     Wr RW_MGR_LOAD_CNTR_3 (if all_groups then 3 else 0), Wr RW_MGR_LOAD_JUMP_ADD_3 RW_MGR_READ_B2B]"

definition pattern_setup :: "access list" where
  "pattern_setup = [
     Wr RW_MGR_SET_CS_AND_ODT_MASK (cs_and_odt_mask 0 RW_MGR_ODT_MODE_READ_WRITE),
     Wr RW_MGR_LOAD_CNTR_0 0x20, Wr RW_MGR_LOAD_JUMP_ADD_0 RW_MGR_GUARANTEED_READ,
     Wr RW_MGR_LOAD_CNTR_1 0x20, Wr RW_MGR_LOAD_JUMP_ADD_1 RW_MGR_GUARANTEED_READ_CONT]"

definition burst :: "u32 \<Rightarrow> u32 \<Rightarrow> u32 \<Rightarrow> access list" where
  "burst run grp program =
     [Wr PHY_MGR_CMD_FIFO_RESET 0, Wr RW_MGR_RESET_READ_DATAPATH 0, Wr (run + push_bit 2 grp) program]"

definition stop_writes :: "u32 \<Rightarrow> access list" where
  "stop_writes grp = [Wr (RW_MGR_RUN_SINGLE_GROUP + push_bit 2 grp) RW_MGR_CLEAR_DQS_ENABLE,
     Wr RW_MGR_SET_CS_AND_ODT_MASK (cs_and_odt_mask 0 RW_MGR_ODT_MODE_OFF)]"

text \<open>All accesses of a test that reads \<open>v\<close>, and a test from \<open>s\<close> to \<open>t\<close> that makes these and no others.\<close>

definition test_trace :: "access list \<Rightarrow> access list \<Rightarrow> u32 \<Rightarrow> u32 \<Rightarrow> access list" where
  "test_trace setup program grp v = setup @ program @ [Rd BASE_RW_MGR v] @ stop_writes grp"

definition tested :: "access list \<Rightarrow> access list \<Rightarrow> u32 \<Rightarrow> u32 \<Rightarrow> seq \<Rightarrow> seq \<Rightarrow> bool" where
  "tested setup program grp v s t \<longleftrightarrow>
     v = hw s (accesses s @ setup @ program) BASE_RW_MGR \<and> t = emits (test_trace setup program grp v) s"

lemma ready_masks:
  "ready s \<Longrightarrow> read_correct_mask (param s) = 0xff" "ready s \<Longrightarrow> read_correct_mask_vg (param s) = 0xff"
  "ready s \<Longrightarrow> write_correct_mask (param s) = 0xff" "ready s \<Longrightarrow> write_correct_mask_vg (param s) = 0xff"
  by (simp_all add: ready_def)

lemma set_rank_emits: "set_rank_and_odt_mask r m s = emits [Wr RW_MGR_SET_CS_AND_ODT_MASK (cs_and_odt_mask r m)] s"
  by (simp add: set_rank_and_odt_mask_def IOWR_emits)

lemma quick_read [simp]: "\<not> quick_read_mode"
  by (simp add: quick_read_mode_def ENABLE_SUPER_QUICK_CALIBRATION_def BFM_MODE_def)

lemma pattern_test:
  assumes r: "ready s"
  obtains v t where "rw_mgr_mem_calibrate_read_test_patterns 0 grp n al s = ((v AND 0xff = 0, NOT v AND 0xff), t)"
    "tested pattern_setup (burst RW_MGR_RUN_SINGLE_GROUP grp RW_MGR_GUARANTEED_READ) grp v s t"
proof -
  let ?b = "burst RW_MGR_RUN_SINGLE_GROUP grp RW_MGR_GUARANTEED_READ"
  define v where "v = hw s (accesses s @ pattern_setup @ ?b) BASE_RW_MGR"
  show thesis
  proof (rule that)
    show "tested pattern_setup ?b grp v s (emits (test_trace pattern_setup ?b grp v) s)"
      by (simp add: tested_def v_def)
    show "rw_mgr_mem_calibrate_read_test_patterns 0 grp n al s =
        ((v AND 0xff = 0, NOT v AND 0xff), emits (test_trace pattern_setup ?b grp v) s)"
      unfolding rw_mgr_mem_calibrate_read_test_patterns_def ready_masks [OF r] Let_def one_test [OF r, unfolded Let_def]
      by (simp add: answer_def v_def IOWR_emits set_rank_emits ready_masks [OF r] mask_all seq_params
          test_trace_def stop_writes_def pattern_setup_def burst_def)
  qed
qed

lemma read_test:
  fixes all_groups :: bool and grp :: u32
  assumes r: "ready s"
  defines "program \<equiv> burst (if all_groups then RW_MGR_RUN_ALL_GROUPS else RW_MGR_RUN_SINGLE_GROUP) grp
    RW_MGR_READ_B2B"
  obtains v t where "rw_mgr_mem_calibrate_read_test 0 grp n all_correct all_groups al s =
      ((if all_correct then v AND 0xff = 0 else v AND 0xff \<noteq> 0xff, NOT v AND 0xff), t)"
    "tested (read_setup all_groups) program grp v s t"
proof -
  define v where "v = hw s (accesses s @ read_setup all_groups @ program) BASE_RW_MGR"
  show thesis
  proof (rule that)
    show "tested (read_setup all_groups) program grp v s
        (emits (test_trace (read_setup all_groups) program grp v) s)"
      by (simp add: tested_def v_def)
    show "rw_mgr_mem_calibrate_read_test 0 grp n all_correct all_groups al s =
        ((if all_correct then v AND 0xff = 0 else v AND 0xff \<noteq> 0xff, NOT v AND 0xff),
         emits (test_trace (read_setup all_groups) program grp v) s)"
      unfolding rw_mgr_mem_calibrate_read_test_def ready_masks [OF r] Let_def one_test [OF r, unfolded Let_def]
      by (simp add: answer_def v_def IOWR_emits set_rank_emits ready_masks [OF r] mask_all mask_none
          verdict_def seq_params test_trace_def stop_writes_def read_setup_def program_def burst_def)
  qed
qed

text \<open>A processor before the calibration, with a device that answers as \<open>h\<close> says; and the same, ready.\<close>

definition blank :: "(access list \<Rightarrow> u32 \<Rightarrow> u32) \<Rightarrow> seq" where
  "blank h = \<lparr>
     param = \<lparr>dm_correct_mask = 0, read_correct_mask = 0, read_correct_mask_vg = 0, write_correct_mask = 0,
       write_correct_mask_vg = 0, skip_ranks = [], skip_groups = 0, skip_shadow_regs = []\<rparr>,
     gbl = \<lparr>phy_debug_mode_flags = 0, curr_read_lat = 0, curr_write_lat = 0, error_substage = 0,
       error_stage = 0, error_group = 0, fom_in = 0, fom_out = 0, rw_wl_nop_cycles = 0\<rparr>,
     dyn_calib_steps = 0, skip_delay_mask = 0xff, accesses = [], hw = h\<rparr>"

definition blank_ready :: "(access list \<Rightarrow> u32 \<Rightarrow> u32) \<Rightarrow> seq" where
  "blank_ready h = initialize (upd_param (\<lambda>p. p\<lparr>skip_ranks := [0], skip_shadow_regs := [0]\<rparr>) (blank h))"

lemma blank_ready [simp]: "ready (blank_ready h)" "hw (blank_ready h) = h"
  by (simp_all add: blank_ready_def initialize_def ready_def IOWR_emits upd_param_def seq_params blank_def
      CALIB_SKIP_ALL_def CALIB_SKIP_VFIFO_def CALIB_SKIP_LFIFO_def CALIB_SKIP_WLEVEL_def
      CALIB_SKIP_WRITES_def CALIB_SKIP_FULL_TEST_def)

text \<open>Fields for the PHY control registers, for examples.\<close>

definition plain_phyctrl :: phyctrl where
  "plain_phyctrl = \<lparr>
     PHYCTRL_0_ACDELAYEN_SET = (\<lambda>v. v), PHYCTRL_0_DQDELAYEN_SET = push_bit 2,
     PHYCTRL_0_DQSDELAYEN_SET = push_bit 4, PHYCTRL_0_DQSLOGICDELAYEN_SET = push_bit 6,
     PHYCTRL_0_RESETDELAYEN_SET = push_bit 8, PHYCTRL_0_LPDDRDIS_SET = push_bit 9,
     PHYCTRL_0_ADDLATSEL_SET = push_bit 10, PHYCTRL_0_SAMPLECOUNT_19_0_SET = push_bit 12,
     PHYCTRL_1_SAMPLECOUNT_31_20_SET = (\<lambda>v. v), PHYCTRL_1_LONGIDLESAMPLECOUNT_19_0_SET = push_bit 12,
     PHYCTRL_2_LONGIDLESAMPLECOUNT_31_20_SET = (\<lambda>v. v), PHYCTRL_0_SAMPLECOUNT_19_0_WIDTH = 20,
     PHYCTRL_1_LONGIDLESAMPLECOUNT_19_0_WIDTH = 20, PHYCTRL_0_OFFSET = 0x150, PHYCTRL_1_OFFSET = 0x154,
     PHYCTRL_2_OFFSET = 0x158\<rparr>"

text \<open>A device that gives back what was last written to the register.\<close>

definition holds_register :: "u32 \<Rightarrow> (access list \<Rightarrow> u32 \<Rightarrow> u32) \<Rightarrow> bool" where
  "holds_register a h \<longleftrightarrow> (\<forall>tr. case last_write a tr of Some v \<Rightarrow> h tr a = v | None \<Rightarrow> True)"

definition memory_device :: "access list \<Rightarrow> u32 \<Rightarrow> u32" where
  "memory_device tr a = (case last_write a tr of Some v \<Rightarrow> v | None \<Rightarrow> 0)"

lemma memory_device_holds: "holds_register a memory_device"
  by (simp add: holds_register_def memory_device_def split: option.splits)

text \<open>C18: A read test makes exactly the accesses of \<open>test_trace\<close>: it loads the loops, starts one burst of
  the read program, for the one group or for all, reads the comparison once right after it, and ends
  with the two writes that release the group. Its pin mask is the complement of the value read on the
  eight pins; it passes, when all pins are asked for, iff no pin mismatched, and otherwise iff some
  pin matched.
\<close>

theorem read_test_verdict:
  assumes "ready s"
  shows "\<exists>v t. rw_mgr_mem_calibrate_read_test 0 grp n all_correct all_groups al s =
      ((if all_correct then v AND 0xff = 0 else v AND 0xff \<noteq> 0xff, NOT v AND 0xff), t) \<and>
    tested (read_setup all_groups) (burst (if all_groups then RW_MGR_RUN_ALL_GROUPS
      else RW_MGR_RUN_SINGLE_GROUP) grp RW_MGR_READ_B2B) grp v s t"
  using read_test [OF assms] by metis

theorem read_test_verdict_witness:
  "\<exists>v t. rw_mgr_mem_calibrate_read_test 0 2 1 True False True (blank_ready (\<lambda>tr a. 0x10)) =
      ((if True then v AND 0xff = 0 else v AND 0xff \<noteq> 0xff, NOT v AND 0xff), t) \<and>
    tested (read_setup False) (burst (if False then RW_MGR_RUN_ALL_GROUPS else RW_MGR_RUN_SINGLE_GROUP) 2
      RW_MGR_READ_B2B) 2 v (blank_ready (\<lambda>tr a. 0x10)) t"
  by (rule read_test_verdict) simp

end
