(* ===== verification/DeadMemory.thy ===== *)
theory DeadMemory
  imports CalibrateReport TestProofs
begin

text \<open>
  A memory that never reads back what was written: the calibration ends at the guaranteed read of the
  first group, and says so.
\<close>

definition dead :: "seq \<Rightarrow> bool" where
  "dead s \<longleftrightarrow> (\<forall>tr. hw s tr BASE_RW_MGR AND 0xff \<noteq> 0)"

text \<open>The settings and the hardware under which a read cannot succeed.\<close>

definition hopeless :: "seq \<Rightarrow> bool" where
  "hopeless s \<longleftrightarrow> ready s \<and> dead s \<and> phy_debug_mode_flags (gbl s) = PHY_DEBUG_ENABLE_CAL_RPT"

lemma hopeless_later: "same_settings s t \<Longrightarrow> hopeless s \<Longrightarrow> hopeless t"
  using ready_later [of s t] by (auto simp: hopeless_def dead_def same_settings_def)

lemma hopeless_io: "io_at s t \<Longrightarrow> hopeless s \<Longrightarrow> hopeless t"
  by (rule hopeless_later [OF settings.rel_io])

lemma pattern_fails:
  assumes "hopeless s"
  shows "\<not> fst (fst (rw_mgr_mem_calibrate_read_test_patterns 0 grp n al s))"
proof -
  have "ready s" using assms by (simp add: hopeless_def)
  then obtain v t where t: "rw_mgr_mem_calibrate_read_test_patterns 0 grp n al s =
      ((v AND 0xff = 0, NOT v AND 0xff), t)"
    "tested pattern_setup (burst RW_MGR_RUN_SINGLE_GROUP grp RW_MGR_GUARANTEED_READ) grp v s t"
    by (rule pattern_test)
  then show ?thesis
    using assms by (auto simp: tested_def hopeless_def dead_def)
qed

lemma phases_fail: "hopeless s \<Longrightarrow> \<not> fst (fst (try_phases grp n ps b s))"
proof (induction ps arbitrary: b s)
  case (Cons p ps)
  define s1 where "s1 = scc_mgr_set_dqs_en_phase_all_ranks grp (of_nat p) s"
  obtain ok b2 s2 where r: "rw_mgr_mem_calibrate_read_test_patterns 0 grp n True s1 = ((ok, b2), s2)"
    by (metis prod.collapse)
  have "hopeless s1"
    unfolding s1_def by (rule hopeless_io [OF io_at_cmd Cons.prems]) (auto intro: io_rules)
  moreover from this have "\<not> ok" using pattern_fails r by (metis fst_conv)
  moreover have "io_at s1 s2" using r io_val_tests(1) by (metis io_valD)
  ultimately show ?case using Cons.IH [of s2] hopeless_io by (simp add: s1_def [symmetric] r)
qed simp

lemma guaranteed_read_fails:
  assumes "hopeless s"
  shows "\<exists>t. guaranteed_read r s = (False, t) \<and> io_at s t"
proof -
  obtain ok b t where r: "rw_mgr_mem_calibrate_read_test_patterns 0 r 1 True s = ((ok, b), t)"
    by (metis prod.collapse)
  have ok: "\<not> ok" using pattern_fails [OF assms] r by (metis fst_conv)
  have t: "io_at s t" using r io_val_tests(1) by (metis io_valD)
  let ?u = "try_phases r 1 [0..<IO_DQS_EN_PHASE_MAX + 1] b t"
  have "\<not> fst (fst ?u)" by (rule phases_fail) (rule hopeless_io [OF t assms])
  moreover have "io_at s (snd ?u)" by (rule io_val_try_phases [OF t])
  moreover have "phy_debug_mode_flags (gbl s) AND PHY_DEBUG_DISABLE_GUARANTEED_READ = 0"
    using assms by (simp add: hopeless_def PHY_DEBUG_ENABLE_CAL_RPT_def PHY_DEBUG_DISABLE_GUARANTEED_READ_def)
  ultimately show ?thesis
    by (simp add: guaranteed_read_def rw_mgr_mem_calibrate_read_test_patterns_all_ranks_def r ok
        split_beta)
qed

lemma vfifo_phases_fail:
  assumes "hopeless s"
  shows "\<exists>t. vfifo_phases w r b d ps k s = ((False, k), t) \<and> io_at s t"
proof (cases ps)
  case (Cons p ps')
  define s1 where "s1 = rw_mgr_mem_calibrate_read_load_patterns_all_ranks
    (if (DDRX \<noteq> 0 \<or> RLDRAMX \<noteq> 0) \<and> (d \<noteq> 0 \<or> p \<noteq> 0)
     then recover_mem_device_after_ck_dqs_violation
       (if DDRX \<noteq> 0 then scc_mgr_set_dqdqs_output_phase_all_ranks r (of_nat p) s else s)
     else if DDRX \<noteq> 0 then scc_mgr_set_dqdqs_output_phase_all_ranks r (of_nat p) s else s)"
  have s1: "io_at s s1" unfolding s1_def by (intro io_at_rules)
  from guaranteed_read_fails [OF hopeless_io [OF s1 assms]] obtain t
    where "guaranteed_read r s1 = (False, t)" "io_at s1 t" by blast
  with s1 show ?thesis
    unfolding Cons vfifo_phases.simps Let_def s1_def [symmetric] by (auto intro: io_at_trans)
qed auto

lemma vfifo_dtaps_fail:
  "hopeless s \<Longrightarrow> \<exists>t. vfifo_dtaps w r b wb ds k s = ((None, k), t) \<and> io_at s t"
proof (induction ds arbitrary: s)
  case (Cons d ds)
  define s1 where "s1 = (if (DDRX \<noteq> 0 \<or> RLDRAMX \<noteq> 0) \<and> d > 0
    then scc_mgr_apply_group_all_out_delay_add_all_ranks w wb (of_nat d) s else s)"
  have s1: "io_at s s1" unfolding s1_def by (auto intro: io_at_cmd [OF io_add_all_ranks])
  obtain s2 where s2: "vfifo_phases w r b d [0..<IO_DQDQS_OUT_PHASE_MAX + 1] k s1 = ((False, k), s2)"
    "io_at s1 s2" using vfifo_phases_fail [OF hopeless_io [OF s1 Cons.prems]] by blast
  obtain t where "vfifo_dtaps w r b wb ds k s2 = ((None, k), t)" "io_at s2 t"
    using Cons.IH hopeless_io [OF io_at_trans [OF s1 s2(2)] Cons.prems] by blast
  then show ?case
    using s1 s2 unfolding vfifo_dtaps.simps Let_def s1_def [symmetric]
    by (auto simp del: upt_Suc intro: io_at_trans)
qed auto

lemma vfifo_fails:
  assumes "hopeless s"
  shows "\<exists>t. rw_mgr_mem_calibrate_vfifo r b s =
    (False, set_failing_group_stage (if DDRX \<noteq> 0 then r
       else r div of_nat (RW_MGR_MEM_IF_READ_DQS_WIDTH div RW_MGR_MEM_IF_WRITE_DQS_WIDTH))
      CAL_STAGE_VFIFO CAL_SUBSTAGE_GUARANTEED_READ t) \<and> io_at s t"
proof -
  define s1 where "s1 = reg_file_set_sub_stage CAL_SUBSTAGE_GUARANTEED_READ
    (reg_file_set_group r (reg_file_set_stage CAL_STAGE_VFIFO s))"
  have s1: "io_at s s1" unfolding s1_def by (intro io_at_rules)
  define g where "g = (if DDRX \<noteq> 0 then r
    else r div of_nat (RW_MGR_MEM_IF_READ_DQS_WIDTH div RW_MGR_MEM_IF_WRITE_DQS_WIDTH))"
  define tb where "tb = (if DDRX \<noteq> 0 then b else r * of_nat RW_MGR_MEM_DQ_PER_READ_DQS)"
  define n where "n = (if QDRII = 0 then dtaps_of_ptap IO_DELAY_PER_DQS_EN_DCHAIN_TAP else 0)"
  obtain t where t: "vfifo_dtaps g r b tb (filter even [0..<unat n + 1]) CAL_SUBSTAGE_GUARANTEED_READ s1 =
      ((None, CAL_SUBSTAGE_GUARANTEED_READ), t)" "io_at s1 t"
    using vfifo_dtaps_fail [OF hopeless_io [OF s1 assms]] by blast
  show ?thesis
    unfolding rw_mgr_mem_calibrate_vfifo_def Let_def s1_def [symmetric] g_def [symmetric] tb_def [symmetric]
      n_def [symmetric] t(1)
    using io_at_trans [OF s1 t(2)] by auto
qed

lemma write_group_fails:
  assumes "hopeless s" "error_stage (gbl s) = CAL_STAGE_NIL"
  shows "\<exists>t. calibrate_write_group 0 b s = (False, t) \<and> sweep_all_groups t = sweep_all_groups s \<and>
    error_stage (gbl t) = CAL_STAGE_VFIFO \<and> error_substage (gbl t) = CAL_SUBSTAGE_GUARANTEED_READ \<and>
    error_group (gbl t) = 0"
proof -
  define s1 where "s1 = scc_mgr_zero_group 0 b 0 (IOWR_32DIRECT SCC_MGR_GROUP_COUNTER 0 0 s)"
  have s1: "io_at s s1" unfolding s1_def by (intro io_at_rules)
  obtain t where t: "rw_mgr_mem_calibrate_vfifo 0 0 s1 =
      (False, set_failing_group_stage 0 CAL_STAGE_VFIFO CAL_SUBSTAGE_GUARANTEED_READ t)" "io_at s1 t"
    using vfifo_fails [OF hopeless_io [OF s1 assms(1)], of 0 0] by (auto simp: DDRX_def)
  have gbl: "gbl t = gbl s" using io_at_frame(2) [OF io_at_trans [OF s1 t(2)]] .
  have groups: "read_groups 0 = [0]"
    by (simp add: read_groups_def first_read_group_def seq_params upt_rec)
  have steps: "STATIC_CALIB_STEPS AND CALIB_SKIP_VFIFO = 0"
    by (simp add: STATIC_CALIB_STEPS_def STATIC_IN_RTL_SIM_def STATIC_SKIP_DELAY_LOOPS_def
        CALIB_SKIP_FULL_TEST_def CALIB_SKIP_VFIFO_def)
  show ?thesis
    unfolding calibrate_write_group_def Let_def s1_def [symmetric] groups
    using gbl assms(2)
    by (simp add: and_then_def steps t(1) set_failing_group_stage_def upd_gbl_def sweep_all_groups_def)
qed

section \<open>The run\<close>

lemma once_fails:
  assumes h: "hopeless s" and nil: "error_stage (gbl s) = CAL_STAGE_NIL"
  shows "\<exists>t. calibrate_repeat NUM_CALIB_REPEAT 0 s = (False, t) \<and>
    error_stage (gbl t) = CAL_STAGE_VFIFO \<and> error_substage (gbl t) = CAL_SUBSTAGE_GUARANTEED_READ \<and>
    error_group (gbl t) = 0"
proof -
  define s1 where "s1 = scc_mgr_zero_all s"
  have s1: "io_at s s1" unfolding s1_def by (intro io_at_rules)
  have nil1: "error_stage (gbl s1) = CAL_STAGE_NIL" using nil io_at_frame(2) [OF s1] by simp
  obtain t where t: "calibrate_write_group 0 0 s1 = (False, t)" "sweep_all_groups t = sweep_all_groups s1"
    "error_stage (gbl t) = CAL_STAGE_VFIFO" "error_substage (gbl t) = CAL_SUBSTAGE_GUARANTEED_READ"
    "error_group (gbl t) = 0"
    using write_group_fails [OF hopeless_io [OF s1 h] nil1] by blast
  have flags: "\<not> sweep_all_groups s1"
    using hopeless_io [OF s1 h]
    by (simp add: hopeless_def sweep_all_groups_def PHY_DEBUG_ENABLE_CAL_RPT_def PHY_DEBUG_SWEEP_ALL_GROUPS_def)
  have skip: "skip_groups (param s1) = 0" using hopeless_io [OF s1 h] by (simp add: hopeless_def ready_def)
  have groups: "[0..<RW_MGR_MEM_IF_WRITE_DQS_WIDTH] = 0 # [1..<4]"
    by (simp add: seq_params upt_rec)
  have run: "(NOT 0 :: u32) AND (push_bit RW_MGR_NUM_DQS_PER_WRITE_GROUP 1 - 1) \<noteq> 0"
    by (simp add: seq_params RW_MGR_NUM_DQS_PER_WRITE_GROUP_def)
  have "calibrate_once 0 s = ((False, 0), t)"
    unfolding calibrate_once_def Let_def s1_def [symmetric] groups skip calibrate_groups.simps
    using run flags by (simp add: t)
  then show ?thesis using t(3-5) by (simp add: NUM_CALIB_REPEAT_def)
qed

lemma mem_config_errors [simp]:
  "error_stage (gbl (mem_config s)) = error_stage (gbl s)"
  "phy_debug_mode_flags (gbl (mem_config s)) = phy_debug_mode_flags (gbl s)"
  by (simp_all add: mem_config_def IORD_32DIRECT_def IOWR_emits Let_def io_frame io_rules upd_gbl_def)

lemma mem_calibrate_fails:
  assumes h: "hopeless s" and steps: "ucast (dyn_calib_steps s) AND CALIB_SKIP_ALL \<noteq> CALIB_SKIP_ALL"
  shows "\<exists>t. mem_calibrate s = (False, t) \<and>
    error_stage (gbl t) = CAL_STAGE_VFIFO \<and> error_substage (gbl t) = CAL_SUBSTAGE_GUARANTEED_READ \<and>
    error_group (gbl t) = 0"
proof -
  define s0 where "s0 = upd_gbl (\<lambda>g. g\<lparr>error_substage := CAL_SUBSTAGE_NIL, error_stage := CAL_STAGE_NIL,
    error_group := 0xff, fom_in := 0, fom_out := 0\<rparr>) s"
  define s2 where "s2 = (if ARRIAV \<noteq> 0 \<or> CYCLONEV \<noteq> 0
    then for_each [0..<RW_MGR_MEM_IF_READ_DQS_WIDTH] (\<lambda>i. seqs [
      IOWR_32DIRECT SCC_MGR_GROUP_COUNTER 0 (of_nat i),
      scc_set_bypass_mode (of_nat i) (if HARD_PHY \<noteq> 0 then 0x1 else 0x0)]) (mem_config s0)
    else mem_config s0)"
  have s2: "io_at (mem_config s0) s2" unfolding s2_def by (intro io_at_rules io_rules)
  have s0: "same_settings s s0" by (simp add: s0_def same_settings_def upd_gbl_def)
  have set2: "same_settings s s2"
    by (rule settings.rel_trans [OF settings.mem_config [OF s0] settings.rel_io [OF s2]])
  have nil: "error_stage (gbl s2) = CAL_STAGE_NIL"
    by (simp add: io_at_frame(2) [OF s2]) (simp add: s0_def upd_gbl_def)
  have "ucast (dyn_calib_steps s2) AND CALIB_SKIP_ALL \<noteq> CALIB_SKIP_ALL"
    using steps set2 by (simp add: same_settings_def)
  then show ?thesis
    unfolding mem_calibrate_def Let_def s0_def [symmetric] s2_def [symmetric]
    using once_fails [OF hopeless_later [OF set2 h] nil] by auto
qed

lemma start_steps:
  "ucast (ucast STATIC_CALIB_STEPS :: 16 word) AND CALIB_SKIP_ALL \<noteq> CALIB_SKIP_ALL"
  by (simp add: STATIC_CALIB_STEPS_def STATIC_IN_RTL_SIM_def STATIC_SKIP_DELAY_LOOPS_def
      CALIB_SKIP_FULL_TEST_def CALIB_SKIP_ALL_def CALIB_SKIP_VFIFO_def CALIB_SKIP_LFIFO_def
      CALIB_SKIP_WLEVEL_def CALIB_SKIP_WRITES_def)

lemma start_settings:
  "dyn_calib_steps (calibration_start m s) = ucast STATIC_CALIB_STEPS"
  "skip_ranks (param (calibration_start m s)) = [0]"
  "skip_shadow_regs (param (calibration_start m s)) = [0]"
  "skip_groups (param (calibration_start m s)) = 0"
  "hw (calibration_start m s) = hw s"
  by (simp_all add: calibration_start_def Let_def io_frame io_rules upd_param_def upd_gbl_def
      RW_MGR_MEM_NUMBER_OF_RANKS_def NUM_SHADOW_REGS_def)

lemma start_hopeless:
  assumes "dead s"
  shows "hopeless (rw_mgr_mem_initialize (initialize (emits tr (calibration_start m s))))"
proof -
  let ?s = "emits tr (calibration_start m s)"
  have "ready (initialize ?s)"
    by (rule initialize_ready) (simp_all add: start_settings start_steps)
  then show ?thesis
    using assms
    by (simp add: hopeless_def ready_io io_frame io_rules dead_def start_settings calibration_start_gbl)
qed

text \<open>C9: When the comparison of the read/write manager never reports a match of all eight pins, the
  calibration fails, and the processor is told where: the status register holds failure, and the
  failing-stage register names the valid FIFO's stage, the guaranteed read and group 0.
\<close>

theorem dead_memory_reported:
  assumes "dead s"
  shows "let (pass, t) = sdram_calibration m s
    in \<not> pass \<and>
       last_write PHY_MGR_CAL_STATUS (accesses t) = Some PHY_MGR_CAL_FAIL \<and>
       last_write REG_FILE_FAILING_STAGE (accesses t) =
         Some (CAL_STAGE_VFIFO OR push_bit 8 CAL_SUBSTAGE_GUARANTEED_READ)"
proof -
  obtain c p t where r: "run_until_report (calibration_start m s) = (c, p, t)" by (metis prod.collapse)
  obtain tr u where u: "mem_calibrate (rw_mgr_mem_initialize (initialize (emits tr (calibration_start m s)))) = (p, u)"
    "gbl t = gbl u" using run_before_report(6) [OF r] by blast
  let ?s = "rw_mgr_mem_initialize (initialize (emits tr (calibration_start m s)))"
  have "ucast (dyn_calib_steps ?s) AND CALIB_SKIP_ALL \<noteq> CALIB_SKIP_ALL"
    by (simp add: io_frame io_rules initialize_def IOWR_emits upd_param_def start_settings start_steps)
  from mem_calibrate_fails [OF start_hopeless [OF assms] this] u
  have f: "\<not> p" "error_stage (gbl t) = CAL_STAGE_VFIFO" "error_group (gbl t) = 0"
    "error_substage (gbl t) = CAL_SUBSTAGE_GUARANTEED_READ" by auto
  then have v: "sdram_calibration m s = (False, report_fail (IOWR_32DIRECT CTRL_CONFIG_REG 0 c t))"
    by (simp add: calibration_start run_until_report r Let_def)
  show ?thesis
    using f by (auto simp: v report_fail_emits Let_def IOWR_emits last_write_append last_write_Cons seq_regs seq_bases)
qed

theorem dead_memory_reported_witness:
  "let (pass, t) = sdram_calibration plain_phyctrl (blank (\<lambda>tr a. 1))
   in \<not> pass \<and>
      last_write PHY_MGR_CAL_STATUS (accesses t) = Some PHY_MGR_CAL_FAIL \<and>
      last_write REG_FILE_FAILING_STAGE (accesses t) =
        Some (CAL_STAGE_VFIFO OR push_bit 8 CAL_SUBSTAGE_GUARANTEED_READ)"
  by (rule dead_memory_reported) (simp add: dead_def blank_def)

end
