(* ===== verification/LatencyProofs.thy ===== *)
theory LatencyProofs
  imports TestProofs
begin

text \<open>
  The read latency that calibration ends with, for a device whose reads come back once the latency in
  its register is large enough.
\<close>

section \<open>The test at one latency\<close>

text \<open>A device whose reads of all pins match iff the latency in the register is at least \<open>m\<close>.\<close>

definition needs_latency :: "u32 \<Rightarrow> (access list \<Rightarrow> u32 \<Rightarrow> u32) \<Rightarrow> bool" where
  "needs_latency m h \<longleftrightarrow>
     (\<forall>tr. h tr BASE_RW_MGR AND 0xff = 0 \<longleftrightarrow>
        (case last_write PHY_MGR_PHY_RLAT tr of Some l \<Rightarrow> m \<le> l | None \<Rightarrow> False))"

lemma quick_modes [simp]: "\<not> quick_read_mode" "\<not> quick_write_mode"
  by (simp_all add: quick_read_mode_def quick_write_mode_def ENABLE_SUPER_QUICK_CALIBRATION_def BFM_MODE_def)

lemma mask_all': "0xff AND NOT (v :: u32) = 0xff \<longleftrightarrow> v AND 0xff = 0"
  using mask_all [of v] by (simp add: and.commute)

lemma latency_test:
  fixes n :: u32
  assumes "ready s" and h: "needs_latency m (hw s)"
  defines "r \<equiv> rw_mgr_mem_calibrate_read_test 0 0 n True True True s"
  shows "fst (fst r) = (case last_write PHY_MGR_PHY_RLAT (accesses s) of Some l \<Rightarrow> m \<le> l | None \<Rightarrow> False)"
    and "last_write PHY_MGR_PHY_RLAT (accesses (snd r)) = last_write PHY_MGR_PHY_RLAT (accesses s)"
proof -
  have p: "skip_ranks (param s) = [0]" using assms(1) by (simp add: ready_def)
  note eval = rw_mgr_mem_calibrate_read_test_def collect_ranks_def collect_vgs_def rank_range_eq
    skip_rank_def ready_masks [OF assms(1)] IORD_32DIRECT_def IOWR_emits set_rank_and_odt_mask_def
    Let_def RW_MGR_MEM_VIRTUAL_GROUPS_PER_READ_DQS_def p
  note regs = last_write_append last_write_Cons seq_regs seq_bases
  show "fst (fst r) = (case last_write PHY_MGR_PHY_RLAT (accesses s) of Some l \<Rightarrow> m \<le> l | None \<Rightarrow> False)"
    unfolding r_def
    by (simp add: eval verdict_def mask_all' h [unfolded needs_latency_def, rule_format])
      (simp add: regs split: option.splits)
  show "last_write PHY_MGR_PHY_RLAT (accesses (snd r)) = last_write PHY_MGR_PHY_RLAT (accesses s)"
    unfolding r_def by (simp add: eval) (simp add: regs split: option.splits)
qed

text \<open>The state of the search: the latency register holds the latency that is tried.\<close>

definition trying :: "u32 \<Rightarrow> seq \<Rightarrow> bool" where
  "trying m s \<longleftrightarrow> ready s \<and> needs_latency m (hw s) \<and>
     last_write PHY_MGR_PHY_RLAT (accesses s) = Some (curr_read_lat (gbl s))"

lemma trying_read_test:
  assumes "trying m s"
  defines "r \<equiv> rw_mgr_mem_calibrate_read_test 0 0 1 True True True s"
  shows "fst (fst r) \<longleftrightarrow> m \<le> curr_read_lat (gbl s)" "trying m (snd r)" "gbl (snd r) = gbl s"
proof -
  have s: "ready s" "needs_latency m (hw s)" using assms(1) by (simp_all add: trying_def)
  have io: "io_at s (snd r)" unfolding r_def by (intro io_at_rules io_at_refl)
  show "fst (fst r) \<longleftrightarrow> m \<le> curr_read_lat (gbl s)"
    using latency_test(1) [OF s, of 1] assms(1) by (simp add: r_def trying_def)
  show "gbl (snd r) = gbl s" by (rule io_at_frame(2) [OF io])
  then show "trying m (snd r)"
    using latency_test(2) [OF s, of 1] assms(1) ready_later [OF settings.rel_io [OF io] s(1)]
    by (simp add: r_def [symmetric] trying_def io_at_frame(3) [OF io])
qed

lemma trying_repeat:
  "trying m s \<Longrightarrow> \<exists>b t. repeat_read_test (Suc n) 0 True True b0 s = ((m \<le> curr_read_lat (gbl s), b), t) \<and>
     trying m t \<and> gbl t = gbl s"
proof (induction n arbitrary: b0 s)
  case 0
  then show ?case using trying_read_test [of m s] by (auto simp: split_beta)
next
  case (Suc n)
  define r where "r = rw_mgr_mem_calibrate_read_test 0 0 1 True True True s"
  note t = trying_read_test [OF Suc.prems, folded r_def]
  show ?case
    using t Suc.IH [OF t(2)]
    by (subst repeat_read_test.simps) (auto simp: split_beta r_def [symmetric])
qed

lemma trying_tests:
  assumes "trying m s"
  shows "\<exists>b t. rw_mgr_mem_calibrate_read_test_all_ranks 0 NUM_READ_TESTS True True s =
      ((m \<le> curr_read_lat (gbl s), b), t) \<and> trying m t \<and> gbl t = gbl s"
  using trying_repeat [OF assms, of 6 0]
  by (simp add: rw_mgr_mem_calibrate_read_test_all_ranks_def NUM_READ_TESTS_def del: repeat_read_test.simps)

section \<open>The search\<close>

text \<open>Down from a latency that is enough: the last one that passes is \<open>m\<close>, and one less is left.\<close>

lemma lfifo_loop_finds:
  assumes "ready s" "needs_latency m (hw s)" "0 < m"
  shows "\<exists>t. lfifo_loop f s = (f \<or> m \<le> curr_read_lat (gbl s), t) \<and> ready t \<and> hw t = hw s \<and>
    gbl t = (gbl s)\<lparr>curr_read_lat := if m \<le> curr_read_lat (gbl s) then m - 1 else curr_read_lat (gbl s)\<rparr>"
  using assms(1,2)
proof (induction f s rule: lfifo_loop.induct)
  case (1 f s)
  define s1 where "s1 = IOWR_32DIRECT PHY_MGR_PHY_RLAT 0 (curr_read_lat (gbl s)) s"
  have t0: "trying m s1"
    using "1.prems" by (simp add: s1_def trying_def IOWR_emits)
  obtain b s2 where r: "rw_mgr_mem_calibrate_read_test_all_ranks 0 NUM_READ_TESTS True True s1 =
      ((m \<le> curr_read_lat (gbl s), b), s2)" "trying m s2" "gbl s2 = gbl s"
    using trying_tests [OF t0] by (auto simp: s1_def IOWR_emits)
  have hw2: "hw s2 = hw s"
    using io_val_frame(3) [OF io_val_all_ranks(2) r(1)] by (simp add: s1_def IOWR_emits)
  define s3 where "s3 = upd_gbl (\<lambda>g. g\<lparr>curr_read_lat := curr_read_lat g - 1\<rparr>) s2"
  have s3: "ready s3" "needs_latency m (hw s3)" "hw s3 = hw s"
    "gbl s3 = (gbl s)\<lparr>curr_read_lat := curr_read_lat (gbl s) - 1\<rparr>"
    using r(2,3) hw2 by (simp_all add: s3_def upd_gbl_def trying_def ready_def)
  show ?case
  proof (cases "m \<le> curr_read_lat (gbl s)")
    case False
    then show ?thesis
      using r(2,3) hw2
      by (subst lfifo_loop.simps) (simp add: Let_def s1_def [symmetric] r(1) trying_def)
  next
    case le: True
    define l where "l = curr_read_lat (gbl s)"
    have pos: "0 < l" using le assms(3) by (auto simp: l_def)
    show ?thesis
    proof (cases "l - 1 > 0")
      case True
      have step: "lfifo_loop f s = lfifo_loop True s3"
        using le True
        by (subst lfifo_loop.simps) (simp add: Let_def s1_def [symmetric] r(1) s3_def [symmetric] s3(4) l_def)
      obtain t where t: "lfifo_loop True s3 = (True, t)" "ready t" "hw t = hw s3"
        "gbl t = (gbl s3)\<lparr>curr_read_lat := if m \<le> l - 1 then m - 1 else l - 1\<rparr>"
        using "1.IH" [OF s1_def _ _ _ s3_def, of "((m \<le> curr_read_lat (gbl s), b), s2)"] r(1) le True s3
        by (auto simp: l_def)
      have "m = l" if "\<not> m \<le> l - 1"
        using that le pos by (simp add: l_def) unat_arith
      then show ?thesis using t le s3 by (auto simp: step l_def)
    next
      case False
      then have l1: "l = 1" using pos by unat_arith
      then have "m = 1" using le assms(3) by (simp add: l_def) unat_arith
      then have "\<not> curr_read_lat (gbl s3) > 0" "m - 1 = curr_read_lat (gbl s) - 1"
        using l1 s3(4) by (simp_all add: l_def)
      then show ?thesis
        using s3 le
        by (subst lfifo_loop.simps) (simp add: Let_def s1_def [symmetric] r(1) s3_def [symmetric])
    qed
  qed
qed

text \<open>C19: For a device whose reads match iff the latency in its register is at least \<open>m\<close>, the search for
  the read latency succeeds iff the latency it starts from is enough; it then leaves \<open>m + 1\<close>, one more
  than what is needed, in its variable and in the register, and otherwise it records the failure of
  the latency stage.
\<close>

theorem read_latency_found:
  assumes "ready s" "needs_latency m (hw s)" "0 < m"
  shows "let (ok, t) = rw_mgr_mem_calibrate_lfifo s
    in ok = (m \<le> curr_read_lat (gbl s)) \<and>
       (if ok
        then curr_read_lat (gbl t) = m + 1 \<and> last_write PHY_MGR_PHY_RLAT (accesses t) = Some (m + 1) \<and>
          error_stage (gbl t) = error_stage (gbl s)
        else curr_read_lat (gbl t) = curr_read_lat (gbl s) \<and>
          error_stage (gbl t) = (if error_stage (gbl s) = CAL_STAGE_NIL then CAL_STAGE_LFIFO
            else error_stage (gbl s)))"
proof -
  define s1 where "s1 = rw_mgr_mem_calibrate_read_load_patterns_all_ranks
    (reg_file_set_sub_stage CAL_SUBSTAGE_READ_LATENCY (reg_file_set_stage CAL_STAGE_LFIFO s))"
  have io: "io_at s s1" unfolding s1_def by (intro io_at_rules)
  have s1: "ready s1" "needs_latency m (hw s1)" "gbl s1 = gbl s"
    using ready_later [OF settings.rel_io [OF io] assms(1)] assms(2) by (simp_all add: io_at_frame [OF io])
  obtain t where t: "lfifo_loop False s1 = (m \<le> curr_read_lat (gbl s), t)"
    "gbl t = (gbl s)\<lparr>curr_read_lat := if m \<le> curr_read_lat (gbl s) then m - 1 else curr_read_lat (gbl s)\<rparr>"
    using lfifo_loop_finds [OF s1(1,2) assms(3), of False] s1(3) by auto
  then show ?thesis
    by (simp add: rw_mgr_mem_calibrate_lfifo_def Let_def s1_def [symmetric] t(1) IOWR_emits upd_gbl_def
        set_failing_group_stage_def add.commute last_write_append last_write_Cons)
qed

definition latency_device :: "u32 \<Rightarrow> access list \<Rightarrow> u32 \<Rightarrow> u32" where
  "latency_device m tr a =
     (case last_write PHY_MGR_PHY_RLAT tr of Some l \<Rightarrow> if m \<le> l then 0 else 1 | None \<Rightarrow> 1)"

theorem read_latency_found_witness:
  "let s = upd_gbl (\<lambda>g. g\<lparr>curr_read_lat := 20\<rparr>) (blank_ready (latency_device 7));
       (ok, t) = rw_mgr_mem_calibrate_lfifo s
   in ok \<and> curr_read_lat (gbl t) = 8"
proof -
  define s where "s = upd_gbl (\<lambda>g. g\<lparr>curr_read_lat := 20\<rparr>) (blank_ready (latency_device 7))"
  have "ready s" "needs_latency 7 (hw s)"
    using blank_ready(1) [of "latency_device 7"]
    by (simp_all add: s_def upd_gbl_def ready_def needs_latency_def latency_device_def split: option.splits)
  from read_latency_found [OF this] show ?thesis
    by (simp add: s_def [symmetric]) (simp add: s_def upd_gbl_def split: prod.splits)
qed

end
