(* ===== verification/DelayProofs.thy ===== *)
theory DelayProofs
  imports TestProofs
begin

text \<open>
  The delays of the sequencer: what \<open>delay_for_n_mem_clocks\<close> loads into the counters of the idle loops,
  and how often the innermost loop then runs. What an instruction of the read/write manager costs
  outside of it is not part of the model: the source does not count it either.
\<close>

section \<open>The counters\<close>

lemma byte_and [simp]: "(ucast (b :: 8 word) :: u32) AND 0xff = ucast b"
  by (simp add: mask_8) (auto simp: bit_eq_iff bit_simps dest: bit_imp_le_length)

lemma unat_byte [simp]: "unat (ucast (b :: 8 word) :: u32) = unat b"
  by (simp add: unsigned_ucast_eq take_bit_nat_eq_self less_le_trans [OF unsigned_less])

lemma idle_loops_trace: "idle_loops n s = emits (replicate (Suc n) (Wr RW_MGR_RUN_SINGLE_GROUP RW_MGR_IDLE_LOOP2)) s"
proof (induction n arbitrary: s)
  case 0
  show ?case by (subst idle_loops.simps) (simp add: IOWR_emits)
next
  case (Suc n)
  show ?case by (subst idle_loops.simps) (simp add: IOWR_emits Suc.IH Let_def)
qed

lemma unat_pred: "n \<noteq> 0 \<Longrightarrow> unat (n - 1 :: u32) = unat n - 1"
  by (simp add: unat_minus_one)

lemma counter_bytes:
  assumes "(n :: u32) \<noteq> 0"
  shows "n \<le> 0x100 \<Longrightarrow> unat (ucast (n - 1) :: 8 word) = unat n - 1"
    and "n \<le> 0x10000 \<Longrightarrow> unat (ucast (drop_bit 8 (n - 1)) :: 8 word) = (unat n - 1) div 0x100"
    and "unat (ucast (drop_bit 16 (n - 1)) :: 16 word) = (unat n - 1) div 0x10000"
proof -
  have n: "unat n < 2 ^ 32" using unsigned_less [of n] by simp
  show "n \<le> 0x100 \<Longrightarrow> unat (ucast (n - 1) :: 8 word) = unat n - 1"
    using assms by (simp add: unsigned_ucast_eq unat_pred word_le_nat_alt take_bit_nat_eq_self)
  show "n \<le> 0x10000 \<Longrightarrow> unat (ucast (drop_bit 8 (n - 1)) :: 8 word) = (unat n - 1) div 0x100"
    using assms by (simp add: unsigned_ucast_eq unat_pred unat_drop_bit_eq drop_bit_eq_div word_le_nat_alt
        take_bit_nat_eq_self less_mult_imp_div_less unat_div)
  show "unat (ucast (drop_bit 16 (n - 1)) :: 16 word) = (unat n - 1) div 0x10000"
    using assms n by (simp add: unsigned_ucast_eq unat_pred unat_drop_bit_eq drop_bit_eq_div
        take_bit_nat_eq_self less_mult_imp_div_less unat_div)
qed

lemma to_afi_clocks_eq [simp]: "to_afi_clocks n = n"
  by (simp add: to_afi_clocks_def AFI_RATE_RATIO_def)

text \<open>
  The passes of the innermost loop. Its test comes before the decrement, as the comment in the source
  says, so a loop runs once more than its counter, and so does the loop in C.
\<close>

definition loop_passes :: "8 word \<times> 8 word \<times> 16 word \<Rightarrow> nat" where
  "loop_passes k = (case k of (inner, outer, c_loop) \<Rightarrow>
     (unat inner + 1) * (unat outer + 1) * (unat c_loop + 1))"

definition delay_trace :: "u32 \<Rightarrow> 8 word \<times> 8 word \<times> 16 word \<Rightarrow> access list" where
  "delay_trace n k = (case k of (inner, outer, c_loop) \<Rightarrow>
     if n \<le> 0x100
     then [Wr RW_MGR_LOAD_CNTR_1 (ucast inner), Wr RW_MGR_LOAD_JUMP_ADD_1 RW_MGR_IDLE_LOOP1,
       Wr RW_MGR_RUN_SINGLE_GROUP RW_MGR_IDLE_LOOP1]
     else [Wr RW_MGR_LOAD_CNTR_0 (ucast inner), Wr RW_MGR_LOAD_CNTR_1 (ucast outer),
       Wr RW_MGR_LOAD_JUMP_ADD_0 RW_MGR_IDLE_LOOP2, Wr RW_MGR_LOAD_JUMP_ADD_1 RW_MGR_IDLE_LOOP2] @
       replicate (Suc (unat c_loop)) (Wr RW_MGR_RUN_SINGLE_GROUP RW_MGR_IDLE_LOOP2))"

lemma round_up:
  assumes "0 < (d :: nat)" "0 < m"
  shows "m \<le> d * ((m - 1) div d + 1)" "d * ((m - 1) div d + 1) < m + d"
  using mult_div_mod_eq [of d "m - 1"] mod_less_divisor [OF assms(1), of "m - 1"] assms
  by (simp_all only: distrib_left mult_1_right)

lemma loop_passes_cover: "unat n \<le> loop_passes (delay_counters n) \<and> loop_passes (delay_counters n) < unat n + 0x10000"
proof -
  consider "n = 0" | "n \<noteq> 0" "n \<le> 0x100" | "n \<noteq> 0" "\<not> n \<le> 0x100" "n \<le> 0x10000" | "\<not> n \<le> 0x100" "\<not> n \<le> 0x10000"
    by blast
  then show ?thesis
  proof cases
    case 1
    then show ?thesis by (simp add: loop_passes_def delay_counters_def)
  next
    case 2
    then show ?thesis
      using counter_bytes(1) [OF 2] by (simp add: loop_passes_def delay_counters_def unat_gt_0 word_neq_0_conv)
  next
    case 3
    then have "loop_passes (delay_counters n) = 0x100 * ((unat n - 1) div 0x100 + 1)"
      using counter_bytes(2) [OF 3(1,3)] by (simp add: loop_passes_def delay_counters_def)
    moreover have "unat n \<le> 0x100 * ((unat n - 1) div 0x100 + 1)" "0x100 * ((unat n - 1) div 0x100 + 1) < unat n + 0x100"
      using round_up [of "0x100" "unat n"] 3(1) by (simp_all add: unat_gt_0 word_neq_0_conv)
    ultimately show ?thesis by linarith
  next
    case 4
    then have n: "n \<noteq> 0" by auto
    have "loop_passes (delay_counters n) = 0x10000 * ((unat n - 1) div 0x10000 + 1)"
      using 4 n counter_bytes(3) [OF n] by (simp add: loop_passes_def delay_counters_def)
    moreover have "unat n \<le> 0x10000 * ((unat n - 1) div 0x10000 + 1)" "0x10000 * ((unat n - 1) div 0x10000 + 1) < unat n + 0x10000"
      using round_up [of "0x10000" "unat n"] n by (simp_all add: unat_gt_0 word_neq_0_conv)
    ultimately show ?thesis by linarith
  qed
qed

lemma delay_accesses:
  assumes "skip_delay_mask s = 0xff"
  shows "delay_for_n_mem_clocks n s = emits (delay_trace n (delay_counters n)) s"
proof -
  obtain i k c where k: "delay_counters n = (i, k, c)" by (cases "delay_counters n") auto
  have "n \<le> 0x10000 \<Longrightarrow> c = 0" using k by (auto simp: delay_counters_def split: if_splits)
  then show ?thesis
    by (simp add: delay_for_n_mem_clocks_def delay_trace_def k load_delay_def IOWR_emits
        SKIP_DELAY_LOOP_VALUE_OR_ZERO_def assms idle_loops_trace)
qed

text \<open>C30: The counters of a delay of \<open>n\<close> clocks make the innermost idle loop run at least \<open>n\<close> times, and less
  than \<open>n + 2 ^ 16\<close> times: neither the two bytes nor the 16 bits of the outermost loop lose a bit of
  \<open>n\<close>. The accesses are the loads of these counters, with the jump targets that nest the loops, and
  one run for each pass of the outermost loop.
\<close>

theorem delay_counters_cover:
  assumes "skip_delay_mask s = 0xff"
  shows "delay_for_n_mem_clocks n s = emits (delay_trace n (delay_counters n)) s \<and>
    unat n \<le> loop_passes (delay_counters n) \<and> loop_passes (delay_counters n) < unat n + 0x10000"
  using delay_accesses [OF assms] loop_passes_cover by blast

theorem delay_counters_cover_witness:
  "delay_for_n_mem_clocks 70000 (blank (\<lambda>tr a. 0)) =
      emits [Wr RW_MGR_LOAD_CNTR_0 0xff, Wr RW_MGR_LOAD_CNTR_1 0xff, Wr RW_MGR_LOAD_JUMP_ADD_0 RW_MGR_IDLE_LOOP2,
        Wr RW_MGR_LOAD_JUMP_ADD_1 RW_MGR_IDLE_LOOP2, Wr RW_MGR_RUN_SINGLE_GROUP RW_MGR_IDLE_LOOP2,
        Wr RW_MGR_RUN_SINGLE_GROUP RW_MGR_IDLE_LOOP2] (blank (\<lambda>tr a. 0)) \<and>
    loop_passes (delay_counters 70000) = 131072"
proof -
  have k: "delay_counters 70000 = (0xff, 0xff, 1)" by (simp add: delay_counters_def)
  have "skip_delay_mask (blank (\<lambda>tr a. 0)) = 0xff" by (simp add: blank_def)
  from delay_counters_cover [OF this, of 70000] show ?thesis
    by (simp add: k delay_trace_def loop_passes_def)
qed

end
