(* ===== verification/RomProofs.thy ===== *)
theory RomProofs
  imports TestProofs
begin

text \<open>
  The two memories of the read/write manager: what \<open>hc_initialize_rom_data\<close> writes into them, and that
  the addresses by which the sequencer names its programs (\<open>sequencer_auto.h\<close>) are those of the words
  it means (the header's \<open>CONTENT\<close> macros).
\<close>

section \<open>Programs and their words\<close>

definition programs :: "(u32 \<times> u32) list" where
  "programs = [
    (RW_MGR_READ_B2B_WAIT2, CONTENT_READ_B2B_WAIT2),
    (RW_MGR_LFSR_WR_RD_BANK_0_WAIT, CONTENT_LFSR_WR_RD_BANK_0_WAIT),
    (RW_MGR_REFRESH_ALL, CONTENT_REFRESH_ALL), (RW_MGR_ZQCL, CONTENT_ZQCL),
    (RW_MGR_LFSR_WR_RD_BANK_0_NOP, CONTENT_LFSR_WR_RD_BANK_0_NOP),
    (RW_MGR_LFSR_WR_RD_BANK_0_DQS, CONTENT_LFSR_WR_RD_BANK_0_DQS),
    (RW_MGR_ACTIVATE_0_AND_1, CONTENT_ACTIVATE_0_AND_1), (RW_MGR_MRS2_MIRR, CONTENT_MRS2_MIRR),
    (RW_MGR_INIT_RESET_0_CKE_0, CONTENT_INIT_RESET_0_CKE_0),
    (RW_MGR_LFSR_WR_RD_DM_BANK_0_WAIT, CONTENT_LFSR_WR_RD_DM_BANK_0_WAIT),
    (RW_MGR_ACTIVATE_1, CONTENT_ACTIVATE_1), (RW_MGR_MRS2, CONTENT_MRS2),
    (RW_MGR_LFSR_WR_RD_DM_BANK_0_WL_1, CONTENT_LFSR_WR_RD_DM_BANK_0_WL_1),
    (RW_MGR_MRS1, CONTENT_MRS1), (RW_MGR_IDLE_LOOP1, CONTENT_IDLE_LOOP1),
    (RW_MGR_GUARANTEED_WRITE_WAIT2, CONTENT_GUARANTEED_WRITE_WAIT2), (RW_MGR_MRS3, CONTENT_MRS3),
    (RW_MGR_IDLE_LOOP2, CONTENT_IDLE_LOOP2),
    (RW_MGR_GUARANTEED_WRITE_WAIT1, CONTENT_GUARANTEED_WRITE_WAIT1),
    (RW_MGR_LFSR_WR_RD_BANK_0_DATA, CONTENT_LFSR_WR_RD_BANK_0_DATA),
    (RW_MGR_GUARANTEED_WRITE_WAIT3, CONTENT_GUARANTEED_WRITE_WAIT3),
    (RW_MGR_RDIMM_CMD, CONTENT_RDIMM_CMD),
    (RW_MGR_LFSR_WR_RD_DM_BANK_0_NOP, CONTENT_LFSR_WR_RD_DM_BANK_0_NOP),
    (RW_MGR_GUARANTEED_WRITE_WAIT0, CONTENT_GUARANTEED_WRITE_WAIT0),
    (RW_MGR_LFSR_WR_RD_DM_BANK_0_DATA, CONTENT_LFSR_WR_RD_DM_BANK_0_DATA),
    (RW_MGR_GUARANTEED_READ_CONT, CONTENT_GUARANTEED_READ_CONT),
    (RW_MGR_REFRESH_DELAY, CONTENT_REFRESH_DELAY), (RW_MGR_MRS3_MIRR, CONTENT_MRS3_MIRR),
    (RW_MGR_IDLE, CONTENT_IDLE), (RW_MGR_READ_B2B, CONTENT_READ_B2B),
    (RW_MGR_LFSR_WR_RD_DM_BANK_0_DQS, CONTENT_LFSR_WR_RD_DM_BANK_0_DQS),
    (RW_MGR_GUARANTEED_WRITE, CONTENT_GUARANTEED_WRITE),
    (RW_MGR_PRECHARGE_ALL, CONTENT_PRECHARGE_ALL), (RW_MGR_SGLE_READ, CONTENT_SGLE_READ),
    (RW_MGR_MRS0_USER_MIRR, CONTENT_MRS0_USER_MIRR), (RW_MGR_RETURN, CONTENT_RETURN),
    (RW_MGR_LFSR_WR_RD_DM_BANK_0, CONTENT_LFSR_WR_RD_DM_BANK_0),
    (RW_MGR_MRS0_USER, CONTENT_MRS0_USER), (RW_MGR_GUARANTEED_READ, CONTENT_GUARANTEED_READ),
    (RW_MGR_MRS0_DLL_RESET_MIRR, CONTENT_MRS0_DLL_RESET_MIRR),
    (RW_MGR_INIT_RESET_1_CKE_0, CONTENT_INIT_RESET_1_CKE_0),
    (RW_MGR_ACTIVATE_0_AND_1_WAIT2, CONTENT_ACTIVATE_0_AND_1_WAIT2),
    (RW_MGR_LFSR_WR_RD_BANK_0_WL_1, CONTENT_LFSR_WR_RD_BANK_0_WL_1),
    (RW_MGR_MRS0_DLL_RESET, CONTENT_MRS0_DLL_RESET),
    (RW_MGR_ACTIVATE_0_AND_1_WAIT1, CONTENT_ACTIVATE_0_AND_1_WAIT1),
    (RW_MGR_LFSR_WR_RD_BANK_0, CONTENT_LFSR_WR_RD_BANK_0),
    (RW_MGR_CLEAR_DQS_ENABLE, CONTENT_CLEAR_DQS_ENABLE), (RW_MGR_MRS1_MIRR, CONTENT_MRS1_MIRR),
    (RW_MGR_READ_B2B_WAIT1, CONTENT_READ_B2B_WAIT1)]"

definition commands :: "(u32 \<times> u32) list" where
  "commands = [
    (RW_MGR_ac_mrs1, CONTENT_ac_mrs1), (RW_MGR_ac_mrs3, CONTENT_ac_mrs3),
    (RW_MGR_ac_write_bank_0_col_0_nodata_wl_1, CONTENT_ac_write_bank_0_col_0_nodata_wl_1),
    (RW_MGR_ac_act_1, CONTENT_ac_act_1), (RW_MGR_ac_write_postdata, CONTENT_ac_write_postdata),
    (RW_MGR_ac_act_0, CONTENT_ac_act_0), (RW_MGR_ac_des, CONTENT_ac_des),
    (RW_MGR_ac_init_reset_1_cke_0, CONTENT_ac_init_reset_1_cke_0),
    (RW_MGR_ac_write_data, CONTENT_ac_write_data),
    (RW_MGR_ac_init_reset_0_cke_0, CONTENT_ac_init_reset_0_cke_0),
    (RW_MGR_ac_read_bank_0_1_norden, CONTENT_ac_read_bank_0_1_norden),
    (RW_MGR_ac_pre_all, CONTENT_ac_pre_all), (RW_MGR_ac_mrs0_user, CONTENT_ac_mrs0_user),
    (RW_MGR_ac_mrs0_dll_reset, CONTENT_ac_mrs0_dll_reset),
    (RW_MGR_ac_read_bank_0_0, CONTENT_ac_read_bank_0_0),
    (RW_MGR_ac_write_bank_0_col_1, CONTENT_ac_write_bank_0_col_1),
    (RW_MGR_ac_read_bank_0_1, CONTENT_ac_read_bank_0_1),
    (RW_MGR_ac_write_bank_1_col_0, CONTENT_ac_write_bank_1_col_0),
    (RW_MGR_ac_write_bank_1_col_1, CONTENT_ac_write_bank_1_col_1),
    (RW_MGR_ac_write_bank_0_col_0, CONTENT_ac_write_bank_0_col_0),
    (RW_MGR_ac_read_bank_1_0, CONTENT_ac_read_bank_1_0),
    (RW_MGR_ac_mrs1_mirr, CONTENT_ac_mrs1_mirr),
    (RW_MGR_ac_read_bank_1_1, CONTENT_ac_read_bank_1_1),
    (RW_MGR_ac_des_odt_1, CONTENT_ac_des_odt_1),
    (RW_MGR_ac_mrs0_dll_reset_mirr, CONTENT_ac_mrs0_dll_reset_mirr),
    (RW_MGR_ac_zqcl, CONTENT_ac_zqcl), (RW_MGR_ac_write_predata, CONTENT_ac_write_predata),
    (RW_MGR_ac_mrs0_user_mirr, CONTENT_ac_mrs0_user_mirr), (RW_MGR_ac_ref, CONTENT_ac_ref),
    (RW_MGR_ac_nop, CONTENT_ac_nop), (RW_MGR_ac_rdimm, CONTENT_ac_rdimm),
    (RW_MGR_ac_mrs2_mirr, CONTENT_ac_mrs2_mirr),
    (RW_MGR_ac_write_bank_0_col_0_nodata, CONTENT_ac_write_bank_0_col_0_nodata),
    (RW_MGR_ac_read_en, CONTENT_ac_read_en), (RW_MGR_ac_mrs3_mirr, CONTENT_ac_mrs3_mirr),
    (RW_MGR_ac_mrs2, CONTENT_ac_mrs2)]"

lemma programs_listed:
  "list_all (\<lambda>(pc, w). unat pc < inst_rom_init_size \<and> inst_rom_init ! unat pc = w) programs"
  by (simp add: programs_def seq_pcs inst_rom_init_def inst_rom_init_size_def)

lemma commands_listed:
  "list_all (\<lambda>(a, w). unat a < ac_rom_init_size \<and> ac_rom_init ! unat a = w) commands"
  by (simp add: commands_def seq_pcs ac_rom_init_def ac_rom_init_size_def)

section \<open>The load\<close>

lemma last_write_map:
  "inj_on f (set xs) \<Longrightarrow> j \<in> set xs \<Longrightarrow> last_write (f j) (map (\<lambda>i. Wr (f i) (g i)) xs) = Some (g j)"
proof (induction xs rule: rev_induct)
  case (snoc x xs)
  then show ?case by (auto simp: inj_on_def)
qed simp

lemma last_write_map_None:
  "a \<notin> f ` set xs \<Longrightarrow> last_write a (map (\<lambda>i. Wr (f i) (g i)) xs) = None"
  by (induction xs rule: rev_induct) auto

definition rom_writes :: "u32 \<Rightarrow> u32 list \<Rightarrow> nat \<Rightarrow> access list" where
  "rom_writes base ws n = map (\<lambda>i. Wr (base + push_bit 2 (of_nat i)) (ws ! i)) [0..<n]"

lemma for_each_writes:
  "for_each xs (\<lambda>i. IOWR_32DIRECT b (k i) (v i)) s = emits (map (\<lambda>i. Wr (b + k i) (v i)) xs) s"
  by (induction xs arbitrary: s) (simp_all add: IOWR_emits)

lemma rom_data:
  "hc_initialize_rom_data s =
     emits (rom_writes RW_MGR_INST_ROM_WRITE inst_rom_init inst_rom_init_size @
       rom_writes RW_MGR_AC_ROM_WRITE ac_rom_init ac_rom_init_size) s"
  by (simp add: hc_initialize_rom_data_def for_each_writes rom_writes_def)

lemma rom_address_nat: "i < 128 \<Longrightarrow> b \<le> 0x92000 \<Longrightarrow> unat (b + push_bit 2 (of_nat i) :: u32) = unat b + 4 * i"
proof -
  assume i: "i < 128" and b: "b \<le> 0x92000"
  have p: "unat (push_bit 2 (of_nat i) :: u32) = 4 * i"
    using i by (simp add: push_bit_eq_mult unat_word_ariths unat_of_nat)
  have "unat b \<le> 0x92000" using b by (simp add: word_le_nat_alt)
  then show ?thesis using i p by (simp add: unat_word_ariths)
qed

lemma rom_bases: "RW_MGR_INST_ROM_WRITE = 0x91800" "RW_MGR_AC_ROM_WRITE = 0x91c00"
  by (simp_all add: RW_MGR_INST_ROM_WRITE_def RW_MGR_AC_ROM_WRITE_def BASE_RW_MGR_def)

lemma rom_word:
  assumes "j < n" "n \<le> 128" "b \<le> 0x92000"
  shows "last_write (b + push_bit 2 (of_nat j)) (rom_writes b ws n) = Some (ws ! j)"
proof -
  have "inj_on (\<lambda>i. b + push_bit 2 (of_nat i)) {0..<n}"
    by (rule inj_onI) (use assms rom_address_nat [of _ b] rom_address_nat [of _ 0] in \<open>auto dest!: arg_cong [where f = unat]\<close>)
  then show ?thesis
    using assms last_write_map [of "\<lambda>i. b + push_bit 2 (of_nat i)" "[0..<n]" j "\<lambda>i. ws ! i"]
    by (simp add: rom_writes_def)
qed

lemma other_rom:
  assumes "j < inst_rom_init_size"
  shows "last_write (RW_MGR_INST_ROM_WRITE + push_bit 2 (of_nat j))
    (rom_writes RW_MGR_AC_ROM_WRITE ac_rom_init ac_rom_init_size) = None"
proof -
  have ne: "RW_MGR_INST_ROM_WRITE + push_bit 2 (of_nat j) \<noteq> RW_MGR_AC_ROM_WRITE + push_bit 2 (of_nat i)"
    if "i < ac_rom_init_size" for i
  proof
    assume "RW_MGR_INST_ROM_WRITE + push_bit 2 (of_nat j) = RW_MGR_AC_ROM_WRITE + push_bit 2 (of_nat i)"
    from arg_cong [OF this, of unat] show False
      using assms that rom_address_nat [of j RW_MGR_INST_ROM_WRITE] rom_address_nat [of i RW_MGR_AC_ROM_WRITE]
      by (simp add: rom_bases inst_rom_init_size_def ac_rom_init_size_def)
  qed
  then show ?thesis
    unfolding rom_writes_def
    by (intro last_write_map_None) (metis (no_types, lifting) ne atLeastLessThan_iff imageE set_upt)
qed

text \<open>C37: After \<open>hc_initialize_rom_data\<close> the read/write manager holds, at the address of every program that
  \<open>sequencer_auto.h\<close> names, the word that this header gives as the program's first, and likewise for
  every address/command word: the tables, the names and the loop that loads them agree.
\<close>

theorem rom_holds_programs:
  "let tr = accesses (hc_initialize_rom_data s)
   in list_all (\<lambda>(pc, w). last_write (RW_MGR_INST_ROM_WRITE + push_bit 2 pc) tr = Some w) programs \<and>
      list_all (\<lambda>(a, w). last_write (RW_MGR_AC_ROM_WRITE + push_bit 2 a) tr = Some w) commands"
proof -
  have p: "last_write (RW_MGR_INST_ROM_WRITE + push_bit 2 pc) (accesses (hc_initialize_rom_data s)) =
      Some (inst_rom_init ! unat pc)" if "unat pc < inst_rom_init_size" for pc
    using that rom_word [of "unat pc" inst_rom_init_size RW_MGR_INST_ROM_WRITE inst_rom_init] other_rom [of "unat pc"]
    by (simp add: rom_data last_write_append rom_bases inst_rom_init_size_def)
  have c: "last_write (RW_MGR_AC_ROM_WRITE + push_bit 2 a) (accesses (hc_initialize_rom_data s)) =
      Some (ac_rom_init ! unat a)" if "unat a < ac_rom_init_size" for a
    using that rom_word [of "unat a" ac_rom_init_size RW_MGR_AC_ROM_WRITE ac_rom_init]
    by (simp add: rom_data last_write_append rom_bases ac_rom_init_size_def)
  show ?thesis
    unfolding Let_def
    by (intro conjI; rule list.pred_mono_strong [OF programs_listed] list.pred_mono_strong [OF commands_listed])
      (auto simp: p c)
qed

end
