(* ===== verification/StageProofs.thy ===== *)
theory StageProofs
  imports TestProofs
begin

text \<open>
  The stage register of the register file: three fields, written one at a time by reading the others
  back.
\<close>

definition stage_of :: "u32 \<Rightarrow> u32" where
  "stage_of w = w AND 0xff"

definition substage_of :: "u32 \<Rightarrow> u32" where
  "substage_of w = drop_bit 8 w AND 0xff"

definition group_of :: "u32 \<Rightarrow> u32" where
  "group_of w = drop_bit 16 w"

lemma field_masks:
  "(0x0000FFFF :: u32) = mask 16" "(0xFFFF0000 :: u32) = NOT (mask 16)"
  "(0xFFFF00FF :: u32) = NOT (push_bit 8 (mask 8))" "(0x0000FF00 :: u32) = push_bit 8 (mask 8)"
  by (simp_all add: mask_eq_exp_minus_1)

lemma set_fields:
  "group_of (v AND 0x0000FFFF OR push_bit 16 g) = g AND 0xFFFF"
  "stage_of (v AND 0x0000FFFF OR push_bit 16 g) = stage_of v"
  "substage_of (v AND 0x0000FFFF OR push_bit 16 g) = substage_of v"
  "group_of (v AND 0xFFFF0000 OR (g AND 0x000000FF)) = group_of v"
  "stage_of (v AND 0xFFFF0000 OR (g AND 0x000000FF)) = g AND 0xff"
  "substage_of (v AND 0xFFFF0000 OR (g AND 0x000000FF)) = 0"
  "group_of (v AND 0xFFFF00FF OR (push_bit 8 g AND 0x0000FF00)) = group_of v"
  "stage_of (v AND 0xFFFF00FF OR (push_bit 8 g AND 0x0000FF00)) = stage_of v"
  "substage_of (v AND 0xFFFF00FF OR (push_bit 8 g AND 0x0000FF00)) = g AND 0xff"
  unfolding group_of_def stage_of_def substage_of_def
  by (simp_all only: field_masks mask_8) (auto simp: bit_eq_iff bit_simps dest: bit_imp_le_length)

lemma register_read:
  "holds_register a (hw s) \<Longrightarrow> last_write a (accesses s) = Some v \<Longrightarrow>
   IORD_32DIRECT a 0 s = (v, emits [Rd a v] s)"
  unfolding holds_register_def IORD_32DIRECT_def Let_def
  by (drule spec [where x = "accesses s"]) simp

text \<open>C36: When the register gives back what was written to it, each of the three operations leaves its own
  field with the given value, cut to the field's width, and the others as they were; setting the
  stage clears the substage. Nothing else is written.
\<close>

theorem stage_register_fields:
  assumes "holds_register REG_FILE_CUR_STAGE (hw s)"
    and "last_write REG_FILE_CUR_STAGE (accesses s) = Some v"
  shows "(\<exists>w. reg_file_set_group g s = emits [Rd REG_FILE_CUR_STAGE v, Wr REG_FILE_CUR_STAGE w] s \<and>
      group_of w = g AND 0xFFFF \<and> stage_of w = stage_of v \<and> substage_of w = substage_of v) \<and>
    (\<exists>w. reg_file_set_stage g s = emits [Rd REG_FILE_CUR_STAGE v, Wr REG_FILE_CUR_STAGE w] s \<and>
      group_of w = group_of v \<and> stage_of w = g AND 0xff \<and> substage_of w = 0) \<and>
    (\<exists>w. reg_file_set_sub_stage g s = emits [Rd REG_FILE_CUR_STAGE v, Wr REG_FILE_CUR_STAGE w] s \<and>
      group_of w = group_of v \<and> stage_of w = stage_of v \<and> substage_of w = g AND 0xff)"
  using set_fields [of v g]
  by (simp add: reg_file_set_group_def reg_file_set_stage_def reg_file_set_sub_stage_def
      register_read [OF assms] IOWR_emits Let_def) blast

theorem stage_register_fields_witness:
  "\<exists>w. reg_file_set_sub_stage 7 (emits [Wr REG_FILE_CUR_STAGE 0x20301] (blank memory_device)) =
       emits [Rd REG_FILE_CUR_STAGE 0x20301, Wr REG_FILE_CUR_STAGE w]
         (emits [Wr REG_FILE_CUR_STAGE 0x20301] (blank memory_device)) \<and>
     group_of w = 2 \<and> stage_of w = 1 \<and> substage_of w = 7"
proof -
  let ?s = "emits [Wr REG_FILE_CUR_STAGE 0x20301] (blank memory_device)"
  have "holds_register REG_FILE_CUR_STAGE (hw ?s)"
    by (simp add: blank_def memory_device_holds)
  moreover have "last_write REG_FILE_CUR_STAGE (accesses ?s) = Some 0x20301"
    by (simp add: blank_def)
  moreover have "group_of 0x20301 = 2" "stage_of 0x20301 = 1" "(7 :: u32) AND 0xff = 7"
    by (simp_all add: group_of_def stage_of_def)
  ultimately show ?thesis
    using stage_register_fields [of ?s "0x20301" 7] by simp
qed

end
