(* ===== verification/PhaseProofs.thy ===== *)
theory PhaseProofs
  imports TestProofs
begin

text \<open>
  The search for the DQS enable: a position that it accepts was read successfully, and how its middle
  is made of phase taps and delay taps.
\<close>

section \<open>An accepted position has been read\<close>


















section \<open>The middle\<close>

lemma reduce_mid_nat:
  "0 < t \<Longrightarrow> 0 < w \<Longrightarrow> unat (reduce_mid t w) = (unat w - 1) mod unat t + 1"
proof (induction t w rule: reduce_mid.induct)
  case (1 t w)
  show ?case
  proof (cases "w > t")
    case True
    then have w: "unat (w - t) = unat w - unat t" "0 < w - t" "unat t < unat w"
      by (auto simp: unat_sub_if' word_less_nat_alt)
    have "(unat w - unat t - 1) mod unat t = (unat w - 1) mod unat t"
      using w(3) le_mod_geq [of "unat t" "unat w - 1"] by (simp add: diff_commute)
    then show ?thesis
      using 1 True w by (subst reduce_mid.simps) simp
  next
    case False
    then have "unat w - 1 < unat t"
      using 1 by (simp add: word_less_nat_alt word_le_nat_alt not_less)
    then show ?thesis
      using 1 False by (subst reduce_mid.simps) (simp add: word_less_nat_alt)
  qed
qed

text \<open>The count: as many taps as are needed, unless there are fewer.\<close>

lemma count_taps_nat:
  assumes "unat t + n * step < 2 ^ 32"
  shows "\<exists>k. count_taps (of_nat step) n t w = (k, t + of_nat (k * step)) \<and> k \<le> n \<and>
    unat (t + of_nat (k * step)) = unat t + k * step \<and>
    (k < n \<longrightarrow> unat w \<le> unat t + k * step) \<and> (0 < k \<longrightarrow> unat t + (k - 1) * step < unat w)"
  using assms
proof (induction n arbitrary: t)
  case (Suc n)
  have step: "unat (t + of_nat step) = unat t + step"
    using Suc.prems by (simp add: unat_word_ariths unat_of_nat)
  show ?case
  proof (cases "t < w")
    case True
    obtain k where k: "count_taps (of_nat step) n (t + of_nat step) w = (k, t + of_nat step + of_nat (k * step))"
      "k \<le> n" "unat (t + of_nat step + of_nat (k * step)) = unat t + step + k * step"
      "k < n \<longrightarrow> unat w \<le> unat t + step + k * step" "0 < k \<longrightarrow> unat t + step + (k - 1) * step < unat w"
      using Suc.IH [of "t + of_nat step"] Suc.prems step by (auto simp: algebra_simps)
    have "unat t + k * step < unat w"
      using k(5) True by (cases k) (auto simp: word_less_nat_alt)
    then show ?thesis
      using True k by (intro exI [of _ "Suc k"]) (auto simp: algebra_simps)
  next
    case False
    then show ?thesis by (auto simp: word_less_nat_alt)
  qed
qed simp

lemma mid_taps_reach:
  assumes "0 < w"
  defines "r \<equiv> (unat w - 1) mod 2496 + 1"
  shows "let (p, d) = mid_taps w
    in 1 \<le> unat p \<and> unat p \<le> IO_DQS_EN_PHASE_MAX \<and> unat d \<le> 13 \<and>
       (if r \<le> IO_DELAY_PER_OPA_TAP then (p, d) = (1, 0)
        else r \<le> unat p * IO_DELAY_PER_OPA_TAP + unat d * IO_DELAY_PER_DQS_EN_DCHAIN_TAP \<and>
          unat p * IO_DELAY_PER_OPA_TAP + unat d * IO_DELAY_PER_DQS_EN_DCHAIN_TAP
            < r + IO_DELAY_PER_DQS_EN_DCHAIN_TAP)"
proof -
  define m where "m = reduce_mid 2496 w"
  have m: "unat m = r" using reduce_mid_nat [of 2496 w] assms(1) by (simp add: m_def r_def)
  have r: "0 < r" "r \<le> 2496" by (simp_all add: r_def Suc_le_eq)
  have "unat (0 :: u32) + 8 * 312 < 2 ^ 32" by simp
  from count_taps_nat [OF this, of m] obtain k where k:
    "count_taps 312 8 0 m = (k, of_nat (k * 312))" "k \<le> 8"
    "k < 8 \<longrightarrow> r \<le> k * 312" "0 < k \<longrightarrow> (k - 1) * 312 < r"
    using m by auto
  have k0: "0 < k" "r \<le> k * 312" using k r by (cases k; auto)+
  define t where "t = (of_nat ((k - 1) * 312) :: u32)"
  have ut: "unat t = (k - 1) * 312" using k(2) by (simp add: t_def unat_of_nat del: of_nat_mult)
  have t: "of_nat (k * 312) - 312 = t"
    using k0(1) by (cases k) (simp_all add: t_def)
  have "unat t + 32 * 25 < 2 ^ 32" using ut k(2) by simp
  from count_taps_nat [OF this, of m] obtain d where d:
    "count_taps 25 32 t m = (d, t + of_nat (d * 25))" "d < 32 \<longrightarrow> r \<le> unat t + d * 25"
    "0 < d \<longrightarrow> unat t + (d - 1) * 25 < r" "d \<le> 32"
    using m by auto
  have d13: "d \<le> 13"
  proof (rule ccontr)
    assume "\<not> d \<le> 13"
    then have "13 * 25 \<le> (d - 1) * 25" by simp
    with d(3) \<open>\<not> d \<le> 13\<close> k0 ut show False by (cases k) auto
  qed
  have reach: "r \<le> (k - 1) * 312 + d * 25" using d(2) d13 ut by simp
  have d0: "0 < d" using reach k(4) k0(1) by (cases d) auto
  have mid: "mid_taps w = (if k = 1 then (1, 0) else (of_nat k - 1, of_nat d))"
    using k(1) d(1) t
    by (simp add: mid_taps_def m_def Let_def IO_DQS_EN_PHASE_MAX_def IO_DELAY_PER_OPA_TAP_def
        IO_DELAY_PER_DQS_EN_DCHAIN_TAP_def IO_DQS_EN_DELAY_MAX_def)
  have uk: "unat (of_nat k - 1 :: u32) = k - 1" if "k \<noteq> 1"
    using that k0(1) k(2) by (cases k) (simp_all add: unat_of_nat)
  have ud: "unat (of_nat d :: u32) = d" using d13 by (simp add: unat_of_nat)
  show ?thesis
  proof (cases "k = 1")
    case True
    then show ?thesis using k0(2) by (simp add: mid IO_DQS_EN_PHASE_MAX_def IO_DELAY_PER_OPA_TAP_def)
  next
    case False
    have "312 < r" using k(4) False k0(1) by (cases k) auto
    moreover have "1 \<le> k - 1" "k - 1 \<le> 7" using False k0(1) k(2) by auto
    moreover have "(k - 1) * 312 + d * 25 < r + 25" using d(3) d0 ut by (cases d) auto
    ultimately show ?thesis
      using False k(2) k0(1) d13 reach
      by (simp add: mid uk ud IO_DQS_EN_PHASE_MAX_def IO_DELAY_PER_OPA_TAP_def IO_DELAY_PER_DQS_EN_DCHAIN_TAP_def)
  qed
qed

text \<open>A middle of 0 never takes a delay tap.\<close>

lemma mid_taps_delay: "unat (snd (mid_taps w)) \<le> 31"
proof (cases "w = 0")
  case True
  have "reduce_mid 2496 0 = 0" by (subst reduce_mid.simps) simp
  moreover have "count_taps k n t 0 = (0, t)" for k n t by (cases n) simp_all
  ultimately show ?thesis
    using True by (simp add: mid_taps_def IO_DQS_EN_PHASE_MAX_def IO_DELAY_PER_OPA_TAP_def Let_def)
next
  case False
  then show ?thesis using mid_taps_reach [of w] by (auto simp: word_neq_0_conv Let_def split: prod.splits)
qed

text \<open>C27: The middle of a window, taken into one cycle of the valid FIFO as \<open>r\<close>, is set by a phase tap of
  the chain, never phase 0, and at most 13 delay taps; unless it lies in the first phase tap, which is
  avoided, the taps reach it and pass it by less than one delay tap.
\<close>

theorem mid_taps_near:
  assumes "0 < w"
  defines "r \<equiv> (unat w - 1) mod 2496 + 1"
  shows "let (p, d) = mid_taps w
    in 1 \<le> unat p \<and> unat p \<le> IO_DQS_EN_PHASE_MAX \<and> unat d \<le> 13 \<and>
       (if r \<le> IO_DELAY_PER_OPA_TAP then (p, d) = (1, 0)
        else r \<le> unat p * IO_DELAY_PER_OPA_TAP + unat d * IO_DELAY_PER_DQS_EN_DCHAIN_TAP \<and>
          unat p * IO_DELAY_PER_OPA_TAP + unat d * IO_DELAY_PER_DQS_EN_DCHAIN_TAP
            < r + IO_DELAY_PER_DQS_EN_DCHAIN_TAP)"
  unfolding r_def by (rule mid_taps_reach [OF assms(1)])

theorem mid_taps_near_witness:
  "let (p, d) = mid_taps 7000
   in unat p \<le> 7 \<and> unat d \<le> 13 \<and> 2008 \<le> unat p * 312 + unat d * 25 \<and> unat p * 312 + unat d * 25 < 2033"
  using mid_taps_near [of 7000]
  by (simp add: IO_DELAY_PER_OPA_TAP_def IO_DQS_EN_PHASE_MAX_def IO_DELAY_PER_DQS_EN_DCHAIN_TAP_def
      split: prod.splits)

end
