(* ===== verification/WindowProofs.thy ===== *)
theory WindowProofs
  imports TestProofs
begin

text \<open>
  The search for the mask pin's window keeps the longest run of passing positions, with one pass over
  them and a constant amount of state; and it may stop early.
\<close>

section \<open>Runs\<close>

definition run :: "(int \<Rightarrow> bool) \<Rightarrow> int \<Rightarrow> int \<Rightarrow> bool" where
  "run P lo hi \<longleftrightarrow> lo \<le> hi \<and> (\<forall>x \<in> {lo..hi}. P x)"

lemma run_extend: "run P lo x \<Longrightarrow> P (x + 1) \<Longrightarrow> run P lo (x + 1)"
  by (auto simp: run_def) (metis atLeastAtMost_iff order.order_iff_strict zle_add1_eq_le zless_add1_eq)

lemma run_single: "P x \<Longrightarrow> run P x x"
  by (simp add: run_def)

lemma run_le: "run P lo hi \<Longrightarrow> lo \<le> hi"
  by (simp add: run_def)

text \<open>The state of the search after the positions from \<open>a\<close> to \<open>x - 1\<close>.\<close>

definition current_run :: "(int \<Rightarrow> bool) \<Rightarrow> int \<Rightarrow> int \<Rightarrow> window \<Rightarrow> bool" where
  "current_run P a x w \<longleftrightarrow>
     (if a < x \<and> P (x - 1)
      then a \<le> bgn_curr w \<and> run P (bgn_curr w) (x - 1) \<and> (a < bgn_curr w \<longrightarrow> \<not> P (bgn_curr w - 1)) \<and>
        end_curr w = x - 1
      else bgn_curr w = write_none \<and> end_curr w = write_none)"

definition longest_run :: "(int \<Rightarrow> bool) \<Rightarrow> int \<Rightarrow> int \<Rightarrow> window \<Rightarrow> bool" where
  "longest_run P a x w \<longleftrightarrow>
     0 \<le> win_best w \<and>
     (0 < win_best w \<longrightarrow> a \<le> bgn_best w \<and> end_best w < x \<and> run P (bgn_best w) (end_best w) \<and>
        win_best w = end_best w - bgn_best w + 1) \<and>
     (\<forall>lo hi. a \<le> lo \<longrightarrow> hi < x \<longrightarrow> run P lo hi \<longrightarrow> hi - lo + 1 \<le> win_best w)"

lemma best_of_pass:
  assumes c: "a \<le> b" "run P b x" "a < b \<longrightarrow> \<not> P (b - 1)" and best: "longest_run P a x w"
  shows "longest_run P a (x + 1)
    (if x - b + 1 > win_best w then w\<lparr>win_best := x - b + 1, bgn_best := b, end_best := x\<rparr> else w)"
proof -
  have len: "hi - lo + 1 \<le> max (win_best w) (x - b + 1)" if "a \<le> lo" "hi < x + 1" "run P lo hi" for lo hi
  proof (cases "hi < x")
    case True
    then have "hi - lo + 1 \<le> win_best w" using best that unfolding longest_run_def by blast
    then show ?thesis by simp
  next
    case False
    then have hi: "hi = x" using that(2) by simp
    have "b \<le> lo"
    proof (rule ccontr)
      assume "\<not> b \<le> lo"
      then have "P (b - 1)" using that(3) c(2) hi by (auto simp: run_def)
      with \<open>\<not> b \<le> lo\<close> that(1) c(3) show False by auto
    qed
    then show ?thesis by (simp add: hi)
  qed
  have bx: "b \<le> x" using c(2) by (rule run_le)
  show ?thesis
  proof (cases "x - b + 1 > win_best w")
    case True
    then show ?thesis using c(1,2) bx len by (simp add: longest_run_def max_def)
  next
    case False
    have "hi - lo + 1 \<le> win_best w" if "a \<le> lo" "hi < x + 1" "run P lo hi" for lo hi
      using len [OF that] False by simp
    then show ?thesis using best False by (auto simp: longest_run_def)
  qed
qed

lemma window_pass_ok:
  assumes "current_run P a x w" "longest_run P a x w" "P x" "a \<le> x" "x < write_none"
  shows "current_run P a (x + 1) (window_pass x w)" "longest_run P a (x + 1) (window_pass x w)"
proof -
  define b where "b = (if bgn_curr w = write_none then x else bgn_curr w)"
  have b: "a \<le> b" "run P b x" "a < b \<longrightarrow> \<not> P (b - 1)"
  proof -
    have "a \<le> b \<and> run P b x \<and> (a < b \<longrightarrow> \<not> P (b - 1))"
    proof (cases "a < x \<and> P (x - 1)")
      case True
      then have c: "a \<le> bgn_curr w" "run P (bgn_curr w) (x - 1)" "a < bgn_curr w \<longrightarrow> \<not> P (bgn_curr w - 1)"
        using assms(1) by (simp_all add: current_run_def)
      then have "bgn_curr w \<noteq> write_none" using run_le [OF c(2)] assms(5) by simp
      then show ?thesis using c run_extend [OF c(2)] assms(3) by (simp add: b_def)
    next
      case False
      then have "b = x" using assms(1) by (auto simp: current_run_def b_def split: if_splits)
      then show ?thesis using False assms(3,4) run_single [of P x] by auto
    qed
    then show "a \<le> b" "run P b x" "a < b \<longrightarrow> \<not> P (b - 1)" by simp_all
  qed
  have w: "window_pass x w = (let w' = w\<lparr>end_curr := x, bgn_curr := b\<rparr> in
      if x - b + 1 > win_best w' then w'\<lparr>win_best := x - b + 1, bgn_best := b, end_best := x\<rparr> else w')"
    by (simp add: window_pass_def b_def Let_def)
  have "longest_run P a x (w\<lparr>end_curr := x, bgn_curr := b\<rparr>)"
    using assms(2) by (simp add: longest_run_def)
  from best_of_pass [OF b this] show "longest_run P a (x + 1) (window_pass x w)"
    by (simp add: w Let_def)
  show "current_run P a (x + 1) (window_pass x w)"
    using assms(3,4) b by (auto simp: current_run_def w Let_def)
qed

lemma window_fail_ok:
  assumes "longest_run P a x w" "\<not> P x"
  shows "current_run P a (x + 1) (window_fail w)" "longest_run P a (x + 1) (window_fail w)"
proof -
  have "hi < x" if "hi < x + 1" "run P lo hi" for lo hi
    using that assms(2) by (cases "hi = x") (auto simp: run_def)
  then show "longest_run P a (x + 1) (window_fail w)"
    using assms(1) by (fastforce simp: longest_run_def window_fail_def)
  show "current_run P a (x + 1) (window_fail w)"
    using assms(2) by (simp add: current_run_def window_fail_def)
qed

definition window_step :: "int \<times> bool \<Rightarrow> window \<Rightarrow> window" where
  "window_step p w = (if snd p then window_pass (fst p) w else window_fail w)"

lemma window_scan:
  assumes "a \<le> x" "x + int (length oks) \<le> write_none" "current_run P a x w" "longest_run P a x w"
    and "\<And>k. k < length oks \<Longrightarrow> oks ! k = P (x + int k)"
  shows "longest_run P a (x + int (length oks)) (fold window_step (zip [x..x + int (length oks) - 1] oks) w)"
    and "current_run P a (x + int (length oks)) (fold window_step (zip [x..x + int (length oks) - 1] oks) w)"
proof -
  have "longest_run P a (x + int (length oks)) (fold window_step (zip [x..x + int (length oks) - 1] oks) w) \<and>
    current_run P a (x + int (length oks)) (fold window_step (zip [x..x + int (length oks) - 1] oks) w)"
    using assms
  proof (induction oks arbitrary: x w)
    case (Cons ok oks)
    have ok: "ok = P x" using Cons.prems(5) [of 0] by simp
    have "current_run P a (x + 1) (window_step (x, ok) w)" "longest_run P a (x + 1) (window_step (x, ok) w)"
      using window_pass_ok [of P a x w] window_fail_ok [of P a x w] Cons.prems ok
      by (auto simp: window_step_def)
    then show ?case
      using Cons.IH [of "x + 1" "window_step (x, ok) w"] Cons.prems(1,2) Cons.prems(5) [of "Suc _"]
      by (simp add: upto_rec1 algebra_simps)
  qed simp
  then show "longest_run P a (x + int (length oks)) (fold window_step (zip [x..x + int (length oks) - 1] oks) w)"
    "current_run P a (x + int (length oks)) (fold window_step (zip [x..x + int (length oks) - 1] oks) w)"
    by blast+
qed

section \<open>The two searches\<close>

text \<open>The verdicts of the tests that the searches make, in order.\<close>

fun left_verdicts :: "nat \<Rightarrow> u32 \<Rightarrow> int list \<Rightarrow> seq \<Rightarrow> bool list" where
  "left_verdicts rank_bgn write_group [] s = []"
| "left_verdicts rank_bgn write_group (d # ds) s =
     (let s = IOWR_32DIRECT SCC_MGR_UPD 0 0 (scc_mgr_apply_group_dm_out1_delay write_group (word_of_int d) s);
          (ok, s) = write_test_all rank_bgn write_group s
      in ok # left_verdicts rank_bgn write_group ds s)"

fun right_verdicts :: "nat \<Rightarrow> u32 \<Rightarrow> int \<Rightarrow> int list \<Rightarrow> window \<Rightarrow> seq \<Rightarrow> bool list" where
  "right_verdicts rank_bgn write_group new_dqs [] w s = []"
| "right_verdicts rank_bgn write_group new_dqs (d # ds) w s =
     (let s = IOWR_32DIRECT SCC_MGR_UPD 0 0
            (scc_mgr_apply_group_dqs_io_and_oct_out1 write_group (word_of_int (d + new_dqs)) s);
          (ok, s) = write_test_all rank_bgn write_group s
      in if \<not> ok \<and> win_best w - 1 > int IO_IO_OUT1_DELAY_MAX - new_dqs - d then [False]
         else ok # right_verdicts rank_bgn write_group new_dqs ds (window_step (d, ok) w) s)"

lemma left_scan:
  "fst (mask_window_left n g ds w s) = fold window_step (zip (map uminus ds) (left_verdicts n g ds s)) w \<and>
   length (left_verdicts n g ds s) = length ds"
proof (induction ds arbitrary: w s)
  case (Cons d ds)
  obtain ok t where t: "write_test_all n g (IOWR_32DIRECT SCC_MGR_UPD 0 0
      (scc_mgr_apply_group_dm_out1_delay g (word_of_int d) s)) = (ok, t)" by fastforce
  show ?case using Cons.IH [of _ t] by (simp add: Let_def t window_step_def)
qed simp

lemma window_fail_best [simp]: "win_best (window_fail w) = win_best w"
  by (simp add: window_fail_def)

text \<open>After a failure, fewer positions than the best run has cannot change it.\<close>

definition same_best :: "window \<Rightarrow> window \<Rightarrow> bool" where
  "same_best v w \<longleftrightarrow> win_best v = win_best w \<and> bgn_best v = bgn_best w \<and> end_best v = end_best w"

lemma window_step_bgn:
  "bgn_curr (window_step (x, ok) w) =
     (if ok then if bgn_curr w = write_none then x else bgn_curr w else write_none)"
  by (simp add: window_step_def window_pass_def window_fail_def Let_def)

lemma window_step_best:
  "x - (if bgn_curr w = write_none then x else bgn_curr w) + 1 \<le> win_best w \<Longrightarrow>
   same_best (window_step (x, ok) w) w"
  by (simp add: window_step_def window_pass_def window_fail_def Let_def same_best_def not_less)

lemma short_step:
  fixes b n L m x :: int and ok :: bool
  assumes "b = n \<longrightarrow> L + 1 \<le> m" "b \<noteq> n \<longrightarrow> b \<le> x \<and> x - b + (L + 1) \<le> m" "0 \<le> L" "x + (L + 1) \<le> n"
  defines "c \<equiv> (if ok then if b = n then x else b else n)"
  shows "x - (if b = n then x else b) + 1 \<le> m" "c = n \<longrightarrow> L \<le> m"
    "c \<noteq> n \<longrightarrow> c \<le> x + 1 \<and> x + 1 - c + L \<le> m"
  using assms by (cases "b = n"; cases ok; simp)+

lemma short_scan:
  "(bgn_curr w = write_none \<longrightarrow> int (length xs) \<le> win_best w) \<Longrightarrow>
   (bgn_curr w \<noteq> write_none \<longrightarrow> bgn_curr w \<le> x \<and> x - bgn_curr w + int (length xs) \<le> win_best w) \<Longrightarrow>
   x + int (length xs) \<le> write_none \<Longrightarrow>
   same_best (fold window_step (zip [x..x + int (length xs) - 1] xs) w) w"
proof (induction xs arbitrary: x w)
  case (Cons ok xs)
  let ?v = "window_step (x, ok) w"
  have len: "int (length (ok # xs)) = int (length xs) + 1" by simp
  have p: "bgn_curr w = write_none \<longrightarrow> int (length xs) + 1 \<le> win_best w"
    "bgn_curr w \<noteq> write_none \<longrightarrow> bgn_curr w \<le> x \<and> x - bgn_curr w + (int (length xs) + 1) \<le> win_best w"
    "x + (int (length xs) + 1) \<le> write_none" using Cons.prems unfolding len .
  note q = short_step [OF p(1,2) of_nat_0_le_iff p(3)]
  have v1: "same_best ?v w" by (rule window_step_best) (rule q(1))
  have wb: "win_best ?v = win_best w" using v1 by (simp add: same_best_def)
  have "bgn_curr ?v = write_none \<longrightarrow> int (length xs) \<le> win_best ?v"
    "bgn_curr ?v \<noteq> write_none \<longrightarrow> bgn_curr ?v \<le> x + 1 \<and> x + 1 - bgn_curr ?v + int (length xs) \<le> win_best ?v"
    unfolding wb window_step_bgn by (rule q(2), rule q(3))
  then have "same_best (fold window_step (zip [x + 1..x + 1 + int (length xs) - 1] xs) ?v) ?v"
    by (rule Cons.IH) (use p(3) in simp)
  moreover have "[x..x + int (length (ok # xs)) - 1] = x # [x + 1..x + 1 + int (length xs) - 1]"
    by (subst upto_rec1) (simp_all add: algebra_simps)
  ultimately show ?case using v1 by (simp only: zip_Cons_Cons fold_simps same_best_def)
qed (simp add: same_best_def)

lemma right_scan:
  assumes "k0 + length (right_verdicts n g q [x..int IO_IO_OUT1_DELAY_MAX - q] w s) =
      length [x..int IO_IO_OUT1_DELAY_MAX - q]" "length rest = k0" "0 \<le> q" "0 \<le> x"
  shows "same_best
    (fold window_step (zip [x..int IO_IO_OUT1_DELAY_MAX - q]
      (right_verdicts n g q [x..int IO_IO_OUT1_DELAY_MAX - q] w s @ rest)) w)
    (fst (mask_window_right n g q [x..int IO_IO_OUT1_DELAY_MAX - q] w s))"
  using assms
proof (induction "nat (int IO_IO_OUT1_DELAY_MAX - q - x + 1)" arbitrary: x w s k0)
  case 0
  then show ?case by (simp add: same_best_def)
next
  case (Suc k)
  let ?m = "int IO_IO_OUT1_DELAY_MAX - q"
  have xs: "[x..?m] = x # [x + 1..?m]" using Suc.hyps(2) by (simp add: upto_rec1)
  obtain ok t where t: "write_test_all n g (IOWR_32DIRECT SCC_MGR_UPD 0 0
      (scc_mgr_apply_group_dqs_io_and_oct_out1 g (word_of_int (x + q)) s)) = (ok, t)" by fastforce
  show ?case
  proof (cases "\<not> ok \<and> win_best w - 1 > ?m - x")
    case True
    have len: "length rest = length [x + 1..?m]"
      using Suc.prems(1,2) by (simp add: xs Let_def t True del: of_int_add)
    then have k: "int (length rest) = ?m - x" using Suc.hyps(2) by simp
    have "bgn_curr (window_fail w) = write_none" by (simp add: window_fail_def)
    moreover have "int (length rest) \<le> win_best (window_fail w)" "x + 1 + int (length rest) \<le> write_none"
      using k True Suc.prems(3) by (simp_all add: write_none_def)
    ultimately have "same_best (fold window_step (zip [x + 1..x + 1 + int (length rest) - 1] rest) (window_fail w))
        (window_fail w)"
      by (intro short_scan) simp_all
    moreover have "x + 1 + int (length rest) - 1 = ?m" using k by simp
    ultimately show ?thesis
      using True by (simp add: xs Let_def t window_step_def same_best_def
          recover_mem_device_after_ck_dqs_violation_def del: of_int_add)
  next
    case False
    then show ?thesis
      using Suc.hyps(1) [of "x + 1" k0 "window_step (x, ok) w" t] Suc.hyps(2) Suc.prems
      by (auto simp: xs Let_def t window_step_def recover_mem_device_after_ck_dqs_violation_def
          simp del: of_int_add)
  qed
qed

lemma mask_positions: "map uminus (rev [0..int IO_IO_OUT1_DELAY_MAX]) = [- int IO_IO_OUT1_DELAY_MAX..0]"
  unfolding IO_IO_OUT1_DELAY_MAX_def by code_simp

lemma left_longest:
  fixes n g s
  defines "ds \<equiv> rev [0..int IO_IO_OUT1_DELAY_MAX]"
  shows "longest_run (\<lambda>x. left_verdicts n g ds s ! nat (x + int IO_IO_OUT1_DELAY_MAX))
    (- int IO_IO_OUT1_DELAY_MAX) 1 (fst (mask_window_left n g ds no_window s))"
proof -
  let ?m = "int IO_IO_OUT1_DELAY_MAX"
  have len: "length (left_verdicts n g ds s) = nat (?m + 1)"
    using left_scan [of n g ds no_window s] by (simp add: ds_def)
  have "longest_run (\<lambda>x. left_verdicts n g ds s ! nat (x + ?m)) (- ?m) (- ?m + int (length (left_verdicts n g ds s)))
      (fold window_step (zip [- ?m..- ?m + int (length (left_verdicts n g ds s)) - 1] (left_verdicts n g ds s)) no_window)"
    by (rule window_scan(1))
      (simp_all add: len write_none_def current_run_def longest_run_def no_window_def run_def)
  moreover have "- ?m + int (length (left_verdicts n g ds s)) = 1" by (simp add: len)
  moreover from this have "- ?m + int (length (left_verdicts n g ds s)) - 1 = 0" by simp
  ultimately show ?thesis
    using left_scan [of n g ds no_window s] by (simp add: ds_def mask_positions)
qed

text \<open>C16: The search over the mask pin's delays leaves the longest run of passing positions, among all 32
  tested from \<open>-31\<close> to 0. The search over the strobe's delays, which ends early, leaves the same best run
  as one that tests all positions: whatever the tests it leaves out would have said.
\<close>

theorem mask_window_search:
  assumes "0 \<le> q" and "k0 + length (right_verdicts n g q [0..int IO_IO_OUT1_DELAY_MAX - q] w s) =
      length [0..int IO_IO_OUT1_DELAY_MAX - q]" and "length rest = k0"
  shows "longest_run (\<lambda>x. left_verdicts n g (rev [0..int IO_IO_OUT1_DELAY_MAX]) s ! nat (x + int IO_IO_OUT1_DELAY_MAX))
      (- int IO_IO_OUT1_DELAY_MAX) 1 (fst (mask_window_left n g (rev [0..int IO_IO_OUT1_DELAY_MAX]) no_window s)) \<and>
    same_best
      (fold window_step (zip [0..int IO_IO_OUT1_DELAY_MAX - q]
        (right_verdicts n g q [0..int IO_IO_OUT1_DELAY_MAX - q] w s @ rest)) w)
      (fst (mask_window_right n g q [0..int IO_IO_OUT1_DELAY_MAX - q] w s))"
  using left_longest [of n g s] right_scan [OF assms(2,3,1)] by simp

theorem mask_window_search_witness:
  "same_best
     (fold window_step (zip [0..int IO_IO_OUT1_DELAY_MAX - 31]
       (right_verdicts 0 0 31 [0..int IO_IO_OUT1_DELAY_MAX - 31] no_window (blank_ready memory_device) @ [])) no_window)
     (fst (mask_window_right 0 0 31 [0..int IO_IO_OUT1_DELAY_MAX - 31] no_window (blank_ready memory_device)))"
  by (rule mask_window_search [THEN conjunct2])
    (simp_all add: IO_IO_OUT1_DELAY_MAX_def Let_def split: prod.split)

end
