(* ===== verification/SccProofs.thy ===== *)
theory SccProofs
  imports TestProofs
begin

text \<open>What the scan chain registers of a group hold after it was reset.\<close>

lemma upto_8: "[0..<8] = [0, 1, 2, 3, 4, 5, 6, 7 :: nat]"
  by (simp add: upt_rec)

lemma read_groups_eq: "g < 4 \<Longrightarrow> read_groups (of_nat g) = [of_nat g]"
proof -
  assume "g < 4"
  then consider "g = 0" | "g = 1" | "g = 2" | "g = 3" by linarith
  then show ?thesis by cases (simp_all add: read_groups_def first_read_group_def seq_params upt_rec)
qed

lemmas scc_defs =
  scc_mgr_set_dq_out1_delay_def scc_mgr_set_dq_out2_delay_def scc_mgr_set_dq_in_delay_def
  scc_mgr_set_dm_in_delay_def scc_mgr_set_dm_out1_delay_def scc_mgr_set_dm_out2_delay_def
  scc_mgr_set_dqs_io_in_delay_def scc_mgr_set_dqs_out1_delay_def scc_mgr_set_oct_out1_delay_def
  scc_mgr_load_dqs_for_write_group_def select_shadow_regs_for_update_def
  WRITE_SCC_DQ_OUT1_DELAY_def WRITE_SCC_DQ_OUT2_DELAY_def WRITE_SCC_DQ_IN_DELAY_def
  WRITE_SCC_DM_IO_IN_DELAY_def WRITE_SCC_DM_IO_OUT1_DELAY_def WRITE_SCC_DM_IO_OUT2_DELAY_def
  WRITE_SCC_DQS_IO_IN_DELAY_def WRITE_SCC_DQS_IO_OUT1_DELAY_def WRITE_SCC_OCT_OUT1_DELAY_def

text \<open>The accesses of a reset, of the output delays alone or with the input delays.\<close>

definition zero_writes :: "nat \<Rightarrow> bool \<Rightarrow> access list" where
  "zero_writes g inputs =
     concat (map (\<lambda>i. Wr (SCC_MGR_IO_OUT1_DELAY + 4 * of_nat i) 0 #
       (if inputs then [Wr (SCC_MGR_IO_IN_DELAY + 4 * of_nat i) 0] else [])) [0..<8]) @
     [Wr SCC_MGR_DQ_ENA 0xff] @ (if inputs then [Wr (SCC_MGR_IO_IN_DELAY + 36) 0] else []) @
     [Wr (SCC_MGR_IO_OUT1_DELAY + 36) 0, Wr SCC_MGR_DM_ENA 0xff] @
     (if inputs then [Wr (SCC_MGR_IO_IN_DELAY + 32) 0] else []) @
     [Wr (SCC_MGR_IO_OUT1_DELAY + 32) (of_nat IO_DQS_OUT_RESERVE),
      Wr (SCC_MGR_OCT_OUT1_DELAY + push_bit 2 (of_nat g)) (of_nat IO_DQS_OUT_RESERVE),
      Wr SCC_MGR_DQS_ENA (of_nat g), Wr SCC_MGR_DQS_IO_ENA 0, Wr SCC_MGR_UPD 0]"

lemma zero_group_writes:
  assumes "g < 4"
  shows "scc_mgr_zero_group (of_nat g) tb k s = emits (zero_writes g (k = 0)) s"
  by (simp add: scc_mgr_zero_group_def scc_defs read_groups_eq [OF assms] RW_MGR_MEM_DQ_PER_WRITE_DQS_def
    RW_MGR_NUM_DM_PER_WRITE_GROUP_def RW_MGR_MEM_DATA_MASK_WIDTH_def RW_MGR_MEM_IF_WRITE_DQS_WIDTH_def
    upto_8 IOWR_emits zero_writes_def)

lemma zero_writes_last:
  assumes "g < 4"
  shows "last_write (SCC_MGR_OCT_OUT1_DELAY + push_bit 2 (of_nat g)) (zero_writes g inputs) =
      Some (of_nat IO_DQS_OUT_RESERVE)"
    and "list_all (\<lambda>i. last_write (SCC_MGR_IO_OUT1_DELAY + 4 * of_nat i) (zero_writes g inputs) =
      Some (if i = 8 then of_nat IO_DQS_OUT_RESERVE else 0)) [0, 1, 2, 3, 4, 5, 6, 7, 8, 9]"
    and "list_all (\<lambda>i. last_write (SCC_MGR_IO_IN_DELAY + 4 * of_nat i) (zero_writes g inputs) =
      (if inputs then Some 0 else None)) [0, 1, 2, 3, 4, 5, 6, 7, 8, 9]"
proof -
  from assms consider "g = 0" | "g = 1" | "g = 2" | "g = 3" by linarith
  note cases = this
  show "last_write (SCC_MGR_OCT_OUT1_DELAY + push_bit 2 (of_nat g)) (zero_writes g inputs) =
      Some (of_nat IO_DQS_OUT_RESERVE)"
    by (rule cases) (simp_all add: zero_writes_def upto_8 last_write_append last_write_Cons seq_regs seq_bases)
  show "list_all (\<lambda>i. last_write (SCC_MGR_IO_OUT1_DELAY + 4 * of_nat i) (zero_writes g inputs) =
      Some (if i = 8 then of_nat IO_DQS_OUT_RESERVE else 0)) [0, 1, 2, 3, 4, 5, 6, 7, 8, 9]"
    by (rule cases) (simp_all add: zero_writes_def upto_8 last_write_append last_write_Cons seq_regs seq_bases)
  show "list_all (\<lambda>i. last_write (SCC_MGR_IO_IN_DELAY + 4 * of_nat i) (zero_writes g inputs) =
      (if inputs then Some 0 else None)) [0, 1, 2, 3, 4, 5, 6, 7, 8, 9]"
    by (rule cases) (simp_all add: zero_writes_def upto_8 last_write_append last_write_Cons seq_regs seq_bases)
qed

text \<open>C35: Resetting a group leaves its eight data pins and its mask pin without output delay, its strobe
  and its termination with the reserve, and ends with the update that loads the chains; the input
  delays are zero when they are reset too, and otherwise what they were.
\<close>

theorem zero_group_resets:
  assumes "g < 4"
  shows "\<exists>xs. accesses (scc_mgr_zero_group (of_nat g) tb k s) = accesses s @ xs @ [Wr SCC_MGR_UPD 0] \<and>
    last_write (SCC_MGR_OCT_OUT1_DELAY + push_bit 2 (of_nat g)) (xs @ [Wr SCC_MGR_UPD 0]) =
      Some (of_nat IO_DQS_OUT_RESERVE) \<and>
    list_all (\<lambda>i. last_write (SCC_MGR_IO_OUT1_DELAY + 4 * of_nat i) (xs @ [Wr SCC_MGR_UPD 0]) =
      Some (if i = 8 then of_nat IO_DQS_OUT_RESERVE else 0)) [0, 1, 2, 3, 4, 5, 6, 7, 8, 9] \<and>
    list_all (\<lambda>i. last_write (SCC_MGR_IO_IN_DELAY + 4 * of_nat i) (xs @ [Wr SCC_MGR_UPD 0]) =
      (if k = 0 then Some 0 else None)) [0, 1, 2, 3, 4, 5, 6, 7, 8, 9]"
proof -
  have "zero_writes g (k = 0) = butlast (zero_writes g (k = 0)) @ [Wr SCC_MGR_UPD 0]"
    by (simp add: zero_writes_def butlast_append)
  then show ?thesis
    using zero_writes_last [OF assms, of "k = 0"] zero_group_writes [OF assms, of tb k s]
    by (intro exI [of _ "butlast (zero_writes g (k = 0))"]) (simp del: last_write_simps)
qed

theorem zero_group_resets_witness:
  "\<exists>xs. accesses (scc_mgr_zero_group (of_nat 3) 24 0 (blank memory_device)) = xs @ [Wr SCC_MGR_UPD 0] \<and>
    last_write (SCC_MGR_IO_OUT1_DELAY + 4 * of_nat 8) (xs @ [Wr SCC_MGR_UPD 0]) = Some (of_nat IO_DQS_OUT_RESERVE)"
  using zero_group_resets [of 3 24 0 "blank memory_device"] by (auto simp: blank_def simp del: last_write_simps)

end
