(* ===== verification/ChainRules.thy ===== *)
theory ChainRules
  imports CalibrateFrames
begin

text \<open>
  The delay chains of the scan chain manager have 32 taps. This theory states that every delay written
  so far fits the chains, and has a rule for each command and test of the sequencer by which this is
  kept: most of them ask only that the group is one of the registers' banks, the commands that set a
  delay ask that the delay fits.
\<close>

section \<open>Delay registers\<close>

text \<open>
  The banks of input and output delays, of the strobe's delays and of the termination's, and the
  register that the sequencer keeps the number of delay taps of a phase tap in.
\<close>

definition delay_reg :: "u32 \<Rightarrow> bool" where
  "delay_reg a \<longleftrightarrow> a = REG_FILE_DTAPS_PER_PTAP \<or>
     unat a div 0x100 \<in> {0x581, 0x583, 0x585, 0x587, 0x589}"

definition fits_chain :: "access \<Rightarrow> bool" where
  "fits_chain x = (case x of Wr a v \<Rightarrow> delay_reg a \<longrightarrow> v \<le> 31 | Rd a v \<Rightarrow> True)"

definition within_chains :: "access list \<Rightarrow> bool" where
  "within_chains tr = list_all fits_chain tr"

text \<open>
  What is asked of the device: as long as the values written fit the chains, so do the values that
  the registers give, and a read leaves them as they are. Which registers an address stands for may
  depend on the group that was selected.
\<close>

definition delay_device :: "(access list \<Rightarrow> u32 \<Rightarrow> u32) \<Rightarrow> bool" where
  "delay_device h \<longleftrightarrow>
     (\<forall>tr a. delay_reg a \<longrightarrow> within_chains tr \<longrightarrow> h tr a \<le> 31) \<and>
     (\<forall>tr a b v. delay_reg a \<longrightarrow> h (tr @ [Rd b v]) a = h tr a)"

definition fits :: "seq \<Rightarrow> bool" where
  "fits s \<longleftrightarrow> delay_device (hw s) \<and> within_chains (accesses s)"

lemma within_chains_simps [simp]:
  "within_chains []" "within_chains (xs @ ys) \<longleftrightarrow> within_chains xs \<and> within_chains ys"
  "within_chains (x # xs) \<longleftrightarrow> fits_chain x \<and> within_chains xs"
  by (simp_all add: within_chains_def)

lemma fits_chain_simps [simp]:
  "fits_chain (Rd a v)" "fits_chain (Wr a v) \<longleftrightarrow> (delay_reg a \<longrightarrow> v \<le> 31)"
  by (simp_all add: fits_chain_def)

lemma fits_read: "fits s \<Longrightarrow> delay_reg (b + k) \<Longrightarrow> fst (IORD_32DIRECT b k s) \<le> 31"
  by (simp add: fits_def delay_device_def IORD_32DIRECT_def Let_def)

text \<open>Which address is a delay register.\<close>

lemma bank_address:
  assumes g: "(g :: u32) < 0x100" and b: "unat b + 0x400 \<le> 2 ^ 32"
  shows "unat (b + push_bit 2 g) = unat b + 4 * unat g"
proof -
  have "unat (push_bit 2 g) = 4 * unat g"
    using g by (simp add: unsigned_push_bit_eq push_bit_eq_mult word_less_nat_alt unat_word_ariths
        take_bit_nat_eq_self mult.commute)
  then show ?thesis using g b by (simp add: unat_word_ariths word_less_nat_alt)
qed

lemmas delay_reg_addresses = delay_reg_def seq_regs seq_bases

lemma delay_reg_bank:
  assumes g: "(g :: u32) < 0x80" and b: "unat b = 0x100 * q" "q < 0x1000"
  shows "\<not> (q \<in> {0x581, 0x583, 0x585, 0x587, 0x589, 0x6ff, 0x700}) \<Longrightarrow>
      \<not> (q + 1 \<in> {0x581, 0x583, 0x585, 0x587, 0x589}) \<or> g < 64 \<Longrightarrow> \<not> delay_reg (b + push_bit 2 g)"
    and "q \<in> {0x581, 0x583, 0x585, 0x587, 0x589} \<Longrightarrow> g < 64 \<Longrightarrow> delay_reg (b + push_bit 2 g)"
proof -
  have a: "unat (b + push_bit 2 g) = 0x100 * q + 4 * unat g"
    using bank_address [of g b] g b by (simp add: word_less_nat_alt)
  have "unat (b + push_bit 2 g) div 0x100 = q + (if g < 64 then 0 else 1)"
    using g by (auto simp: a word_less_nat_alt div_nat_eqI)
  moreover have "b + push_bit 2 g = REG_FILE_DTAPS_PER_PTAP \<Longrightarrow> q = 0x6ff \<or> q = 0x700"
    using a g by (simp add: seq_regs seq_bases word_less_nat_alt) presburger
  ultimately show "\<not> (q \<in> {0x581, 0x583, 0x585, 0x587, 0x589, 0x6ff, 0x700}) \<Longrightarrow>
      \<not> (q + 1 \<in> {0x581, 0x583, 0x585, 0x587, 0x589}) \<or> g < 64 \<Longrightarrow> \<not> delay_reg (b + push_bit 2 g)"
    and "q \<in> {0x581, 0x583, 0x585, 0x587, 0x589} \<Longrightarrow> g < 64 \<Longrightarrow> delay_reg (b + push_bit 2 g)"
    by (auto simp: delay_reg_def)
qed

lemma group_regs [simp]:
  "g < 64 \<Longrightarrow> \<not> delay_reg (SCC_MGR_DQS_EN_PHASE + push_bit 2 g)"
  "g < 64 \<Longrightarrow> \<not> delay_reg (SCC_MGR_DQDQS_OUT_PHASE + push_bit 2 g)"
  "g < 64 \<Longrightarrow> \<not> delay_reg (SCC_MGR_HHP_RFILE + push_bit 2 g)"
  "g < 64 \<Longrightarrow> \<not> delay_reg (RW_MGR_RUN_SINGLE_GROUP + push_bit 2 g)"
  "g < 64 \<Longrightarrow> \<not> delay_reg (RW_MGR_RUN_ALL_GROUPS + push_bit 2 g)"
  "g < 64 \<Longrightarrow> delay_reg (SCC_MGR_DQS_IN_DELAY + push_bit 2 g)"
  "g < 64 \<Longrightarrow> delay_reg (SCC_MGR_IO_IN_DELAY + push_bit 2 g)"
  "g < 64 \<Longrightarrow> delay_reg (SCC_MGR_IO_OUT1_DELAY + push_bit 2 g)"
  "g < 0x80 \<Longrightarrow> \<not> delay_reg (RW_MGR_INST_ROM_WRITE + push_bit 2 g)"
  "g < 64 \<Longrightarrow> \<not> delay_reg (RW_MGR_AC_ROM_WRITE + push_bit 2 g)"
  using delay_reg_bank(1) [of g SCC_MGR_DQS_EN_PHASE "0x582"] delay_reg_bank(1) [of g SCC_MGR_DQDQS_OUT_PHASE "0x584"]
    delay_reg_bank(1) [of g SCC_MGR_HHP_RFILE "0x58b"] delay_reg_bank(1) [of g RW_MGR_RUN_SINGLE_GROUP "0x900"]
    delay_reg_bank(1) [of g RW_MGR_RUN_ALL_GROUPS "0x904"] delay_reg_bank(2) [of g SCC_MGR_DQS_IN_DELAY "0x581"]
    delay_reg_bank(2) [of g SCC_MGR_IO_IN_DELAY "0x589"] delay_reg_bank(2) [of g SCC_MGR_IO_OUT1_DELAY "0x587"]
    delay_reg_bank(1) [of g RW_MGR_INST_ROM_WRITE "0x918"] delay_reg_bank(1) [of g RW_MGR_AC_ROM_WRITE "0x91c"]
  by (simp_all add: seq_regs seq_bases word_less_nat_alt)

lemma plain_regs [simp]:
  "\<not> delay_reg SCC_MGR_GROUP_COUNTER" "\<not> delay_reg SCC_MGR_DQS_ENA" "\<not> delay_reg SCC_MGR_DQS_IO_ENA"
  "\<not> delay_reg SCC_MGR_DQ_ENA" "\<not> delay_reg SCC_MGR_DM_ENA" "\<not> delay_reg SCC_MGR_UPD"
  "\<not> delay_reg (SCC_MGR_HHP_GLOBALS + SCC_MGR_HHP_EXTRAS_OFFSET)"
  "\<not> delay_reg (SCC_MGR_HHP_GLOBALS + SCC_MGR_HHP_DQSE_MAP_OFFSET)"
  "\<not> delay_reg RW_MGR_RUN_SINGLE_GROUP" "\<not> delay_reg RW_MGR_SET_CS_AND_ODT_MASK"
  "\<not> delay_reg RW_MGR_LOAD_CNTR_0" "\<not> delay_reg RW_MGR_LOAD_CNTR_1"
  "\<not> delay_reg RW_MGR_LOAD_CNTR_2" "\<not> delay_reg RW_MGR_LOAD_CNTR_3"
  "\<not> delay_reg RW_MGR_LOAD_JUMP_ADD_0" "\<not> delay_reg RW_MGR_LOAD_JUMP_ADD_1"
  "\<not> delay_reg RW_MGR_LOAD_JUMP_ADD_2" "\<not> delay_reg RW_MGR_LOAD_JUMP_ADD_3"
  "\<not> delay_reg RW_MGR_RESET_READ_DATAPATH" "\<not> delay_reg PHY_MGR_CMD_FIFO_RESET"
  "\<not> delay_reg PHY_MGR_CMD_INC_VFIFO_FR" "\<not> delay_reg PHY_MGR_CMD_INC_VFIFO_HARD_PHY"
  "\<not> delay_reg PHY_MGR_PHY_RLAT" "\<not> delay_reg PHY_MGR_AFI_WLAT" "\<not> delay_reg PHY_MGR_RESET_MEM_STBL"
  "\<not> delay_reg PHY_MGR_MUX_SEL" "\<not> delay_reg PHY_MGR_CAL_STATUS" "\<not> delay_reg PHY_MGR_CAL_DEBUG_INFO"
  "\<not> delay_reg CTRL_CONFIG_REG" "\<not> delay_reg REG_FILE_CUR_STAGE" "\<not> delay_reg REG_FILE_SIGNATURE"
  "\<not> delay_reg REG_FILE_DEBUG_DATA_ADDR" "\<not> delay_reg REG_FILE_FOM" "\<not> delay_reg REG_FILE_FAILING_STAGE"
  "\<not> delay_reg REG_FILE_DEBUG1" "\<not> delay_reg REG_FILE_DEBUG2" "\<not> delay_reg REG_FILE_TRK_SAMPLE_COUNT"
  "\<not> delay_reg REG_FILE_TRK_LONGIDLE" "\<not> delay_reg REG_FILE_DELAYS" "\<not> delay_reg REG_FILE_TRK_RW_MGR_ADDR"
  "\<not> delay_reg REG_FILE_TRK_READ_DQS_WIDTH" "\<not> delay_reg REG_FILE_TRK_RFSH"
  "delay_reg REG_FILE_DTAPS_PER_PTAP"
  by (simp_all add: delay_reg_addresses)

section \<open>Commands\<close>

definition keeps :: "cmd \<Rightarrow> bool" where
  "keeps c \<longleftrightarrow> (\<forall>s. fits s \<longrightarrow> fits (c s))"

named_theorems keeps_rules
named_theorems fits_rules

lemma keepsI: "(\<And>s. fits s \<Longrightarrow> fits (c s)) \<Longrightarrow> keeps c"
  by (simp add: keeps_def)

lemma keepsD: "keeps c \<Longrightarrow> fits s \<Longrightarrow> fits (c s)"
  by (simp add: keeps_def)

interpretation fitting: later "\<lambda>s. fits" .

lemma keeps_IOWR: "(delay_reg (b + k) \<Longrightarrow> v \<le> 31) \<Longrightarrow> keeps (IOWR_32DIRECT b k v)"
  by (rule keepsI) (simp add: fits_def IOWR_emits)

lemma keeps_plain [keeps_rules]:
  "\<not> delay_reg b \<Longrightarrow> keeps (IOWR_32DIRECT b 0 v)" "\<not> delay_reg (b + k) \<Longrightarrow> keeps (IOWR_32DIRECT b k v)"
  by (rule keeps_IOWR, simp)+

lemma keeps_structure [keeps_rules]:
  "keeps (\<lambda>s. s)" "keeps (seqs [])" "keeps c \<Longrightarrow> keeps (seqs cs) \<Longrightarrow> keeps (seqs (c # cs))"
  "(P \<Longrightarrow> keeps c) \<Longrightarrow> (\<not> P \<Longrightarrow> keeps d) \<Longrightarrow> keeps (if P then c else d)"
  by (simp_all add: keeps_def)

lemma keeps_for_each [keeps_rules]: "(\<And>x. x \<in> set xs \<Longrightarrow> keeps (f x)) \<Longrightarrow> keeps (for_each xs f)"
  by (induction xs) (simp_all add: keeps_def)

lemma fits_IORD [fits_rules]: "fits s \<Longrightarrow> fits (snd (IORD_32DIRECT b k s))"
  by (simp add: fits_def IORD_32DIRECT_def Let_def)

lemma fits_upd [simp]:
  "fits (upd_gbl f s) \<longleftrightarrow> fits s" "fits (upd_param g s) \<longleftrightarrow> fits s"
  "fits (set_failing_group_stage grp stage substage s) \<longleftrightarrow> fits s"
  by (simp_all add: fits_def upd_gbl_def upd_param_def set_failing_group_stage_def)

lemma fits_case_val:
  "fits (snd p) \<Longrightarrow> (\<And>v u. p = (v, u) \<Longrightarrow> fits u \<Longrightarrow> fits (snd (f v u))) \<Longrightarrow>
   fits (snd (let (v, u) = p in f v u))"
  by (cases p) simp

subsection \<open>Scan chain manager\<close>

text \<open>The commands that set a delay: it fits the chain.\<close>

lemma keeps_delays [keeps_rules]:
  "d \<le> 31 \<Longrightarrow> keeps (WRITE_SCC_DQS_IN_DELAY g d)" "d \<le> 31 \<Longrightarrow> keeps (WRITE_SCC_DQS_EN_DELAY g d)"
  "d \<le> 31 \<Longrightarrow> keeps (WRITE_SCC_OCT_OUT1_DELAY g d)" "d \<le> 31 \<Longrightarrow> keeps (WRITE_SCC_DQ_OUT1_DELAY g d)"
  "d \<le> 31 \<Longrightarrow> keeps (WRITE_SCC_DQ_IN_DELAY g d)" "d \<le> 31 \<Longrightarrow> keeps (WRITE_SCC_DQS_IO_OUT1_DELAY d)"
  "d \<le> 31 \<Longrightarrow> keeps (WRITE_SCC_DQS_IO_IN_DELAY d)" "d \<le> 31 \<Longrightarrow> keeps (WRITE_SCC_DM_IO_OUT1_DELAY g d)"
  "d \<le> 31 \<Longrightarrow> keeps (WRITE_SCC_DM_IO_IN_DELAY g d)"
  unfolding WRITE_SCC_DQS_IN_DELAY_def WRITE_SCC_DQS_EN_DELAY_def WRITE_SCC_OCT_OUT1_DELAY_def
    WRITE_SCC_DQ_OUT1_DELAY_def WRITE_SCC_DQ_IN_DELAY_def WRITE_SCC_DQS_IO_OUT1_DELAY_def
    WRITE_SCC_DQS_IO_IN_DELAY_def WRITE_SCC_DM_IO_OUT1_DELAY_def WRITE_SCC_DM_IO_IN_DELAY_def
  by (auto intro: keeps_IOWR simp: IO_DQS_EN_DELAY_OFFSET_def)

lemma keeps_scc_pins [keeps_rules]:
  "keeps (select_shadow_regs_for_update a b c)" "keeps (select_curr_shadow_reg_using_rank a)"
  "d \<le> 31 \<Longrightarrow> keeps (scc_mgr_set_dqs_bus_in_delay g d)" "d \<le> 31 \<Longrightarrow> keeps (scc_mgr_set_dqs_io_in_delay g d)"
  "g < 64 \<Longrightarrow> keeps (scc_mgr_set_dqs_en_phase g p)" "g < 64 \<Longrightarrow> keeps (scc_mgr_set_dqdqs_output_phase g p)"
  "d \<le> 31 \<Longrightarrow> keeps (scc_mgr_set_dqs_en_delay g d)" "d \<le> 31 \<Longrightarrow> keeps (scc_mgr_set_oct_out1_delay g d)"
  "keeps (scc_mgr_set_oct_out2_delay g x)" "d \<le> 31 \<Longrightarrow> keeps (scc_mgr_set_dq_out1_delay g i d)"
  "keeps (scc_mgr_set_dq_out2_delay g i x)" "d \<le> 31 \<Longrightarrow> keeps (scc_mgr_set_dq_in_delay g i d)"
  "keeps scc_mgr_set_hhp_extras" "keeps scc_mgr_set_hhp_dqse_map"
  "d \<le> 31 \<Longrightarrow> keeps (scc_mgr_set_dqs_out1_delay g d)" "keeps (scc_mgr_set_dqs_out2_delay g x)"
  "d \<le> 31 \<Longrightarrow> keeps (scc_mgr_set_dm_out1_delay g i d)" "keeps (scc_mgr_set_dm_out2_delay g i x)"
  "d \<le> 31 \<Longrightarrow> keeps (scc_mgr_set_dm_in_delay g i d)"
  unfolding select_shadow_regs_for_update_def select_curr_shadow_reg_using_rank_def
    scc_mgr_set_dqs_bus_in_delay_def scc_mgr_set_dqs_io_in_delay_def scc_mgr_set_dqs_en_phase_def
    WRITE_SCC_DQS_EN_PHASE_def scc_mgr_set_dqdqs_output_phase_def WRITE_SCC_DQDQS_OUT_PHASE_def
    scc_mgr_set_dqs_en_delay_def scc_mgr_set_oct_out1_delay_def scc_mgr_set_oct_out2_delay_def
    WRITE_SCC_OCT_OUT2_DELAY_def scc_mgr_set_dq_out1_delay_def scc_mgr_set_dq_out2_delay_def
    WRITE_SCC_DQ_OUT2_DELAY_def scc_mgr_set_dq_in_delay_def scc_mgr_set_hhp_extras_def
    WRITE_SCC_HHP_EXTRAS_def scc_mgr_set_hhp_dqse_map_def WRITE_SCC_HHP_DQSE_MAP_def
    scc_mgr_set_dqs_out1_delay_def scc_mgr_set_dqs_out2_delay_def WRITE_SCC_DQS_IO_OUT2_DELAY_def
    scc_mgr_set_dm_out1_delay_def scc_mgr_set_dm_out2_delay_def WRITE_SCC_DM_IO_OUT2_DELAY_def
    scc_mgr_set_dm_in_delay_def Let_def
  by (intro keeps_rules; simp)+

lemma keeps_scc_loads [keeps_rules]:
  "keeps (scc_mgr_load_dqs_for_write_group a)" "keeps (scc_mgr_load_dqs a)" "keeps scc_mgr_load_dqs_io"
  "keeps (scc_mgr_load_dq a)" "keeps (scc_mgr_load_dm a)" "keeps (scc_set_bypass_mode a b)"
  unfolding scc_mgr_load_dqs_for_write_group_def scc_mgr_load_dqs_def scc_mgr_load_dqs_io_def
    scc_mgr_load_dq_def scc_mgr_load_dm_def scc_set_bypass_mode_def
  by (intro keeps_rules; simp)+

lemma keeps_scc_initialize [keeps_rules]: "keeps scc_mgr_initialize"
  unfolding scc_mgr_initialize_def by (intro keeps_rules) (auto simp: word_less_nat_alt unat_of_nat)

lemma of_nat_group: "n < 64 \<Longrightarrow> (of_nat n :: u32) < 64"
  by (simp add: word_less_nat_alt unat_of_nat)

lemma of_nat_delay: "n \<le> 31 \<Longrightarrow> (of_nat n :: u32) \<le> 31"
  by (simp add: word_le_nat_alt unat_of_nat)

lemma keeps_scc_groups [keeps_rules]:
  "g < 64 \<Longrightarrow> keeps (scc_mgr_set_dqs_en_phase_all_ranks g p)"
  "g < 64 \<Longrightarrow> keeps (scc_mgr_set_dqdqs_output_phase_all_ranks g p)"
  "d \<le> 31 \<Longrightarrow> keeps (scc_mgr_set_dqs_en_delay_all_ranks g d)"
  "keeps scc_mgr_zero_all" "keeps (scc_mgr_zero_group g b k)"
  "d \<le> 31 \<Longrightarrow> keeps (scc_mgr_apply_group_dq_in_delay g b d)"
  "d \<le> 31 \<Longrightarrow> keeps (scc_mgr_apply_group_dq_out1_delay g b d)"
  "d \<le> 31 \<Longrightarrow> keeps (scc_mgr_apply_group_dm_out1_delay g d)"
  "d \<le> 31 \<Longrightarrow> keeps (scc_mgr_apply_group_dqs_io_and_oct_out1 g d)"
  unfolding scc_mgr_set_dqs_en_phase_all_ranks_def scc_mgr_set_dqdqs_output_phase_all_ranks_def
    scc_mgr_set_dqs_en_delay_all_ranks_def scc_mgr_zero_all_def scc_mgr_zero_group_def
    scc_mgr_apply_group_dq_in_delay_def scc_mgr_apply_group_dq_out1_delay_def
    scc_mgr_apply_group_dm_out1_delay_def scc_mgr_apply_group_dqs_io_and_oct_out1_def Let_def
  by (intro keeps_rules; simp add: seq_params of_nat_group)+

text \<open>There is no second output delay: what is added goes to the strobe and the termination.\<close>

lemma keeps_add_group [keeps_rules]:
  assumes "d \<le> 31"
  shows "keeps (scc_mgr_apply_group_all_out_delay_add g b d)"
    and "keeps (scc_mgr_apply_group_all_out_delay_add_all_ranks g b d)"
proof -
  show add: "keeps (scc_mgr_apply_group_all_out_delay_add g b d)"
    unfolding scc_mgr_apply_group_all_out_delay_add_def READ_SCC_DQ_OUT2_DELAY_def
      READ_SCC_DM_IO_OUT2_DELAY_def READ_SCC_DQS_IO_OUT2_DELAY_def READ_SCC_OCT_OUT2_DELAY_def
      Let_def prod.case
    using assms by (intro keeps_rules; simp add: IO_IO_OUT2_DELAY_MAX_def)
  show "keeps (scc_mgr_apply_group_all_out_delay_add_all_ranks g b d)"
    unfolding scc_mgr_apply_group_all_out_delay_add_all_ranks_def
    by (intro keeps_rules add) simp_all
qed

subsection \<open>Read/write manager and registers\<close>

lemma keeps_for_ranks [keeps_rules]: "(\<And>r. r \<in> set rs \<Longrightarrow> keeps (f r)) \<Longrightarrow> keeps (for_ranks rs f)"
  unfolding for_ranks_def by (rule keeps_for_each, rule keepsI) (auto dest: keepsD)

lemma keeps_load_delay [keeps_rules]: "\<not> delay_reg reg \<Longrightarrow> keeps (load_delay reg v)"
  by (rule keepsI) (simp add: load_delay_def keepsD keeps_rules)

lemma keeps_idle_loops [keeps_rules]: "keeps (idle_loops n)"
proof (induction n)
  case 0
  show ?case by (rule keepsI) (simp add: idle_loops.simps keepsD keeps_rules)
next
  case (Suc n)
  show ?case
    by (rule keepsI, subst idle_loops.simps) (simp add: Let_def keepsD [OF Suc] keepsD keeps_rules)
qed

lemma keeps_delay_loops [keeps_rules]: "keeps (delay_for_n_mem_clocks n)"
  unfolding delay_for_n_mem_clocks_def Let_def
  by (auto split: prod.splits intro!: keeps_rules)

lemma keeps_rw_mgr [keeps_rules]:
  "keeps (set_rank_and_odt_mask r m)" "keeps set_jump_as_return" "keeps (run_program pc)"
  "keeps recover_mem_device_after_ck_dqs_violation" "keeps rw_mgr_rdimm_initialize"
  unfolding set_rank_and_odt_mask_def set_jump_as_return_def run_program_def
    recover_mem_device_after_ck_dqs_violation_def rw_mgr_rdimm_initialize_def
  by (intro keeps_rules; simp)+

lemma keeps_rw_mgr_ranks [keeps_rules]:
  "keeps rw_mgr_mem_initialize" "keeps rw_mgr_mem_handoff" "keeps mem_precharge_and_activate"
  unfolding rw_mgr_mem_initialize_def rw_mgr_mem_handoff_def mem_precharge_and_activate_def
    initialize_rank_def handoff_rank_def
  by (intro keeps_rules; simp)+

lemma keeps_reg_file [keeps_rules]:
  "keeps (reg_file_set_group g)" "keeps (reg_file_set_stage g)" "keeps (reg_file_set_sub_stage g)"
  unfolding reg_file_set_group_def reg_file_set_stage_def reg_file_set_sub_stage_def
  by (rule keepsI, simp add: IORD_32DIRECT_def Let_def keepsD keeps_rules fits_def IOWR_emits)+

lemma dtaps_of_ptap_fits: "dtaps_of_ptap 25 = 12"
  by (simp add: dtaps_of_ptap_def count_dtaps.simps IO_DELAY_PER_OPA_TAP_def)

lemma keeps_setup [keeps_rules]:
  "keeps initialize_reg_file" "keeps initialize_tracking" "keeps initialize" "keeps hc_initialize_rom_data"
proof -
  show "keeps initialize_reg_file" unfolding initialize_reg_file_def by (intro keeps_rules; simp)
  show "keeps initialize_tracking" unfolding initialize_tracking_def Let_def
    by (intro keeps_rules keeps_IOWR; simp add: dtaps_of_ptap_fits IO_DELAY_PER_DCHAIN_TAP_def)
  show "keeps initialize" unfolding initialize_def
    by (intro keeps_rules keepsI; simp)
  show "keeps hc_initialize_rom_data" unfolding hc_initialize_rom_data_def
    by (intro keeps_rules; simp add: inst_rom_init_size_def ac_rom_init_size_def word_less_nat_alt unat_of_nat)
qed

section \<open>Tests\<close>

lemma fitting_snd_fold:
  assumes "\<And>x v t. x \<in> set xs \<Longrightarrow> fits t \<Longrightarrow> fits (snd (f x (v, t)))"
  shows "fits (snd p) \<Longrightarrow> fits (snd (fold f xs p))"
  using assms
proof (induction xs arbitrary: p)
  case (Cons x xs)
  then show ?case using Cons.prems(2) [of x "snd p" "fst p"] by simp
qed simp

lemma fits_collect:
  assumes "\<And>vg. vg < n \<Longrightarrow> keeps (issue vg)"
  shows "fits s \<Longrightarrow> fits (snd (collect_vgs n width m issue s))"
  unfolding collect_vgs_def
proof (rule fitting_snd_fold, unfold prod.case)
  fix vg b t assume "vg \<in> set (rev [0..<n])" "fits t"
  then show "fits (snd (let s = issue vg t; tmp_bit_chk = push_bit width b;
      (v, s) = IORD_32DIRECT BASE_RW_MGR 0 s in (tmp_bit_chk OR (m AND NOT v), s)))"
    by (intro fitting.structure_rules fits_rules keepsD [OF assms]) auto
qed simp

lemma fits_collect_ranks:
  assumes "\<And>r t. fits t \<Longrightarrow> fits (snd (body r t))"
  shows "fits s \<Longrightarrow> fits (snd (collect_ranks rs body b s))"
  unfolding collect_ranks_def
  by (rule fitting.snd_fold, unfold prod.case) (auto intro!: fitting.structure_rules assms)

lemma keeps_write_issue [keeps_rules]: "g < 64 \<Longrightarrow> keeps (rw_mgr_mem_calibrate_write_test_issue g dm)"
  unfolding rw_mgr_mem_calibrate_write_test_issue_def write_nops_def Let_def
  by (rule keepsI, erule keepsD [rotated]) (intro keeps_rules; simp)

lemma keeps_load_patterns [keeps_rules]:
  "keeps (rw_mgr_mem_calibrate_read_load_patterns b a)"
  "keeps rw_mgr_mem_calibrate_read_load_patterns_all_ranks"
  unfolding rw_mgr_mem_calibrate_read_load_patterns_all_ranks_def
    rw_mgr_mem_calibrate_read_load_patterns_def
  by (intro keeps_rules; simp)+

lemmas fits_commands =
  keeps_plain [THEN keepsD] keeps_structure(2-4) [THEN keepsD] keeps_for_each [THEN keepsD]
  keeps_delays [THEN keepsD] keeps_scc_pins [THEN keepsD] keeps_scc_loads [THEN keepsD]
  keeps_scc_initialize [THEN keepsD] keeps_scc_groups [THEN keepsD] keeps_add_group [THEN keepsD]
  keeps_for_ranks [THEN keepsD] keeps_load_delay [THEN keepsD] keeps_delay_loops [THEN keepsD]
  keeps_rw_mgr [THEN keepsD] keeps_rw_mgr_ranks [THEN keepsD] keeps_reg_file [THEN keepsD]
  keeps_setup [THEN keepsD] keeps_write_issue [THEN keepsD] keeps_load_patterns [THEN keepsD]

lemma fits_tests [fits_rules]:
  assumes g: "g < 64"
  shows "fits s \<Longrightarrow> fits (snd (rw_mgr_mem_calibrate_read_test_patterns b g n a s))"
    and "fits s \<Longrightarrow> fits (snd (rw_mgr_mem_calibrate_read_test b g n c ag a s))"
    and "fits s \<Longrightarrow> fits (snd (rw_mgr_mem_calibrate_write_test b g dm c a s))"
    and "fits s \<Longrightarrow> fits (snd (rw_mgr_mem_calibrate_write_test_all_ranks g dm c s))"
proof -
  note rules = fitting.structure_rules fits_collect_ranks fits_collect fits_commands
  show "fits s \<Longrightarrow> fits (snd (rw_mgr_mem_calibrate_read_test_patterns b g n a s))"
    unfolding rw_mgr_mem_calibrate_read_test_patterns_def
    using g by (intro rules keeps_rules; (assumption | simp add: seq_params))
  show "fits s \<Longrightarrow> fits (snd (rw_mgr_mem_calibrate_read_test b g n c ag a s))"
    unfolding rw_mgr_mem_calibrate_read_test_def
    using g by (intro rules keeps_rules; (assumption | simp add: seq_params))
  show w: "fits s \<Longrightarrow> fits (snd (rw_mgr_mem_calibrate_write_test b g dm c a s))" for b a
    unfolding rw_mgr_mem_calibrate_write_test_def
    using g by (intro rules keeps_rules; (assumption | simp add: seq_params))
  show "fits s \<Longrightarrow> fits (snd (rw_mgr_mem_calibrate_write_test_all_ranks g dm c s))"
    unfolding rw_mgr_mem_calibrate_write_test_all_ranks_def by (rule w)
qed

lemma fits_try_phases: "g < 64 \<Longrightarrow> fits s \<Longrightarrow> fits (snd (try_phases g n ps b s))"
proof (induction ps arbitrary: b s)
  case (Cons p ps)
  show ?case unfolding try_phases.simps
    by (intro fitting.structure_rules fits_commands fits_rules Cons.IH; (rule Cons.prems | assumption))
qed simp

lemma fits_repeat: "g < 64 \<Longrightarrow> fits s \<Longrightarrow> fits (snd (repeat_read_test n g c ag b s))"
proof (induction n arbitrary: b s)
  case (Suc n)
  show ?case unfolding repeat_read_test.simps
    by (intro fitting.structure_rules fits_rules Suc.IH; (rule Suc.prems | assumption))
qed simp

lemma fits_all_ranks [fits_rules]:
  "g < 64 \<Longrightarrow> fits s \<Longrightarrow> fits (snd (rw_mgr_mem_calibrate_read_test_patterns_all_ranks g n s))"
  "g < 64 \<Longrightarrow> fits s \<Longrightarrow> fits (snd (rw_mgr_mem_calibrate_read_test_all_ranks g m c ag s))"
  unfolding rw_mgr_mem_calibrate_read_test_patterns_all_ranks_def
    rw_mgr_mem_calibrate_read_test_all_ranks_def
  by (intro fitting.structure_rules fits_rules fits_try_phases fits_repeat; assumption)+

lemma fits_vfifo [fits_rules]:
  "fits s \<Longrightarrow> fits (snd (rw_mgr_incr_vfifo g v s))"
  "fits s \<Longrightarrow> fits (snd (rw_mgr_decr_vfifo g v s))"
proof -
  show incr: "fits s \<Longrightarrow> fits (snd (rw_mgr_incr_vfifo g v s))" for v s
    by (simp add: rw_mgr_incr_vfifo_def seq_params seq_rates keepsD keeps_rules)
  show "fits s \<Longrightarrow> fits (snd (rw_mgr_decr_vfifo g v s))"
    unfolding rw_mgr_decr_vfifo_def by (rule fitting_snd_fold) (auto intro: incr)
qed

lemma fits_reads_ok [fits_rules]: "g < 64 \<Longrightarrow> fits s \<Longrightarrow> fits (snd (reads_ok g n s))"
  unfolding reads_ok_def by (intro fitting.structure_rules fits_rules; assumption)

end
