(* ===== verification/ChainSearch.thy ===== *)
theory ChainSearch
  imports ChainRules PhaseProofs
begin

text \<open>
  The search for the DQS enable of a read group writes delays that fit the chains: the taps it tries
  come from loops up to the chain's length, the distance it records is between two of them, and the
  middle of the window takes at most 13 delay taps.
\<close>

lemmas fits_all [fits_rules] = fitting.structure_rules fits_commands of_nat_delay

lemma fits_find_failing_vfifo [fits_rules]:
  "g < 64 \<Longrightarrow> fits s \<Longrightarrow> fits (snd (find_failing_vfifo g k v s))"
proof (induction g k v s rule: find_failing_vfifo.induct)
  case (1 g k v s)
  obtain ok t where t: "reads_ok g 5 s = (ok, t)" by fastforce
  have "fits t" using fits_reads_ok [OF 1(2,3), of 5] by (simp add: t)
  then have "fits (snd (rw_mgr_incr_vfifo g v t))" by (rule fits_vfifo)
  then show ?case
    using 1 t \<open>fits t\<close> by (subst find_failing_vfifo.simps) (simp add: Let_def)
qed

lemma fits_begin_ptaps [fits_rules]: "g < 64 \<Longrightarrow> fits s \<Longrightarrow> fits (snd (begin_ptaps g ps w s))"
proof (induction ps arbitrary: w s)
  case (Cons p ps)
  show ?case unfolding begin_ptaps.simps
    by (intro fits_rules Cons.IH; (rule Cons.prems | assumption))
qed simp

lemma fits_begin_vfifos [fits_rules]: "g < 64 \<Longrightarrow> fits s \<Longrightarrow> fits (snd (begin_vfifos g is v w s))"
proof (induction "is" arbitrary: v w s)
  case (Cons i "is")
  show ?case unfolding begin_vfifos.simps
    by (intro fits_rules Cons.IH; (rule Cons.prems | assumption))
qed simp

lemma fits_split [fits_rules]:
  "(\<And>i p v w. r = (Some (i, p), v, w) \<Longrightarrow> fits (snd (f i p v w))) \<Longrightarrow>
   (\<And>v w. r = (None, v, w) \<Longrightarrow> fits (snd (g v w))) \<Longrightarrow>
   fits (snd (case r of (Some (i, p), v, w) \<Rightarrow> f i p v w | (None, v, w) \<Rightarrow> g v w))"
  by (auto split: prod.splits option.splits)

lemma fits_begin_dtaps:
  "g < 64 \<Longrightarrow> fits s \<Longrightarrow> \<forall>d\<in>set ds. d \<le> 31 \<Longrightarrow> fits (snd (begin_dtaps g ds w v s))"
proof (induction ds arbitrary: v w s)
  case (Cons d ds)
  then show ?case unfolding begin_dtaps.simps
    by (intro fits_rules Cons.IH; (assumption | simp))
qed simp

text \<open>The begin that is found is at one of the taps tried.\<close>

lemma begin_dtaps_member:
  "begin_dtaps g ds w v s = ((Some (d, i, p), v', w'), t) \<Longrightarrow> d \<in> set ds"
proof (induction ds arbitrary: v w s)
  case (Cons d ds)
  then show ?case by (auto simp: Let_def split: prod.splits option.splits)
qed simp

lemma fits_prev_ptap [fits_rules]: "fits s \<Longrightarrow> fits (snd (prev_ptap g p v s))"
  unfolding prev_ptap_def by (intro fits_rules; assumption)

lemma fits_next_ptap [fits_rules]: "fits s \<Longrightarrow> fits (snd (next_ptap g p v s))"
  unfolding next_ptap_def by (intro fits_rules; assumption)

lemma fits_narrow_dtaps:
  "g < 64 \<Longrightarrow> fits s \<Longrightarrow> \<forall>d\<in>set ds. d \<le> 31 \<Longrightarrow> fits (snd (narrow_dtaps g ds w b s))"
proof (induction ds arbitrary: w b s)
  case (Cons d ds)
  then show ?case unfolding narrow_dtaps.simps
    by (intro fits_rules Cons.IH; (assumption | simp))
qed simp

lemma chain_taps: "d \<in> set [k..<IO_DQS_EN_DELAY_MAX + 1] \<Longrightarrow> d \<le> 31"
  by (simp add: IO_DQS_EN_DELAY_MAX_def)

lemma fits_narrow_begin [fits_rules]: "g < 64 \<Longrightarrow> fits s \<Longrightarrow> fits (snd (narrow_begin g p v w s))"
  unfolding narrow_begin_def by (intro fits_rules fits_narrow_dtaps ballI chain_taps; assumption)

lemma fits_end_ptaps [fits_rules]: "g < 64 \<Longrightarrow> fits s \<Longrightarrow> fits (snd (end_ptaps g ps j b w s))"
proof (induction ps arbitrary: j b w s)
  case (Cons p ps)
  show ?case unfolding end_ptaps.simps
    by (intro fits_rules Cons.IH; (rule Cons.prems | assumption))
qed simp

lemma fits_split4 [fits_rules]:
  "(\<And>p v b w. fits (snd (f p v b w))) \<Longrightarrow> (\<And>v b w. fits (snd (g v b w))) \<Longrightarrow>
   fits (snd (case r of (Some p, v, b, w) \<Rightarrow> f p v b w | (None, v, b, w) \<Rightarrow> g v b w))"
  by (auto split: prod.splits option.splits)

lemma fits_end_vfifos [fits_rules]: "g < 64 \<Longrightarrow> fits s \<Longrightarrow> fits (snd (end_vfifos g n p j v b w s))"
proof (induction n arbitrary: p j v b w s)
  case (Suc n)
  show ?case unfolding end_vfifos.simps
    by (intro fits_rules Suc.IH; (rule Suc.prems | assumption))
qed simp

lemma fits_find_end_ptap [fits_rules]: "g < 64 \<Longrightarrow> fits s \<Longrightarrow> fits (snd (find_end_ptap g i p v b w s))"
  unfolding find_end_ptap_def by (intro fits_rules; (assumption | simp))

text \<open>The delay tap counts with the loop.\<close>

lemma fits_end_dtaps:
  "g < 64 \<Longrightarrow> fits s \<Longrightarrow> d + length es \<le> 32 \<Longrightarrow> fits (snd (end_dtaps g es d w s))"
proof (induction es arbitrary: d w s)
  case (Cons e es)
  then show ?case unfolding end_dtaps.simps
    by (intro fits_rules Cons.IH; (assumption | simp))
qed simp

lemma fits_seek_dtap:
  "g < 64 \<Longrightarrow> fits s \<Longrightarrow> \<forall>d\<in>set ds. d \<le> 31 \<Longrightarrow> fits (snd (seek_dtap g b ds s))"
proof (induction ds arbitrary: s)
  case (Cons d ds)
  then show ?case unfolding seek_dtap.simps
    by (intro fits_rules Cons.IH; (assumption | simp))
qed simp

lemma fits_seek_range:
  "g < 64 \<Longrightarrow> fits s \<Longrightarrow> fits (snd (seek_dtap g b [k..<IO_DQS_EN_DELAY_MAX + 1] s))"
  by (intro fits_seek_dtap ballI chain_taps; assumption)

lemma seek_dtap_member: "fst (seek_dtap g b ds s) = Some d \<Longrightarrow> d \<in> set ds"
  by (induction ds arbitrary: s) (auto simp: Let_def split: prod.splits if_splits)

lemma tap_distance: "i \<le> d \<Longrightarrow> d \<le> 31 \<Longrightarrow> (of_nat d - of_nat i :: u32) \<le> 31"
  by (simp add: word_le_nat_alt unat_of_nat flip: of_nat_diff)

lemma fits_dtaps: "v \<le> 31 \<Longrightarrow> fits s \<Longrightarrow> fits (IOWR_32DIRECT REG_FILE_DTAPS_PER_PTAP 0 v s)"
  by (rule keepsD [OF keeps_IOWR])

lemma fits_measure_dtaps:
  assumes "g < 64" "fits s" "n \<le> 31"
  shows "fits (measure_dtaps g p d v n s)"
proof -
  obtain pv s0 where s0: "(if p = 0 \<or> p = 1 then prev_ptap g 0 v s else prev_ptap g p v s) = (pv, s0)"
    by fastforce
  have "fits s0" using s0 fits_prev_ptap [OF assms(2)] by (metis snd_conv)
  define s1 where "s1 = scc_mgr_set_dqs_en_phase_all_ranks g (of_nat (fst pv)) s0"
  have s1: "fits s1" unfolding s1_def by (intro fits_rules assms \<open>fits s0\<close>)
  obtain passing s2 where s2: "seek_dtap g True [d..<IO_DQS_EN_DELAY_MAX + 1] s1 = (passing, s2)" by fastforce
  obtain failing s3 where s3: "(case passing of Some d \<Rightarrow> seek_dtap g False [d + 1..<IO_DQS_EN_DELAY_MAX + 1] s2
      | None \<Rightarrow> (None, s2)) = (failing, s3)" by fastforce
  have f2: "fits s2" using fits_seek_range [OF assms(1) s1, of True d] unfolding s2 by simp
  have f3: "fits s3"
  proof (cases passing)
    case (Some x)
    then show ?thesis using fits_seek_range [OF assms(1) f2, of False "x + 1"] s3 by (simp only: option.case snd_conv)
  qed (use s3 f2 in simp)
  have "d \<le> k \<and> k \<le> 31" if "failing = Some k" for k
    using s3 that seek_dtap_member [of g True _ s1 _] seek_dtap_member [of g False _ s2 k] s2
    by (cases passing) (fastforce simp: IO_DQS_EN_DELAY_MAX_def dest: arg_cong [of _ _ fst])+
  then have "(case failing of Some k \<Rightarrow> of_nat k - of_nat d | None \<Rightarrow> n) \<le> 31"
    using assms(3) by (auto split: option.splits intro: tap_distance)
  then have "fits (IOWR_32DIRECT REG_FILE_DTAPS_PER_PTAP 0
      (case failing of Some k \<Rightarrow> of_nat k - of_nat d | None \<Rightarrow> n) s3)"
    using f3 by (rule fits_dtaps)
  then show ?thesis
    by (simp only: measure_dtaps_def s0 Let_def prod.case s1_def [symmetric] s2 s3)
qed

lemma fits_center_vfifo [fits_rules]: "g < 64 \<Longrightarrow> fits s \<Longrightarrow> fits (snd (center_vfifo g n v s))"
proof (induction n arbitrary: v s)
  case (Suc n)
  show ?case unfolding center_vfifo.simps
    by (intro fits_rules Suc.IH; (rule Suc.prems | assumption))
qed simp

lemma fits_mid:
  "(\<And>p d. d \<le> 31 \<Longrightarrow> fits (snd (f p d))) \<Longrightarrow> fits (snd (let (p, d) = mid_taps w in f p d))"
  using mid_taps_delay [of w] by (auto simp: word_le_nat_alt split: prod.splits)

lemma fits_find_right_edge:
  "g < 64 \<Longrightarrow> fits s \<Longrightarrow> d \<le> 31 \<Longrightarrow> fits (snd (find_right_edge g p d v b w s))"
  unfolding find_right_edge_def IO_DELAY_PER_DQS_EN_DCHAIN_TAP_def dtaps_of_ptap_fits
  by (intro fits_mid fits_rules fits_end_dtaps fits_measure_dtaps; (assumption | simp add: IO_DQS_EN_DELAY_MAX_def))

lemma fits_split_end [fits_rules]:
  "(\<And>p v b w. fits (snd (f p v b w))) \<Longrightarrow> fits (snd a) \<Longrightarrow>
   fits (snd (case r of None \<Rightarrow> a | Some (p, v, b, w :: u32) \<Rightarrow> f p v b w))"
  by (auto split: prod.splits option.splits)

lemma begin_taps: "\<forall>d\<in>set [0..<unat (dtaps_of_ptap IO_DELAY_PER_DQS_EN_DCHAIN_TAP) + 1]. d \<le> 31"
  by (simp add: dtaps_of_ptap_fits IO_DELAY_PER_DQS_EN_DCHAIN_TAP_def)

text \<open>The search goes on from the begin, whose delay tap is one of those tried.\<close>

lemma fits_from_begin:
  assumes "g < 64" "fits s" "\<forall>d\<in>set ds. d \<le> 31"
    and "\<And>d i p v w t. d \<le> 31 \<Longrightarrow> fits t \<Longrightarrow> fits (snd (f d i p v w t))"
    and "\<And>v w t. fits t \<Longrightarrow> fits (snd (h v w t))"
  shows "fits (snd (let (r, t) = begin_dtaps g ds w v s in
     case r of (None, v, w) \<Rightarrow> h v w t | (Some (d, i, p), v, w) \<Rightarrow> f d i p v w t))"
proof -
  obtain r v' w' t where b: "begin_dtaps g ds w v s = ((r, v', w'), t)" by (metis prod.collapse)
  have t: "fits t" using fits_begin_dtaps [OF assms(1-3), of w v] by (simp add: b)
  show ?thesis
  proof (cases r)
    case (Some dip)
    obtain d i p where "dip = (d, i, p)" by (metis prod.collapse)
    then show ?thesis using Some b t assms(3,4) begin_dtaps_member [of g ds w v s d i p] by simp
  qed (use b t assms(5) in simp)
qed

lemma fits_find_dqs_en_phase [fits_rules]:
  "g < 64 \<Longrightarrow> fits s \<Longrightarrow> fits (snd (rw_mgr_mem_calibrate_vfifo_find_dqs_en_phase g s))"
  unfolding rw_mgr_mem_calibrate_vfifo_find_dqs_en_phase_def
    Let_def [of "dtaps_of_ptap IO_DELAY_PER_DQS_EN_DCHAIN_TAP"]
  by (intro fits_from_begin begin_taps fits_split_end fits_rules fits_find_right_edge; (assumption | simp))

text \<open>The sweep spreads the delays of the eight pins over the chain.\<close>

lemma sweep_delay:
  "i < RW_MGR_MEM_DQ_PER_READ_DQS \<Longrightarrow>
   (of_nat i * of_nat (IO_IO_IN_DELAY_MAX div (RW_MGR_MEM_DQ_PER_READ_DQS - 1)) :: u32) \<le> 31"
  by (simp add: seq_params word_le_nat_alt unat_word_ariths unat_of_nat)

lemma keeps_sweep:
  "keeps (for_each shadow_ranks (\<lambda>r. seqs [
     select_shadow_regs_for_update (of_nat r) w 1,
     for_each [0..<RW_MGR_MEM_DQ_PER_READ_DQS] (\<lambda>i. let p = b + of_nat i in seqs [
       scc_mgr_set_dq_in_delay w p (of_nat i * of_nat (IO_IO_IN_DELAY_MAX div (RW_MGR_MEM_DQ_PER_READ_DQS - 1))),
       scc_mgr_load_dq p]),
     IOWR_32DIRECT SCC_MGR_UPD 0 0]))"
  "keeps (for_each shadow_ranks (\<lambda>r. seqs [
     select_shadow_regs_for_update (of_nat r) w 1,
     for_each [0..<RW_MGR_MEM_DQ_PER_READ_DQS] (\<lambda>i. let p = b + of_nat i in seqs [
       scc_mgr_set_dq_in_delay w p 0,
       scc_mgr_load_dq p]),
     IOWR_32DIRECT SCC_MGR_UPD 0 0]))"
  unfolding Let_def by (intro keeps_rules sweep_delay; simp)+

lemma fits_sweep [fits_rules]:
  "g < 64 \<Longrightarrow> fits s \<Longrightarrow>
   fits (snd (rw_mgr_mem_calibrate_vfifo_find_dqs_en_phase_sweep_dq_in_delay w g b s))"
  unfolding rw_mgr_mem_calibrate_vfifo_find_dqs_en_phase_sweep_dq_in_delay_def
    Let_def [of "of_nat (IO_IO_IN_DELAY_MAX div (RW_MGR_MEM_DQ_PER_READ_DQS - 1)) :: u32"]
  by (intro fitting.snd_let fitting.snd_let_case fitting.snd_Pair fits_find_dqs_en_phase
      keeps_sweep [THEN keepsD]; assumption)

end
