(* ===== verification/ChainProofs.thy ===== *)
theory ChainProofs
  imports ChainSearch SccProofs
begin

text \<open>
  Centering keeps the delays within the chains: the edge searches end where the chain does, the
  strobe's new delay and each pin's shift are cut off at its ends, and the mask pin's middle is that of
  a window no wider than the two chains. With the search for the DQS enable this covers every write
  of a calibration.
\<close>

section \<open>A pin's new delay\<close>

text \<open>A register that gives a value goes on giving it while it is read.\<close>

definition gives :: "u32 \<Rightarrow> u32 \<Rightarrow> u32 \<Rightarrow> seq \<Rightarrow> bool" where
  "gives b k v s \<longleftrightarrow> fits s \<and> fst (IORD_32DIRECT b k s) = v"

lemma givesE:
  assumes "gives b k v s" "delay_reg (b + k)"
  obtains t where "IORD_32DIRECT b k s = (v, t)" "gives b k v t"
proof
  show "IORD_32DIRECT b k s = (v, snd (IORD_32DIRECT b k s))"
    using assms(1) by (simp add: gives_def prod_eq_iff)
  show "gives b k v (snd (IORD_32DIRECT b k s))"
    using assms fits_IORD [of s b k] unfolding gives_def
    by (simp add: IORD_32DIRECT_def Let_def fits_def delay_device_def)
qed

lemma sint_delay:
  assumes "(v :: u32) \<le> 31"
  shows "sint v = int (unat v)" "0 \<le> sint v" "sint v \<le> 31"
proof -
  have v: "0 \<le> uint v" "uint v \<le> 31" using assms by (simp_all add: word_le_def)
  have "signed_take_bit 31 (uint v) = uint v"
    by (rule signed_take_bit_int_eq_self, rule order_trans [OF _ v(1)]) (use v(2) in simp_all)
  then have "sint v = uint v" by (simp add: sint_uint)
  then show "sint v = int (unat v)" "0 \<le> sint v" "sint v \<le> 31" using v by simp_all
qed

lemma word_of_delay: "0 \<le> i \<Longrightarrow> i \<le> 31 \<Longrightarrow> (word_of_int i :: u32) \<le> 31"
  by (simp add: word_le_def unsigned_of_int take_bit_int_eq_self)

lemma shifted: "(v :: u32) + word_of_int y = word_of_int (sint v + y)"
  by simp

lemma fits_clip_shift:
  assumes "gives b k v s" "delay_reg (b + k)" "v \<le> 31"
    and "clip_shift (IORD_32DIRECT b k) (IORD_32DIRECT b k) 31 x s = (y, t)"
  shows "gives b k v t" "sint v + y = max 0 (min 31 (sint v + x))" "v + word_of_int y \<le> 31"
proof -
  obtain s1 where s1: "IORD_32DIRECT b k s = (v, s1)" "gives b k v s1" by (rule givesE [OF assms(1,2)])
  obtain s2 where s2: "IORD_32DIRECT b k s1 = (v, s2)" "gives b k v s2" by (rule givesE [OF s1(2) assms(2)])
  obtain s3 where s3: "IORD_32DIRECT b k s2 = (v, s3)" "gives b k v s3" by (rule givesE [OF s2(2) assms(2)])
  note clip = assms(4) [unfolded clip_shift_def s1 s2 s3 Let_def prod.case]
  show "gives b k v t" using clip s2 s3 by (auto split: if_splits)
  have "unat (31 - v) = 31 - unat v" using assms(3) by (simp add: unat_sub word_le_nat_alt)
  then have "31 - v \<le> 31" "int (unat (31 - v)) = 31 - sint v"
    using assms(3) sint_delay(1) [OF assms(3)] by (simp_all add: word_le_nat_alt)
  then have "sint (31 - v) = 31 - sint v" using sint_delay(1) by metis
  then show y: "sint v + y = max 0 (min 31 (sint v + x))"
    using clip sint_delay(2,3) [OF assms(3)] by (auto split: if_splits)
  show "v + word_of_int y \<le> 31" unfolding shifted y by (rule word_of_delay) simp_all
qed

lemma fits_clipped:
  assumes "fits s" "delay_reg (b + k)"
    and "\<And>v y u. v + word_of_int y \<le> 31 \<Longrightarrow> fits u \<Longrightarrow> fits (snd (f v y u))"
  shows "fits (snd (let (y, t) = clip_shift (IORD_32DIRECT b k) (IORD_32DIRECT b k) 31 x s;
    (v, u) = IORD_32DIRECT b k t in f v y u))"
proof -
  define v where "v = fst (IORD_32DIRECT b k s)"
  have v: "gives b k v s" "v \<le> 31" using assms(1) fits_read [OF assms(1,2)] by (simp_all add: gives_def v_def)
  obtain y t where y: "clip_shift (IORD_32DIRECT b k) (IORD_32DIRECT b k) 31 x s = (y, t)" by fastforce
  note t = fits_clip_shift [OF v(1) assms(2) v(2) y]
  obtain u where "IORD_32DIRECT b k t = (v, u)" "gives b k v u" by (rule givesE [OF t(1) assms(2)])
  then show ?thesis using assms(3) [OF t(3)] y by (simp add: gives_def)
qed

text \<open>The pins of a group are numbered from 0: the pin whose delay is read is the one that is set.\<close>

lemma fits_center_read_pin:
  "i < RW_MGR_MEM_DQ_PER_READ_DQS \<Longrightarrow> fits (snd ms) \<Longrightarrow> fits (snd (center_read_pin w 0 e k x y i ms))"
proof -
  assume i: "i < RW_MGR_MEM_DQ_PER_READ_DQS" and ms: "fits (snd ms)"
  have reg: "delay_reg (SCC_MGR_IO_IN_DELAY + push_bit 2 (of_nat i))"
    using i by (intro group_regs of_nat_group) (simp add: seq_params)
  obtain a b s where m: "ms = ((a, b), s)" by (metis prod.collapse)
  have max: "int IO_IO_IN_DELAY_MAX = 31" by (simp add: seq_params)
  show ?thesis
    unfolding center_read_pin_def m READ_SCC_DQ_IN_DELAY_def max add_0_left
      Let_def [of "((a, b), s)"] Let_def [of "of_nat i :: u32"] prod.case
    using ms m reg
    by (intro fits_clipped) (auto simp: Let_def intro!: fits_commands)
qed

text \<open>A device that gives back what was written, and 0 before, is one of these.\<close>

lemma memory_device_delays: "delay_device memory_device"
proof -
  have "memory_device tr a \<le> 31" if "delay_reg a" "within_chains tr" for tr a
    using that
  proof (induction tr rule: rev_induct)
    case (snoc x tr)
    then show ?case by (cases x) (auto simp: memory_device_def)
  qed (simp add: memory_device_def)
  then show ?thesis by (auto simp: delay_device_def memory_device_def)
qed

text \<open>C20: Centering sets a pin to its old delay plus its shift, cut off at the two ends of the chain; the
  margins are lowered to what this delay leaves of the pin's window on either side, where that is less.
\<close>

theorem read_pin_centered:
  assumes "fits s" "i < RW_MGR_MEM_DQ_PER_READ_DQS"
  shows "let v = sint (fst (READ_SCC_DQ_IN_DELAY (of_nat i) s));
      d = max 0 (min 31 (v + pin_shift e i k (x - y)));
      (m, t) = center_read_pin w 0 e k x y i ((dq, dqs), s)
    in last_write (SCC_MGR_IO_IN_DELAY + push_bit 2 (of_nat i)) (accesses t) = Some (word_of_int d) \<and>
       m = (min dq (fst e ! i - (d - v) - y), min dqs (snd e ! i + (d - v) + y))"
proof -
  let ?k = "push_bit 2 (of_nat i) :: u32"
  have reg: "delay_reg (SCC_MGR_IO_IN_DELAY + ?k)"
    using assms(2) by (intro group_regs of_nat_group) (simp add: seq_params)
  define v where "v = fst (IORD_32DIRECT SCC_MGR_IO_IN_DELAY ?k s)"
  have v: "gives SCC_MGR_IO_IN_DELAY ?k v s" "v \<le> 31"
    using assms(1) fits_read [OF assms(1) reg] by (simp_all add: gives_def v_def)
  obtain z t where z: "clip_shift (IORD_32DIRECT SCC_MGR_IO_IN_DELAY ?k) (IORD_32DIRECT SCC_MGR_IO_IN_DELAY ?k)
      31 (pin_shift e i k (x - y)) s = (z, t)" by fastforce
  note t = fits_clip_shift [OF v(1) reg v(2) z]
  obtain u where u: "IORD_32DIRECT SCC_MGR_IO_IN_DELAY ?k t = (v, u)" by (rule givesE [OF t(1) reg])
  have d: "v + word_of_int z = word_of_int (max 0 (min 31 (sint v + pin_shift e i k (x - y))))"
    by (simp only: shifted t(2))
  have ne: "SCC_MGR_DQ_ENA \<noteq> SCC_MGR_IO_IN_DELAY + ?k" using reg plain_regs(4) by metis
  have max: "int IO_IO_IN_DELAY_MAX = 31" by (simp add: seq_params)
  show ?thesis
    unfolding center_read_pin_def READ_SCC_DQ_IN_DELAY_def max add_0_left v_def [symmetric] Let_def prod.case z u
    using t(2) ne d
    by (simp add: scc_mgr_set_dq_in_delay_def WRITE_SCC_DQ_IN_DELAY_def scc_mgr_load_dq_def IOWR_emits
        last_write_append last_write_Cons min_def)
qed

text \<open>A pin three taps into a group whose narrowest window is that of its first pin.\<close>

theorem read_pin_centered_witness:
  "let (m, t) = center_read_pin 0 0 ([9, 9, 9, 20, 9, 9, 9, 9], [1, 1, 1, 2, 1, 1, 1, 1]) 0 4 4 3
     ((32, 32), blank memory_device)
   in last_write (SCC_MGR_IO_IN_DELAY + 12) (accesses t) = Some 5 \<and> m = (11, 11)"
proof -
  have fits: "fits (blank memory_device)"
    by (simp add: fits_def blank_def memory_device_delays)
  have v: "fst (READ_SCC_DQ_IN_DELAY 3 (blank memory_device)) = 0"
    by (simp add: READ_SCC_DQ_IN_DELAY_def IORD_32DIRECT_def Let_def blank_def memory_device_def)
  show ?thesis
    using read_pin_centered [OF fits, of 3 "([9, 9, 9, 20, 9, 9, 9, 9], [1, 1, 1, 2, 1, 1, 1, 1])" 0 4 4 0 32 32] v
    by (simp add: RW_MGR_MEM_DQ_PER_READ_DQS_def pin_shift_def signed_divide_int_def Let_def split: prod.splits)
qed

lemma fits_center_write_pin:
  "i < RW_MGR_MEM_DQ_PER_WRITE_DQS \<Longrightarrow> fits (snd ms) \<Longrightarrow> fits (snd (center_write_pin w e k x y i ms))"
proof -
  assume i: "i < RW_MGR_MEM_DQ_PER_WRITE_DQS" and ms: "fits (snd ms)"
  have reg: "delay_reg (SCC_MGR_IO_OUT1_DELAY + push_bit 2 (of_nat i))"
    using i by (intro group_regs of_nat_group) (simp add: seq_params)
  obtain a b s where m: "ms = ((a, b), s)" by (metis prod.collapse)
  have max: "int IO_IO_OUT1_DELAY_MAX = 31" by (simp add: seq_params)
  show ?thesis
    unfolding center_write_pin_def m READ_SCC_DQ_OUT1_DELAY_def max
      Let_def [of "((a, b), s)"] prod.case
    using ms m reg
    by (intro fits_clipped) (auto simp: Let_def intro!: fits_commands)
qed

lemma fits_pins:
  assumes "\<And>i p. i < n \<Longrightarrow> fits (snd p) \<Longrightarrow> fits (snd (f i p))"
  shows "fits (snd p) \<Longrightarrow> fits (snd (fold f [0..<n] p))"
  by (rule fitting_snd_fold) (auto intro: assms)

section \<open>Reads\<close>

lemma fits_center_test [fits_rules]:
  "w < 64 \<Longrightarrow> r < 64 \<Longrightarrow> fits s \<Longrightarrow> fits (snd (center_test n w r u s))"
  unfolding center_test_def by (intro fits_rules; assumption)

lemma fits_left_edges:
  assumes "\<And>s. fits s \<Longrightarrow> fits (snd (test s))"
  shows "fits s \<Longrightarrow> \<forall>d\<in>set ds. d \<le> 31 \<Longrightarrow> fits (snd (search_left_edges test w b ds k e s))"
proof (induction ds arbitrary: k e s)
  case (Cons d ds)
  then show ?case unfolding search_left_edges.simps
    by (intro fits_rules Cons.IH assms; (assumption | simp))
qed simp

lemma fits_shift_dqs_in:
  "d + x \<le> 31 \<Longrightarrow> fits s \<Longrightarrow> fits (shift_dqs_in r x y d s)"
  unfolding shift_dqs_in_def Let_def IO_SHIFT_DQS_EN_WHEN_SHIFT_DQS_def
  by (intro fits_rules keeps_rules; (assumption | simp))

text \<open>The strobe's delays go up to what its own delay leaves of the chain.\<close>

lemma strobe_delay:
  "x \<le> 31 \<Longrightarrow> \<forall>d\<in>set [0..<unat (of_nat IO_DQS_IN_DELAY_MAX - x :: u32) + 1]. of_nat d + x \<le> 31"
proof (rule ballI)
  fix d assume x: "x \<le> 31" and d: "d \<in> set [0..<unat (of_nat IO_DQS_IN_DELAY_MAX - x :: u32) + 1]"
  have "unat (31 - x) = 31 - unat x" using x by (simp add: unat_sub)
  then have "d + unat x \<le> 31" using x d by (auto simp: IO_DQS_IN_DELAY_MAX_def word_le_nat_alt)
  then have "(of_nat (d + unat x) :: u32) \<le> 31" by (rule of_nat_delay)
  then show "of_nat d + x \<le> 31" by simp
qed

lemma fits_right_edges:
  assumes "\<And>s. fits s \<Longrightarrow> fits (snd (test s))"
  shows "fits s \<Longrightarrow> \<forall>d\<in>set ds. of_nat d + x \<le> 31 \<Longrightarrow> fits (snd (search_right_edges test r x y ds k e s))"
proof (induction ds arbitrary: k e s)
  case (Cons d ds)
  then show ?case unfolding search_right_edges.simps
    by (intro fits_rules fits_shift_dqs_in Cons.IH assms; (assumption | simp))
qed simp

lemma new_read_strobe_fits:
  "new_read_strobe x y m = (d, m') \<Longrightarrow> (word_of_int d :: u32) \<le> 31"
  by (rule word_of_delay)
    (auto simp: new_read_strobe_def IO_DQS_IN_DELAY_MAX_def IO_SHIFT_DQS_EN_WHEN_SHIFT_DQS_def Let_def)

text \<open>What is read from a delay register, and what the strobe's new delay is, fits.\<close>

lemma fits_read_let:
  "fits s \<Longrightarrow> delay_reg (b + k) \<Longrightarrow> (\<And>v u. v \<le> 31 \<Longrightarrow> fits u \<Longrightarrow> fits (snd (f v u))) \<Longrightarrow>
   fits (snd (let (v, u) = IORD_32DIRECT b k s in f v u))"
  using fits_read [of s b k] fits_IORD [of s b k] by (cases "IORD_32DIRECT b k s") simp

lemma fits_strobe_let:
  "(\<And>d m. (word_of_int d :: u32) \<le> 31 \<Longrightarrow> fits (snd (f d m))) \<Longrightarrow>
   fits (snd (let (d, m) = new_read_strobe x y k in f d m))"
  using new_read_strobe_fits [of x y k] by (cases "new_read_strobe x y k") simp

lemma fits_READ_SCC_DQS_EN_DELAY [fits_rules]: "fits s \<Longrightarrow> fits (snd (READ_SCC_DQS_EN_DELAY g s))"
  unfolding READ_SCC_DQS_EN_DELAY_def by (intro fits_rules; assumption)

lemma fits_upd_gbl: "fits s \<Longrightarrow> fits (upd_gbl f s)"
  by simp

lemma fits_set_failing: "fits s \<Longrightarrow> fits (set_failing_group_stage g x y s)"
  by simp

lemma left_delays: "\<forall>d\<in>set [0..<IO_IO_IN_DELAY_MAX + 1]. d \<le> 31" "\<forall>d\<in>set [0..<IO_IO_OUT1_DELAY_MAX + 1]. d \<le> 31"
  by (simp_all add: seq_params)

lemma fits_vfifo_center:
  assumes "w < 64" "r < 64"
  shows "fits s \<Longrightarrow> fits (snd (rw_mgr_mem_calibrate_vfifo_center n w r 0 u k s))"
  unfolding rw_mgr_mem_calibrate_vfifo_center_def READ_SCC_DQS_IN_DELAY_def
  using assms
  by (intro fits_read_let fits_strobe_let fits_left_edges fits_right_edges strobe_delay fits_pins
      fits_center_read_pin fits_rules fits_upd_gbl fits_set_failing left_delays;
      (assumption | simp add: IO_SHIFT_DQS_EN_WHEN_SHIFT_DQS_def))

section \<open>Writes\<close>

lemma fits_write_test_one [fits_rules]: "w < 64 \<Longrightarrow> fits s \<Longrightarrow> fits (snd (write_test_one n w s))"
  unfolding write_test_one_def by (intro fits_rules; assumption)

lemma fits_write_test_all [fits_rules]: "w < 64 \<Longrightarrow> fits s \<Longrightarrow> fits (snd (write_test_all n w s))"
  unfolding write_test_all_def by (intro fits_rules; assumption)

lemma fits_write_left_edges:
  "w < 64 \<Longrightarrow> fits s \<Longrightarrow> \<forall>d\<in>set ds. d \<le> 31 \<Longrightarrow> fits (snd (write_left_edges n w b ds k e s))"
proof (induction ds arbitrary: k e s)
  case (Cons d ds)
  then show ?case unfolding write_left_edges.simps
    by (intro fits_rules Cons.IH; (assumption | simp))
qed simp

lemma fits_write_right_edges:
  "w < 64 \<Longrightarrow> fits s \<Longrightarrow> \<forall>d\<in>set ds. word_of_int d + x \<le> 31 \<Longrightarrow>
   fits (snd (write_right_edges n w x ds k e s))"
proof (induction ds arbitrary: k e s)
  case (Cons d ds)
  then show ?case unfolding write_right_edges.simps QDRII_def
    by (intro fits_rules Cons.IH; (assumption | simp))
qed simp

lemma fits_mask_window_left:
  "w < 64 \<Longrightarrow> fits s \<Longrightarrow> \<forall>d\<in>set ds. 0 \<le> d \<and> d \<le> 31 \<Longrightarrow> fits (snd (mask_window_left n w ds x s))"
proof (induction ds arbitrary: x s)
  case (Cons d ds)
  then show ?case unfolding mask_window_left.simps
    by (intro fits_rules Cons.IH word_of_delay; (assumption | simp))
qed simp

lemma fits_let_window:
  "(\<And>x. fits (snd (g (x :: window)))) \<Longrightarrow> fits (snd (let x = b in g x))"
  by simp

lemma fits_mask_window_right:
  "w < 64 \<Longrightarrow> fits s \<Longrightarrow> \<forall>d\<in>set ds. 0 \<le> d + k \<and> d + k \<le> 31 \<Longrightarrow>
   fits (snd (mask_window_right n w k ds x s))"
proof (induction ds arbitrary: x s)
  case (Cons d ds)
  then show ?case unfolding mask_window_right.simps
    by (intro fits_let_window fits_rules Cons.IH word_of_delay; (assumption | simp))
qed simp

text \<open>The window's edges lie on the line of positions, so its middle is at most 31 taps.\<close>

definition on_line :: "window \<Rightarrow> bool" where
  "on_line w \<longleftrightarrow> - 31 \<le> bgn_curr w \<and> - 31 \<le> bgn_best w \<and> - 31 \<le> end_best w"

lemma on_line_steps:
  "on_line no_window" "on_line w \<Longrightarrow> - 31 \<le> x \<Longrightarrow> on_line (window_pass x w)" "on_line w \<Longrightarrow> on_line (window_fail w)"
  by (auto simp: on_line_def no_window_def window_pass_def window_fail_def write_none_def Let_def)

lemma on_line_left:
  "on_line x \<Longrightarrow> \<forall>d\<in>set ds. d \<le> 31 \<Longrightarrow> on_line (fst (mask_window_left n w ds x s))"
  by (induction ds arbitrary: x s) (auto simp: Let_def on_line_steps split: prod.splits)

lemma on_line_right:
  "on_line x \<Longrightarrow> \<forall>d\<in>set ds. 0 \<le> d \<Longrightarrow> on_line (fst (mask_window_right n w k ds x s))"
  by (induction ds arbitrary: x s) (auto simp: Let_def on_line_steps split: prod.splits)

lemma half_fits: "(a :: int) \<le> 62 \<Longrightarrow> a sdiv 2 \<le> 31"
  using pos_imp_zdiv_nonneg_iff [of 2 "- a"] by (auto simp: signed_divide_int_def sgn_if)

lemma mid_fits:
  "on_line w \<Longrightarrow>
   (word_of_int (if (-1 * bgn_best w - end_best w) sdiv 2 < 0 then 0
      else (-1 * bgn_best w - end_best w) sdiv 2) :: u32) \<le> 31"
  by (rule word_of_delay) (auto simp: on_line_def intro!: half_fits)

lemma fits_center_mask:
  assumes "w < 64" "fits s" "0 \<le> k" "k \<le> 31"
  shows "fits (snd (center_mask n w k s))"
proof -
  have max: "int IO_IO_OUT1_DELAY_MAX = 31" by (simp add: seq_params)
  obtain x s1 where l: "mask_window_left n w (rev [0..31]) no_window s = (x, s1)" by fastforce
  have x: "on_line x" "fits s1"
    using on_line_left [OF on_line_steps(1), of "rev [0..31]" n w s]
      fits_mask_window_left [OF assms(1,2), of "rev [0..31]" n no_window] by (simp_all add: l)
  define s2 where "s2 = scc_mgr_apply_group_dm_out1_delay w 0 s1"
  define x' where "x' = (if end_curr x \<noteq> 0 then window_fail x else x)"
  have s2: "fits s2" unfolding s2_def using x(2) by (intro fits_rules) simp_all
  have x': "on_line x'" using x(1) by (simp add: x'_def on_line_steps)
  obtain y s3 where r: "mask_window_right n w k [0..31 - k] x' s2 = (y, s3)" by fastforce
  have y: "on_line y" "fits s3"
    using on_line_right [OF x', of "[0..31 - k]" n w k s2] assms(3)
      fits_mask_window_right [OF assms(1) s2, of "[0..31 - k]" k n x'] by (simp_all add: r)
  show ?thesis
    using y(2) mid_fits [OF y(1)] word_of_delay [OF assms(3,4)]
    unfolding center_mask_def max l Let_def prod.case s2_def [symmetric] x'_def [symmetric] r snd_conv
    by (intro fits_rules; simp)
qed

lemma start_delays:
  "(x :: u32) \<le> 31 \<Longrightarrow> \<forall>d\<in>set [0..int IO_IO_OUT1_DELAY_MAX - sint x]. word_of_int d + x \<le> 31"
proof (rule ballI)
  fix d assume x: "x \<le> 31" and d: "d \<in> set [0..int IO_IO_OUT1_DELAY_MAX - sint x]"
  then have "(word_of_int (d + sint x) :: u32) \<le> 31"
    using sint_delay [OF x] by (intro word_of_delay) (auto simp: seq_params)
  then show "word_of_int d + x \<le> 31" by simp
qed

lemma strobe_reg: "delay_reg (SCC_MGR_IO_OUT1_DELAY + push_bit 2 (of_nat RW_MGR_MEM_DQ_PER_WRITE_DQS))"
  by (intro group_regs of_nat_group) (simp add: seq_params)

text \<open>The mask pin is centered with the strobe at the delay it started with.\<close>

lemma fits_writes_center:
  assumes "w < 64"
  shows "fits s \<Longrightarrow> fits (snd (rw_mgr_mem_calibrate_writes_center n w b s))"
  unfolding rw_mgr_mem_calibrate_writes_center_def READ_SCC_DQS_IO_OUT1_DELAY_def QDRII_def
    Let_def [of "sint x" for x :: u32]
  using assms
  by (intro fits_read_let strobe_reg fits_write_left_edges fits_write_right_edges start_delays fits_pins
      fits_center_write_pin fits_center_mask sint_delay(2,3) fits_rules fits_upd_gbl fits_set_failing
      left_delays; (assumption | simp))

lemma fits_writes [fits_rules]:
  "w < 64 \<Longrightarrow> fits s \<Longrightarrow> fits (snd (rw_mgr_mem_calibrate_writes n w b s))"
  unfolding rw_mgr_mem_calibrate_writes_def
  by (intro fits_writes_center fits_rules fits_set_failing; assumption)

section \<open>A group\<close>

lemma keeps_set_dqs_in: "d \<le> 31 \<Longrightarrow> keeps (set_dqs_in r d n)"
  unfolding set_dqs_in_def by (intro keeps_rules; simp)

lemma fits_center_shadow_regs:
  "w < 64 \<Longrightarrow> r < 64 \<Longrightarrow> x \<le> 31 \<Longrightarrow> fits s \<Longrightarrow> fits (snd (center_shadow_regs w r 0 x rs ok s))"
proof (induction rs arbitrary: ok s)
  case (Cons rsr rs)
  show ?case unfolding center_shadow_regs.simps
    by (intro fits_vfifo_center keeps_set_dqs_in [THEN keepsD] fits_rules Cons.IH; (rule Cons.prems | assumption))
qed simp

lemma fits_dqs_in_for_each:
  "t \<le> 31 \<Longrightarrow> fits s \<Longrightarrow> fits (for_each xs (\<lambda>rsr s. if skip_shadow_reg (snd rsr) s then s
     else set_dqs_in r (of_nat t) (fst rsr) s) s)"
  by (rule keepsD [OF keeps_for_each], rule keepsI)
    (auto intro!: keepsD [OF keeps_set_dqs_in] of_nat_delay)

lemma fits_vfifo_dqs_in:
  "w < 64 \<Longrightarrow> r < 64 \<Longrightarrow> x \<le> 31 \<Longrightarrow> \<forall>t\<in>set ts. t \<le> 31 \<Longrightarrow> fits s \<Longrightarrow>
   fits (snd (vfifo_dqs_in w r 0 x ts k s))"
proof (induction ts arbitrary: k s)
  case (Cons t ts)
  then show ?case unfolding vfifo_dqs_in.simps
    by (intro fits_center_shadow_regs fits_dqs_in_for_each fits_rules Cons.IH; (assumption | simp))
qed simp

lemma fits_guaranteed_read [fits_rules]: "r < 64 \<Longrightarrow> fits s \<Longrightarrow> fits (snd (guaranteed_read r s))"
  unfolding guaranteed_read_def by (intro fits_rules; assumption)

lemma fits_vfifo_phases [fits_rules]:
  "w < 64 \<Longrightarrow> r < 64 \<Longrightarrow> fits s \<Longrightarrow> fits (snd (vfifo_phases w r 0 d ps k s))"
proof (induction ps arbitrary: k s)
  case (Cons p ps)
  then show ?case unfolding vfifo_phases.simps READ_SCC_DQS_IN_DELAY_def
    by (intro fits_read_let fits_vfifo_dqs_in fits_rules Cons.IH; (assumption | simp add: seq_params))
qed simp

lemma fits_vfifo_dtaps:
  "w < 64 \<Longrightarrow> r < 64 \<Longrightarrow> \<forall>d\<in>set ds. d \<le> 31 \<Longrightarrow> fits s \<Longrightarrow> fits (snd (vfifo_dtaps w r 0 b ds k s))"
proof (induction ds arbitrary: k s)
  case (Cons d ds)
  then show ?case unfolding vfifo_dtaps.simps
    by (intro fits_rules Cons.IH; (assumption | simp))
qed simp

lemma vfifo_taps:
  "\<forall>d\<in>set (filter even [0..<unat (if QDRII = 0 then dtaps_of_ptap IO_DELAY_PER_DQS_EN_DCHAIN_TAP else 0) + 1]).
     d \<le> 31"
  by (simp add: seq_params dtaps_of_ptap_fits)

lemma with_ddr: "(if DDRX \<noteq> 0 then x else y) = x"
  by (simp add: DDRX_def)

lemma fits_calibrate_vfifo:
  "r < 64 \<Longrightarrow> fits s \<Longrightarrow> fits (snd (rw_mgr_mem_calibrate_vfifo r 0 s))"
  unfolding rw_mgr_mem_calibrate_vfifo_def with_ddr Let_def [of r] Let_def [of "0 :: u32"]
    Let_def [of "if QDRII = 0 then x else y" for x y :: u32]
  by (intro fits_vfifo_dtaps vfifo_taps fits_rules fits_set_failing; assumption)

lemma fits_vfifo_end_shadow_regs:
  "w < 64 \<Longrightarrow> r < 64 \<Longrightarrow> fits s \<Longrightarrow> fits (snd (vfifo_end_shadow_regs w r 0 rs ok s))"
proof (induction rs arbitrary: ok s)
  case (Cons rsr rs)
  show ?case unfolding vfifo_end_shadow_regs.simps
    by (intro fits_vfifo_center fits_rules Cons.IH; (rule Cons.prems | assumption))
qed simp

lemma fits_calibrate_vfifo_end:
  "r < 64 \<Longrightarrow> fits s \<Longrightarrow> fits (snd (rw_mgr_mem_calibrate_vfifo_end r 0 s))"
  unfolding rw_mgr_mem_calibrate_vfifo_end_def with_ddr Let_def [of r]
  by (intro fits_vfifo_end_shadow_regs fits_rules fits_set_failing; assumption)

lemma fits_writes_shadow_regs:
  "w < 64 \<Longrightarrow> fits s \<Longrightarrow> fits (snd (writes_shadow_regs w b rs ok s))"
proof (induction rs arbitrary: ok s)
  case (Cons rsr rs)
  show ?case unfolding writes_shadow_regs.simps
    by (intro fits_rules Cons.IH; (rule Cons.prems | assumption))
qed simp

lemma fits_and_then:
  "(\<And>s. fits s \<Longrightarrow> fits (snd (f s))) \<Longrightarrow> (\<And>s. fits s \<Longrightarrow> fits (snd (h s))) \<Longrightarrow> fits s \<Longrightarrow>
   fits (snd (and_then f h s))"
  unfolding and_then_def by (intro fits_rules) auto

text \<open>A write group has one read group, itself, and its pins begin at 0.\<close>

lemma fits_one_group:
  "(\<And>s. fits s \<Longrightarrow> fits (snd (f r b s))) \<Longrightarrow> fits s \<Longrightarrow> fits (snd (for_read_groups f [r] b s))"
  unfolding for_read_groups.simps by (intro fits_rules) auto

lemma without_leveling: "((DDRX \<noteq> 0 \<or> RLDRAMII \<noteq> 0) \<and> \<not> (ARRIAV \<noteq> 0 \<or> CYCLONEV \<noteq> 0) \<and> P) = False"
  by (simp add: seq_params)

lemma fits_calibrate_write_group:
  assumes "g < 4" "fits s"
  shows "fits (snd (calibrate_write_group (of_nat g) b s))"
proof -
  have g: "(of_nat g :: u32) < 64" using assms(1) by (intro of_nat_group) simp
  define t where "t = scc_mgr_zero_group (of_nat g) b 0 (IOWR_32DIRECT SCC_MGR_GROUP_COUNTER 0 (of_nat g) s)"
  have t: "fits t" unfolding t_def using assms(2) by (intro fits_rules) simp
  show ?thesis
    unfolding calibrate_write_group_def without_leveling if_False read_groups_eq [OF assms(1)] Let_def
      t_def [symmetric]
    by (intro fits_and_then fits_one_group fits_calibrate_vfifo fits_calibrate_vfifo_end
        fits_writes_shadow_regs fits_rules; (rule g t | assumption))
qed

section \<open>The calibration\<close>

lemma fits_calibrate_groups:
  "\<forall>g\<in>set gs. g < 4 \<Longrightarrow> fits s \<Longrightarrow> fits (snd (calibrate_groups gs k n s))"
proof (induction gs arbitrary: k n s)
  case (Cons g gs)
  then show ?case unfolding calibrate_groups.simps
    by (intro fits_calibrate_write_group fits_rules Cons.IH; (assumption | simp))
qed simp

lemma fits_lfifo_loop: "fits s \<Longrightarrow> fits (snd (lfifo_loop f s))"
proof (induction f s rule: lfifo_loop.induct)
  case (1 f s)
  define t1 where "t1 = IOWR_32DIRECT PHY_MGR_PHY_RLAT 0 (curr_read_lat (gbl s)) s"
  define r where "r = rw_mgr_mem_calibrate_read_test_all_ranks 0 NUM_READ_TESTS True True t1"
  define t3 where "t3 = upd_gbl (\<lambda>g. g\<lparr>curr_read_lat := curr_read_lat g - 1\<rparr>) (snd r)"
  have "fits t1" unfolding t1_def using 1(2) by (intro fits_rules) simp
  then have r2: "fits (snd r)" unfolding r_def by (intro fits_rules) simp
  then have t3: "fits t3" by (simp add: t3_def)
  have IH: "fst (fst r) \<Longrightarrow> 0 < curr_read_lat (gbl t3) \<Longrightarrow> fits (snd (lfifo_loop True t3))"
    using 1(1) [of t1 r "fst r" "snd r" t3] t3 by (simp add: t1_def r_def t3_def)
  show ?case
    by (subst lfifo_loop.simps)
      (simp add: Let_def t1_def [symmetric] r_def [symmetric] t3_def [symmetric] IH r2 t3 split_beta)
qed

lemma fits_lfifo: "fits s \<Longrightarrow> fits (snd (rw_mgr_mem_calibrate_lfifo s))"
  unfolding rw_mgr_mem_calibrate_lfifo_def
  by (intro fits_lfifo_loop fits_rules fits_set_failing fits_upd_gbl; (assumption | simp))

lemma fits_calibrate_once: "fits s \<Longrightarrow> fits (snd (calibrate_once n s))"
  unfolding calibrate_once_def
  by (intro fits_calibrate_groups fits_lfifo fits_rules; (assumption | simp add: seq_params))

lemma fits_calibrate_repeat: "fits s \<Longrightarrow> fits (snd (calibrate_repeat m n s))"
proof (induction m arbitrary: n s)
  case (Suc m)
  show ?case unfolding calibrate_repeat.simps
    by (intro fits_calibrate_once fits_rules Suc.IH; (rule Suc.prems | assumption))
qed simp

lemma fits_mem_config: "fits s \<Longrightarrow> fits (mem_config s)"
  unfolding mem_config_def by (intro fits_rules fits_upd_gbl; (assumption | simp))

lemma keeps_upd_gbl: "keeps (upd_gbl f)"
  by (rule keepsI) simp

lemma keeps_skip: "keeps mem_skip_calibrate"
  unfolding mem_skip_calibrate_def
  by (intro keeps_rules keeps_upd_gbl; (simp add: seq_params of_nat_group |
      (rule keepsI, simp add: keepsD keeps_rules)))

lemma fits_mem_calibrate: "fits s \<Longrightarrow> fits (snd (mem_calibrate s))"
  unfolding mem_calibrate_def
  by (intro fits_calibrate_repeat fits_mem_config keeps_skip [THEN keepsD] fits_rules keeps_rules fits_upd_gbl;
      (assumption | simp))

lemma fits_report: "fits s \<Longrightarrow> fits (report_pass s)" "fits s \<Longrightarrow> fits (report_fail s)"
  unfolding report_pass_def report_fail_def
  by (intro fits_rules keeps_rules fits_upd_gbl; simp)+

lemma fits_run: "fits s \<Longrightarrow> fits (snd (run_mem_calibrate s))"
  unfolding run_mem_calibrate_def
  by (intro fits_mem_calibrate fits_report fits_rules; (assumption | simp))

text \<open>The offsets of the PHY's control registers are the handoff's, within the controller's 4 KB.\<close>

definition phyctrl_in_mmr :: "phyctrl \<Rightarrow> bool" where
  "phyctrl_in_mmr m \<longleftrightarrow>
     PHYCTRL_0_OFFSET m < 0x1000 \<and> PHYCTRL_1_OFFSET m < 0x1000 \<and> PHYCTRL_2_OFFSET m < 0x1000"

lemma mmr_regs: "k < 0x1000 \<Longrightarrow> \<not> delay_reg (BASE_MMR + k)"
proof -
  assume "k < 0x1000"
  then have k: "unat k < 0x1000" by (simp add: word_less_nat_alt)
  then have a: "unat (BASE_MMR + k) = 0xc0000 + unat k" by (simp add: unat_word_ariths seq_regs)
  have "0xc00 \<le> unat (BASE_MMR + k) div 0x100" using a by simp
  moreover have "BASE_MMR + k \<noteq> REG_FILE_DTAPS_PER_PTAP"
    using a by (auto simp: REG_FILE_DTAPS_PER_PTAP_def BASE_REG_FILE_def SEQUENCER_REG_FILE_INST_BASE_def)
  ultimately show ?thesis by (auto simp: delay_reg_def)
qed

lemma keeps_hps_phy: "phyctrl_in_mmr m \<Longrightarrow> keeps (initialize_hps_phy m)"
  unfolding initialize_hps_phy_def Let_def phyctrl_in_mmr_def
  by (intro keeps_rules mmr_regs; simp)

lemma fits_settings:
  "fits s \<Longrightarrow> fits (s\<lparr>dyn_calib_steps := x\<rparr>)" "fits s \<Longrightarrow> fits (s\<lparr>skip_delay_mask := y\<rparr>)"
  by (simp_all add: fits_def)

lemma fits_upd_param: "fits s \<Longrightarrow> fits (upd_param f s)"
  by simp

text \<open>C4: No delay that the calibration writes, to an input chain, an output chain, a strobe's chain, its
  enable's or its termination's, is larger than the chain's last tap, on every path and however the
  tests come out: as long as the registers give delays that fit when those written do, and are not
  changed by reading them.
\<close>

theorem delays_within_chains:
  assumes "delay_device (hw s)" "within_chains (accesses s)" "phyctrl_in_mmr m"
  shows "within_chains (accesses (snd (sdram_calibration m s)))"
proof -
  have s: "fits s" using assms(1,2) by (simp add: fits_def)
  have "fits (snd (sdram_calibration m s))"
    unfolding sdram_calibration_def
    by (intro fits_run keeps_hps_phy [THEN keepsD] fits_rules fits_upd_gbl fits_upd_param fits_settings;
        (rule assms(3) s | assumption))
  then show ?thesis by (simp add: fits_def)
qed

theorem delays_within_chains_witness:
  "within_chains (accesses (snd (sdram_calibration plain_phyctrl (blank memory_device))))"
  by (rule delays_within_chains)
    (simp_all add: blank_def memory_device_delays phyctrl_in_mmr_def plain_phyctrl_def)

end
