(* ===== verification/Spec2Isabelle.thy ===== *)
theory Spec2Isabelle
  imports HuffmanClaims HuffmanOptimal PQueue ServerProofs ServerLiveness Startup HandlersProofs HandlersMemoryProofs DeadMemory
    LatencyProofs DelayProofs RomProofs StageProofs PhaseProofs WindowProofs SccProofs
    ChainProofs
begin

section \<open>The development\<close>

text \<open>
  The compression server of this repository: the programs of \<open>src/linux_program\<close> that run on the
  processor of the board, and the program that calibrates its memory interface before them,
  \<open>src/hw/quartus/hps_isw_handoff/soc_system_hps_0/sequencer.c\<close>.

  \<^bold>\<open>The server.\<close> \<open>main.c\<close> starts ten worker threads and a thread for the LEDs, opens the socket,
  maps the FPGA's registers, and puts every connection it accepts into the queue of \<open>conn_queue.c\<close>.
  A worker takes a connection out of the queue and calls \<open>handler\<close> of \<open>handlers.c\<close>, which parses
  the request and answers with a page or with a compressed file; the compression runs on the
  processor (\<open>compress\<close>) or in the encoder of the FPGA (\<open>hw_compress\<close>), which \<open>hardware.c\<close> drives
  through the macros of \<open>socal.h\<close>. The codes are those of \<open>huffman.h\<close>, which \<open>compress.c\<close> and
  \<open>decompress.c\<close>, two programs for the command line, use as well.

  \<^item> \<open>Prelude\<close>: outcomes of C operations, arrays, strings, machine integers.
  \<^item> \<open>HuffmanHeap\<close>, \<open>HuffmanTree\<close> (\<open>huffman.h\<close>): the heap of trees in its array, the construction of
    the tree, the codes, the string form of a tree. \<open>HuffmanText\<close>: the alphabet, frequencies, bytes.
    \<open>HuffmanHeapProofs\<close>, \<open>HuffmanTreeProofs\<close>: the heap is a priority queue (a locale for what the
    construction of the tree needs of one), the codes of the leaves are free of prefixes.
  \<^item> \<open>Compress\<close> (\<open>compress.c\<close>, \<open>decompress.c\<close>): both programs. \<open>CompressProofs\<close>, \<open>DecompressProofs\<close>: what
    the first writes, that the second reads it back. \<open>HuffmanClaims\<close>: the properties of all of these.
  \<^item> \<open>HuffmanOptimal\<close>: the codes are optimal. The merges of the loop that builds the tree, always of the
    two least weights (relation \<open>greedy\<close> of \<open>HuffmanTreeProofs\<close>), are a lower bound for the cost of any
    lengths that keep Kraft's inequality; a prefix-free code keeps it, and the tree costs the bound.
    So the file that \<open>compress\<close> writes exceeds no packed prefix-free code by more than 179 bytes.
  \<^item> \<open>ConnQueue\<close> (\<open>conn_queue.c\<close>): the linked list on an explicit heap, shown to be a queue (locale
    \<open>fifo_queue\<close>). \<open>PQueue\<close> (\<open>pqueue.h\<close>): the sorted list, which no program uses.
  \<^item> \<open>Server\<close> (\<open>main.c\<close>): the accepting thread and the workers, one statement per step, interleaved in
    any order. \<open>ServerProofs\<close>: the invariant of all schedules, and the race of the unlocked \<open>enqueue\<close>.
    \<open>ServerLiveness\<close>: under a fair schedule in which \<open>enqueue\<close> and \<open>dequeue\<close> do not overlap, every
    connection is served. \<open>Startup\<close>: \<open>main\<close> as a whole, its accept loop interleaved with the steps of the
    workers, with every system call's result an argument; the LED thread.
  \<^item> \<open>Socal\<close> (\<open>socal.h\<close>), \<open>Hardware\<close> (\<open>hardware.c\<close>, \<open>hps_soc_system.h\<close>): register accesses on a byte
    addressed memory, the layout handed to the encoder. \<open>HardwareProofs\<close>.
  \<^item> \<open>Encoder\<close> (\<open>src/hw/hdl\<close>: \<open>encoder.vhd\<close>, \<open>tree_handler.vhd\<close>, \<open>text_handler.vhd\<close>, \<open>letter_indexer.vhd\<close>,
    \<open>code_reader.vhd\<close>, \<open>code_writer.vhd\<close>): the encoder of the FPGA, one step per bus transaction or register
    update, and as the processor sees it between two reads of its status. \<open>EncoderProofs\<close>: on that layout
    its run ends, and the bytes it leaves.
  \<^item> \<open>Http\<close>, \<open>Handlers\<close> (\<open>handlers.c\<close>): requests, responses, pages, downloads, \<open>handler\<close>.
    \<open>HttpProofs\<close>, \<open>HandlersProofs\<close>: every branch of them, errors included, and that both compressors
    give the same download, but for a zero byte that the encoder adds when the bits fill the last byte.
  \<^item> \<open>HandlersMemory\<close>: the functions of \<open>handlers.c\<close> once more, on the C heap: requests, responses and lists
    of headers as blocks with pointers, every allocation and release. \<open>HeapStructures\<close>,
    \<open>HandlersMemoryProofs\<close>: they implement those of \<open>Http\<close> and \<open>Handlers\<close> without a use after free or
    a double free, and how much memory an answer leaves behind. The blocks that the compressors
    allocate besides their result are an argument, since they release none.
  \<^bold>\<open>The sequencer.\<close> \<open>sdram_calibration\<close> loads the programs of the read/write manager, initialises the
  memory, and calibrates each group in stages: guaranteed read, DQS enable and read centering, write
  centering, read centering again, and the read latency over all groups (write leveling is modelled, but
  this device skips it). What it learns it learns by
  reading hardware registers. The model keeps the history of all accesses in the state, and a read is
  answered by \<open>hw\<close>, an arbitrary function of the history: a theorem holds for every
  memory, and a theorem about a particular kind of memory says so by a hypothesis on \<open>hw\<close>.

  \<^item> \<open>SeqConfig\<close> (\<open>sequencer_defines.h\<close>, \<open>system.h\<close>, \<open>sequencer_auto.h\<close>, \<open>sequencer.h\<close>): the macros.
  \<^item> \<open>SeqIO\<close> (\<open>sdram_io.h\<close>, the structures of \<open>sequencer.h\<close>): the state, the accesses, the frame rules.
  \<^item> \<open>SccManager\<close>, \<open>RwManager\<close>, \<open>SeqRom\<close>, \<open>SeqSetup\<close>: the scan chain manager, the read/write manager,
    its memories (\<open>sequencer_auto_inst_init.c\<close>, \<open>sequencer_auto_ac_init.c\<close>), the stage registers.
  \<^item> \<open>SeqTests\<close>, \<open>SeqLatency\<close>: the read and write tests and the read latency. \<open>VfifoPhase\<close>: the search
    for the DQS enable. \<open>Centering\<close>, \<open>WritesCenter\<close>, \<open>Wlevel\<close>: read centering, write centering, write
    leveling. \<open>Calibrate\<close>: the stages of a group and the whole run.
  \<^item> \<open>SearchFrames\<close>, \<open>CalibrateFrames\<close>: what no part of the calibration changes. The locale
    \<open>calibration_relation\<close> states what a relation between two states needs so that every operation
    keeps it; its interpretations are the growing history, the settings, and the first error.
  \<^item> \<open>CalibrateProofs\<close>, \<open>CalibrateReport\<close>, \<open>DeadMemory\<close>: errors are recorded and the first is kept, the
    report tells the outcome, a memory that never answers is found and reported.
  \<^item> \<open>TestProofs\<close>, \<open>LatencyProofs\<close>, \<open>PhaseProofs\<close>, \<open>WindowProofs\<close>: what a read test does and says, access by
    access, and what the searches find. \<open>DelayProofs\<close>, \<open>RomProofs\<close>, \<open>SccProofs\<close>, \<open>StageProofs\<close>: the loop counters of the delays, the
    memories' contents, the reset of a group, the bit fields of the stage register.
  \<^item> \<open>ChainRules\<close>, \<open>ChainSearch\<close>, \<open>ChainProofs\<close>: every delay that a calibration writes fits its chain of
    32 taps, by one rule per command, test and search (the rules for the constructs of the model are
    those of the locale \<open>later\<close>), and the delay that centering gives a pin.

  \<^bold>\<open>Conventions.\<close> An operation of the server has type \<open>'a c\<close>: \<open>Inr\<close> is its result, \<open>Inl\<close> says why the
  C program has none. Memory that a C object does not own but that the source reads, such as what lies
  behind a buffer without terminator, is an argument (\<open>slack\<close>, \<open>heap_slack\<close>), so that a theorem
  says which of it matters. \<open>int\<close> is \<open>int\<close> with its overflow checked where the source adds,
  unsigned integers are words. Loops are structural recursions or functions with a measure, so
  that each is total. A loop that need not end is a partial function: the length of a
  string in the SDRAM and the wait for the encoder (\<open>Diverges\<close> when they do not), and the scans of the
  encoder; that they end on what the program writes is proved. The server's threads are steps without an
  end. The loops of the sequencer run over the lists of values that the C variable
  takes; those that may start in the middle of a delay chain take their start from a register.
  The model has no fuel but the counters of the source itself: repetitions (\<open>calibrate_repeat\<close>, \<open>NUM_CALIB_REPEAT\<close> times), positions of the valid FIFO, taps of a delay chain.

  \<^bold>\<open>Parameters.\<close> The file system, the results of the system calls, what the encoder does between
  two reads of its status (for the encoder of the repository the theorem about the download puts in the
  definitions of \<open>Encoder\<close>), addresses from \<open>malloc\<close>, the bases of the processor bus (\<open>sdram.h\<close> and the generated
  header that defines them are not in the repository), the setters of the controller's registers.

  \<^bold>\<open>Not modelled.\<close> The rest of the FPGA (the top level, the generated system), and the encoder's
  clock cycles and wait states. \<open>tclrpt.c\<close>: \<open>ENABLE_TCL_DEBUG\<close> is 0, the
  preprocessor removes the file and every call to it, and \<open>DPRINT\<close>, \<open>BFM_GBL_SET\<close> and \<open>TRACE_FUNC\<close> expand to
  nothing. The copies of the sequencer in \<open>src/hw/quartus/db\<close>. The functions of \<open>sequencer.c\<close> for memories
  and options that the configuration switches off (QDR II, RLDRAM, shadow registers, LRDIMM).
  Messages that the programs print for the operator. Exhaustion of memory.
\<close>

end
